(* ===== verification/Prelude.thy ===== *)
theory Prelude
  imports Main "HOL-Library.Word" "HOL-Library.List_Lexorder" "HOL-Library.Char_ord"
    "HOL-Library.Product_Lexorder"
begin

text \<open>
  Shared vocabulary of the development: the reason codes and the value-or-error type of
  \<^verbatim>\<open>include/jitter/error.hpp\<close>, the fixed-width integers, \<^verbatim>\<open>std::map\<close> as a sorted
  association list behind the \<open>std_map\<close> interface, the de-duplicated reason lists that several
  components build, and the fact collections the component proofs draw on.

  Signed 64-bit values are \<open>int\<close> constrained by \<open>i64_ok\<close>; every operation of the source that
  could leave the range is written with its check or with an explicit undefined outcome.
  Unsigned values that are stored, encoded or may wrap are words of their width.
\<close>

named_theorems result_simps \<open>evaluation of the value-or-error plumbing\<close>
named_theorems codec_simps \<open>round-trip equations of the byte codecs\<close>

unbundle bit_operations_syntax

type_synonym u8 = "8 word"
type_synonym u16 = "16 word"
type_synonym u32 = "32 word"
type_synonym u64 = "64 word"
type_synonym i64 = int

definition i64_max :: int where
  "i64_max = 9223372036854775807"

definition i64_min :: int where
  "i64_min = - 9223372036854775807 - 1"

definition i64_ok :: "int \<Rightarrow> bool" where
  "i64_ok x \<longleftrightarrow> i64_min \<le> x \<and> x \<le> i64_max"

lemmas i64_bounds = i64_ok_def i64_min_def i64_max_def

section \<open>Reason codes and results\<close>

datatype error_code =
    Ec_Ok
  | Ec_InvalidArgument
  | Ec_OutOfRange
  | Ec_Overflow
  | Ec_NotFound
  | Ec_Duplicate
  | Ec_Conflict
  | Ec_StaleEpoch
  | Ec_StaleIncarnation
  | Ec_StaleSequence
  | Ec_StaleGeneration
  | Ec_StaleEvidence
  | Ec_Incomparable
  | Ec_MetricMismatch
  | Ec_UnitMismatch
  | Ec_Unsupported
  | Ec_PolicyViolation
  | Ec_CapacityExceeded
  | Ec_LimitExceeded
  | Ec_IntegrityFailure
  | Ec_VersionUnsupported
  | Ec_Corrupt
  | Ec_Cancelled
  | Ec_ShuttingDown
  | Ec_Backpressure
  | Ec_ProtocolViolation
  | Ec_IoFailure
  | Ec_NoEvidence
  | Ec_InsufficientEvidence
  | Ec_NotReady
  | Ec_Internal

fun error_code_text :: "error_code \<Rightarrow> string" where
  "error_code_text Ec_Ok = ''ok''"
| "error_code_text Ec_InvalidArgument = ''invalid_argument''"
| "error_code_text Ec_OutOfRange = ''out_of_range''"
| "error_code_text Ec_Overflow = ''overflow''"
| "error_code_text Ec_NotFound = ''not_found''"
| "error_code_text Ec_Duplicate = ''duplicate''"
| "error_code_text Ec_Conflict = ''conflict''"
| "error_code_text Ec_StaleEpoch = ''stale_epoch''"
| "error_code_text Ec_StaleIncarnation = ''stale_incarnation''"
| "error_code_text Ec_StaleSequence = ''stale_sequence''"
| "error_code_text Ec_StaleGeneration = ''stale_generation''"
| "error_code_text Ec_StaleEvidence = ''stale_evidence''"
| "error_code_text Ec_Incomparable = ''incomparable''"
| "error_code_text Ec_MetricMismatch = ''metric_mismatch''"
| "error_code_text Ec_UnitMismatch = ''unit_mismatch''"
| "error_code_text Ec_Unsupported = ''unsupported''"
| "error_code_text Ec_PolicyViolation = ''policy_violation''"
| "error_code_text Ec_CapacityExceeded = ''capacity_exceeded''"
| "error_code_text Ec_LimitExceeded = ''limit_exceeded''"
| "error_code_text Ec_IntegrityFailure = ''integrity_failure''"
| "error_code_text Ec_VersionUnsupported = ''version_unsupported''"
| "error_code_text Ec_Corrupt = ''corrupt''"
| "error_code_text Ec_Cancelled = ''cancelled''"
| "error_code_text Ec_ShuttingDown = ''shutting_down''"
| "error_code_text Ec_Backpressure = ''backpressure''"
| "error_code_text Ec_ProtocolViolation = ''protocol_violation''"
| "error_code_text Ec_IoFailure = ''io_failure''"
| "error_code_text Ec_NoEvidence = ''no_evidence''"
| "error_code_text Ec_InsufficientEvidence = ''insufficient_evidence''"
| "error_code_text Ec_NotReady = ''not_ready''"
| "error_code_text Ec_Internal = ''internal''"

fun is_staleness_code :: "error_code \<Rightarrow> bool" where
  "is_staleness_code Ec_StaleEpoch = True"
| "is_staleness_code Ec_StaleIncarnation = True"
| "is_staleness_code Ec_StaleSequence = True"
| "is_staleness_code Ec_StaleGeneration = True"
| "is_staleness_code Ec_StaleEvidence = True"
| "is_staleness_code _ = False"

text \<open>
  An error carries its code and the fixed message of the return statement that produced it, so
  that two early returns with the same code stay distinguishable. The third field of the
  source, the context string with formatted values, is left out: nothing under src/ reads it
  back except \<^verbatim>\<open>Error::to_text\<close>, which only renders it.
\<close>

datatype error = Error (err_code: error_code) (err_message: string)

type_synonym 'a result = "error + 'a"
type_synonym status = "error + unit"

abbreviation fail :: "error_code \<Rightarrow> string \<Rightarrow> 'a result" where
  "fail c m \<equiv> Inl (Error c m)"

abbreviation success :: status where
  "success \<equiv> Inr ()"

definition is_ok :: "'a result \<Rightarrow> bool" where
  "is_ok r \<longleftrightarrow> (case r of Inl _ \<Rightarrow> False | Inr _ \<Rightarrow> True)"

definition result_code :: "'a result \<Rightarrow> error_code" where
  "result_code r = (case r of Inl e \<Rightarrow> err_code e | Inr _ \<Rightarrow> Ec_Ok)"

text \<open>\<^verbatim>\<open>JITTER_TRY\<close> and its variants: an error returns at once, a value goes on.\<close>

definition res_bind :: "'a result \<Rightarrow> ('a \<Rightarrow> 'b result) \<Rightarrow> 'b result" where
  "res_bind r f = (case r of Inl e \<Rightarrow> Inl e | Inr x \<Rightarrow> f x)"

lemma res_bind_simps [simp, result_simps]:
  "res_bind (Inl e) f = Inl e"
  "res_bind (Inr x) f = f x"
  by (simp_all add: res_bind_def)

lemma is_ok_simps [simp]: "is_ok (Inr x)" "\<not> is_ok (Inl e)"
  by (simp_all add: is_ok_def)

lemma is_ok_iff: "is_ok r \<longleftrightarrow> (\<exists>x. r = Inr x)"
  by (cases r) auto

lemma result_code_simps [simp]:
  "result_code (Inl e) = err_code e" "result_code (Inr x) = Ec_Ok"
  by (simp_all add: result_code_def)

lemma res_bind_eq_Inr: "res_bind r f = Inr y \<longleftrightarrow> (\<exists>x. r = Inr x \<and> f x = Inr y)"
  by (cases r) auto

lemma res_bind_InrE:
  assumes "res_bind r f = Inr y"
  obtains x where "r = Inr x" and "f x = Inr y"
  using assms by (auto simp: res_bind_eq_Inr)

lemma res_bind_assoc: "res_bind (res_bind r f) g = res_bind r (\<lambda>x. res_bind (f x) g)"
  by (cases r) auto

lemma res_bind_cong [fundef_cong]:
  "r = r' \<Longrightarrow> (\<And>x. r' = Inr x \<Longrightarrow> f x = f' x) \<Longrightarrow> res_bind r f = res_bind r' f'"
  by (cases r') auto

text \<open>The first failing check of a loop over a list decides the status.\<close>

fun check_each :: "('a \<Rightarrow> status) \<Rightarrow> 'a list \<Rightarrow> status" where
  "check_each f [] = success"
| "check_each f (x # xs) = res_bind (f x) (\<lambda>_. check_each f xs)"

lemma check_each_ok: "check_each f xs = success \<longleftrightarrow> (\<forall>x \<in> set xs. f x = success)"
  by (induction xs) (auto simp: res_bind_eq_Inr)

lemma check_each_append:
  "check_each f (xs @ ys) = res_bind (check_each f xs) (\<lambda>_. check_each f ys)"
  by (induction xs) (auto simp: res_bind_assoc)

section \<open>Reason lists\<close>

definition add_reason :: "string list \<Rightarrow> string \<Rightarrow> string list" where
  "add_reason reasons reason =
     (if reason = '''' then reasons
      else if reason \<in> set reasons then reasons
      else reasons @ [reason])"

definition add_reasons :: "string list \<Rightarrow> string list \<Rightarrow> string list" where
  "add_reasons reasons rs = fold (\<lambda>r acc. add_reason acc r) rs reasons"

definition finalize_reasons :: "string list \<Rightarrow> string list" where
  "finalize_reasons reasons = remdups_adj (sort reasons)"

lemma set_add_reason [simp]:
  "set (add_reason reasons r) = (if r = '''' then set reasons else insert r (set reasons))"
  by (auto simp: add_reason_def)

lemma distinct_add_reason [simp]: "distinct (add_reason reasons r) \<longleftrightarrow> distinct reasons"
  by (auto simp: add_reason_def)

lemma distinct_add_reasons [simp]: "distinct (add_reasons reasons rs) \<longleftrightarrow> distinct reasons"
  unfolding add_reasons_def by (induction rs arbitrary: reasons) auto

lemma set_add_reasons [simp]:
  "set (add_reasons reasons rs) = set reasons \<union> (set rs - {''''})"
  unfolding add_reasons_def by (induction rs arbitrary: reasons) auto

lemma set_finalize_reasons [simp]: "set (finalize_reasons reasons) = set reasons"
  by (simp add: finalize_reasons_def)

lemma distinct_remdups_adj_sorted:
  "sorted (xs :: 'a :: linorder list) \<Longrightarrow> distinct (remdups_adj xs)"
proof (induction xs rule: remdups_adj.induct)
  case (3 x y xs)
  show ?case
  proof (cases "x = y")
    case True
    with 3 show ?thesis by simp
  next
    case False
    with "3.prems" have "x \<notin> set (y # xs)" by auto
    with False 3 show ?thesis by simp
  qed
qed simp_all

lemma sorted_finalize_reasons: "sorted (finalize_reasons reasons)"
  by (simp add: finalize_reasons_def)

lemma distinct_finalize_reasons: "distinct (finalize_reasons reasons)"
  by (simp add: finalize_reasons_def distinct_remdups_adj_sorted)

lemma finalize_reasons_idem [simp]:
  "finalize_reasons (finalize_reasons reasons) = finalize_reasons reasons"
  using sorted_finalize_reasons [of reasons] distinct_finalize_reasons [of reasons]
  by (simp add: finalize_reasons_def [of "finalize_reasons reasons"] sorted_sort_id
      remdups_adj_distinct)

section \<open>Decimal rendering\<close>

text \<open>\<^verbatim>\<open>std::to_string\<close> of an unsigned value.\<close>

fun digits_of :: "nat \<Rightarrow> nat list" where
  "digits_of n = (if n < 10 then [n] else digits_of (n div 10) @ [n mod 10])"

declare digits_of.simps [simp del]

definition digit_char :: "nat \<Rightarrow> char" where
  "digit_char d = char_of (48 + d)"

definition nat_text :: "nat \<Rightarrow> string" where
  "nat_text n = map digit_char (digits_of n)"

lemma digits_of_ne [simp]: "digits_of n \<noteq> []"
  by (subst digits_of.simps) simp

lemma nat_text_ne [simp]: "nat_text n \<noteq> []"
  by (simp add: nat_text_def)

section \<open>std::map\<close>

text \<open>
  The source keeps its catalogs in \<^verbatim>\<open>std::map\<close>, whose iteration order is the key order and is
  observable (saving, reports, first match over all entries). The interface below is what the
  components use of it; the provider is an association list kept sorted by key.
\<close>

locale std_map =
  fixes find :: "'k :: linorder \<Rightarrow> 'm \<Rightarrow> 'v option"
    and put :: "'k \<Rightarrow> 'v \<Rightarrow> 'm \<Rightarrow> 'm"
    and erase :: "'k \<Rightarrow> 'm \<Rightarrow> 'm"
    and entries :: "'m \<Rightarrow> ('k \<times> 'v) list"
    and invar :: "'m \<Rightarrow> bool"
  assumes find_put: "invar m \<Longrightarrow> find k' (put k v m) = (if k' = k then Some v else find k' m)"
    and find_erase: "invar m \<Longrightarrow> find k' (erase k m) = (if k' = k then None else find k' m)"
    and find_entries: "invar m \<Longrightarrow> find k m = map_of (entries m) k"
    and sorted_entries: "invar m \<Longrightarrow> sorted_wrt (<) (map fst (entries m))"
    and invar_put: "invar m \<Longrightarrow> invar (put k v m)"
    and invar_erase: "invar m \<Longrightarrow> invar (erase k m)"
begin

lemma entries_distinct: "invar m \<Longrightarrow> distinct (map fst (entries m))"
  using sorted_entries strict_sorted_iff by blast

lemma mem_entries: "invar m \<Longrightarrow> (k, v) \<in> set (entries m) \<longleftrightarrow> find k m = Some v"
  by (simp add: find_entries entries_distinct)

lemma find_put_same: "invar m \<Longrightarrow> find k (put k v m) = Some v"
  by (simp add: find_put)

lemma find_put_other: "invar m \<Longrightarrow> k' \<noteq> k \<Longrightarrow> find k' (put k v m) = find k' m"
  by (simp add: find_put)

lemma entries_ext:
  assumes m: "invar m" and n: "invar n" and eq: "\<And>k. find k m = find k n"
  shows "entries m = entries n"
proof -
  have sets: "set (entries m) = set (entries n)"
  proof (rule set_eqI)
    fix e
    show "e \<in> set (entries m) \<longleftrightarrow> e \<in> set (entries n)"
      by (cases e) (simp add: mem_entries m n eq)
  qed
  moreover have "inj_on fst (set (entries m) \<union> set (entries n))"
    using entries_distinct [OF m] sets by (simp add: distinct_map)
  ultimately show ?thesis
    using sorted_entries [OF m] sorted_entries [OF n]
    by (intro map_sorted_distinct_set_unique [where f = fst]) (auto simp: strict_sorted_iff)
qed

lemma entries_put_mem:
  "invar m \<Longrightarrow> (k', w) \<in> set (entries (put k v m)) \<longleftrightarrow>
     (if k' = k then w = v else (k', w) \<in> set (entries m))"
  by (auto simp: mem_entries invar_put find_put)

end

text \<open>The provider: \<^verbatim>\<open>find\<close>, \<^verbatim>\<open>operator[]\<close> with assignment, \<^verbatim>\<open>emplace\<close> and \<^verbatim>\<open>erase\<close>.\<close>

type_synonym ('k, 'v) omap = "('k \<times> 'v) list"

fun om_put :: "'k :: linorder \<Rightarrow> 'v \<Rightarrow> ('k, 'v) omap \<Rightarrow> ('k, 'v) omap" where
  "om_put k v [] = [(k, v)]"
| "om_put k v ((k', v') # m) =
     (if k < k' then (k, v) # (k', v') # m
      else if k = k' then (k, v) # m
      else (k', v') # om_put k v m)"

fun om_find :: "'k :: linorder \<Rightarrow> ('k, 'v) omap \<Rightarrow> 'v option" where
  "om_find k [] = None"
| "om_find k ((k', v) # m) = (if k' = k then Some v else om_find k m)"

definition om_erase :: "'k :: linorder \<Rightarrow> ('k, 'v) omap \<Rightarrow> ('k, 'v) omap" where
  "om_erase k m = filter (\<lambda>e. fst e \<noteq> k) m"

definition om_entries :: "('k, 'v) omap \<Rightarrow> ('k \<times> 'v) list" where
  "om_entries m = m"

definition om_invar :: "('k :: linorder, 'v) omap \<Rightarrow> bool" where
  "om_invar m \<longleftrightarrow> sorted_wrt (<) (map fst m)"

definition om_emplace :: "'k :: linorder \<Rightarrow> 'v \<Rightarrow> ('k, 'v) omap \<Rightarrow> ('k, 'v) omap" where
  "om_emplace k v m = (if om_find k m = None then om_put k v m else m)"

text \<open>\<^verbatim>\<open>m[k]\<close> in an rvalue position creates the default first.\<close>

definition om_get :: "'v \<Rightarrow> 'k :: linorder \<Rightarrow> ('k, 'v) omap \<Rightarrow> 'v" where
  "om_get d k m = (case om_find k m of None \<Rightarrow> d | Some v \<Rightarrow> v)"

lemma om_find_map_of: "om_find k m = map_of m k"
  by (induction m) auto

lemma om_find_put [simp]: "om_find k' (om_put k v m) = (if k' = k then Some v else om_find k' m)"
  by (induction m) auto

lemma om_find_erase [simp]: "om_find k' (om_erase k m) = (if k' = k then None else om_find k' m)"
  by (induction m) (auto simp: om_erase_def)

lemma set_om_put_keys: "fst ` set (om_put k v m) = insert k (fst ` set m)"
proof (induction m)
  case (Cons e m)
  then show ?case by (cases e) (simp add: insert_commute)
qed simp

lemma om_invar_put [simp]: "om_invar m \<Longrightarrow> om_invar (om_put k v m)"
proof (induction m)
  case Nil
  then show ?case by (simp add: om_invar_def)
next
  case (Cons e m)
  obtain k' v' where e: "e = (k', v')" by (cases e)
  have "\<forall>x \<in> fst ` set (om_put k v m). k' < x" if "k' < k"
    using Cons.prems that unfolding set_om_put_keys by (auto simp: om_invar_def e)
  with Cons show ?case
    by (auto simp: om_invar_def e not_less_iff_gr_or_eq)
qed

lemma om_invar_erase [simp]: "om_invar m \<Longrightarrow> om_invar (om_erase k m)"
  unfolding om_invar_def om_erase_def
  by (induction m) auto

lemma om_invar_Nil [simp]: "om_invar []"
  by (simp add: om_invar_def)

lemma om_invar_emplace [simp]: "om_invar m \<Longrightarrow> om_invar (om_emplace k v m)"
  by (simp add: om_emplace_def)

lemma om_find_emplace [simp]:
  "om_find k' (om_emplace k v m) =
     (if k' = k \<and> om_find k m = None then Some v else om_find k' m)"
  by (simp add: om_emplace_def)

lemma om_get_put [simp]: "om_get d k' (om_put k v m) = (if k' = k then v else om_get d k' m)"
  by (simp add: om_get_def)

interpretation om: std_map om_find om_put om_erase om_entries om_invar
  by unfold_locales (auto simp: om_entries_def om_find_map_of om_invar_def [symmetric]
      simp flip: om_find_map_of)

end
