(* ===== verification/Checked.thy ===== *)
theory Checked
  imports Prelude "HOL-Library.Signed_Division"
begin

text \<open>
  Checked arithmetic and the bounds of the runtime: \<^verbatim>\<open>include/jitter/checked.hpp\<close>,
  \<^verbatim>\<open>src/checked.cpp\<close> and \<^verbatim>\<open>include/jitter/limits.hpp\<close>. The out-parameter convention
  (\<^verbatim>\<open>bool f(a, b, out)\<close>) becomes an option.
\<close>

section \<open>Limits\<close>

definition kMaxSamplesPerBatch :: nat where "kMaxSamplesPerBatch = 4096"
definition kMaxMetadataEntries :: nat where "kMaxMetadataEntries = 32"
definition kMaxMetadataKeyBytes :: nat where "kMaxMetadataKeyBytes = 96"
definition kMaxMetadataValueBytes :: nat where "kMaxMetadataValueBytes = 512"
definition kMaxTotalMetadataBytes :: nat where "kMaxTotalMetadataBytes = 8 * 1024"
definition kMaxSources :: nat where "kMaxSources = 256"
definition kMaxClockDomains :: nat where "kMaxClockDomains = 128"
definition kMaxSeries :: nat where "kMaxSeries = 4096"
definition kMaxPaths :: nat where "kMaxPaths = 1024"
definition kMaxHopsPerPath :: nat where "kMaxHopsPerPath = 64"
definition kMaxGenerationHistoryPerPath :: nat where "kMaxGenerationHistoryPerPath = 256"
definition kMaxWindowSamples :: nat where "kMaxWindowSamples = 65536"
definition kMaxWindowDurationNs :: int where "kMaxWindowDurationNs = 3600 * 1000000000"
definition kMaxWatchedMetrics :: nat where "kMaxWatchedMetrics = 32"
definition kMaxEpisodesPerSeries :: nat where "kMaxEpisodesPerSeries = 4096"
definition kMaxConflictsRetained :: nat where "kMaxConflictsRetained = 4096"
definition kMaxExplanationLines :: nat where "kMaxExplanationLines = 1024"
definition kMaxWireFrameBytes :: nat where "kMaxWireFrameBytes = 4 * 1024 * 1024"
definition kMaxLatencyNs :: int where "kMaxLatencyNs = 3600 * 1000000000"
definition kMinLatencyNs :: int where "kMinLatencyNs = - 3600 * 1000000000"

lemmas limit_defs =
  kMaxSamplesPerBatch_def kMaxMetadataEntries_def kMaxMetadataKeyBytes_def
  kMaxMetadataValueBytes_def kMaxTotalMetadataBytes_def kMaxSources_def kMaxClockDomains_def
  kMaxSeries_def kMaxPaths_def kMaxHopsPerPath_def kMaxGenerationHistoryPerPath_def
  kMaxWindowSamples_def kMaxWindowDurationNs_def kMaxWatchedMetrics_def
  kMaxEpisodesPerSeries_def kMaxConflictsRetained_def kMaxExplanationLines_def
  kMaxWireFrameBytes_def kMaxLatencyNs_def kMinLatencyNs_def

section \<open>Checked operations\<close>

definition u64_max :: u64 where
  "u64_max = 0xFFFFFFFFFFFFFFFF"

definition checked_add_u64 :: "u64 \<Rightarrow> u64 \<Rightarrow> u64 option" where
  "checked_add_u64 a b = (if a > u64_max - b then None else Some (a + b))"

definition checked_mul_u64 :: "u64 \<Rightarrow> u64 \<Rightarrow> u64 option" where
  "checked_mul_u64 a b = (if a \<noteq> 0 \<and> b > u64_max div a then None else Some (a * b))"

definition checked_add_i64 :: "i64 \<Rightarrow> i64 \<Rightarrow> i64 option" where
  "checked_add_i64 a b =
     (if b > 0 \<and> a > i64_max - b then None
      else if b < 0 \<and> a < i64_min - b then None
      else Some (a + b))"

definition checked_sub_i64 :: "i64 \<Rightarrow> i64 \<Rightarrow> i64 option" where
  "checked_sub_i64 a b =
     (if b > 0 \<and> a < i64_min + b then None
      else if b < 0 \<and> a > i64_max + b then None
      else Some (a - b))"

text \<open>
  The product is formed before it is checked, so an overflowing signed multiplication is
  executed. It is read here as two's complement wrap-around, and the division truncates.
\<close>

definition wrap_i64 :: "int \<Rightarrow> i64" where
  "wrap_i64 x = (x + 2 ^ 63) mod 2 ^ 64 - 2 ^ 63"

definition checked_mul_i64 :: "i64 \<Rightarrow> i64 \<Rightarrow> i64 option" where
  "checked_mul_i64 a b =
     (if a = 0 \<or> b = 0 then Some 0
      else if a = -1 \<and> b = i64_min then None
      else if b = -1 \<and> a = i64_min then None
      else let product = wrap_i64 (a * b)
           in if product sdiv b \<noteq> a then None else Some product)"

text \<open>\<^verbatim>\<open>size_t\<close> has 64 bits, so its largest value is the largest \<^verbatim>\<open>uint64_t\<close>.\<close>

definition checked_to_size :: "u64 \<Rightarrow> nat option" where
  "checked_to_size v = (if v > u64_max then None else Some (unat v))"

definition checked_to_u32 :: "u64 \<Rightarrow> u32 option" where
  "checked_to_u32 v = (if v > 0xFFFFFFFF then None else Some (ucast v))"

definition add_u64 :: "u64 \<Rightarrow> u64 \<Rightarrow> string \<Rightarrow> u64 result" where
  "add_u64 a b context =
     (case checked_add_u64 a b of
        None \<Rightarrow> fail Ec_Overflow (context @ '': unsigned addition overflow'')
      | Some out \<Rightarrow> Inr out)"

definition mul_u64 :: "u64 \<Rightarrow> u64 \<Rightarrow> string \<Rightarrow> u64 result" where
  "mul_u64 a b context =
     (case checked_mul_u64 a b of
        None \<Rightarrow> fail Ec_Overflow (context @ '': unsigned multiplication overflow'')
      | Some out \<Rightarrow> Inr out)"

definition add_i64 :: "i64 \<Rightarrow> i64 \<Rightarrow> string \<Rightarrow> i64 result" where
  "add_i64 a b context =
     (case checked_add_i64 a b of
        None \<Rightarrow> fail Ec_Overflow (context @ '': signed addition overflow'')
      | Some out \<Rightarrow> Inr out)"

definition sub_i64 :: "i64 \<Rightarrow> i64 \<Rightarrow> string \<Rightarrow> i64 result" where
  "sub_i64 a b context =
     (case checked_sub_i64 a b of
        None \<Rightarrow> fail Ec_Overflow (context @ '': signed subtraction overflow'')
      | Some out \<Rightarrow> Inr out)"

definition to_size :: "u64 \<Rightarrow> string \<Rightarrow> nat result" where
  "to_size v context =
     (case checked_to_size v of
        None \<Rightarrow> fail Ec_OutOfRange (context @ '': value does not fit size_t'')
      | Some out \<Rightarrow> Inr out)"

definition require_within :: "u64 \<Rightarrow> u64 \<Rightarrow> string \<Rightarrow> status" where
  "require_within value bound what =
     (if value > bound then fail Ec_LimitExceeded (what @ '' is outside the supported bound'')
      else success)"

section \<open>Exactness\<close>

lemma checked_add_i64_eq:
  "i64_ok a \<Longrightarrow> i64_ok b \<Longrightarrow>
     checked_add_i64 a b = (if i64_ok (a + b) then Some (a + b) else None)"
  by (auto simp: checked_add_i64_def i64_bounds)

lemma checked_sub_i64_eq:
  "i64_ok a \<Longrightarrow> i64_ok b \<Longrightarrow>
     checked_sub_i64 a b = (if i64_ok (a - b) then Some (a - b) else None)"
  by (auto simp: checked_sub_i64_def i64_bounds)

lemma checked_sub_i64_Some: "checked_sub_i64 a b = Some c \<Longrightarrow> c = a - b"
  by (auto simp: checked_sub_i64_def split: if_splits)

lemma wrap_i64_id: "i64_ok x \<Longrightarrow> wrap_i64 x = x"
  by (simp add: wrap_i64_def i64_bounds)

lemma wrap_i64_ok: "i64_ok (wrap_i64 x)"
proof -
  have "0 \<le> (x + 2 ^ 63) mod 2 ^ 64" "(x + 2 ^ 63) mod 2 ^ 64 < (2 ^ 64 :: int)"
    by simp_all
  then show ?thesis by (simp add: wrap_i64_def i64_bounds)
qed

lemma wrap_i64_cong: "\<exists>k. wrap_i64 x = x - k * 2 ^ 64"
proof -
  have "(x + 2 ^ 63) mod 2 ^ 64 = x + 2 ^ 63 - (x + 2 ^ 63) div 2 ^ 64 * 2 ^ 64"
    by (simp add: minus_div_mult_eq_mod)
  then show ?thesis unfolding wrap_i64_def by (intro exI [of _ "(x + 2 ^ 63) div 2 ^ 64"]) simp
qed

lemma sdiv_exact: "(b :: int) \<noteq> 0 \<Longrightarrow> (a * b) sdiv b = a"
  by (simp add: signed_divide_int_def sgn_mult abs_mult)
     (simp add: algebra_simps abs_mult_sgn)

lemma abs_sgn_mult_le: "0 \<le> (r :: int) \<Longrightarrow> \<bar>sgn p * r\<bar> \<le> r"
  by (simp add: abs_mult abs_sgn_eq)

lemma sdiv_remainder: "(b :: int) \<noteq> 0 \<Longrightarrow> \<bar>p - (p sdiv b) * b\<bar> < \<bar>b\<bar>"
proof -
  assume b: "b \<noteq> 0"
  have "p - (p sdiv b) * b = sgn p * (\<bar>p\<bar> mod \<bar>b\<bar>)"
  proof -
    have "(p sdiv b) * b = sgn p * (\<bar>p\<bar> div \<bar>b\<bar> * \<bar>b\<bar>)"
      by (simp add: signed_divide_int_def algebra_simps sgn_mult)
         (simp add: abs_sgn mult.assoc [symmetric])
    moreover have "p = sgn p * \<bar>p\<bar>" by (simp add: sgn_mult_abs)
    ultimately show ?thesis
      by (metis minus_div_mult_eq_mod right_diff_distrib)
  qed
  moreover have "\<bar>sgn p * (\<bar>p\<bar> mod \<bar>b\<bar>)\<bar> \<le> \<bar>p\<bar> mod \<bar>b\<bar>"
    using b by (intro abs_sgn_mult_le) simp
  moreover have "\<bar>p\<bar> mod \<bar>b\<bar> < \<bar>b\<bar>" using b by simp
  ultimately show ?thesis by linarith
qed

lemma checked_mul_i64_eq:
  assumes a: "i64_ok a" and b: "i64_ok b"
  shows "checked_mul_i64 a b = (if i64_ok (a * b) then Some (a * b) else None)"
proof (cases "a = 0 \<or> b = 0 \<or> a = -1 \<and> b = i64_min \<or> b = -1 \<and> a = i64_min")
  case True
  then show ?thesis by (auto simp: checked_mul_i64_def i64_bounds)
next
  case False
  then have b0: "b \<noteq> 0" by simp
  show ?thesis
  proof (cases "i64_ok (a * b)")
    case True
    with False show ?thesis
      by (auto simp: checked_mul_i64_def Let_def wrap_i64_id sdiv_exact)
  next
    case over: False
    obtain k where k: "wrap_i64 (a * b) = a * b - k * 2 ^ 64"
      using wrap_i64_cong by blast
    have "k \<noteq> 0" using k over wrap_i64_ok [of "a * b"] by auto
    then have far: "18446744073709551616 \<le> \<bar>k * 2 ^ 64\<bar>" by (simp add: abs_mult)
    have "wrap_i64 (a * b) sdiv b \<noteq> a"
    proof
      assume "wrap_i64 (a * b) sdiv b = a"
      then have "\<bar>wrap_i64 (a * b) - a * b\<bar> < \<bar>b\<bar>"
        using sdiv_remainder [OF b0, of "wrap_i64 (a * b)"] by simp
      then have "\<bar>k * 2 ^ 64\<bar> < \<bar>b\<bar>" by (simp add: k)
      moreover have "\<bar>b\<bar> \<le> 9223372036854775808" using b by (simp add: i64_bounds abs_le_iff)
      ultimately show False using far by linarith
    qed
    with False over show ?thesis by (auto simp: checked_mul_i64_def Let_def)
  qed
qed

lemma unat_u64_bound: "unat (x :: u64) < 18446744073709551616"
  using unsigned_less [of x, where ?'a = nat] by simp

lemma checked_add_u64_eq:
  "checked_add_u64 a b = (if unat a + unat b < 2 ^ 64 then Some (a + b) else None)"
proof -
  have "unat (u64_max - b) = 18446744073709551615 - unat b"
    using unat_u64_bound [of b] by (simp add: u64_max_def unat_sub_if')
  then show ?thesis
    using unat_u64_bound [of a] unat_u64_bound [of b]
    by (auto simp: checked_add_u64_def word_less_nat_alt)
qed

lemma checked_mul_u64_eq:
  "checked_mul_u64 a b = (if unat a * unat b < 2 ^ 64 then Some (a * b) else None)"
proof (cases "a = 0")
  case True
  then show ?thesis by (simp add: checked_mul_u64_def)
next
  case False
  then have pos: "0 < unat a" by (simp add: unat_gt_0)
  have "b > u64_max div a \<longleftrightarrow> 18446744073709551615 div unat a < unat b"
    by (simp add: word_less_nat_alt unat_div u64_max_def)
  also have "\<dots> \<longleftrightarrow> 18446744073709551615 < unat b * unat a"
    using pos by (simp add: div_less_iff_less_mult)
  finally show ?thesis using False by (auto simp: checked_mul_u64_def mult.commute)
qed

end
