(* ===== verification/Bytes.thy ===== *)
theory Bytes
  imports Checked
begin

text \<open>
  Canonical byte encodings: \<^verbatim>\<open>include/jitter/bytes.hpp\<close> and \<^verbatim>\<open>src/bytes.cpp\<close>. A
  \<^verbatim>\<open>ByteWriter\<close> call appends to the buffer; its model is the list of bytes it appends, so a
  sequence of calls is a concatenation. A \<^verbatim>\<open>ByteReader\<close> is its unread suffix; a read returns
  the value and the suffix behind it, or an error. The interface \<open>codec\<close> states what a writer and
  a reader promise each other, and every record of the store and the wire interprets it.
\<close>

type_synonym bytes = "u8 list"
type_synonym 'a decoder = "bytes \<Rightarrow> ('a \<times> bytes) result"

section \<open>Big-endian words\<close>

text \<open>The shift loop of \<^verbatim>\<open>put_u64_bytes\<close> and the accumulation loop of the readers.\<close>

definition be_bytes :: "nat \<Rightarrow> 'a :: len word \<Rightarrow> bytes" where
  "be_bytes n v = map (\<lambda>i. ucast (drop_bit ((n - 1 - i) * 8) v)) [0..<n]"

definition be_value :: "bytes \<Rightarrow> 'a :: len word" where
  "be_value bs = foldl (\<lambda>v b. push_bit 8 v OR ucast b) 0 bs"

lemma length_be_bytes [simp]: "length (be_bytes n v) = n"
  by (simp add: be_bytes_def)

lemma be_value_snoc: "be_value (bs @ [b]) = push_bit 8 (be_value bs) OR ucast b"
  by (simp add: be_value_def)

lemma be_step:
  assumes "LENGTH('a) = 8 * n" and "i < n"
  shows "push_bit 8 (drop_bit (8 * (n - i)) (v :: 'a :: len word))
           OR ucast (ucast (drop_bit ((n - 1 - i) * 8) v) :: u8) = drop_bit (8 * (n - Suc i)) v"
proof (rule bit_word_eqI)
  fix j
  assume j: "j < LENGTH('a)"
  show "bit (push_bit 8 (drop_bit (8 * (n - i)) v)
           OR ucast (ucast (drop_bit ((n - 1 - i) * 8) v) :: u8)) j
        \<longleftrightarrow> bit (drop_bit (8 * (n - Suc i)) v) j"
  proof (cases "j < 8")
    case True
    have "(n - 1 - i) * 8 = 8 * (n - Suc i)" by simp
    with True j show ?thesis
      by (simp add: bit_simps mult.commute)
  next
    case False
    have "8 * (n - i) + (j - 8) = 8 * (n - Suc i) + j" using assms(2) False by simp
    with False j show ?thesis
      by (simp add: bit_simps)
  qed
qed

lemma be_value_prefix:
  assumes len: "LENGTH('a) = 8 * n"
  shows "k \<le> n \<Longrightarrow>
    be_value (map (\<lambda>i. ucast (drop_bit ((n - 1 - i) * 8) v)) [0..<k])
      = (drop_bit (8 * (n - k)) v :: 'a :: len word)"
proof (induction k)
  case 0
  show ?case
    by (rule bit_word_eqI) (simp add: be_value_def bit_simps len)
next
  case (Suc k)
  then have k: "k < n" by simp
  with Suc have IH: "be_value (map (\<lambda>i. ucast (drop_bit ((n - 1 - i) * 8) v)) [0..<k])
      = (drop_bit (8 * (n - k)) v :: 'a word)" by simp
  have "be_value (map (\<lambda>i. ucast (drop_bit ((n - 1 - i) * 8) v)) [0..<Suc k])
      = push_bit 8 (drop_bit (8 * (n - k)) v :: 'a word)
          OR ucast (ucast (drop_bit ((n - 1 - k) * 8) v) :: u8)"
    by (simp only: upt_Suc_append [OF le0] map_append list.map be_value_snoc IH)
  also have "\<dots> = drop_bit (8 * (n - Suc k)) v"
    by (rule be_step [OF len k])
  finally show ?case .
qed

lemma be_value_bytes:
  "LENGTH('a) = 8 * n \<Longrightarrow> be_value (be_bytes n v) = (v :: 'a :: len word)"
  using be_value_prefix [of n n v] by (simp add: be_bytes_def)

section \<open>Reader plumbing\<close>

definition dreturn :: "'a \<Rightarrow> 'a decoder" where
  "dreturn x bs = Inr (x, bs)"

definition dfail :: "error_code \<Rightarrow> string \<Rightarrow> 'a decoder" where
  "dfail c m bs = fail c m"

definition dthen :: "'a decoder \<Rightarrow> ('a \<Rightarrow> 'b decoder) \<Rightarrow> 'b decoder" where
  "dthen d f bs = res_bind (d bs) (\<lambda>(x, rest). f x rest)"

definition dlift :: "'a result \<Rightarrow> 'a decoder" where
  "dlift r bs = res_bind r (\<lambda>x. Inr (x, bs))"

text \<open>\<^verbatim>\<open>for (i = 0; i < count; ++i)\<close> around a read.\<close>

fun dec_times :: "nat \<Rightarrow> 'a decoder \<Rightarrow> 'a list decoder" where
  "dec_times 0 d = dreturn []"
| "dec_times (Suc n) d = dthen d (\<lambda>x. dthen (dec_times n d) (\<lambda>xs. dreturn (x # xs)))"

lemma dthen_Inr [codec_simps]: "d bs = Inr (x, rest) \<Longrightarrow> dthen d f bs = f x rest"
  by (simp add: dthen_def)

lemma dreturn_app [codec_simps]: "dreturn x bs = Inr (x, bs)"
  by (simp add: dreturn_def)

lemma dlift_app [codec_simps]: "dlift (Inr x) bs = Inr (x, bs)"
  by (simp add: dlift_def)

text \<open>
  A decoder is extensible when bytes behind the value it reads never change what it reads:
  \<^verbatim>\<open>need\<close> only ever asks for a lower bound.
\<close>

definition extensible :: "'a decoder \<Rightarrow> bool" where
  "extensible d \<longleftrightarrow> (\<forall>bs x r more. d bs = Inr (x, r) \<longrightarrow> d (bs @ more) = Inr (x, r @ more))"

named_theorems extensible_intros

lemma extensibleD: "extensible d \<Longrightarrow> d bs = Inr (x, r) \<Longrightarrow> d (bs @ more) = Inr (x, r @ more)"
  by (simp add: extensible_def)

lemma extensible_dreturn [extensible_intros]: "extensible (dreturn x)"
  by (simp add: extensible_def dreturn_def)

lemma extensible_dfail [extensible_intros]: "extensible (dfail c m)"
  by (simp add: extensible_def dfail_def)

lemma extensible_dlift [extensible_intros]: "extensible (dlift r)"
  by (auto simp: extensible_def dlift_def res_bind_eq_Inr)

lemma extensible_dthen [extensible_intros]:
  assumes "extensible d" and "\<And>x. extensible (f x)"
  shows "extensible (dthen d f)"
  unfolding extensible_def
proof (intro allI impI)
  fix bs y r more
  assume "dthen d f bs = Inr (y, r)"
  then obtain x s where "d bs = Inr (x, s)" and "f x s = Inr (y, r)"
    by (auto simp: dthen_def res_bind_eq_Inr)
  then have "d (bs @ more) = Inr (x, s @ more)" and "f x (s @ more) = Inr (y, r @ more)"
    using assms by (auto dest: extensibleD)
  then show "dthen d f (bs @ more) = Inr (y, r @ more)" by (simp add: codec_simps)
qed

lemma extensible_if [extensible_intros]:
  "extensible d \<Longrightarrow> extensible e \<Longrightarrow> extensible (if P then d else e)"
  by simp

lemma extensible_case_option [extensible_intros]:
  "extensible d \<Longrightarrow> (\<And>x. extensible (f x)) \<Longrightarrow> extensible (case v of None \<Rightarrow> d | Some x \<Rightarrow> f x)"
  by (simp split: option.split)

lemma extensible_case_prod [extensible_intros]:
  "(\<And>a b. extensible (f a b)) \<Longrightarrow> extensible (case p of (a, b) \<Rightarrow> f a b)"
  by (simp split: prod.split)

lemma extensible_dec_times [extensible_intros]: "extensible d \<Longrightarrow> extensible (dec_times n d)"
  by (induction n) (auto intro: extensible_intros)

section \<open>The writer and reader contract\<close>

locale codec =
  fixes enc :: "'a \<Rightarrow> bytes"
    and dec :: "'a decoder"
    and wf :: "'a \<Rightarrow> bool"
  assumes dec_enc: "wf x \<Longrightarrow> dec (enc x @ rest) = Inr (x, rest)"
    and dec_ext: "extensible dec"
begin

lemma dec_enc_exact: "wf x \<Longrightarrow> dec (enc x) = Inr (x, [])"
  using dec_enc [of x "[]"] by simp

lemma enc_prefix_free:
  assumes "wf x" and "wf y" and "enc x @ r = enc y @ s"
  shows "x = y \<and> r = s"
proof -
  have "Inr (x, r) = dec (enc x @ r)" by (rule dec_enc [OF assms(1), symmetric])
  also have "\<dots> = dec (enc y @ s)" by (rule arg_cong [OF assms(3)])
  also have "\<dots> = Inr (y, s)" by (rule dec_enc [OF assms(2)])
  finally show ?thesis by simp
qed

lemma enc_append_eq: "wf x \<Longrightarrow> wf y \<Longrightarrow> enc x @ r = enc y @ s \<longleftrightarrow> x = y \<and> r = s"
  using enc_prefix_free by blast

lemma enc_inject: "wf x \<Longrightarrow> wf y \<Longrightarrow> enc x = enc y \<longleftrightarrow> x = y"
  using enc_prefix_free [of x y "[]" "[]"] by auto

text \<open>A truncated stream yields an explicit error rather than a partial value.\<close>

lemma truncated:
  assumes "wf x" and "n < length (enc x)"
  shows "\<exists>e. dec (take n (enc x)) = Inl e"
proof (cases "dec (take n (enc x))")
  case (Inr p)
  obtain y r where p: "p = (y, r)" by (cases p)
  have "dec (take n (enc x) @ drop n (enc x)) = Inr (y, r @ drop n (enc x))"
    by (rule extensibleD [OF dec_ext]) (simp add: Inr p)
  with dec_enc_exact [OF assms(1)] have "drop n (enc x) = []" by auto
  with assms(2) show ?thesis by simp
qed simp

lemma dec_times_enc:
  "list_all wf xs \<Longrightarrow>
     dec_times (length xs) dec (concat (map enc xs) @ rest) = Inr (xs, rest)"
  by (induction xs) (simp_all add: codec_simps dec_enc)

lemma concat_enc_inject:
  assumes "list_all wf xs" and "list_all wf ys" and "length xs = length ys"
    and "concat (map enc xs) @ r = concat (map enc ys) @ s"
  shows "xs = ys \<and> r = s"
proof -
  have "Inr (xs, r) = dec_times (length xs) dec (concat (map enc xs) @ r)"
    by (rule dec_times_enc [OF assms(1), symmetric])
  also have "\<dots> = dec_times (length ys) dec (concat (map enc ys) @ s)"
    by (simp only: assms(3,4))
  also have "\<dots> = Inr (ys, s)" by (rule dec_times_enc [OF assms(2)])
  finally show ?thesis by simp
qed

end

section \<open>Primitive encodings\<close>

definition need :: "nat \<Rightarrow> bytes \<Rightarrow> status" where
  "need count bs =
     (if count > length bs then fail Ec_ProtocolViolation ''truncated canonical encoding''
      else success)"

definition enc_u8 :: "u8 \<Rightarrow> bytes" where
  "enc_u8 v = [v]"

definition enc_bool :: "bool \<Rightarrow> bytes" where
  "enc_bool v = [if v then 0x01 else 0x00]"

definition enc_u16 :: "u16 \<Rightarrow> bytes" where
  "enc_u16 v = [ucast (drop_bit 8 v), ucast v]"

definition enc_u32 :: "u32 \<Rightarrow> bytes" where
  "enc_u32 v = [ucast (drop_bit 24 v), ucast (drop_bit 16 v), ucast (drop_bit 8 v), ucast v]"

definition enc_u64 :: "u64 \<Rightarrow> bytes" where
  "enc_u64 v = be_bytes 8 v"

definition enc_i64 :: "i64 \<Rightarrow> bytes" where
  "enc_i64 v = enc_u64 (word_of_int v)"

text \<open>A double is carried as its IEEE 754 binary64 bit pattern.\<close>

type_synonym f64_bits = u64

definition enc_f64 :: "f64_bits \<Rightarrow> bytes" where
  "enc_f64 bits = enc_u64 bits"

definition byte_of_char :: "char \<Rightarrow> u8" where
  "byte_of_char c = word_of_nat (of_char c)"

definition char_of_byte :: "u8 \<Rightarrow> char" where
  "char_of_byte b = char_of (unat b)"

definition enc_text :: "string \<Rightarrow> bytes" where
  "enc_text s = map byte_of_char s"

definition enc_str :: "string \<Rightarrow> bytes" where
  "enc_str s = enc_u32 (word_of_nat (length s)) @ enc_text s"

definition dec_raw :: "nat \<Rightarrow> bytes decoder" where
  "dec_raw count bs = res_bind (need count bs) (\<lambda>_. Inr (take count bs, drop count bs))"

definition dec_u8 :: "u8 decoder" where
  "dec_u8 bs = res_bind (need 1 bs) (\<lambda>_. Inr (hd bs, tl bs))"

definition dec_bool :: "bool decoder" where
  "dec_bool = dthen dec_u8 (\<lambda>raw_value.
     if raw_value > 1 then dfail Ec_ProtocolViolation ''invalid boolean encoding''
     else dreturn (raw_value = 1))"

definition dec_u16 :: "u16 decoder" where
  "dec_u16 bs = res_bind (need 2 bs) (\<lambda>_. Inr (be_value (take 2 bs), drop 2 bs))"

definition dec_u32 :: "u32 decoder" where
  "dec_u32 bs = res_bind (need 4 bs) (\<lambda>_. Inr (be_value (take 4 bs), drop 4 bs))"

definition dec_u64 :: "u64 decoder" where
  "dec_u64 bs = res_bind (need 8 bs) (\<lambda>_. Inr (be_value (take 8 bs), drop 8 bs))"

definition dec_i64 :: "i64 decoder" where
  "dec_i64 = dthen dec_u64 (\<lambda>raw_value. dreturn (sint raw_value))"

definition dec_f64 :: "f64_bits decoder" where
  "dec_f64 = dec_u64"

definition dec_str :: "string decoder" where
  "dec_str = dthen dec_u32 (\<lambda>len. dthen (dec_raw (unat len)) (\<lambda>bs. dreturn (map char_of_byte bs)))"

definition str_ok :: "string \<Rightarrow> bool" where
  "str_ok s \<longleftrightarrow> length s < 2 ^ 32"

section \<open>Each primitive honours the contract\<close>

lemma char_of_byte_of_char [simp]: "char_of_byte (byte_of_char c) = c"
proof -
  have "of_char c < (256 :: nat)" by (rule nat_of_char_less_256)
  then show ?thesis by (simp add: char_of_byte_def byte_of_char_def unat_of_nat take_bit_nat_eq_self)
qed

lemma length_enc_text [simp]: "length (enc_text s) = length s"
  by (simp add: enc_text_def)

lemma map_char_enc_text [simp]: "map char_of_byte (enc_text s) = s"
  by (simp add: enc_text_def comp_def)

lemma need_append [simp]: "n = length xs \<Longrightarrow> need n (xs @ rest) = success"
  by (simp add: need_def)

lemma extensible_need_take:
  "extensible (\<lambda>bs. res_bind (need n bs) (\<lambda>_. Inr (f (take n bs), drop n bs)))"
  by (auto simp: extensible_def need_def res_bind_eq_Inr split: if_splits)

lemma extensible_raw [extensible_intros]: "extensible (dec_raw n)"
  using extensible_need_take [of n "\<lambda>x. x"] by (simp add: dec_raw_def [abs_def])

lemma extensible_words [extensible_intros]:
  "extensible dec_u16" "extensible dec_u32" "extensible dec_u64" "extensible dec_f64"
  using extensible_need_take [of 2 "be_value :: bytes \<Rightarrow> u16"]
    extensible_need_take [of 4 "be_value :: bytes \<Rightarrow> u32"]
    extensible_need_take [of 8 "be_value :: bytes \<Rightarrow> u64"]
  by (simp_all add: dec_u16_def [abs_def] dec_u32_def [abs_def] dec_u64_def [abs_def] dec_f64_def)

lemma extensible_u8 [extensible_intros]: "extensible dec_u8"
proof -
  have "dec_u8 = (\<lambda>bs. res_bind (need 1 bs) (\<lambda>_. Inr (hd (take 1 bs), drop 1 bs)))"
  proof
    fix bs show "dec_u8 bs = res_bind (need 1 bs) (\<lambda>_. Inr (hd (take 1 bs), drop 1 bs))"
      by (cases bs) (simp_all add: dec_u8_def need_def)
  qed
  then show ?thesis using extensible_need_take [of 1 hd] by simp
qed

lemma extensible_bool [extensible_intros]: "extensible dec_bool"
  unfolding dec_bool_def by (intro extensible_intros)

lemma extensible_i64 [extensible_intros]: "extensible dec_i64"
  unfolding dec_i64_def by (intro extensible_intros)

lemma extensible_str [extensible_intros]: "extensible dec_str"
  unfolding dec_str_def by (intro extensible_intros)

lemma enc_u16_be: "enc_u16 v = be_bytes 2 v"
  by (simp add: enc_u16_def be_bytes_def upt_rec)

lemma enc_u32_be: "enc_u32 v = be_bytes 4 v"
  by (simp add: enc_u32_def be_bytes_def upt_rec)

lemma dec_raw_append [codec_simps]: "n = length xs \<Longrightarrow> dec_raw n (xs @ rest) = Inr (xs, rest)"
  by (simp add: dec_raw_def)

lemma dec_u8_enc [codec_simps]: "dec_u8 (enc_u8 v @ rest) = Inr (v, rest)"
  by (simp add: dec_u8_def enc_u8_def need_def)

lemma dec_bool_enc [codec_simps]: "dec_bool (enc_bool v @ rest) = Inr (v, rest)"
  by (simp add: dec_bool_def enc_bool_def dthen_def dec_u8_def need_def dreturn_def)

lemma dec_u16_enc [codec_simps]: "dec_u16 (enc_u16 v @ rest) = Inr (v, rest)"
  by (simp add: dec_u16_def enc_u16_be be_value_bytes)

lemma dec_u32_enc [codec_simps]: "dec_u32 (enc_u32 v @ rest) = Inr (v, rest)"
  by (simp add: dec_u32_def enc_u32_be be_value_bytes)

lemma dec_u64_enc [codec_simps]: "dec_u64 (enc_u64 v @ rest) = Inr (v, rest)"
  by (simp add: dec_u64_def enc_u64_def be_value_bytes)

lemma dec_f64_enc [codec_simps]: "dec_f64 (enc_f64 v @ rest) = Inr (v, rest)"
  by (simp add: dec_f64_def enc_f64_def codec_simps)

lemma sint_word_of_int_i64: "i64_ok v \<Longrightarrow> sint (word_of_int v :: u64) = v"
  by (simp add: i64_bounds int_word_sint)

lemma dec_i64_enc [codec_simps]: "i64_ok v \<Longrightarrow> dec_i64 (enc_i64 v @ rest) = Inr (v, rest)"
  by (simp add: dec_i64_def enc_i64_def codec_simps sint_word_of_int_i64)

lemma dec_str_enc [codec_simps]: "str_ok s \<Longrightarrow> dec_str (enc_str s @ rest) = Inr (s, rest)"
  by (simp add: dec_str_def enc_str_def codec_simps str_ok_def unat_of_nat take_bit_nat_eq_self)

interpretation u8c: codec enc_u8 dec_u8 "\<lambda>_. True"
  by unfold_locales (simp_all add: codec_simps extensible_u8)

interpretation boolc: codec enc_bool dec_bool "\<lambda>_. True"
  by unfold_locales (simp_all add: codec_simps extensible_bool)

interpretation u16c: codec enc_u16 dec_u16 "\<lambda>_. True"
  by unfold_locales (simp_all add: codec_simps extensible_words)

interpretation u32c: codec enc_u32 dec_u32 "\<lambda>_. True"
  by unfold_locales (simp_all add: codec_simps extensible_words)

interpretation u64c: codec enc_u64 dec_u64 "\<lambda>_. True"
  by unfold_locales (simp_all add: codec_simps extensible_words)

interpretation f64c: codec enc_f64 dec_f64 "\<lambda>_. True"
  by unfold_locales (simp_all add: codec_simps extensible_words)

interpretation i64c: codec enc_i64 dec_i64 i64_ok
  by unfold_locales (simp_all add: codec_simps extensible_i64)

interpretation strc: codec enc_str dec_str str_ok
  by unfold_locales (simp_all add: codec_simps extensible_str)

end
