(* ===== verification/F64.thy ===== *)
theory F64
  imports Bytes Complex_Main
begin

text \<open>
  IEEE 754 binary64 as the metrics and the policies use it. A stored double is its 64-bit
  pattern; \<open>f64_val\<close> reads it. The arithmetic of the estimators runs on exact rationals with an
  explicit rounding (to nearest, ties to even, gradual underflow) after every operation, and
  \<open>f64_of_rat\<close> produces the pattern of the result. The magnitudes the estimators can reach, from
  64-bit readings and windows of at most 65536 of them, stay far below the overflow threshold
  \<open>2 powi 1024\<close>.
\<close>

section \<open>Binary logarithm\<close>

fun nlog2 :: "nat \<Rightarrow> nat" where
  "nlog2 n = (if n < 2 then 0 else Suc (nlog2 (n div 2)))"

declare nlog2.simps [simp del]

lemma nlog2_bounds: "0 < n \<Longrightarrow> 2 ^ nlog2 n \<le> n \<and> n < 2 ^ Suc (nlog2 n)"
proof (induction n rule: nlog2.induct)
  case (1 n)
  show ?case
  proof (cases "n < 2")
    case True
    with "1.prems" show ?thesis by (simp add: nlog2.simps [of n])
  next
    case False
    then have "2 ^ nlog2 (n div 2) \<le> n div 2 \<and> n div 2 < 2 ^ Suc (nlog2 (n div 2))"
      by (intro "1.IH") auto
    with False show ?thesis by (simp add: nlog2.simps [of n]) linarith
  qed
qed

definition ilog2 :: "rat \<Rightarrow> int" where
  "ilog2 x =
     (case quotient_of x of
        (a, b) \<Rightarrow> let d = int (nlog2 (nat a)) - int (nlog2 (nat b))
                  in if 2 powi d \<le> x then d else d - 1)"

lemma powi2_pos [simp]: "0 < (2 :: rat) powi k" "(2 :: rat) powi k \<noteq> 0" "0 \<le> (2 :: rat) powi k"
  by (simp_all add: zero_less_power_int)

lemma ilog2_bounds:
  assumes x: "0 < x"
  shows "2 powi (ilog2 x) \<le> x" "x < 2 powi (ilog2 x + 1)"
proof -
  obtain a b where q: "quotient_of x = (a, b)" by (cases "quotient_of x")
  have b: "0 < b" using quotient_of_denom_pos [OF q] .
  have xq: "x = of_int a / of_int b" using quotient_of_div [OF q] .
  have a: "0 < a" using x b unfolding xq by (simp add: zero_less_divide_iff)
  define la lb where "la = nlog2 (nat a)" and "lb = nlog2 (nat b)"
  have na: "2 ^ la \<le> nat a" "nat a < 2 ^ Suc la" and nb: "2 ^ lb \<le> nat b" "nat b < 2 ^ Suc lb"
    using nlog2_bounds [of "nat a"] nlog2_bounds [of "nat b"] a b by (simp_all add: la_def lb_def)
  have ia: "(2 :: int) ^ la \<le> a" "a < 2 ^ Suc la"
    using na a by (simp_all add: le_nat_iff nat_less_iff)
  have ib: "(2 :: int) ^ lb \<le> b" "b < 2 ^ Suc lb"
    using nb b by (simp_all add: le_nat_iff nat_less_iff)
  have ra: "(2 :: rat) ^ la \<le> of_int a" "(of_int a :: rat) < 2 ^ Suc la"
    using ia by (metis of_int_le_iff of_int_numeral of_int_power, metis of_int_less_iff of_int_numeral of_int_power)
  have rb: "(2 :: rat) ^ lb \<le> of_int b" "(of_int b :: rat) < 2 ^ Suc lb"
    using ib by (metis of_int_le_iff of_int_numeral of_int_power, metis of_int_less_iff of_int_numeral of_int_power)
  have pb: "(0 :: rat) < of_int b" using b by simp
  have p: "(2 :: rat) powi (int m - int n) = 2 ^ m / 2 ^ n" for m n
    by (simp add: power_int_diff)
  have up: "x < 2 powi (int la - int lb + 1)"
  proof -
    have "x < 2 ^ Suc la / of_int b" unfolding xq by (rule divide_strict_right_mono [OF ra(2) pb])
    also have "\<dots> \<le> 2 ^ Suc la / 2 ^ lb" by (rule divide_left_mono [OF rb(1)]) (simp_all add: b)
    also have "\<dots> = 2 powi (int (Suc la) - int lb)" by (rule p [symmetric])
    finally show ?thesis by (simp add: algebra_simps)
  qed
  have lo: "2 powi (int la - int lb - 1) < x"
  proof -
    have "2 powi (int la - int lb - 1) = (2 :: rat) powi (int la - int (Suc lb))"
      by (simp add: algebra_simps)
    also have "\<dots> = 2 ^ la / 2 ^ Suc lb" by (rule p)
    also have "\<dots> < 2 ^ la / of_int b" by (rule divide_strict_left_mono [OF rb(2)]) (simp_all add: b)
    also have "\<dots> \<le> x" unfolding xq by (rule divide_right_mono [OF ra(1)]) (simp add: b less_imp_le)
    finally show ?thesis .
  qed
  have e: "ilog2 x = (if 2 powi (int la - int lb) \<le> x then int la - int lb else int la - int lb - 1)"
    by (simp add: ilog2_def q la_def lb_def Let_def)
  show "2 powi (ilog2 x) \<le> x" "x < 2 powi (ilog2 x + 1)"
    using up lo by (auto simp: e)
qed

section \<open>Rounding\<close>

definition round_half_even :: "rat \<Rightarrow> int" where
  "round_half_even y =
     (let f = floor y; d = y - of_int f
      in if d < 1 / 2 then f else if d > 1 / 2 then f + 1 else if even f then f else f + 1)"

definition ulp_exp :: "rat \<Rightarrow> int" where
  "ulp_exp x = max (ilog2 \<bar>x\<bar> - 52) (- 1074)"

definition rnd :: "rat \<Rightarrow> rat" where
  "rnd x = (if x = 0 then 0 else of_int (round_half_even (x / 2 powi (ulp_exp x))) * 2 powi (ulp_exp x))"

lemma round_half_even_int [simp]: "round_half_even (of_int n) = n"
  by (simp add: round_half_even_def)

lemma round_half_even_near: "\<bar>of_int (round_half_even y) - y\<bar> \<le> 1 / 2"
proof -
  have f: "of_int (floor y) \<le> y" "y < of_int (floor y) + 1" by linarith+
  then show ?thesis by (auto simp: round_half_even_def Let_def abs_le_iff)
qed

lemma round_half_even_mono_int: "of_int n \<le> y \<Longrightarrow> n \<le> round_half_even y"
proof -
  assume "of_int n \<le> y"
  then have "n \<le> floor y" by (simp add: le_floor_iff)
  then show ?thesis by (auto simp: round_half_even_def Let_def)
qed

lemma round_half_even_le_int: "y \<le> of_int n \<Longrightarrow> round_half_even y \<le> n"
proof -
  assume y: "y \<le> of_int n"
  show ?thesis
  proof (cases "y = of_int n")
    case False
    with y have "floor y < n" by (simp add: floor_less_iff)
    then show ?thesis by (auto simp: round_half_even_def Let_def)
  qed simp
qed

text \<open>The numbers binary64 can hold, up to overflow.\<close>

definition representable :: "rat \<Rightarrow> bool" where
  "representable x \<longleftrightarrow> (\<exists>m q. x = of_int m * 2 powi q \<and> \<bar>m\<bar> \<le> 2 ^ 53 \<and> - 1074 \<le> q)"

lemma representable_0 [simp]: "representable 0"
  unfolding representable_def by (intro exI [of _ 0]) simp

lemma representable_int: "\<bar>n\<bar> \<le> 2 ^ 53 \<Longrightarrow> representable (of_int n)"
  unfolding representable_def by (intro exI [of _ n] exI [of _ 0]) simp

lemma powi2_nat: "0 \<le> k \<Longrightarrow> (2 :: rat) powi k = of_int (2 ^ nat k)"
  by (simp add: power_int_def)

lemma powi2_less_iff [simp]: "(2 :: rat) powi j < 2 powi k \<longleftrightarrow> j < k"
proof
  show "j < k" if less: "(2 :: rat) powi j < 2 powi k"
  proof (rule ccontr)
    assume "\<not> j < k"
    then have "(2 :: rat) powi k \<le> 2 powi j" by (intro power_int_increasing) simp_all
    with less show False by simp
  qed
  show "j < k \<Longrightarrow> (2 :: rat) powi j < 2 powi k" by (rule power_int_strict_increasing) simp_all
qed

lemma powi2_le_iff [simp]: "(2 :: rat) powi j \<le> 2 powi k \<longleftrightarrow> j \<le> k"
  by (meson not_le powi2_less_iff)

lemma rnd_0 [simp]: "rnd 0 = 0"
  by (simp add: rnd_def)

lemma rnd_representable: "representable (rnd x)"
proof (cases "x = 0")
  case False
  let ?q = "ulp_exp x"
  have "\<bar>x\<bar> < 2 powi (ilog2 \<bar>x\<bar> + 1)" using False by (intro ilog2_bounds) simp
  also have "\<dots> \<le> 2 powi (?q + 53)" by (simp add: ulp_exp_def)
  also have "\<dots> = 2 powi ?q * 2 ^ 53" by (simp add: power_int_add)
  finally have "\<bar>x / 2 powi ?q\<bar> < 2 ^ 53" by (simp add: abs_divide divide_less_eq ac_simps)
  then have "\<bar>round_half_even (x / 2 powi ?q)\<bar> \<le> 2 ^ 53"
    using round_half_even_mono_int [of "- (2 ^ 53)" "x / 2 powi ?q"]
      round_half_even_le_int [of "x / 2 powi ?q" "2 ^ 53"] unfolding abs_less_iff abs_le_iff by simp
  then show ?thesis using False unfolding rnd_def representable_def
    by (intro exI [of _ "round_half_even (x / 2 powi ?q)"] exI [of _ ?q]) (simp add: ulp_exp_def)
qed simp

lemma representable_ulp:
  assumes "representable x" "x \<noteq> 0"
  shows "\<exists>n. x = of_int n * 2 powi (ulp_exp x)"
proof -
  from assms obtain m q where x: "x = of_int m * 2 powi q" and m: "\<bar>m\<bar> \<le> 2 ^ 53" and q: "- 1074 \<le> q"
    by (auto simp: representable_def)
  have le: "\<bar>x\<bar> \<le> 2 ^ 53 * 2 powi q"
  proof -
    have "\<bar>of_int m :: rat\<bar> \<le> 2 ^ 53" using m by (metis of_int_abs of_int_le_iff of_int_numeral of_int_power)
    then show ?thesis by (simp add: x abs_mult)
  qed
  also have "\<dots> = 2 powi (q + 53)" by (simp add: power_int_add)
  finally have "2 powi (ilog2 \<bar>x\<bar>) \<le> (2 :: rat) powi (q + 53)"
    using assms(2) by (intro order_trans [OF ilog2_bounds(1)]) simp_all
  then have e: "ilog2 \<bar>x\<bar> \<le> q + 53" by simp
  let ?u = "ulp_exp x"
  have "\<exists>n. x / 2 powi ?u = of_int n"
  proof (cases "?u \<le> q")
    case True
    have "x / 2 powi ?u = of_int m * 2 powi (q - ?u)" by (simp add: x power_int_diff)
    also have "\<dots> = of_int (m * 2 ^ nat (q - ?u))" using True by (simp add: powi2_nat)
    finally show ?thesis by blast
  next
    case False
    with e q have u: "?u = q + 1" and "ilog2 \<bar>x\<bar> = q + 53" by (auto simp: ulp_exp_def)
    then have "2 powi (q + 53) \<le> \<bar>x\<bar>" using ilog2_bounds(1) [of "\<bar>x\<bar>"] assms(2) by simp
    with le have "\<bar>x\<bar> = 2 powi (q + 53)" by (simp add: power_int_add)
    then have "\<bar>x / 2 powi ?u\<bar> = 2 ^ 52" by (simp add: abs_divide u power_int_add)
    then have "x / 2 powi ?u = of_int (2 ^ 52) \<or> x / 2 powi ?u = of_int (- (2 ^ 52))"
      by (simp add: abs_eq_iff' abs_if split: if_splits)
    then show ?thesis by blast
  qed
  then obtain n where "x / 2 powi ?u = of_int n" by blast
  then show ?thesis by (metis nonzero_eq_divide_eq powi2_pos(2))
qed

lemma rnd_exact:
  assumes "representable x"
  shows "rnd x = x"
proof (cases "x = 0")
  case False
  with assms obtain n where n: "x = of_int n * 2 powi (ulp_exp x)" using representable_ulp by blast
  then have "x / 2 powi (ulp_exp x) = of_int n" by (metis nonzero_eq_divide_eq powi2_pos(2))
  then show ?thesis using False n by (simp add: rnd_def)
qed simp

lemma rnd_idem [simp]: "rnd (rnd x) = rnd x"
  by (rule rnd_exact [OF rnd_representable])

lemma rnd_int: "\<bar>n\<bar> \<le> 2 ^ 53 \<Longrightarrow> rnd (of_int n) = of_int n"
  by (rule rnd_exact [OF representable_int])

lemma rnd_nonneg: "0 \<le> x \<Longrightarrow> 0 \<le> rnd x"
proof -
  assume "0 \<le> x"
  then have "(of_int 0 :: rat) \<le> x / 2 powi ulp_exp x" by simp
  then have "0 \<le> round_half_even (x / 2 powi ulp_exp x)" by (rule round_half_even_mono_int)
  then show ?thesis by (simp add: rnd_def)
qed

section \<open>Square root\<close>

fun isqrt :: "nat \<Rightarrow> nat" where
  "isqrt n =
     (if n = 0 then 0
      else let r = 2 * isqrt (n div 4) in if (r + 1) * (r + 1) \<le> n then r + 1 else r)"

declare isqrt.simps [simp del]

lemma isqrt_bounds: "isqrt n * isqrt n \<le> n \<and> n < (isqrt n + 1) * (isqrt n + 1)"
proof (induction n rule: isqrt.induct)
  case (1 n)
  show ?case
  proof (cases "n = 0")
    case True
    then show ?thesis by (simp add: isqrt.simps)
  next
    case False
    define r where "r = isqrt (n div 4)"
    have r: "r * r \<le> n div 4" "n div 4 < (r + 1) * (r + 1)"
      using 1 [OF False] by (simp_all add: r_def)
    have n: "4 * (n div 4) \<le> n" "n < 4 * (n div 4) + 4" by linarith+
    have lo: "(2 * r) * (2 * r) \<le> n" using r(1) n(1) by simp
    have hi: "n < (2 * r + 2) * (2 * r + 2)"
    proof -
      have "n div 4 + 1 \<le> (r + 1) * (r + 1)" using r(2) by simp
      then have "4 * (n div 4) + 4 \<le> 4 * ((r + 1) * (r + 1))" by linarith
      also have "\<dots> = (2 * r + 2) * (2 * r + 2)" by (simp add: algebra_simps)
      finally show ?thesis using n(2) by linarith
    qed
    have e: "isqrt n = (if (2 * r + 1) * (2 * r + 1) \<le> n then 2 * r + 1 else 2 * r)"
      using False by (simp add: isqrt.simps [of n] r_def Let_def)
    show ?thesis using lo hi by (auto simp: e not_le)
  qed
qed

text \<open>
  \<^verbatim>\<open>std::sqrt\<close>: the exact root is bracketed with more than 53 significant bits, and an inexact
  bracket is moved half a unit up, off every tie, before the one rounding.
\<close>

definition f64_sqrt :: "rat \<Rightarrow> rat" where
  "f64_sqrt x =
     (if x \<le> 0 then 0
      else let s = nat (max 0 (56 - ilog2 x)) + 1074;
               n = nat \<lfloor>x * 2 ^ (2 * s)\<rfloor>;
               r = isqrt n
           in if of_nat (r * r) = x * 2 ^ (2 * s) then rnd (of_nat r / 2 ^ s)
              else rnd ((of_nat r + 1 / 2) / 2 ^ s))"

lemma f64_sqrt_nonneg: "0 \<le> f64_sqrt x"
  by (auto simp: f64_sqrt_def Let_def intro!: rnd_nonneg)

lemma f64_sqrt_0 [simp]: "f64_sqrt 0 = 0"
  by (simp add: f64_sqrt_def)

section \<open>Bit patterns\<close>

datatype f64_class = Fin rat | Inf bool | NaN

definition f64_val :: "f64_bits \<Rightarrow> f64_class" where
  "f64_val w =
     (let n = unat w; negative = n div 2 ^ 63 = 1; e = (n div 2 ^ 52) mod 2 ^ 11; m = n mod 2 ^ 52;
          sign = (if negative then - 1 else 1)
      in if e = 2047 then (if m = 0 then Inf negative else NaN)
         else if e = 0 then Fin (sign * of_nat m * 2 powi (- 1074))
         else Fin (sign * of_nat (2 ^ 52 + m) * 2 powi (int e - 1075)))"

definition f64_of_rat :: "rat \<Rightarrow> f64_bits" where
  "f64_of_rat x =
     (let a = \<bar>x\<bar>; sign = (if x < 0 then 2 ^ 63 else 0 :: nat); e = ilog2 a
      in if x = 0 then 0
         else if e > 1023 then word_of_nat (sign + 2047 * 2 ^ 52)
         else if e < - 1022 then word_of_nat (sign + nat \<lfloor>a * 2 powi 1074\<rfloor>)
         else word_of_nat (sign + nat (e + 1023) * 2 ^ 52 + (nat \<lfloor>a * 2 powi (52 - e)\<rfloor> - 2 ^ 52)))"

text \<open>The pattern of a sum of fields splits back into the fields.\<close>

lemma f64_val_fields:
  assumes "s < 2" "E < 2 ^ 11" "M < 2 ^ 52"
  shows "f64_val (word_of_nat (s * 2 ^ 63 + E * 2 ^ 52 + M)) =
    (if E = 2047 then (if M = 0 then Inf (s = 1) else NaN)
     else if E = 0 then Fin ((if s = 1 then - 1 else 1) * of_nat M * 2 powi (- 1074))
     else Fin ((if s = 1 then - 1 else 1) * of_nat (2 ^ 52 + M) * 2 powi (int E - 1075)))"
proof -
  let ?n = "s * 2 ^ 63 + E * 2 ^ 52 + M"
  have "?n < 2 ^ 64" using assms by simp
  moreover have "unat (word_of_nat n :: u64) = n" if "n < 2 ^ 64" for n
    using that by (simp add: unat_of_nat take_bit_nat_eq_self)
  ultimately have u: "unat (word_of_nat ?n :: u64) = ?n" by blast
  have low: "E * 2 ^ 52 + M < 2 ^ 63" using assms by simp
  have d1: "?n div 2 ^ 63 = s" using low by simp
  have d2: "?n div 2 ^ 52 = s * 2 ^ 11 + E" using assms(3) by simp
  then have d3: "?n div 2 ^ 52 mod 2 ^ 11 = E" using assms(2) by simp
  have d4: "?n mod 2 ^ 52 = M"
  proof -
    have "?n = M + (s * 2 ^ 11 + E) * 2 ^ 52" by simp
    then have "?n mod 2 ^ 52 = M mod 2 ^ 52" by (metis mod_mult_self1)
    with assms(3) show ?thesis by simp
  qed
  show ?thesis unfolding f64_val_def Let_def u d1 d3 d4 by simp
qed

lemma sign_field: "(if x < 0 then 2 ^ 63 else 0 :: nat) = (if x < 0 then 1 else 0) * 2 ^ 63"
  for x :: rat by simp

lemma f64_val_of_rat:
  assumes rep: "representable x" and big: "\<bar>x\<bar> < 2 powi 1024"
  shows "f64_val (f64_of_rat x) = Fin x"
proof (cases "x = 0")
  case True
  then show ?thesis by (simp add: f64_of_rat_def f64_val_def)
next
  case False
  let ?a = "\<bar>x\<bar>" and ?e = "ilog2 \<bar>x\<bar>" and ?u = "ulp_exp x"
  let ?s = "if x < 0 then 1 else 0 :: nat"
  have e: "2 powi ?e \<le> ?a" "?a < 2 powi (?e + 1)" using False by (simp_all add: ilog2_bounds)
  have "(2 :: rat) powi ?e < 2 powi 1024" using e(1) big by (rule le_less_trans)
  then have top: "?e \<le> 1023" unfolding powi2_less_iff by simp
  obtain n where n: "x = of_int n * 2 powi ?u" using representable_ulp [OF rep False] by blast
  have an: "?a = of_int \<bar>n\<bar> * 2 powi ?u"
    using arg_cong [OF n, of abs] by (simp only: abs_mult of_int_abs abs_of_nonneg powi2_pos)
  have sx: "x = (if ?s = 1 then - 1 else 1) * ?a" by simp
  define N where "N = nat \<bar>n\<bar>"
  have "(of_int \<bar>n\<bar> :: rat) = of_nat N" by (simp add: N_def)
  with an have aN: "?a = of_nat N * 2 powi ?u" by (simp only:)
  show ?thesis
  proof (cases "?e < - 1022")
    case True
    then have u: "?u = - 1074" by (simp add: ulp_exp_def)
    have "?a * 2 powi 1074 = of_int \<bar>n\<bar> * (2 powi ?u * 2 powi 1074)" by (simp only: an mult.assoc)
    also have "\<dots> = of_int \<bar>n\<bar>" by (simp add: u power_int_minus)
    finally have "?a * 2 powi 1074 = of_int \<bar>n\<bar>" .
    then have f: "nat \<lfloor>?a * 2 powi 1074\<rfloor> = N" by (simp only: floor_of_int N_def)
    have "of_nat N * (2 :: rat) powi (- 1074) < 2 powi (- 1022)"
      using e(2) True aN u by (metis (no_types, lifting) less_le_trans powi2_le_iff zless_imp_add1_zle)
    then have "of_nat N < (2 :: rat) powi (- 1022) / 2 powi (- 1074)"
      by (simp add: less_divide_eq)
    also have "\<dots> = 2 powi 52" by (simp flip: power_int_diff)
    also have "\<dots> = of_nat (2 ^ 52)" by simp
    finally have N: "N < 2 ^ 52" by (simp only: of_nat_less_iff)
    have eq: "f64_of_rat x = word_of_nat (?s * 2 ^ 63 + 0 * 2 ^ 52 + N)"
      using False True f top by (simp add: f64_of_rat_def Let_def)
    have "f64_val (f64_of_rat x) = Fin ((if ?s = 1 then - 1 else 1) * of_nat N * 2 powi (- 1074))"
      unfolding eq by (subst f64_val_fields) (use N in simp_all)
    also have "\<dots> = Fin ((if ?s = 1 then - 1 else 1) * ?a)"
      using aN u by (simp only: mult.assoc)
    also have "\<dots> = Fin x" by (simp only: sx [symmetric])
    finally show ?thesis .
  next
    case norm: False
    then have u: "?u = ?e - 52" by (simp add: ulp_exp_def)
    have "?a * 2 powi (52 - ?e) = of_int \<bar>n\<bar> * (2 powi ?u * 2 powi (52 - ?e))"
      by (simp only: an mult.assoc)
    also have "\<dots> = of_int \<bar>n\<bar>" by (simp add: u flip: power_int_add)
    finally have f: "nat \<lfloor>?a * 2 powi (52 - ?e)\<rfloor> = N" by (simp only: floor_of_int N_def)
    have N_eq: "of_nat N = ?a / 2 powi (?e - 52)"
      using aN u by (metis nonzero_eq_divide_eq powi2_pos(2))
    have "2 powi ?e / 2 powi (?e - 52) \<le> (of_nat N :: rat)"
      unfolding N_eq using e(1) by (intro divide_right_mono) simp_all
    then have "(2 :: rat) powi 52 \<le> of_nat N" by (simp flip: power_int_diff)
    then have "of_nat (2 ^ 52) \<le> (of_nat N :: rat)" by simp
    then have lo: "2 ^ 52 \<le> N" by (simp only: of_nat_le_iff)
    have "(of_nat N :: rat) < 2 powi (?e + 1) / 2 powi (?e - 52)"
      unfolding N_eq using e(2) by (intro divide_strict_right_mono) simp_all
    then have "(of_nat N :: rat) < 2 powi 53" by (simp flip: power_int_diff)
    then have "(of_nat N :: rat) < of_nat (2 ^ 53)" by simp
    then have hi: "N < 2 ^ 53" by (simp only: of_nat_less_iff)
    define E where "E = nat (?e + 1023)"
    have E: "0 < E" "E < 2047" "int E = ?e + 1023" using norm top by (simp_all add: E_def)
    have "f64_of_rat x = word_of_nat (?s * 2 ^ 63 + E * 2 ^ 52 + (N - 2 ^ 52))"
      using False norm top by (simp add: f64_of_rat_def Let_def f E_def)
    then have "f64_val (f64_of_rat x)
        = Fin ((if ?s = 1 then - 1 else 1) * of_nat (2 ^ 52 + (N - 2 ^ 52)) * 2 powi (int E - 1075))"
      using f64_val_fields [of ?s E "N - 2 ^ 52"] E lo hi by simp
    also have "\<dots> = Fin ((if ?s = 1 then - 1 else 1) * (of_nat N * 2 powi ?u))"
      using lo E(3) u by (simp add: mult.assoc)
    also have "\<dots> = Fin x" by (simp only: aN [symmetric] sx [symmetric])
    finally show ?thesis .
  qed
qed

lemma f64_of_rat_inject:
  "representable x \<Longrightarrow> representable y \<Longrightarrow> \<bar>x\<bar> < 2 powi 1024 \<Longrightarrow> \<bar>y\<bar> < 2 powi 1024 \<Longrightarrow>
     f64_of_rat x = f64_of_rat y \<longleftrightarrow> x = y"
  by (metis f64_class.inject(1) f64_val_of_rat)

definition f64_zero :: f64_bits where
  "f64_zero = 0"

definition f64_is_finite :: "f64_bits \<Rightarrow> bool" where
  "f64_is_finite w \<longleftrightarrow> (case f64_val w of Fin _ \<Rightarrow> True | _ \<Rightarrow> False)"

text \<open>The comparisons of C++: unordered with a NaN, the two zeros equal.\<close>

fun class_less :: "f64_class \<Rightarrow> f64_class \<Rightarrow> bool" where
  "class_less (Fin x) (Fin y) \<longleftrightarrow> x < y"
| "class_less (Fin x) (Inf n) \<longleftrightarrow> \<not> n"
| "class_less (Inf n) (Fin y) \<longleftrightarrow> n"
| "class_less (Inf m) (Inf n) \<longleftrightarrow> m \<and> \<not> n"
| "class_less NaN _ \<longleftrightarrow> False"
| "class_less _ NaN \<longleftrightarrow> False"

fun class_eq :: "f64_class \<Rightarrow> f64_class \<Rightarrow> bool" where
  "class_eq (Fin x) (Fin y) \<longleftrightarrow> x = y"
| "class_eq (Inf m) (Inf n) \<longleftrightarrow> m = n"
| "class_eq _ _ \<longleftrightarrow> False"

definition f64_less :: "f64_bits \<Rightarrow> f64_bits \<Rightarrow> bool" where
  "f64_less a b \<longleftrightarrow> class_less (f64_val a) (f64_val b)"

definition f64_eq :: "f64_bits \<Rightarrow> f64_bits \<Rightarrow> bool" where
  "f64_eq a b \<longleftrightarrow> class_eq (f64_val a) (f64_val b)"

definition f64_le :: "f64_bits \<Rightarrow> f64_bits \<Rightarrow> bool" where
  "f64_le a b \<longleftrightarrow> f64_less a b \<or> f64_eq a b"

lemma class_less_trans: "class_less x y \<Longrightarrow> class_less y z \<Longrightarrow> class_less x z"
  by (cases x; cases y; cases z) auto

lemma class_less_irrefl: "\<not> class_less x x"
  by (cases x) auto

end
