(* ===== verification/Hash.thy ===== *)
theory Hash
  imports Bytes
begin

text \<open>
  SHA-256 and CRC-32C: \<^verbatim>\<open>include/jitter/hash.hpp\<close> and \<^verbatim>\<open>src/hash.cpp\<close>. The incremental
  hasher (state, partial block, byte count) is proved equal to hashing the padded message in one
  go, whatever the sizes of the updates; the table-driven checksum is proved equal to the
  bit-by-bit polynomial division, composable over concatenation, and sensitive to every change
  of a single byte.
\<close>

section \<open>SHA-256\<close>

text \<open>The table of the source, which writes the same values in hexadecimal.\<close>

definition kRoundConstants :: "u32 list" where
  "kRoundConstants =
    [1116352408, 1899447441, 3049323471, 3921009573, 961987163, 1508970993, 2453635748,
     2870763221, 3624381080, 310598401, 607225278, 1426881987, 1925078388, 2162078206,
     2614888103, 3248222580, 3835390401, 4022224774, 264347078, 604807628, 770255983,
     1249150122, 1555081692, 1996064986, 2554220882, 2821834349, 2952996808, 3210313671,
     3336571891, 3584528711, 113926993, 338241895, 666307205, 773529912, 1294757372, 1396182291,
     1695183700, 1986661051, 2177026350, 2456956037, 2730485921, 2820302411, 3259730800,
     3345764771, 3516065817, 3600352804, 4094571909, 275423344, 430227734, 506948616, 659060556,
     883997877, 958139571, 1322822218, 1537002063, 1747873779, 1955562222, 2024104815,
     2227730452, 2361852424, 2428436474, 2756734187, 3204031479, 3329325298]"

definition rotr :: "u32 \<Rightarrow> nat \<Rightarrow> u32" where
  "rotr v count = (let shift = count mod 32
                   in drop_bit shift v OR push_bit ((32 - shift) mod 32) v)"

definition big_endian_u32 :: "u8 \<Rightarrow> u8 \<Rightarrow> u8 \<Rightarrow> u8 \<Rightarrow> u32" where
  "big_endian_u32 p0 p1 p2 p3 =
     push_bit 24 (ucast p0) OR push_bit 16 (ucast p1) OR push_bit 8 (ucast p2) OR ucast p3"

definition store_big_endian_u32 :: "u32 \<Rightarrow> bytes" where
  "store_big_endian_u32 v =
     [ucast (drop_bit 24 v), ucast (drop_bit 16 v), ucast (drop_bit 8 v), ucast v]"

text \<open>The first sixteen words of the schedule, then one word per iteration of the second loop.\<close>

definition block_words :: "bytes \<Rightarrow> u32 list" where
  "block_words block =
     map (\<lambda>i. big_endian_u32 (block ! (i * 4)) (block ! (i * 4 + 1))
                (block ! (i * 4 + 2)) (block ! (i * 4 + 3))) [0..<16]"

definition schedule_next :: "u32 list \<Rightarrow> u32" where
  "schedule_next w =
     (let i = length w;
          s0 = rotr (w ! (i - 15)) 7 XOR rotr (w ! (i - 15)) 18 XOR drop_bit 3 (w ! (i - 15));
          s1 = rotr (w ! (i - 2)) 17 XOR rotr (w ! (i - 2)) 19 XOR drop_bit 10 (w ! (i - 2))
      in w ! (i - 16) + s0 + w ! (i - 7) + s1)"

fun extend_schedule :: "nat \<Rightarrow> u32 list \<Rightarrow> u32 list" where
  "extend_schedule 0 w = w"
| "extend_schedule (Suc n) w = extend_schedule n (w @ [schedule_next w])"

type_synonym sha_words = "u32 \<times> u32 \<times> u32 \<times> u32 \<times> u32 \<times> u32 \<times> u32 \<times> u32"

definition sha_round :: "u32 \<times> u32 \<Rightarrow> sha_words \<Rightarrow> sha_words" where
  "sha_round kw st =
     (case kw of (k, wi) \<Rightarrow> case st of (a, b, c, d, e, f, g, h) \<Rightarrow>
       let s1 = rotr e 6 XOR rotr e 11 XOR rotr e 25;
           ch = (e AND f) XOR ((NOT e) AND g);
           temp1 = h + s1 + ch + k + wi;
           s0 = rotr a 2 XOR rotr a 13 XOR rotr a 22;
           maj = (a AND b) XOR (a AND c) XOR (b AND c);
           temp2 = s0 + maj
       in (temp1 + temp2, a, b, c, d + temp1, e, f, g))"

definition sha_add :: "sha_words \<Rightarrow> sha_words \<Rightarrow> sha_words" where
  "sha_add s t =
     (case s of (a, b, c, d, e, f, g, h) \<Rightarrow> case t of (a', b', c', d', e', f', g', h') \<Rightarrow>
       (a + a', b + b', c + c', d + d', e + e', f + f', g + g', h + h'))"

definition sha_compress :: "sha_words \<Rightarrow> bytes \<Rightarrow> sha_words" where
  "sha_compress st block =
     sha_add st (fold sha_round (zip kRoundConstants (extend_schedule 48 (block_words block))) st)"

definition sha_init_words :: sha_words where
  "sha_init_words = (0x6a09e667, 0xbb67ae85, 0x3c6ef372, 0xa54ff53a,
                     0x510e527f, 0x9b05688c, 0x1f83d9ab, 0x5be0cd19)"

text \<open>
  The hasher object. \<^verbatim>\<open>buffer_\<close> together with \<^verbatim>\<open>buffered_\<close> is the list of the buffered bytes.
\<close>

record sha =
  sha_state :: sha_words
  sha_buffer :: bytes
  sha_total :: u64

definition sha_reset :: sha where
  "sha_reset = \<lparr>sha_state = sha_init_words, sha_buffer = [], sha_total = 0\<rparr>"

text \<open>The loop over whole blocks of \<^verbatim>\<open>update\<close>: the state it leaves and the bytes not consumed.\<close>

function sha_blocks :: "sha_words \<Rightarrow> bytes \<Rightarrow> sha_words \<times> bytes" where
  "sha_blocks st bs =
     (if 64 \<le> length bs then sha_blocks (sha_compress st (take 64 bs)) (drop 64 bs) else (st, bs))"
  by pat_completeness auto
termination
  by (relation "measure (\<lambda>(st, bs). length bs)") auto

declare sha_blocks.simps [simp del]

definition sha_update :: "sha \<Rightarrow> bytes \<Rightarrow> sha" where
  "sha_update s data =
     (let total = sha_total s + word_of_nat (length data);
          buf = sha_buffer s;
          taken = (if buf \<noteq> [] then min (64 - length buf) (length data) else 0);
          filled = buf @ take taken data;
          (st, buf') = (if buf \<noteq> [] \<and> length filled = 64
                        then (sha_compress (sha_state s) filled, [])
                        else (sha_state s, filled));
          (st', tail) = sha_blocks st (drop taken data)
      in \<lparr>sha_state = st', sha_buffer = buf' @ tail, sha_total = total\<rparr>)"

text \<open>
  The zero padding loop \<^verbatim>\<open>while (buffered_ != 56)\<close>. Between calls fewer than 64 bytes are
  buffered (\<open>sha_inv_buffer\<close> below), so the second disjunct never stops it.
\<close>

lemma sha_update_zero_buffer:
  "length (sha_buffer s) < 64 \<Longrightarrow>
     length (sha_buffer (sha_update s [0])) = (Suc (length (sha_buffer s))) mod 64"
  by (cases "length (sha_buffer s) = 63")
     (auto simp: sha_update_def Let_def sha_blocks.simps min_def)

lemma pad_count_value: "k < 64 \<Longrightarrow> (120 - k) mod 64 = (if k \<le> 56 then 56 - k else 120 - (k :: nat))"
  by (auto simp: le_mod_geq)

lemma pad_count_value_Suc:
  "\<lbrakk>k < 63; k \<noteq> 56\<rbrakk> \<Longrightarrow> (120 - k) mod 64 = Suc ((120 - Suc k) mod (64 :: nat))"
proof (cases "k \<le> 55")
  case True
  then have "(119 - k) mod 64 = 55 - k" by (simp add: le_mod_geq)
  with True show ?thesis by (simp add: pad_count_value Suc_diff_le [symmetric])
qed (simp add: pad_count_value Suc_diff_le [symmetric])

lemma pad_count_step:
  assumes "n mod 64 \<noteq> (56 :: nat)"
  shows "(120 - n mod 64) mod 64 = Suc ((120 - Suc n mod 64) mod 64)"
proof (cases "n mod 64 = 63")
  case True
  then show ?thesis by (simp add: mod_Suc)
next
  case False
  moreover have "n mod 64 < 64" by simp
  ultimately have "n mod 64 < 63" by linarith
  moreover have "Suc n mod 64 = Suc (n mod 64)" using False by (simp add: mod_Suc)
  ultimately show ?thesis using pad_count_value_Suc [of "n mod 64"] assms by simp
qed

function sha_pad_zeros :: "sha \<Rightarrow> sha" where
  "sha_pad_zeros s =
     (if length (sha_buffer s) = 56 \<or> 64 \<le> length (sha_buffer s) then s
      else sha_pad_zeros (sha_update s [0]))"
  by pat_completeness auto
termination
proof (relation "measure (\<lambda>s. (120 - length (sha_buffer s)) mod 64)")
  fix s :: sha
  assume "\<not> (length (sha_buffer s) = 56 \<or> 64 \<le> length (sha_buffer s))"
  then have n: "length (sha_buffer s) < 64" "length (sha_buffer s) \<noteq> 56" by auto
  have "(120 - length (sha_buffer s) mod 64) mod 64
      = Suc ((120 - Suc (length (sha_buffer s)) mod 64) mod 64)"
    using n by (intro pad_count_step) simp
  with n show "(sha_update s [0], s) \<in> measure (\<lambda>s. (120 - length (sha_buffer s)) mod 64)"
    by (simp add: sha_update_zero_buffer)
qed simp

declare sha_pad_zeros.simps [simp del]

definition sha_words_bytes :: "sha_words \<Rightarrow> bytes" where
  "sha_words_bytes st =
     (case st of (a, b, c, d, e, f, g, h) \<Rightarrow>
        concat (map store_big_endian_u32 [a, b, c, d, e, f, g, h]))"

definition sha_finish :: "sha \<Rightarrow> bytes" where
  "sha_finish s =
     (let bit_length = sha_total s * 8;
          s1 = sha_update s [0x80];
          s2 = sha_pad_zeros s1;
          s3 = sha_update s2 (be_bytes 8 bit_length)
      in sha_words_bytes (sha_state s3))"

definition sha256 :: "bytes \<Rightarrow> bytes" where
  "sha256 data = sha_finish (sha_update sha_reset data)"

section \<open>The one-shot reference\<close>

text \<open>FIPS 180-4: pad the message, cut it into blocks, fold the compression function.\<close>

definition sha_padding :: "bytes \<Rightarrow> bytes" where
  "sha_padding m =
     [0x80] @ replicate ((119 - length m mod 64) mod 64) 0
       @ be_bytes 8 (word_of_nat (length m) * 8 :: u64)"

definition sha256_spec :: "bytes \<Rightarrow> bytes" where
  "sha256_spec m = sha_words_bytes (fst (sha_blocks sha_init_words (m @ sha_padding m)))"

definition sha_inv :: "sha \<Rightarrow> bytes \<Rightarrow> bool" where
  "sha_inv s m \<longleftrightarrow>
     sha_blocks sha_init_words m = (sha_state s, sha_buffer s) \<and> sha_total s = word_of_nat (length m)"

lemma sha_blocks_tail: "length (snd (sha_blocks st bs)) = length bs mod 64"
proof (induction st bs rule: sha_blocks.induct)
  case (1 st bs)
  show ?case
  proof (cases "64 \<le> length bs")
    case True
    with 1 have "length (snd (sha_blocks st bs)) = (length bs - 64) mod 64"
      by (simp add: sha_blocks.simps [of st bs])
    with True show ?thesis by (simp add: le_mod_geq)
  next
    case False
    then show ?thesis by (simp add: sha_blocks.simps [of st bs])
  qed
qed

lemma sha_blocks_append:
  "sha_blocks st (xs @ ys) =
     (case sha_blocks st xs of (st', tail) \<Rightarrow> sha_blocks st' (tail @ ys))"
proof (induction st xs rule: sha_blocks.induct)
  case (1 st xs)
  show ?case
  proof (cases "64 \<le> length xs")
    case True
    with 1 show ?thesis
      by (simp add: sha_blocks.simps [of st xs] sha_blocks.simps [of st "xs @ ys"])
  next
    case False
    then show ?thesis by (simp add: sha_blocks.simps [of st xs])
  qed
qed

lemma sha_inv_buffer: "sha_inv s m \<Longrightarrow> length (sha_buffer s) = length m mod 64"
  using sha_blocks_tail [of sha_init_words m] by (simp add: sha_inv_def)

lemma sha_inv_reset [simp]: "sha_inv sha_reset []"
  by (simp add: sha_inv_def sha_reset_def sha_blocks.simps)

lemma sha_update_blocks:
  assumes "length (sha_buffer s) < 64"
  shows "sha_blocks (sha_state s) (sha_buffer s @ data) =
           (sha_state (sha_update s data), sha_buffer (sha_update s data))"
proof (cases "sha_buffer s = []")
  case True
  then show ?thesis by (simp add: sha_update_def Let_def split: prod.split)
next
  case False
  let ?buf = "sha_buffer s"
  let ?n = "64 - length ?buf"
  show ?thesis
  proof (cases "?n \<le> length data")
    case True
    with assms have ge: "64 \<le> length (?buf @ data)" by simp
    then have "sha_blocks (sha_state s) (?buf @ data)
        = sha_blocks (sha_compress (sha_state s) (?buf @ take ?n data)) (drop ?n data)"
      using assms by (subst sha_blocks.simps) simp
    moreover have "length (?buf @ take ?n data) = 64" using True assms by simp
    ultimately show ?thesis using False True
      by (simp add: sha_update_def Let_def min_absorb1 split: prod.split)
  next
    case short: False
    then have few: "\<not> 64 \<le> length (?buf @ data)" "length (?buf @ data) \<noteq> 64" by auto
    then have "sha_blocks (sha_state s) (?buf @ data) = (sha_state s, ?buf @ data)"
      by (subst sha_blocks.simps) simp
    moreover have "min ?n (length data) = length data" using short by simp
    ultimately show ?thesis using False few
      by (simp add: sha_update_def Let_def sha_blocks.simps [of _ "[]"])
  qed
qed

lemma sha_inv_update:
  assumes "sha_inv s m"
  shows "sha_inv (sha_update s data) (m @ data)"
proof -
  have small: "length (sha_buffer s) < 64" using sha_inv_buffer [OF assms] by simp
  have start: "sha_blocks sha_init_words m = (sha_state s, sha_buffer s)"
    using assms by (simp add: sha_inv_def)
  have blocks: "sha_blocks sha_init_words (m @ data)
      = (sha_state (sha_update s data), sha_buffer (sha_update s data))"
    using sha_blocks_append [of sha_init_words m data]
    by (simp only: start prod.case sha_update_blocks [OF small])
  have "sha_total (sha_update s data) = sha_total s + word_of_nat (length data)"
    by (simp add: sha_update_def Let_def split: prod.split)
  moreover have "sha_total s = word_of_nat (length m)" using assms by (simp add: sha_inv_def)
  ultimately show ?thesis unfolding sha_inv_def blocks by simp
qed

lemma sha_inv_pad_zeros:
  "sha_inv s m \<Longrightarrow> sha_inv (sha_pad_zeros s) (m @ replicate ((120 - length m mod 64) mod 64) 0)"
proof (induction s arbitrary: m rule: sha_pad_zeros.induct)
  case (1 s)
  note buf = sha_inv_buffer [OF "1.prems"]
  show ?case
  proof (cases "length (sha_buffer s) = 56 \<or> 64 \<le> length (sha_buffer s)")
    case True
    with buf have "length m mod 64 = 56" by auto
    with True "1.prems" show ?thesis by (simp add: sha_pad_zeros.simps [of s])
  next
    case False
    let ?z = "\<lambda>k. (120 - k mod 64) mod (64 :: nat)"
    have "sha_inv (sha_update s [0]) (m @ [0])" by (rule sha_inv_update [OF "1.prems"])
    then have "sha_inv (sha_pad_zeros (sha_update s [0]))
                 ((m @ [0]) @ replicate (?z (length (m @ [0]))) 0)"
      by (rule "1.IH" [OF False])
    moreover have "?z (length m) = Suc (?z (Suc (length m)))"
      using False buf by (intro pad_count_step) auto
    ultimately show ?thesis using False by (simp add: sha_pad_zeros.simps [of s])
  qed
qed

lemma sha_finish_spec:
  assumes "sha_inv s m"
  shows "sha_finish s = sha256_spec m"
proof -
  let ?zeros = "replicate ((119 - length m mod 64) mod 64) (0 :: u8)"
  let ?len = "be_bytes 8 (word_of_nat (length m) * 8 :: u64)"
  have "sha_inv (sha_update s [0x80]) (m @ [0x80])" by (rule sha_inv_update [OF assms])
  then have "sha_inv (sha_pad_zeros (sha_update s [0x80]))
      ((m @ [0x80]) @ replicate ((120 - length (m @ [0x80]) mod 64) mod 64) 0)"
    by (rule sha_inv_pad_zeros)
  moreover have "(120 - Suc (length m) mod 64) mod 64 = (119 - length m mod 64) mod (64 :: nat)"
    by (cases "length m mod 64 = 63") (simp_all add: mod_Suc)
  ultimately have "sha_inv (sha_update (sha_pad_zeros (sha_update s [0x80])) ?len)
      (((m @ [0x80]) @ ?zeros) @ ?len)"
    using sha_inv_update by fastforce
  then have "fst (sha_blocks sha_init_words (m @ sha_padding m))
      = sha_state (sha_update (sha_pad_zeros (sha_update s [0x80])) ?len)"
    by (simp add: sha_inv_def sha_padding_def)
  with assms show ?thesis
    by (simp add: sha_finish_def sha256_spec_def Let_def sha_inv_def)
qed

lemma sha_inv_updates: "sha_inv s m \<Longrightarrow> sha_inv (foldl sha_update s chunks) (m @ concat chunks)"
proof (induction chunks arbitrary: s m)
  case (Cons c chunks)
  have "sha_inv (foldl sha_update (sha_update s c) chunks) ((m @ c) @ concat chunks)"
    by (rule Cons.IH [OF sha_inv_update [OF Cons.prems]])
  then show ?case by simp
qed simp

lemma sha256_eq_spec: "sha256 m = sha256_spec m"
  unfolding sha256_def using sha_inv_update [OF sha_inv_reset, of m] by (simp add: sha_finish_spec)

lemma length_sha256 [simp]: "length (sha256 m) = 32"
  unfolding sha256_eq_spec
  by (simp add: sha256_spec_def sha_words_bytes_def store_big_endian_u32_def split: prod.split)

section \<open>CRC-32C\<close>

lemma xor_cancel_left [simp]: "a XOR b = a XOR c \<longleftrightarrow> b = (c :: 'a :: len word)"
proof
  assume "a XOR b = a XOR c"
  then have "a XOR (a XOR b) = a XOR (a XOR c)" by simp
  then show "b = c" by (simp add: xor.assoc [symmetric])
qed simp

lemma xor_cancel_right [simp]: "b XOR a = c XOR a \<longleftrightarrow> b = (c :: 'a :: len word)"
  by (simp add: xor.commute [of _ a])

text \<open>One step of the reflected polynomial division, as in \<^verbatim>\<open>make_crc32c_table\<close>.\<close>

definition crc_bit :: "u32 \<Rightarrow> u32" where
  "crc_bit c = (if c AND 1 \<noteq> 0 then 0x82F63B78 XOR drop_bit 1 c else drop_bit 1 c)"

definition crc_table_entry :: "u32 \<Rightarrow> u32" where
  "crc_table_entry i = (crc_bit ^^ 8) i"

definition kCrc32cTable :: "u32 list" where
  "kCrc32cTable = map (\<lambda>i. crc_table_entry (word_of_nat i)) [0..<256]"

definition crc_step :: "u32 \<Rightarrow> u8 \<Rightarrow> u32" where
  "crc_step crc b = kCrc32cTable ! unat ((crc XOR ucast b) AND 0xff) XOR drop_bit 8 crc"

definition crc32c_extend :: "u32 \<Rightarrow> bytes \<Rightarrow> u32" where
  "crc32c_extend seed data = foldl crc_step (seed XOR 0xFFFFFFFF) data XOR 0xFFFFFFFF"

definition crc32c :: "bytes \<Rightarrow> u32" where
  "crc32c data = crc32c_extend 0 data"

text \<open>The reference: the register is shifted bit by bit, without a table.\<close>

definition crc_step_bitwise :: "u32 \<Rightarrow> u8 \<Rightarrow> u32" where
  "crc_step_bitwise crc b = (crc_bit ^^ 8) (crc XOR ucast b)"

definition crc32c_bitwise :: "bytes \<Rightarrow> u32" where
  "crc32c_bitwise data = foldl crc_step_bitwise 0xFFFFFFFF data XOR 0xFFFFFFFF"

lemma crc_bit_0 [simp]: "crc_bit 0 = 0"
  by (simp add: crc_bit_def)

lemma crc_bit_xor: "crc_bit (x XOR y) = crc_bit x XOR crc_bit y"
proof -
  have odd: "(z AND 1 \<noteq> 0) = bit z 0" for z :: u32
    by (simp add: and_one_eq odd_iff_mod_2_eq_one [symmetric] bit_0)
  show ?thesis
    by (auto simp: crc_bit_def odd bit_xor_iff drop_bit_xor xor.assoc xor.left_commute)
qed

lemma crc_bits_xor: "(crc_bit ^^ n) (x XOR y) = (crc_bit ^^ n) x XOR (crc_bit ^^ n) y"
  by (induction n) (simp_all add: crc_bit_xor)

text \<open>While the low bits of the register are zero a step only shifts.\<close>

lemma crc_bit_high: "\<not> bit x 0 \<Longrightarrow> crc_bit x = drop_bit 1 x"
  by (simp add: crc_bit_def and_one_eq bit_0 odd_iff_mod_2_eq_one)

lemma crc_bits_high: "(\<And>i. i < n \<Longrightarrow> \<not> bit x i) \<Longrightarrow> (crc_bit ^^ n) x = drop_bit n x"
proof (induction n)
  case (Suc n)
  have "\<not> bit (drop_bit n x) 0" using Suc.prems [of n] by (simp add: bit_drop_bit_eq)
  with Suc show ?case by (simp add: crc_bit_high)
qed simp

lemma crc_table_lookup: "kCrc32cTable ! unat (x AND 0xff) = (crc_bit ^^ 8) (x AND 0xff)"
proof -
  have "x AND 0xff = take_bit 8 x" by (simp add: take_bit_eq_mask mask_eq_exp_minus_1)
  then have "unat (x AND 0xff) < 256" by (simp add: unsigned_take_bit_eq take_bit_nat_less_exp [of 8, simplified])
  then show ?thesis by (simp add: kCrc32cTable_def crc_table_entry_def)
qed

lemma crc_step_eq_bitwise: "crc_step crc b = crc_step_bitwise crc b"
proof -
  let ?x = "crc XOR ucast b :: u32"
  let ?hi = "push_bit 8 (drop_bit 8 ?x)"
  have mask: "(0xff :: u32) = mask 8" by (simp add: mask_eq_exp_minus_1)
  have split: "?x = (?x AND 0xff) XOR ?hi"
    by (rule bit_eqI) (auto simp: mask bit_simps)
  have "(crc_bit ^^ 8) ?hi = drop_bit 8 ?hi"
    by (rule crc_bits_high) (simp add: bit_push_bit_iff del: push_bit_xor drop_bit_xor)
  also have "\<dots> = drop_bit 8 crc"
    by (rule bit_eqI) (auto simp: bit_simps dest: bit_imp_le_length)
  finally have "(crc_bit ^^ 8) ?x = (crc_bit ^^ 8) (?x AND 0xff) XOR drop_bit 8 crc"
    by (subst split) (simp only: crc_bits_xor)
  then show ?thesis by (simp add: crc_step_def crc_step_bitwise_def crc_table_lookup)
qed

lemma crc32c_eq_bitwise: "crc32c data = crc32c_bitwise data"
  by (simp add: crc32c_def crc32c_extend_def crc32c_bitwise_def crc_step_eq_bitwise [abs_def])

lemma crc32c_extend_append: "crc32c_extend seed (xs @ ys) = crc32c_extend (crc32c_extend seed xs) ys"
  by (simp add: crc32c_extend_def xor.assoc)

text \<open>Each step is injective in the register, and in the byte when the register is fixed.\<close>

lemma crc_bit_inj: "crc_bit x = crc_bit y \<Longrightarrow> x = y"
proof -
  have kernel: "z = 0" if "crc_bit z = 0" for z :: u32
  proof (cases "bit z 0")
    case True
    then have "bit (crc_bit z) 31 \<longleftrightarrow> True"
      by (auto simp: crc_bit_def and_one_eq bit_0 bit_simps dest: bit_imp_le_length)
    with that show ?thesis by simp
  next
    case False
    with that have "drop_bit 1 z = 0" by (simp add: crc_bit_high)
    then have "\<not> bit (drop_bit 1 z) i" for i by simp
    then have "\<not> bit z (Suc i)" for i by (simp add: bit_drop_bit_eq)
    with False have "\<not> bit z i" for i by (cases i) auto
    then show ?thesis by (intro bit_eqI) simp
  qed
  assume "crc_bit x = crc_bit y"
  then have "crc_bit (x XOR y) = 0" by (simp add: crc_bit_xor)
  from kernel [OF this] have "x XOR y = x XOR x" by simp
  then show "x = y" by (simp only: xor_cancel_left)
qed

lemma crc_bits_inj: "(crc_bit ^^ n) x = (crc_bit ^^ n) y \<Longrightarrow> x = y"
  by (induction n) (auto dest: crc_bit_inj)

lemma crc_step_inj_register: "crc_step c b = crc_step d b \<Longrightarrow> c = d"
  by (auto simp: crc_step_eq_bitwise crc_step_bitwise_def dest: crc_bits_inj)

lemma crc_step_inj_byte: "crc_step c a = crc_step c b \<Longrightarrow> a = b"
proof -
  assume "crc_step c a = crc_step c b"
  then have "(crc_bit ^^ 8) (c XOR ucast a) = (crc_bit ^^ 8) (c XOR ucast b)"
    by (simp only: crc_step_eq_bitwise crc_step_bitwise_def)
  then have "(ucast a :: u32) = ucast b" by (auto dest: crc_bits_inj)
  then have "(ucast (ucast a :: u32) :: u8) = ucast (ucast b :: u32)" by simp
  then show "a = b" by (simp add: ucast_up_ucast_id is_up)
qed

lemma crc_foldl_inj: "foldl crc_step c bs = foldl crc_step d bs \<Longrightarrow> c = d"
  by (induction bs arbitrary: c d) (auto dest: crc_step_inj_register)

lemma crc32c_detects_byte:
  assumes "i < length data" "data ! i \<noteq> b"
  shows "crc32c (data[i := b]) \<noteq> crc32c data"
proof
  assume eq: "crc32c (data[i := b]) = crc32c data"
  let ?c = "foldl crc_step 0xFFFFFFFF (take i data)"
  have split: "data = take i data @ data ! i # drop (Suc i) data"
    using assms(1) by (rule id_take_nth_drop)
  have "data[i := b] = take i data @ b # drop (Suc i) data"
    using assms(1) by (rule upd_conv_take_nth_drop)
  with eq have "foldl crc_step 0xFFFFFFFF (take i data @ b # drop (Suc i) data)
      = foldl crc_step 0xFFFFFFFF data"
    by (simp add: crc32c_def crc32c_extend_def)
  also have "\<dots> = foldl crc_step 0xFFFFFFFF (take i data @ data ! i # drop (Suc i) data)"
    using split by simp
  finally show False using assms(2) by (auto dest!: crc_foldl_inj crc_step_inj_byte)
qed

section \<open>Properties\<close>

text \<open>
  C32: However a message is cut into updates, the incremental SHA-256 hasher (buffered partial
  block, running byte count, zero padding loop) returns the digest that the one-shot definition
  gives for the whole padded message.
\<close>

lemma sha256_streaming: "sha_finish (foldl sha_update sha_reset chunks) = sha256_spec (concat chunks)"
  using sha_inv_updates [OF sha_inv_reset, of chunks] by (simp add: sha_finish_spec)

text \<open>
  The table-driven CRC-32C, continued from the checksum of a first part over a second part,
  equals the bit-by-bit polynomial division of the concatenation.
\<close>

lemma crc32c_incremental: "crc32c_extend (crc32c xs) ys = crc32c_bitwise (xs @ ys)"
  by (simp add: crc32c_eq_bitwise [symmetric] crc32c_def crc32c_extend_append)

text \<open>Changing any one byte of a record changes its CRC-32C.\<close>

lemma crc32c_byte_change:
  assumes "i < length data" "data ! i \<noteq> b"
  shows "crc32c (data[i := b]) \<noteq> crc32c data"
  using assms by (rule crc32c_detects_byte)

lemma crc32c_byte_change_witness: "crc32c [1, 7, 3] \<noteq> crc32c [1, 2, 3]"
  using crc32c_byte_change [of 1 "[1, 2, 3]" 7] by simp

end
