(* ===== verification/Ident.thy ===== *)
theory Ident
  imports Hash
begin

text \<open>
  Text conversion, digests and content-addressed identities:
  \<^verbatim>\<open>src/text.cpp\<close>, \<^verbatim>\<open>include/jitter/id.hpp\<close> and the \<^verbatim>\<open>Digest\<close> class of
  \<^verbatim>\<open>include/jitter/hash.hpp\<close>. An identity holds its 16 bytes as one 128-bit word, most
  significant byte first, so that the byte order of the source is the word order here. The
  decimal rendering of a double (\<^verbatim>\<open>double_to_string\<close>, \<^verbatim>\<open>parse_double\<close>) is not modelled.
\<close>

section \<open>Decimal text\<close>

definition u64_to_string :: "u64 \<Rightarrow> string" where
  "u64_to_string value = nat_text (unat value)"

definition i64_to_string :: "i64 \<Rightarrow> string" where
  "i64_to_string value =
     (if value < 0 then CHR ''-'' # nat_text (nat (- value)) else nat_text (nat value))"

definition u32_to_string :: "u32 \<Rightarrow> string" where
  "u32_to_string value = u64_to_string (ucast value)"

definition is_digit_char :: "char \<Rightarrow> bool" where
  "is_digit_char c \<longleftrightarrow> CHR ''0'' \<le> c \<and> c \<le> CHR ''9''"

definition digit_value :: "char \<Rightarrow> nat" where
  "digit_value c = of_char c - 48"

text \<open>\<^verbatim>\<open>std::from_chars\<close> in base ten, required to consume the whole text.\<close>

definition parse_digits :: "string \<Rightarrow> nat option" where
  "parse_digits s =
     (if s = '''' \<or> \<not> list_all is_digit_char s then None
      else Some (foldl (\<lambda>v c. v * 10 + digit_value c) 0 s))"

definition parse_u64 :: "string \<Rightarrow> u64 option" where
  "parse_u64 s =
     (case parse_digits s of
        None \<Rightarrow> None
      | Some v \<Rightarrow> if v < 2 ^ 64 then Some (word_of_nat v) else None)"

definition parse_i64 :: "string \<Rightarrow> i64 option" where
  "parse_i64 s =
     (case s of
        [] \<Rightarrow> None
      | c # rest \<Rightarrow>
          (case (if c = CHR ''-'' then map_option (\<lambda>v. - int v) (parse_digits rest)
                 else map_option int (parse_digits s)) of
             None \<Rightarrow> None
           | Some v \<Rightarrow> if i64_ok v then Some v else None))"

definition parse_u32 :: "string \<Rightarrow> u32 option" where
  "parse_u32 s =
     (case parse_u64 s of
        None \<Rightarrow> None
      | Some v \<Rightarrow> if v > 0xFFFFFFFF then None else Some (ucast v))"

definition parse_bool :: "string \<Rightarrow> bool option" where
  "parse_bool s =
     (if s = ''true'' \<or> s = ''1'' then Some True
      else if s = ''false'' \<or> s = ''0'' then Some False
      else None)"

lemma digit_char_lt10: "d < 10 \<Longrightarrow> is_digit_char (digit_char d) \<and> digit_value (digit_char d) = d"
proof -
  assume d: "d < 10"
  then have "of_char (digit_char d) = 48 + d" by (simp add: digit_char_def)
  moreover have "of_char CHR ''0'' = (48 :: nat)" "of_char CHR ''9'' = (57 :: nat)" by simp_all
  ultimately show ?thesis using d by (simp add: is_digit_char_def digit_value_def less_eq_char_def)
qed

lemma digits_of_lt10: "d \<in> set (digits_of n) \<Longrightarrow> d < 10"
proof (induction n rule: digits_of.induct)
  case (1 n)
  then show ?case
    by (subst (asm) (2) digits_of.simps) (auto split: if_splits)
qed

lemma digits_value: "foldl (\<lambda>v c. v * 10 + digit_value c) 0 (map digit_char (digits_of n)) = n"
proof (induction n rule: digits_of.induct)
  case (1 n)
  show ?case
  proof (cases "n < 10")
    case True
    then show ?thesis by (simp add: digits_of.simps [of n] digit_char_lt10)
  next
    case False
    with 1 show ?thesis by (simp add: digits_of.simps [of n] digit_char_lt10)
  qed
qed

lemma parse_digits_nat_text [simp]: "parse_digits (nat_text n) = Some n"
proof -
  have "list_all is_digit_char (nat_text n)"
    by (auto simp: nat_text_def list_all_iff dest: digits_of_lt10 digit_char_lt10)
  then show ?thesis by (simp add: parse_digits_def) (simp add: nat_text_def digits_value)
qed

lemma nat_text_hd: "\<exists>c cs. nat_text n = c # cs \<and> c \<noteq> CHR ''-''"
proof -
  obtain d ds where ds: "digits_of n = d # ds" by (cases "digits_of n") auto
  then have "d < 10" using digits_of_lt10 [of d n] by simp
  then have "is_digit_char (digit_char d)" by (simp add: digit_char_lt10)
  moreover have "\<not> is_digit_char CHR ''-''" by (simp add: is_digit_char_def less_eq_char_def)
  ultimately show ?thesis by (auto simp: nat_text_def ds)
qed

lemma parse_u64_to_string: "parse_u64 (u64_to_string v) = Some v"
  using unat_u64_bound [of v] by (simp add: parse_u64_def u64_to_string_def)

lemma parse_i64_to_string:
  assumes "i64_ok v"
  shows "parse_i64 (i64_to_string v) = Some v"
proof (cases "v < 0")
  case True
  with assms show ?thesis by (simp add: parse_i64_def i64_to_string_def)
next
  case False
  obtain c cs where "nat_text (nat v) = c # cs" "c \<noteq> CHR ''-''" using nat_text_hd by blast
  with False assms show ?thesis
    using parse_digits_nat_text [of "nat v"] by (simp add: parse_i64_def i64_to_string_def)
qed

section \<open>Hexadecimal text\<close>

definition lower_ascii :: "char \<Rightarrow> char" where
  "lower_ascii c =
     (if CHR ''A'' \<le> c \<and> c \<le> CHR ''Z'' then char_of (of_char c + (32 :: nat)) else c)"

definition kHexDigits :: string where
  "kHexDigits = ''0123456789abcdef''"

definition hex_pair :: "u8 \<Rightarrow> string" where
  "hex_pair b = [kHexDigits ! unat (drop_bit 4 b AND 0x0f), kHexDigits ! unat (b AND 0x0f)]"

definition hex_encode :: "bytes \<Rightarrow> string" where
  "hex_encode bs = concat (map hex_pair bs)"

definition hex_nibble :: "char \<Rightarrow> u8 option" where
  "hex_nibble c =
     (if CHR ''0'' \<le> c \<and> c \<le> CHR ''9'' then Some (word_of_nat (of_char c - 48))
      else let lowered = lower_ascii c
           in if CHR ''a'' \<le> lowered \<and> lowered \<le> CHR ''f''
              then Some (word_of_nat (of_char lowered - 97 + 10)) else None)"

text \<open>The loop over character pairs in \<^verbatim>\<open>digest_of_hex\<close> and \<^verbatim>\<open>StrongId::parse\<close>.\<close>

fun hex_decode :: "string \<Rightarrow> bytes option" where
  "hex_decode [] = Some []"
| "hex_decode [_] = None"
| "hex_decode (h # l # rest) =
     (case (hex_nibble h, hex_nibble l) of
        (Some hi, Some lo) \<Rightarrow> map_option (\<lambda>bs. (push_bit 4 hi OR lo) # bs) (hex_decode rest)
      | _ \<Rightarrow> None)"

lemma length_hex_encode [simp]: "length (hex_encode bs) = 2 * length bs"
  by (induction bs) (simp_all add: hex_encode_def hex_pair_def)

lemma hex_nibble_digit: "n < 16 \<Longrightarrow> hex_nibble (kHexDigits ! n) = Some (word_of_nat n)"
proof -
  have "\<forall>n \<in> set [0..<16]. hex_nibble (kHexDigits ! n) = Some (word_of_nat n)"
    by code_simp
  moreover assume "n < 16"
  ultimately show ?thesis by simp
qed

lemma nibbles_join: "push_bit 4 (drop_bit 4 b AND 0x0f) OR (b AND 0x0f) = (b :: u8)"
proof (rule bit_word_eqI)
  have mask: "(0x0f :: u8) = mask 4" by (simp add: mask_eq_exp_minus_1)
  fix i
  assume "i < LENGTH(8)"
  then show "bit (push_bit 4 (drop_bit 4 b AND 0x0f) OR (b AND 0x0f)) i = bit b i"
    by (auto simp: mask bit_simps)
qed

lemma nibble_lt16: "unat ((b :: u8) AND 0x0f) < 16"
proof -
  have "b AND 0x0f \<le> 0x0f" by (simp add: word_and_le1)
  then show ?thesis by (simp add: word_le_nat_alt)
qed

lemma hex_decode_encode [simp]: "hex_decode (hex_encode bs) = Some bs"
proof (induction bs)
  case (Cons b bs)
  have "hex_nibble (kHexDigits ! unat (drop_bit 4 b AND 0x0f)) = Some (drop_bit 4 b AND 0x0f)"
    "hex_nibble (kHexDigits ! unat (b AND 0x0f)) = Some (b AND 0x0f)"
    by (simp_all add: hex_nibble_digit nibble_lt16)
  with Cons show ?case by (simp add: hex_encode_def hex_pair_def nibbles_join del: push_bit_and)
qed (simp add: hex_encode_def)

section \<open>Other helpers\<close>

definition is_space_char :: "char \<Rightarrow> bool" where
  "is_space_char c \<longleftrightarrow> c = CHR '' '' \<or> c = CHR 0x09 \<or> c = CHR 0x0D \<or> c = CHR 0x0A"

definition trim :: "string \<Rightarrow> string" where
  "trim s = rev (dropWhile is_space_char (rev (dropWhile is_space_char s)))"

fun split_text :: "char \<Rightarrow> string \<Rightarrow> string list" where
  "split_text sep [] = [[]]"
| "split_text sep (c # cs) =
     (if c = sep then [] # split_text sep cs
      else case split_text sep cs of
             [] \<Rightarrow> [[c]]
           | part # parts \<Rightarrow> (c # part) # parts)"

fun join_text :: "string list \<Rightarrow> string \<Rightarrow> string" where
  "join_text [] separator = ''''"
| "join_text [p] separator = p"
| "join_text (p # q # parts) separator = p @ separator @ join_text (q # parts) separator"

definition equals_ascii_ci :: "string \<Rightarrow> string \<Rightarrow> bool" where
  "equals_ascii_ci a b \<longleftrightarrow> length a = length b \<and> map lower_ascii a = map lower_ascii b"

definition starts_with :: "string \<Rightarrow> string \<Rightarrow> bool" where
  "starts_with v prefix \<longleftrightarrow> length v \<ge> length prefix \<and> take (length prefix) v = prefix"

definition ends_with :: "string \<Rightarrow> string \<Rightarrow> bool" where
  "ends_with v suffix \<longleftrightarrow> length v \<ge> length suffix \<and> drop (length v - length suffix) v = suffix"

definition escape_char :: "char \<Rightarrow> string" where
  "escape_char c =
     (if c = CHR 0x22 then [CHR 0x5C, CHR 0x22]
      else if c = CHR 0x5C then [CHR 0x5C, CHR 0x5C]
      else if c = CHR 0x08 then [CHR 0x5C, CHR ''b'']
      else if c = CHR 0x0C then [CHR 0x5C, CHR ''f'']
      else if c = CHR 0x0A then [CHR 0x5C, CHR ''n'']
      else if c = CHR 0x0D then [CHR 0x5C, CHR ''r'']
      else if c = CHR 0x09 then [CHR 0x5C, CHR ''t'']
      else if byte_of_char c < 0x20 then [CHR 0x5C, CHR ''u'', CHR ''0'', CHR ''0''] @ hex_pair (byte_of_char c)
      else [c])"

definition escape_json :: "string \<Rightarrow> string" where
  "escape_json s = concat (map escape_char s)"

lemma split_text_ne [simp]: "split_text sep s \<noteq> []"
  by (cases s) (auto split: list.split)

lemma join_split: "join_text (split_text sep s) [sep] = s"
proof (induction s)
  case (Cons c cs)
  obtain p ps where ps: "split_text sep cs = p # ps" by (cases "split_text sep cs") auto
  with Cons show ?case by (cases ps) auto
qed simp

section \<open>Digests\<close>

datatype digest = Digest "256 word"

fun digest_word :: "digest \<Rightarrow> 256 word" where
  "digest_word (Digest w) = w"

definition digest_bytes :: "digest \<Rightarrow> bytes" where
  "digest_bytes d = be_bytes 32 (digest_word d)"

definition digest_of :: "bytes \<Rightarrow> digest" where
  "digest_of data = Digest (be_value (sha256 data))"

definition zero_digest :: digest where
  "zero_digest = Digest 0"

definition digest_is_zero :: "digest \<Rightarrow> bool" where
  "digest_is_zero d \<longleftrightarrow> list_all (\<lambda>b. b = 0) (digest_bytes d)"

definition digest_hex :: "digest \<Rightarrow> string" where
  "digest_hex d = hex_encode (digest_bytes d)"

definition digest_of_hex :: "string \<Rightarrow> digest" where
  "digest_of_hex hex =
     (if length hex \<noteq> 64 then zero_digest
      else case hex_decode hex of
             None \<Rightarrow> zero_digest
           | Some bs \<Rightarrow> Digest (be_value bs))"

instantiation digest :: linorder
begin

definition less_eq_digest :: "digest \<Rightarrow> digest \<Rightarrow> bool" where
  "less_eq_digest a b \<longleftrightarrow> digest_word a \<le> digest_word b"

definition less_digest :: "digest \<Rightarrow> digest \<Rightarrow> bool" where
  "less_digest a b \<longleftrightarrow> digest_word a < digest_word b"

instance
proof
  fix a b c :: digest
  show "a < b \<longleftrightarrow> a \<le> b \<and> \<not> b \<le> a"
    by (auto simp: less_eq_digest_def less_digest_def)
  show "a \<le> a" by (simp add: less_eq_digest_def)
  show "a \<le> b \<Longrightarrow> b \<le> c \<Longrightarrow> a \<le> c" by (auto simp: less_eq_digest_def)
  show "a \<le> b \<Longrightarrow> b \<le> a \<Longrightarrow> a = b" by (cases a; cases b) (auto simp: less_eq_digest_def)
  show "a \<le> b \<or> b \<le> a" by (auto simp: less_eq_digest_def)
qed

end

lemma length_digest_bytes [simp]: "length (digest_bytes d) = 32"
  by (simp add: digest_bytes_def)

lemma digest_of_hex_hex: "digest_of_hex (digest_hex d) = d"
  by (cases d) (simp add: digest_of_hex_def digest_hex_def digest_bytes_def be_value_bytes)

section \<open>Identities\<close>

text \<open>
  The template parameter of \<^verbatim>\<open>StrongId\<close> is a phantom type; its tag name is an argument of the
  two operations that read it.
\<close>

datatype (dead 'tag) strong_id = StrongId "128 word"

fun id_word :: "'tag strong_id \<Rightarrow> 128 word" where
  "id_word (StrongId w) = w"

definition nil_id :: "'tag strong_id" where
  "nil_id = StrongId 0"

definition id_bytes :: "'tag strong_id \<Rightarrow> bytes" where
  "id_bytes x = be_bytes 16 (id_word x)"

definition id_from_bytes :: "bytes \<Rightarrow> 'tag strong_id" where
  "id_from_bytes bs = StrongId (be_value (take 16 bs))"

definition id_from_digest :: "digest \<Rightarrow> 'tag strong_id" where
  "id_from_digest d = id_from_bytes (digest_bytes d)"

definition id_is_nil :: "'tag strong_id \<Rightarrow> bool" where
  "id_is_nil x \<longleftrightarrow> list_all (\<lambda>b. b = 0) (id_bytes x)"

definition id_hex :: "'tag strong_id \<Rightarrow> string" where
  "id_hex x = hex_encode (id_bytes x)"

definition id_label :: "string \<Rightarrow> 'tag strong_id \<Rightarrow> string" where
  "id_label tag_name x = tag_name @ '':'' @ id_hex x"

definition id_parse_body :: "string \<Rightarrow> 'tag strong_id result" where
  "id_parse_body body =
     (if length body \<noteq> 32 then fail Ec_InvalidArgument ''identity must be 32 hexadecimal characters''
      else case hex_decode body of
             None \<Rightarrow> fail Ec_InvalidArgument ''identity contains a non hexadecimal character''
           | Some bs \<Rightarrow> Inr (id_from_bytes bs))"

definition id_parse :: "string \<Rightarrow> string \<Rightarrow> 'tag strong_id result" where
  "id_parse tag_name s =
     (if CHR '':'' \<in> set s then
        let prefix = takeWhile (\<lambda>c. c \<noteq> CHR '':'') s
        in if prefix \<noteq> tag_name
           then fail Ec_InvalidArgument ''identity prefix does not match expected tag''
           else id_parse_body (tl (dropWhile (\<lambda>c. c \<noteq> CHR '':'') s))
      else id_parse_body s)"

instantiation strong_id :: (type) linorder
begin

definition less_eq_strong_id :: "'a strong_id \<Rightarrow> 'a strong_id \<Rightarrow> bool" where
  "less_eq_strong_id a b \<longleftrightarrow> id_word a \<le> id_word b"

definition less_strong_id :: "'a strong_id \<Rightarrow> 'a strong_id \<Rightarrow> bool" where
  "less_strong_id a b \<longleftrightarrow> id_word a < id_word b"

instance
proof
  fix a b c :: "'a strong_id"
  show "a < b \<longleftrightarrow> a \<le> b \<and> \<not> b \<le> a"
    by (auto simp: less_eq_strong_id_def less_strong_id_def)
  show "a \<le> a" by (simp add: less_eq_strong_id_def)
  show "a \<le> b \<Longrightarrow> b \<le> c \<Longrightarrow> a \<le> c" by (auto simp: less_eq_strong_id_def)
  show "a \<le> b \<Longrightarrow> b \<le> a \<Longrightarrow> a = b" by (cases a; cases b) (auto simp: less_eq_strong_id_def)
  show "a \<le> b \<or> b \<le> a" by (auto simp: less_eq_strong_id_def)
qed

end

text \<open>The tags.\<close>

datatype source_tag = SourceTag
datatype series_tag = SeriesTag
datatype path_tag = PathTag
datatype hop_tag = HopTag
datatype generation_tag = GenerationTag
datatype clock_domain_tag = ClockDomainTag
datatype window_policy_tag = WindowPolicyTag
datatype measurement_tag = MeasurementTag
datatype metric_tag = MetricTag
datatype baseline_tag = BaselineTag
datatype episode_tag = EpisodeTag
datatype instability_policy_tag = InstabilityPolicyTag
datatype summary_tag = SummaryTag
datatype batch_tag = BatchTag
datatype freshness_policy_tag = FreshnessPolicyTag

type_synonym source_id = "source_tag strong_id"
type_synonym series_id = "series_tag strong_id"
type_synonym path_id = "path_tag strong_id"
type_synonym hop_id = "hop_tag strong_id"
type_synonym generation_id = "generation_tag strong_id"
type_synonym clock_domain_id = "clock_domain_tag strong_id"
type_synonym window_policy_id = "window_policy_tag strong_id"
type_synonym measurement_id = "measurement_tag strong_id"
type_synonym metric_id = "metric_tag strong_id"
type_synonym baseline_id = "baseline_tag strong_id"
type_synonym episode_id = "episode_tag strong_id"
type_synonym instability_policy_id = "instability_policy_tag strong_id"
type_synonym summary_id = "summary_tag strong_id"
type_synonym batch_id = "batch_tag strong_id"
type_synonym freshness_policy_id = "freshness_policy_tag strong_id"

lemma length_id_bytes [simp]: "length (id_bytes x) = 16"
  by (simp add: id_bytes_def)

lemma id_from_id_bytes [simp]: "id_from_bytes (id_bytes x) = x"
  by (cases x) (simp add: id_from_bytes_def id_bytes_def be_value_bytes)

lemma id_is_nil_iff: "id_is_nil x \<longleftrightarrow> x = nil_id"
proof
  assume "id_is_nil x"
  then have "id_bytes x = replicate 16 0"
    by (intro nth_equalityI) (auto simp: id_is_nil_def list_all_length)
  also have "\<dots> = id_bytes nil_id"
    by (simp add: id_bytes_def nil_id_def be_bytes_def map_replicate_const)
  finally show "x = nil_id" by (metis id_from_id_bytes)
qed (simp add: id_is_nil_def id_bytes_def nil_id_def be_bytes_def list_all_iff)

lemma hex_pair_colon: "CHR '':'' \<notin> set (hex_pair b)"
proof -
  have "CHR '':'' \<notin> set kHexDigits" by (simp add: kHexDigits_def)
  moreover have "kHexDigits ! unat (x AND 0x0f) \<in> set kHexDigits" for x :: u8
    using nibble_lt16 [of x] by (intro nth_mem) (simp add: kHexDigits_def)
  ultimately show ?thesis by (auto simp: hex_pair_def)
qed

lemma id_hex_colon: "CHR '':'' \<notin> set (id_hex x)"
  using hex_pair_colon by (auto simp: id_hex_def hex_encode_def)

lemma id_parse_hex: "id_parse tag_name (id_hex x) = Inr x"
  using id_hex_colon [of x] by (simp add: id_parse_def id_parse_body_def) (simp add: id_hex_def)

lemma takeWhile_tag:
  "CHR '':'' \<notin> set tag \<Longrightarrow> takeWhile (\<lambda>c. c \<noteq> CHR '':'') (tag @ CHR '':'' # s) = tag"
  by (induction tag) auto

lemma dropWhile_tag:
  "CHR '':'' \<notin> set tag \<Longrightarrow> dropWhile (\<lambda>c. c \<noteq> CHR '':'') (tag @ CHR '':'' # s) = CHR '':'' # s"
  by (induction tag) auto

lemma id_parse_label:
  "CHR '':'' \<notin> set tag \<Longrightarrow> id_parse tag (id_label tag x) = Inr x"
  by (simp add: id_parse_def id_label_def id_parse_body_def takeWhile_tag dropWhile_tag)
     (simp add: id_hex_def)

lemma id_parse_foreign_tag:
  "\<lbrakk>CHR '':'' \<notin> set tag; tag \<noteq> expected\<rbrakk> \<Longrightarrow>
     id_parse expected (id_label tag x)
       = fail Ec_InvalidArgument ''identity prefix does not match expected tag''"
  by (simp add: id_parse_def id_label_def takeWhile_tag)

text \<open>Canonical encodings of digests and identities: the raw bytes.\<close>

definition enc_id :: "'tag strong_id \<Rightarrow> bytes" where
  "enc_id x = id_bytes x"

definition dec_id :: "'tag strong_id decoder" where
  "dec_id = dthen (dec_raw 16) (\<lambda>bs. dreturn (id_from_bytes bs))"

definition enc_digest :: "digest \<Rightarrow> bytes" where
  "enc_digest d = digest_bytes d"

definition dec_digest :: "digest decoder" where
  "dec_digest = dthen (dec_raw 32) (\<lambda>bs. dreturn (Digest (be_value bs)))"

lemma dec_id_enc [codec_simps]: "dec_id (enc_id x @ rest) = Inr (x, rest)"
  by (simp add: dec_id_def enc_id_def codec_simps)

lemma dec_digest_enc [codec_simps]: "dec_digest (enc_digest d @ rest) = Inr (d, rest)"
  by (cases d) (simp add: dec_digest_def enc_digest_def codec_simps digest_bytes_def be_value_bytes)

lemma extensible_id [extensible_intros]: "extensible dec_id"
  unfolding dec_id_def by (intro extensible_intros)

lemma extensible_digest [extensible_intros]: "extensible dec_digest"
  unfolding dec_digest_def by (intro extensible_intros)

interpretation idc: codec enc_id dec_id "\<lambda>_. True"
  by unfold_locales (simp_all add: codec_simps extensible_id)

interpretation digestc: codec enc_digest dec_digest "\<lambda>_. True"
  by unfold_locales (simp_all add: codec_simps extensible_digest)

section \<open>Digest builder\<close>

text \<open>
  \<^verbatim>\<open>DigestBuilder\<close> feeds each field to an incremental hasher. The list of the fields'
  encodings is its model; \<open>builder_digest\<close> runs the hasher over them, field by field.
\<close>

definition builder_digest :: "bytes list \<Rightarrow> digest" where
  "builder_digest parts = Digest (be_value (sha_finish (foldl sha_update sha_reset parts)))"

definition builder_id :: "bytes list \<Rightarrow> 'tag strong_id" where
  "builder_id parts = id_from_digest (builder_digest parts)"

definition fld_optional_i64 :: "i64 option \<Rightarrow> bytes" where
  "fld_optional_i64 v = (case v of None \<Rightarrow> enc_u8 0 | Some x \<Rightarrow> enc_u8 1 @ enc_i64 x)"

definition fld_optional_u64 :: "u64 option \<Rightarrow> bytes" where
  "fld_optional_u64 v = (case v of None \<Rightarrow> enc_u8 0 | Some x \<Rightarrow> enc_u8 1 @ enc_u64 x)"

lemma builder_digest_concat: "builder_digest parts = digest_of (concat parts)"
proof -
  have "sha_inv (foldl sha_update sha_reset parts) ([] @ concat parts)"
    by (rule sha_inv_updates) simp
  then show ?thesis
    by (simp add: builder_digest_def digest_of_def sha256_eq_spec sha_finish_spec)
qed

lemma builder_digest_split: "concat parts = concat parts' \<Longrightarrow> builder_digest parts = builder_digest parts'"
  by (simp add: builder_digest_concat)

text \<open>Every field is self delimiting, so equal streams have equal fields.\<close>

lemmas field_inject =
  strc.enc_append_eq idc.enc_append_eq digestc.enc_append_eq u8c.enc_append_eq u16c.enc_append_eq
  u32c.enc_append_eq u64c.enc_append_eq i64c.enc_append_eq f64c.enc_append_eq boolc.enc_append_eq

lemmas field_inject_exact =
  strc.enc_inject idc.enc_inject digestc.enc_inject u8c.enc_inject u16c.enc_inject
  u32c.enc_inject u64c.enc_inject i64c.enc_inject f64c.enc_inject boolc.enc_inject

lemma enc_u8_append_eq [simp]: "enc_u8 a @ r = enc_u8 b @ s \<longleftrightarrow> a = b \<and> r = s"
  by (simp add: enc_u8_def)

lemma fld_optional_i64_append_eq:
  assumes "pred_option i64_ok v" "pred_option i64_ok w"
  shows "fld_optional_i64 v @ r = fld_optional_i64 w @ s \<longleftrightarrow> v = w \<and> r = s"
  using assms by (cases v; cases w) (auto simp: fld_optional_i64_def i64c.enc_append_eq)

lemma fld_optional_u64_append_eq:
  "fld_optional_u64 v @ r = fld_optional_u64 w @ s \<longleftrightarrow> v = w \<and> r = s"
  by (cases v; cases w) (auto simp: fld_optional_u64_def u64c.enc_append_eq)

section \<open>Properties\<close>

text \<open>
  Every 64-bit value survives printing in decimal and parsing, the most negative one
  included, whose magnitude has no signed counterpart.
\<close>

lemma decimal_round_trip:
  assumes "i64_ok v"
  shows "parse_i64 (i64_to_string v) = Some v \<and> parse_u64 (u64_to_string w) = Some w"
  using assms by (simp add: parse_i64_to_string parse_u64_to_string)

lemma decimal_round_trip_witness:
  "parse_i64 (i64_to_string (- 9223372036854775808)) = Some (- 9223372036854775808) \<and>
   parse_u64 (u64_to_string 18446744073709551615) = Some 18446744073709551615"
  using decimal_round_trip [of "- 9223372036854775808" 18446744073709551615]
  by (simp add: i64_bounds)

end
