(* ===== verification/Provenance.thy ===== *)
theory Provenance
  imports Ident
begin

text \<open>
  Origins, authorities, counters and provenance: \<^verbatim>\<open>include/jitter/provenance.hpp\<close> and
  \<^verbatim>\<open>src/provenance.cpp\<close>. Two interfaces cover every enumeration of the runtime: its byte code
  (written by a cast, read back through a range check) and its text (printed by \<^verbatim>\<open>to_string\<close>,
  read back by a parser).
\<close>

section \<open>Enumerations\<close>

text \<open>The reader of an enumeration: \<^verbatim>\<open>if (raw > static_cast<uint8_t>(Last)) return fail(...)\<close>.\<close>

definition dec_enum :: "(u8 \<Rightarrow> 'a option) \<Rightarrow> string \<Rightarrow> 'a decoder" where
  "dec_enum of_code message = dthen dec_u8 (\<lambda>raw.
     case of_code raw of None \<Rightarrow> dfail Ec_ProtocolViolation message | Some x \<Rightarrow> dreturn x)"

lemma extensible_enum [extensible_intros]: "extensible (dec_enum of_code message)"
  unfolding dec_enum_def by (intro extensible_intros)

locale u8_enum =
  fixes code :: "'a \<Rightarrow> u8"
    and of_code :: "u8 \<Rightarrow> 'a option"
  assumes of_code_code: "of_code (code x) = Some x"
begin

lemma code_inject: "code x = code y \<longleftrightarrow> x = y"
  by (metis of_code_code option.inject)

lemma dec_enum_enc: "dec_enum of_code message (enc_u8 (code x) @ rest) = Inr (x, rest)"
  by (simp add: dec_enum_def codec_simps of_code_code)

lemma code_append_eq: "enc_u8 (code x) @ r = enc_u8 (code y) @ s \<longleftrightarrow> x = y \<and> r = s"
  by (simp add: code_inject)

end

locale text_enum =
  fixes to_text :: "'a \<Rightarrow> string"
    and parse :: "string \<Rightarrow> 'a option"
  assumes parse_to_text: "parse (to_text x) = Some x"
begin

lemma to_text_inject: "to_text x = to_text y \<longleftrightarrow> x = y"
  by (metis parse_to_text option.inject)

end

section \<open>Content-addressed registries\<close>

text \<open>
  Clock domains, sources and series live in vectors with one registration protocol: complete the
  identity, validate, accept a known identity silently, refuse beyond the capacity, append.
\<close>

definition registry_inv ::
  "('d \<Rightarrow> 'i) \<Rightarrow> ('d \<Rightarrow> status) \<Rightarrow> nat \<Rightarrow> 'd list \<Rightarrow> bool" where
  "registry_inv ident valid capacity ds \<longleftrightarrow>
     distinct (map ident ds) \<and> list_all (\<lambda>d. valid d = success) ds \<and> length ds \<le> capacity"

locale registry =
  fixes reg :: "'d \<Rightarrow> 's \<Rightarrow> status \<times> 'd \<times> 's"
    and lookup :: "'i \<Rightarrow> 's \<Rightarrow> 'd option"
    and items :: "'s \<Rightarrow> 'd list"
    and ident :: "'d \<Rightarrow> 'i"
    and fill :: "'d \<Rightarrow> 'd"
    and valid :: "'d \<Rightarrow> status"
    and add :: "'d \<Rightarrow> 's \<Rightarrow> 's"
    and capacity :: nat
    and full_error :: error
  assumes reg_eq: "reg d s =
      (case valid (fill d) of
         Inl e \<Rightarrow> (Inl e, fill d, s)
       | Inr _ \<Rightarrow>
           if \<exists>x \<in> set (items s). ident x = ident (fill d) then (success, fill d, s)
           else if length (items s) \<ge> capacity then (Inl full_error, fill d, s)
           else (success, fill d, add (fill d) s))"
    and lookup_eq: "lookup i s = find (\<lambda>x. ident x = i) (items s)"
    and items_add: "items (add d s) = items s @ [d]"
begin

lemma lookup_SomeD: "lookup i s = Some d \<Longrightarrow> d \<in> set (items s) \<and> ident d = i"
  by (auto simp: lookup_eq find_Some_iff)

lemma lookup_None: "lookup i s = None \<longleftrightarrow> (\<forall>x \<in> set (items s). ident x \<noteq> i)"
  by (auto simp: lookup_eq find_None_iff)

lemma find_append: "find P (xs @ ys) = (case find P xs of None \<Rightarrow> find P ys | Some x \<Rightarrow> Some x)"
  by (induction xs) auto

lemma lookup_keep: "lookup i s = Some d \<Longrightarrow> lookup i (snd (snd (reg e s))) = Some d"
  by (auto simp: reg_eq lookup_eq items_add find_append split: sum.split)

lemma reg_descriptor: "fst (snd (reg d s)) = fill d"
  by (simp add: reg_eq split: sum.split)

lemma reg_failure_frame: "fst (reg d s) = Inl e \<Longrightarrow> snd (snd (reg d s)) = s"
  by (auto simp: reg_eq split: sum.splits if_splits)

lemma reg_found: "fst (reg d s) = success \<Longrightarrow> lookup (ident (fill d)) (snd (snd (reg d s))) \<noteq> None"
  by (auto simp: reg_eq lookup_None items_add split: sum.splits if_splits)

lemma reg_new:
  assumes "fst (reg d s) = success" and new: "lookup (ident (fill d)) s = None"
  shows "lookup (ident (fill d)) (snd (snd (reg d s))) = Some (fill d)"
proof -
  from new have "\<not> (\<exists>x \<in> set (items s). ident x = ident (fill d))" by (simp add: lookup_None)
  moreover from new have "find (\<lambda>x. ident x = ident (fill d)) (items s) = None"
    by (simp only: lookup_eq)
  ultimately show ?thesis
    using assms(1) by (auto simp: reg_eq lookup_eq items_add find_append split: sum.splits if_splits)
qed

lemma reg_idempotent: "fst (reg d s) = success \<Longrightarrow>
    reg d (snd (snd (reg d s))) = (success, fill d, snd (snd (reg d s)))"
  by (auto simp: reg_eq items_add split: sum.splits if_splits)

lemma reg_inv_step:
  "registry_inv ident valid capacity (items s) \<Longrightarrow>
     registry_inv ident valid capacity (items (snd (snd (reg d s))))"
  by (auto simp: reg_eq items_add registry_inv_def split: sum.split)

lemma lookup_valid:
  "registry_inv ident valid capacity (items s) \<Longrightarrow> lookup i s = Some d \<Longrightarrow> valid d = success"
  by (auto simp: registry_inv_def list_all_iff dest: lookup_SomeD)

end

section \<open>Domain separation\<close>

text \<open>The prefixes of \<^verbatim>\<open>include/jitter/version.hpp\<close>, one per kind of digest.\<close>

definition kDomainMeasurement :: string where "kDomainMeasurement = ''jitter.measurement.v1''"
definition kDomainSeries :: string where "kDomainSeries = ''jitter.series.v1''"
definition kDomainPath :: string where "kDomainPath = ''jitter.path.v1''"
definition kDomainHop :: string where "kDomainHop = ''jitter.hop.v1''"
definition kDomainSource :: string where "kDomainSource = ''jitter.source.v1''"
definition kDomainGeneration :: string where "kDomainGeneration = ''jitter.generation.v1''"
definition kDomainClockDomain :: string where "kDomainClockDomain = ''jitter.clock_domain.v1''"
definition kDomainWindowPolicy :: string where "kDomainWindowPolicy = ''jitter.window_policy.v1''"
definition kDomainBaseline :: string where "kDomainBaseline = ''jitter.baseline.v1''"
definition kDomainEpisode :: string where "kDomainEpisode = ''jitter.episode.v1''"
definition kDomainMetric :: string where "kDomainMetric = ''jitter.metric.v1''"
definition kDomainPolicy :: string where "kDomainPolicy = ''jitter.instability_policy.v1''"
definition kDomainRecord :: string where "kDomainRecord = ''jitter.record.v1''"
definition kDomainTopology :: string where "kDomainTopology = ''jitter.topology.v1''"
definition kDomainBatch :: string where "kDomainBatch = ''jitter.batch.v1''"
definition kDomainSummary :: string where "kDomainSummary = ''jitter.summary.v1''"
definition kDomainEvidence :: string where "kDomainEvidence = ''jitter.evidence.v1''"
definition kDomainAttribution :: string where "kDomainAttribution = ''jitter.attribution.v1''"

lemmas domain_defs =
  kDomainMeasurement_def kDomainSeries_def kDomainPath_def kDomainHop_def
  kDomainSource_def kDomainGeneration_def kDomainClockDomain_def kDomainWindowPolicy_def
  kDomainBaseline_def kDomainEpisode_def kDomainMetric_def kDomainPolicy_def
  kDomainRecord_def kDomainTopology_def kDomainBatch_def kDomainSummary_def
  kDomainEvidence_def kDomainAttribution_def

definition digest_domains :: "string list" where
  "digest_domains =
    [kDomainMeasurement, kDomainSeries, kDomainPath, kDomainHop,
     kDomainSource, kDomainGeneration, kDomainClockDomain, kDomainWindowPolicy,
     kDomainBaseline, kDomainEpisode, kDomainMetric, kDomainPolicy,
     kDomainRecord, kDomainTopology, kDomainBatch, kDomainSummary,
     kDomainEvidence, kDomainAttribution]"

lemma distinct_digest_domains: "distinct digest_domains"
  by (simp add: digest_domains_def domain_defs)

lemma str_ok_domains: "d \<in> set digest_domains \<Longrightarrow> str_ok d"
  by (auto simp: digest_domains_def domain_defs str_ok_def)

section \<open>Origin and authority\<close>

datatype evidence_origin =
    Origin_Unknown
  | Origin_Real
  | Origin_Synthetic
  | Origin_Unsupported

fun evidence_origin_code :: "evidence_origin \<Rightarrow> u8" where
  "evidence_origin_code Origin_Unknown = 0"
| "evidence_origin_code Origin_Real = 1"
| "evidence_origin_code Origin_Synthetic = 2"
| "evidence_origin_code Origin_Unsupported = 3"

definition evidence_origin_of_code :: "u8 \<Rightarrow> evidence_origin option" where
  "evidence_origin_of_code raw =
     (if raw > evidence_origin_code Origin_Unsupported then None
      else Some ([Origin_Unknown, Origin_Real, Origin_Synthetic,
                 Origin_Unsupported] ! unat raw))"

fun evidence_origin_text :: "evidence_origin \<Rightarrow> string" where
  "evidence_origin_text Origin_Unknown = ''unknown''"
| "evidence_origin_text Origin_Real = ''real''"
| "evidence_origin_text Origin_Synthetic = ''synthetic''"
| "evidence_origin_text Origin_Unsupported = ''unsupported''"

definition parse_evidence_origin :: "string \<Rightarrow> evidence_origin option" where
  "parse_evidence_origin v =
     (if v = ''unknown'' then Some Origin_Unknown
      else if v = ''real'' then Some Origin_Real
      else if v = ''synthetic'' then Some Origin_Synthetic
      else if v = ''unsupported'' then Some Origin_Unsupported
      else None)"

datatype source_authority =
    Authority_Unknown
  | Authority_Simulated
  | Authority_Advisory
  | Authority_Corroborating
  | Authority_Authoritative

fun source_authority_code :: "source_authority \<Rightarrow> u8" where
  "source_authority_code Authority_Unknown = 0"
| "source_authority_code Authority_Simulated = 1"
| "source_authority_code Authority_Advisory = 2"
| "source_authority_code Authority_Corroborating = 3"
| "source_authority_code Authority_Authoritative = 4"

definition source_authority_of_code :: "u8 \<Rightarrow> source_authority option" where
  "source_authority_of_code raw =
     (if raw > source_authority_code Authority_Authoritative then None
      else Some ([Authority_Unknown, Authority_Simulated, Authority_Advisory,
                 Authority_Corroborating, Authority_Authoritative] ! unat raw))"

fun source_authority_text :: "source_authority \<Rightarrow> string" where
  "source_authority_text Authority_Unknown = ''unknown''"
| "source_authority_text Authority_Simulated = ''simulated''"
| "source_authority_text Authority_Advisory = ''advisory''"
| "source_authority_text Authority_Corroborating = ''corroborating''"
| "source_authority_text Authority_Authoritative = ''authoritative''"

definition parse_source_authority :: "string \<Rightarrow> source_authority option" where
  "parse_source_authority v =
     (if v = ''unknown'' then Some Authority_Unknown
      else if v = ''simulated'' then Some Authority_Simulated
      else if v = ''advisory'' then Some Authority_Advisory
      else if v = ''corroborating'' then Some Authority_Corroborating
      else if v = ''authoritative'' then Some Authority_Authoritative
      else None)"

definition authority_rank :: "source_authority \<Rightarrow> u8" where
  "authority_rank authority = source_authority_code authority"

interpretation evidence_origin_enum: u8_enum evidence_origin_code evidence_origin_of_code
proof
  fix x
  show "evidence_origin_of_code (evidence_origin_code x) = Some x" by (cases x) (simp_all add: evidence_origin_of_code_def)
qed

interpretation evidence_origin_names: text_enum evidence_origin_text parse_evidence_origin
proof
  fix x
  show "parse_evidence_origin (evidence_origin_text x) = Some x" by (cases x) (simp_all add: parse_evidence_origin_def)
qed

interpretation source_authority_enum: u8_enum source_authority_code source_authority_of_code
proof
  fix x
  show "source_authority_of_code (source_authority_code x) = Some x" by (cases x) (simp_all add: source_authority_of_code_def)
qed

interpretation source_authority_names: text_enum source_authority_text parse_source_authority
proof
  fix x
  show "parse_source_authority (source_authority_text x) = Some x" by (cases x) (simp_all add: parse_source_authority_def)
qed

section \<open>Counters\<close>

text \<open>The tag of \<^verbatim>\<open>Counter\<close> only separates types; every counter is its 64-bit value.\<close>

type_synonym counter = u64

definition is_unset :: "counter \<Rightarrow> bool" where
  "is_unset c \<longleftrightarrow> c = 0"

definition next_counter :: "counter \<Rightarrow> counter" where
  "next_counter c = (if c = u64_max then u64_max else c + 1)"

lemma u64_max_minus: "u64_max = - 1"
proof -
  have "u64_max + 1 = 0" by (simp add: u64_max_def)
  then show ?thesis by (simp only: eq_neg_iff_add_eq_0)
qed

lemma next_counter_set [simp]: "next_counter c \<noteq> 0"
proof (cases "c = u64_max")
  case False
  then have "c + 1 \<noteq> 0" by (simp add: u64_max_minus eq_neg_iff_add_eq_0 [symmetric])
  with False show ?thesis by (simp add: next_counter_def)
qed (simp add: next_counter_def u64_max_def)

lemma u64_le_max [simp]: "c \<le> u64_max"
  by (simp add: u64_max_def word_le_nat_alt) (use unat_u64_bound [of c] in linarith)

lemma next_counter_less: "c < u64_max \<Longrightarrow> c < next_counter c"
proof -
  assume c: "c < u64_max"
  then have "unat c < 18446744073709551615" by (simp add: word_less_nat_alt u64_max_def)
  moreover from this have "unat (c + 1) = unat c + 1" by (simp add: unat_word_ariths)
  ultimately show ?thesis using c by (auto simp: next_counter_def word_less_nat_alt)
qed

lemma next_counter_le: "c \<le> next_counter c"
  using next_counter_less [of c] by (cases "c = u64_max") (auto simp: next_counter_def order_less_le)

section \<open>Provenance\<close>

record provenance =
  pv_source :: source_id
  pv_incarnation :: counter
  pv_epoch :: counter
  pv_sequence :: counter
  pv_authority :: source_authority
  pv_origin :: evidence_origin
  pv_ingest_path :: string

definition is_synthetic :: "provenance \<Rightarrow> bool" where
  "is_synthetic p \<longleftrightarrow> pv_origin p = Origin_Synthetic"

definition is_real :: "provenance \<Rightarrow> bool" where
  "is_real p \<longleftrightarrow> pv_origin p = Origin_Real"

definition describe_provenance :: "provenance \<Rightarrow> string" where
  "describe_provenance p =
     ''source='' @ id_hex (pv_source p)
     @ '' incarnation='' @ u64_to_string (pv_incarnation p)
     @ '' epoch='' @ u64_to_string (pv_epoch p)
     @ '' sequence='' @ u64_to_string (pv_sequence p)
     @ '' authority='' @ source_authority_text (pv_authority p)
     @ '' origin='' @ evidence_origin_text (pv_origin p)
     @ (if pv_ingest_path p \<noteq> [] then '' path='' @ pv_ingest_path p else [])"

end
