(* ===== verification/Clock.thy ===== *)
theory Clock
  imports Provenance
begin

text \<open>
  Clock domains, declared equivalences and the comparability of readings:
  \<^verbatim>\<open>include/jitter/time.hpp\<close> and \<^verbatim>\<open>src/time.cpp\<close>. The model of a \<^verbatim>\<open>ClockModel\<close>
  object is a record of its policy and its two vectors. A pointer to a descriptor is an option.
\<close>

section \<open>Units and kinds\<close>

datatype time_unit =
    Unit_Unknown
  | Unit_Nanoseconds
  | Unit_Microseconds
  | Unit_Milliseconds
  | Unit_Seconds
  | Unit_CounterTicks

fun time_unit_code :: "time_unit \<Rightarrow> u8" where
  "time_unit_code Unit_Unknown = 0"
| "time_unit_code Unit_Nanoseconds = 1"
| "time_unit_code Unit_Microseconds = 2"
| "time_unit_code Unit_Milliseconds = 3"
| "time_unit_code Unit_Seconds = 4"
| "time_unit_code Unit_CounterTicks = 5"

definition time_unit_of_code :: "u8 \<Rightarrow> time_unit option" where
  "time_unit_of_code raw =
     (if raw > time_unit_code Unit_CounterTicks then None
      else Some ([Unit_Unknown, Unit_Nanoseconds, Unit_Microseconds,
                 Unit_Milliseconds, Unit_Seconds, Unit_CounterTicks] ! unat raw))"

fun time_unit_text :: "time_unit \<Rightarrow> string" where
  "time_unit_text Unit_Unknown = ''unknown''"
| "time_unit_text Unit_Nanoseconds = ''nanoseconds''"
| "time_unit_text Unit_Microseconds = ''microseconds''"
| "time_unit_text Unit_Milliseconds = ''milliseconds''"
| "time_unit_text Unit_Seconds = ''seconds''"
| "time_unit_text Unit_CounterTicks = ''counter_ticks''"

definition parse_time_unit :: "string \<Rightarrow> time_unit option" where
  "parse_time_unit v =
     (if v = ''unknown'' then Some Unit_Unknown
      else if v = ''nanoseconds'' \<or> v = ''ns'' then Some Unit_Nanoseconds
      else if v = ''microseconds'' \<or> v = ''us'' then Some Unit_Microseconds
      else if v = ''milliseconds'' \<or> v = ''ms'' then Some Unit_Milliseconds
      else if v = ''seconds'' \<or> v = ''s'' then Some Unit_Seconds
      else if v = ''counter_ticks'' \<or> v = ''ticks'' then Some Unit_CounterTicks
      else None)"

fun nanos_per_unit :: "time_unit \<Rightarrow> i64 option" where
  "nanos_per_unit Unit_Nanoseconds = Some 1"
| "nanos_per_unit Unit_Microseconds = Some 1000"
| "nanos_per_unit Unit_Milliseconds = Some 1000000"
| "nanos_per_unit Unit_Seconds = Some 1000000000"
| "nanos_per_unit Unit_Unknown = None"
| "nanos_per_unit Unit_CounterTicks = None"

datatype clock_kind =
    Clock_Unknown
  | Clock_MonotonicLocal
  | Clock_WallClockUtc
  | Clock_HardwareCounter
  | Clock_Synchronized
  | Clock_SourceInternal
  | Clock_Synthetic

fun clock_kind_code :: "clock_kind \<Rightarrow> u8" where
  "clock_kind_code Clock_Unknown = 0"
| "clock_kind_code Clock_MonotonicLocal = 1"
| "clock_kind_code Clock_WallClockUtc = 2"
| "clock_kind_code Clock_HardwareCounter = 3"
| "clock_kind_code Clock_Synchronized = 4"
| "clock_kind_code Clock_SourceInternal = 5"
| "clock_kind_code Clock_Synthetic = 6"

definition clock_kind_of_code :: "u8 \<Rightarrow> clock_kind option" where
  "clock_kind_of_code raw =
     (if raw > clock_kind_code Clock_Synthetic then None
      else Some ([Clock_Unknown, Clock_MonotonicLocal, Clock_WallClockUtc,
                 Clock_HardwareCounter, Clock_Synchronized, Clock_SourceInternal,
                 Clock_Synthetic] ! unat raw))"

fun clock_kind_text :: "clock_kind \<Rightarrow> string" where
  "clock_kind_text Clock_Unknown = ''unknown''"
| "clock_kind_text Clock_MonotonicLocal = ''monotonic_local''"
| "clock_kind_text Clock_WallClockUtc = ''wall_clock_utc''"
| "clock_kind_text Clock_HardwareCounter = ''hardware_counter''"
| "clock_kind_text Clock_Synchronized = ''synchronized''"
| "clock_kind_text Clock_SourceInternal = ''source_internal''"
| "clock_kind_text Clock_Synthetic = ''synthetic''"

definition parse_clock_kind :: "string \<Rightarrow> clock_kind option" where
  "parse_clock_kind v =
     (if v = ''unknown'' then Some Clock_Unknown
      else if v = ''monotonic_local'' then Some Clock_MonotonicLocal
      else if v = ''wall_clock_utc'' then Some Clock_WallClockUtc
      else if v = ''hardware_counter'' then Some Clock_HardwareCounter
      else if v = ''synchronized'' then Some Clock_Synchronized
      else if v = ''source_internal'' then Some Clock_SourceInternal
      else if v = ''synthetic'' then Some Clock_Synthetic
      else None)"

datatype comparability_verdict =
    Verdict_Comparable
  | Verdict_Incomparable
  | Verdict_Unknown

fun comparability_verdict_code :: "comparability_verdict \<Rightarrow> u8" where
  "comparability_verdict_code Verdict_Comparable = 0"
| "comparability_verdict_code Verdict_Incomparable = 1"
| "comparability_verdict_code Verdict_Unknown = 2"

fun comparability_verdict_text :: "comparability_verdict \<Rightarrow> string" where
  "comparability_verdict_text Verdict_Comparable = ''comparable''"
| "comparability_verdict_text Verdict_Incomparable = ''incomparable''"
| "comparability_verdict_text Verdict_Unknown = ''unknown''"

interpretation time_unit_enum: u8_enum time_unit_code time_unit_of_code
proof
  fix x
  show "time_unit_of_code (time_unit_code x) = Some x" by (cases x) (simp_all add: time_unit_of_code_def)
qed

interpretation time_unit_names: text_enum time_unit_text parse_time_unit
proof
  fix x
  show "parse_time_unit (time_unit_text x) = Some x" by (cases x) (simp_all add: parse_time_unit_def)
qed
interpretation clock_kind_enum: u8_enum clock_kind_code clock_kind_of_code
proof
  fix x
  show "clock_kind_of_code (clock_kind_code x) = Some x" by (cases x) (simp_all add: clock_kind_of_code_def)
qed

interpretation clock_kind_names: text_enum clock_kind_text parse_clock_kind
proof
  fix x
  show "parse_clock_kind (clock_kind_text x) = Some x" by (cases x) (simp_all add: parse_clock_kind_def)
qed

section \<open>Descriptors\<close>

record clock_domain =
  cd_id :: clock_domain_id
  cd_name :: string
  cd_kind :: clock_kind
  cd_unit :: time_unit
  cd_epoch_note :: string
  cd_declared_accuracy_ns :: i64
  cd_declared_utc_aligned :: bool
  cd_owner :: source_id

record time_point =
  tp_domain :: clock_domain_id
  tp_ticks :: i64

record comparability_assessment =
  ca_verdict :: comparability_verdict
  ca_max_offset_ns :: i64
  ca_reason :: string

record clock_equivalence =
  ce_a :: clock_domain_id
  ce_b :: clock_domain_id
  ce_max_offset_ns :: i64
  ce_authority :: source_authority
  ce_justification :: string
  ce_valid_until_utc_ns :: "i64 option"

record comparability_policy =
  cp_minimum_authority :: source_authority
  cp_max_accepted_offset_ns :: i64
  cp_require_convertible_units :: bool

record age_assessment =
  ag_ingest_age_ns :: "i64 option"
  ag_observation_age_ns :: "i64 option"
  ag_in_domain_span_ns :: "i64 option"
  ag_comparability :: comparability_verdict
  ag_reason :: string

definition default_comparability_policy :: comparability_policy where
  "default_comparability_policy =
     \<lparr>cp_minimum_authority = Authority_Corroborating, cp_max_accepted_offset_ns = 1000000,
      cp_require_convertible_units = True\<rparr>"

definition tp_is_nil :: "time_point \<Rightarrow> bool" where
  "tp_is_nil t \<longleftrightarrow> id_is_nil (tp_domain t)"

definition clock_domain_fields :: "clock_domain \<Rightarrow> bytes list" where
  "clock_domain_fields d =
     [enc_str kDomainClockDomain, enc_str (cd_name d), enc_u8 (clock_kind_code (cd_kind d)),
      enc_u8 (time_unit_code (cd_unit d)), enc_str (cd_epoch_note d),
      enc_i64 (cd_declared_accuracy_ns d), enc_bool (cd_declared_utc_aligned d), enc_id (cd_owner d)]"

definition make_clock_domain_id :: "clock_domain \<Rightarrow> clock_domain_id" where
  "make_clock_domain_id d = builder_id (clock_domain_fields d)"

definition kMaxClockNameBytes :: nat where "kMaxClockNameBytes = 128"
definition kMaxEpochNoteBytes :: nat where "kMaxEpochNoteBytes = 256"
definition kMaxJustificationBytes :: nat where "kMaxJustificationBytes = 512"

definition validate_clock_domain :: "clock_domain \<Rightarrow> status" where
  "validate_clock_domain d =
     (if cd_name d = '''' then fail Ec_InvalidArgument ''clock domain name must not be empty''
      else if length (cd_name d) > kMaxClockNameBytes
      then fail Ec_LimitExceeded ''clock domain name is too long''
      else if length (cd_epoch_note d) > kMaxEpochNoteBytes
      then fail Ec_LimitExceeded ''clock domain epoch note is too long''
      else if cd_declared_accuracy_ns d < -1
      then fail Ec_InvalidArgument ''declared accuracy must be -1 (undeclared) or non negative''
      else if \<not> id_is_nil (cd_id d) \<and> cd_id d \<noteq> make_clock_domain_id d
      then fail Ec_InvalidArgument ''clock domain id does not match its content addressed identity''
      else success)"

definition local_clock_descriptor :: clock_domain where
  "local_clock_descriptor =
     (let d = \<lparr>cd_id = nil_id, cd_name = ''local.utc'', cd_kind = Clock_WallClockUtc,
               cd_unit = Unit_Nanoseconds,
               cd_epoch_note = ''unix epoch, runtime local reference clock'',
               cd_declared_accuracy_ns = -1, cd_declared_utc_aligned = True, cd_owner = nil_id\<rparr>
      in d\<lparr>cd_id := make_clock_domain_id d\<rparr>)"

definition local_clock_id :: clock_domain_id where
  "local_clock_id = cd_id local_clock_descriptor"

section \<open>The clock model\<close>

record clock_model =
  cm_policy :: comparability_policy
  cm_domains :: "clock_domain list"
  cm_equivalences :: "clock_equivalence list"

definition clock_model_init :: "comparability_policy \<Rightarrow> clock_model" where
  "clock_model_init policy = \<lparr>cm_policy = policy, cm_domains = [], cm_equivalences = []\<rparr>"

definition set_comparability_policy :: "comparability_policy \<Rightarrow> clock_model \<Rightarrow> clock_model" where
  "set_comparability_policy policy m = m\<lparr>cm_policy := policy\<rparr>"

definition find_domain :: "clock_domain_id \<Rightarrow> clock_model \<Rightarrow> clock_domain option" where
  "find_domain i m = find (\<lambda>d. cd_id d = i) (cm_domains m)"

definition has_domain :: "clock_domain_id \<Rightarrow> clock_model \<Rightarrow> bool" where
  "has_domain i m \<longleftrightarrow> find_domain i m \<noteq> None"

definition domain_count :: "clock_model \<Rightarrow> nat" where
  "domain_count m = length (cm_domains m)"

definition sorted_domains :: "clock_model \<Rightarrow> clock_domain list" where
  "sorted_domains m = sort_key cd_id (cm_domains m)"

text \<open>
  The descriptor is passed by reference: its identity is filled in before validation, so the
  caller sees the filled-in descriptor whatever the status is.
\<close>

definition register_domain ::
  "clock_domain \<Rightarrow> clock_model \<Rightarrow> status \<times> clock_domain \<times> clock_model" where
  "register_domain descriptor m =
     (let d = (if id_is_nil (cd_id descriptor)
               then descriptor\<lparr>cd_id := make_clock_domain_id descriptor\<rparr> else descriptor)
      in case validate_clock_domain d of
           Inl e \<Rightarrow> (Inl e, d, m)
         | Inr _ \<Rightarrow>
             if \<exists>existing \<in> set (cm_domains m). cd_id existing = cd_id d then (success, d, m)
             else if length (cm_domains m) \<ge> kMaxClockDomains
             then (fail Ec_CapacityExceeded ''clock domain registry is full'', d, m)
             else (success, d, m\<lparr>cm_domains := cm_domains m @ [d]\<rparr>))"

definition same_pair :: "clock_equivalence \<Rightarrow> clock_domain_id \<Rightarrow> clock_domain_id \<Rightarrow> bool" where
  "same_pair e a b \<longleftrightarrow> ce_a e = a \<and> ce_b e = b \<or> ce_a e = b \<and> ce_b e = a"

definition declare_equivalence :: "clock_equivalence \<Rightarrow> clock_model \<Rightarrow> status \<times> clock_model" where
  "declare_equivalence e m =
     (if id_is_nil (ce_a e) \<or> id_is_nil (ce_b e)
      then (fail Ec_InvalidArgument ''clock equivalence requires two named domains'', m)
      else if ce_a e = ce_b e
      then (fail Ec_InvalidArgument ''clock equivalence between a domain and itself is meaningless'', m)
      else if \<not> has_domain (ce_a e) m \<or> \<not> has_domain (ce_b e) m
      then (fail Ec_NotFound ''clock equivalence references an unregistered clock domain'', m)
      else if ce_max_offset_ns e < 0
      then (fail Ec_InvalidArgument ''clock equivalence offset must be non negative'', m)
      else if ce_max_offset_ns e > cp_max_accepted_offset_ns (cm_policy m)
      then (fail Ec_PolicyViolation ''clock equivalence claims an offset larger than the accepted bound'', m)
      else if authority_rank (ce_authority e) < authority_rank (cp_minimum_authority (cm_policy m))
      then (fail Ec_PolicyViolation ''clock equivalence was declared with insufficient authority'', m)
      else if ce_justification e = ''''
      then (fail Ec_InvalidArgument ''clock equivalence requires a justification'', m)
      else if length (ce_justification e) > kMaxJustificationBytes
      then (fail Ec_LimitExceeded ''clock equivalence justification is too long'', m)
      else if \<exists>existing \<in> set (cm_equivalences m). same_pair existing (ce_a e) (ce_b e)
      then (fail Ec_Duplicate ''a clock equivalence for this pair is already declared'', m)
      else if length (cm_equivalences m) \<ge> kMaxClockDomains
      then (fail Ec_CapacityExceeded ''clock equivalence table is full'', m)
      else (success, m\<lparr>cm_equivalences := cm_equivalences m @ [e]\<rparr>))"

section \<open>Assessment\<close>

definition verdict_with :: "comparability_verdict \<Rightarrow> i64 \<Rightarrow> string \<Rightarrow> comparability_assessment" where
  "verdict_with v off r = \<lparr>ca_verdict = v, ca_max_offset_ns = off, ca_reason = r\<rparr>"

definition comparable :: "comparability_assessment \<Rightarrow> bool" where
  "comparable a \<longleftrightarrow> ca_verdict a = Verdict_Comparable"

definition declaration_expired :: "clock_equivalence \<Rightarrow> i64 \<Rightarrow> bool" where
  "declaration_expired e now \<longleftrightarrow>
     (case ce_valid_until_utc_ns e of None \<Rightarrow> False | Some until \<Rightarrow> now > until)"

text \<open>The loop over the declarations, with its two flags.\<close>

fun scan_equivalences ::
  "source_authority \<Rightarrow> clock_domain_id \<Rightarrow> clock_domain_id \<Rightarrow> i64 \<Rightarrow> bool \<Rightarrow> bool
     \<Rightarrow> clock_equivalence list \<Rightarrow> comparability_assessment" where
  "scan_equivalences minimum a b now saw_expired saw_low [] =
     verdict_with Verdict_Incomparable 0
       (if saw_expired then ''declaration_expired''
        else if saw_low then ''authority_insufficient''
        else ''distinct_undeclared_domains'')"
| "scan_equivalences minimum a b now saw_expired saw_low (e # es) =
     (if \<not> same_pair e a b then scan_equivalences minimum a b now saw_expired saw_low es
      else if declaration_expired e now then scan_equivalences minimum a b now True saw_low es
      else if authority_rank (ce_authority e) < authority_rank minimum
      then scan_equivalences minimum a b now saw_expired True es
      else verdict_with Verdict_Comparable (ce_max_offset_ns e) ''declared_equivalence'')"

definition assess_domains ::
  "clock_model \<Rightarrow> clock_domain_id \<Rightarrow> clock_domain_id \<Rightarrow> i64 \<Rightarrow> comparability_assessment" where
  "assess_domains m a b now =
     (if id_is_nil a \<or> id_is_nil b then verdict_with Verdict_Unknown 0 ''domain_unknown''
      else if a = b then
        (if find_domain a m = None then verdict_with Verdict_Unknown 0 ''domain_unknown''
         else verdict_with Verdict_Comparable 0 ''same_domain'')
      else case (find_domain a m, find_domain b m) of
             (Some left, Some right) \<Rightarrow>
               if cp_require_convertible_units (cm_policy m) \<and>
                  (nanos_per_unit (cd_unit left) = None \<or> nanos_per_unit (cd_unit right) = None)
               then verdict_with Verdict_Incomparable 0 ''unit_not_convertible''
               else scan_equivalences (cp_minimum_authority (cm_policy m)) a b now False False
                      (cm_equivalences m)
           | _ \<Rightarrow> verdict_with Verdict_Unknown 0 ''domain_unknown'')"

definition scale_to_nanos :: "i64 \<Rightarrow> time_unit \<Rightarrow> string \<Rightarrow> i64 result" where
  "scale_to_nanos ticks unit what =
     (case nanos_per_unit unit of
        None \<Rightarrow> fail Ec_Unsupported
                  (what @ '': clock unit has no declared rate and cannot be converted to time'')
      | Some scale \<Rightarrow>
          (case checked_mul_i64 ticks scale of
             None \<Rightarrow> fail Ec_Overflow (what @ '': unit conversion overflowed'')
           | Some out \<Rightarrow> Inr out))"

definition time_difference :: "clock_model \<Rightarrow> time_point \<Rightarrow> time_point \<Rightarrow> i64 \<Rightarrow> i64 result" where
  "time_difference m a b now =
     (if \<not> comparable (assess_domains m (tp_domain a) (tp_domain b) now)
      then fail Ec_Incomparable ''clock domains are not comparable, so no time difference may be formed''
      else case (find_domain (tp_domain a) m, find_domain (tp_domain b) m) of
             (Some left, Some right) \<Rightarrow>
               res_bind (scale_to_nanos (tp_ticks a) (cd_unit left) ''left reading'') (\<lambda>a_ns.
               res_bind (scale_to_nanos (tp_ticks b) (cd_unit right) ''right reading'') (\<lambda>b_ns.
                 case checked_sub_i64 b_ns a_ns of
                   None \<Rightarrow> fail Ec_Overflow ''clock difference overflowed''
                 | Some delta \<Rightarrow> Inr delta))
           | _ \<Rightarrow> fail Ec_NotFound ''clock domain is not registered'')"

definition in_domain_delta :: "time_point \<Rightarrow> time_point \<Rightarrow> i64 result" where
  "in_domain_delta a b =
     (if tp_domain a \<noteq> tp_domain b
      then fail Ec_Incomparable ''in-domain delta requires readings on the same clock domain''
      else case checked_sub_i64 (tp_ticks b) (tp_ticks a) of
             None \<Rightarrow> fail Ec_Overflow ''in-domain delta overflowed''
           | Some delta \<Rightarrow> Inr delta)"

section \<open>The manual clock\<close>

text \<open>The addition of \<^verbatim>\<open>advance\<close> is unchecked: leaving the 64-bit range is undefined (\<open>None\<close>).\<close>

definition manual_advance :: "i64 \<Rightarrow> i64 \<Rightarrow> i64 option" where
  "manual_advance now delta =
     (if delta < 0 then Some now else if i64_ok (now + delta) then Some (now + delta) else None)"

definition manual_set :: "i64 \<Rightarrow> i64 \<Rightarrow> i64" where
  "manual_set now target = (if target \<ge> now then target else now)"

section \<open>Invariant of the registry\<close>

definition clock_model_inv :: "clock_model \<Rightarrow> bool" where
  "clock_model_inv m \<longleftrightarrow>
     registry_inv cd_id validate_clock_domain kMaxClockDomains (cm_domains m) \<and>
     length (cm_equivalences m) \<le> kMaxClockDomains \<and>
     (\<forall>e \<in> set (cm_equivalences m).
        ce_a e \<noteq> ce_b e \<and> has_domain (ce_a e) m \<and> has_domain (ce_b e) m \<and>
        0 \<le> ce_max_offset_ns e \<and> ce_max_offset_ns e \<le> cp_max_accepted_offset_ns (cm_policy m) \<and>
        \<not> authority_rank (ce_authority e) < authority_rank (cp_minimum_authority (cm_policy m))) \<and>
     sorted_wrt (\<lambda>e f. \<not> same_pair e (ce_a f) (ce_b f)) (cm_equivalences m)"

lemma find_domain_Some:
  "find_domain i m = Some d \<Longrightarrow> d \<in> set (cm_domains m) \<and> cd_id d = i"
  by (auto simp: find_domain_def find_Some_iff)

lemma has_domain_iff: "has_domain i m \<longleftrightarrow> (\<exists>d \<in> set (cm_domains m). cd_id d = i)"
  by (auto simp: has_domain_def find_domain_def find_None_iff)

lemma clock_model_inv_init [simp]: "clock_model_inv (clock_model_init policy)"
  by (simp add: clock_model_inv_def clock_model_init_def registry_inv_def)

lemma validate_clock_domain_id:
  "validate_clock_domain d = success \<Longrightarrow> cd_id d = make_clock_domain_id d \<or> id_is_nil (cd_id d)"
  by (auto simp: validate_clock_domain_def split: if_splits)

interpretation clocks: registry register_domain find_domain cm_domains cd_id
  "\<lambda>d. if id_is_nil (cd_id d) then d\<lparr>cd_id := make_clock_domain_id d\<rparr> else d" validate_clock_domain
  "\<lambda>d m. m\<lparr>cm_domains := cm_domains m @ [d]\<rparr>" kMaxClockDomains
  "Error Ec_CapacityExceeded ''clock domain registry is full''"
  by unfold_locales (simp_all add: register_domain_def find_domain_def Let_def)

lemma has_domain_register:
  "has_domain i m \<Longrightarrow> has_domain i (snd (snd (register_domain d m)))"
  unfolding has_domain_def by (auto dest: clocks.lookup_keep)

lemma register_domain_frame:
  "cm_equivalences (snd (snd (register_domain d m))) = cm_equivalences m"
  "cm_policy (snd (snd (register_domain d m))) = cm_policy m"
  by (simp_all add: register_domain_def Let_def split: sum.split)

lemma register_domain_inv:
  assumes "clock_model_inv m"
  shows "clock_model_inv (snd (snd (register_domain d m)))"
  using assms clocks.reg_inv_step [of m d]
  by (simp add: clock_model_inv_def register_domain_frame has_domain_register)

lemma declare_equivalence_inv:
  assumes "clock_model_inv m"
  shows "clock_model_inv (snd (declare_equivalence e m))"
proof (cases "snd (declare_equivalence e m) = m")
  case True
  with assms show ?thesis by simp
next
  case False
  then have new: "snd (declare_equivalence e m) = m\<lparr>cm_equivalences := cm_equivalences m @ [e]\<rparr>"
    and ok: "ce_a e \<noteq> ce_b e" "has_domain (ce_a e) m" "has_domain (ce_b e) m"
      "0 \<le> ce_max_offset_ns e" "ce_max_offset_ns e \<le> cp_max_accepted_offset_ns (cm_policy m)"
      "\<not> authority_rank (ce_authority e) < authority_rank (cp_minimum_authority (cm_policy m))"
      "\<forall>f \<in> set (cm_equivalences m). \<not> same_pair f (ce_a e) (ce_b e)"
      "length (cm_equivalences m) < kMaxClockDomains"
    by (auto simp: declare_equivalence_def split: if_splits)
  then show ?thesis
    using assms unfolding new clock_model_inv_def
    by (simp add: has_domain_iff sorted_wrt_append)
qed

section \<open>Properties of assessments\<close>

lemma same_pair_swap: "same_pair e a b \<longleftrightarrow> same_pair e b a"
  by (auto simp: same_pair_def)

lemma scan_swap:
  "scan_equivalences mn a b now x l es = scan_equivalences mn b a now x l es"
  by (induction es arbitrary: x l) (simp_all add: same_pair_swap [of _ a b])

lemma assess_swap: "assess_domains m a b now = assess_domains m b a now"
  by (auto simp: assess_domains_def scan_swap [of _ a b] disj_commute split: option.split)

definition usable_declaration ::
  "source_authority \<Rightarrow> i64 \<Rightarrow> clock_domain_id \<Rightarrow> clock_domain_id \<Rightarrow> clock_equivalence \<Rightarrow> bool" where
  "usable_declaration minimum now a b e \<longleftrightarrow>
     same_pair e a b \<and> \<not> declaration_expired e now \<and>
     \<not> authority_rank (ce_authority e) < authority_rank minimum"

lemma scan_comparable:
  "comparable (scan_equivalences mn a b now x l es)
     \<longleftrightarrow> (\<exists>e \<in> set es. usable_declaration mn now a b e)"
  by (induction es arbitrary: x l)
     (auto simp: comparable_def verdict_with_def usable_declaration_def)

lemma scan_reason_low:
  "\<forall>e \<in> set es. \<not> authority_rank (ce_authority e) < authority_rank mn \<Longrightarrow>
     ca_reason (scan_equivalences mn a b now x False es) \<noteq> ''authority_insufficient''"
  by (induction es arbitrary: x) (auto simp: verdict_with_def)

lemma assess_comparable_iff:
  "comparable (assess_domains m a b now) \<longleftrightarrow>
     \<not> id_is_nil a \<and> \<not> id_is_nil b \<and>
     (case (find_domain a m, find_domain b m) of
        (Some l, Some r) \<Rightarrow>
          a = b \<or>
          ((cp_require_convertible_units (cm_policy m) \<longrightarrow>
              nanos_per_unit (cd_unit l) \<noteq> None \<and> nanos_per_unit (cd_unit r) \<noteq> None) \<and>
           (\<exists>e \<in> set (cm_equivalences m).
              usable_declaration (cp_minimum_authority (cm_policy m)) now a b e))
      | _ \<Rightarrow> False)"
proof -
  have [simp]: "comparable (verdict_with v off r) \<longleftrightarrow> v = Verdict_Comparable" for v off r
    by (simp add: comparable_def verdict_with_def)
  show ?thesis
    by (auto simp: assess_domains_def scan_comparable split: option.split)
qed

lemma scan_offset_bound:
  "\<forall>e \<in> set es. 0 \<le> ce_max_offset_ns e \<and> ce_max_offset_ns e \<le> bound \<Longrightarrow> 0 \<le> bound \<Longrightarrow>
     0 \<le> ca_max_offset_ns (scan_equivalences mn a b now x l es) \<and>
     ca_max_offset_ns (scan_equivalences mn a b now x l es) \<le> bound"
  by (induction es arbitrary: x l) (auto simp: verdict_with_def)

lemma scale_to_nanos_eq:
  assumes "nanos_per_unit unit = Some k" and "i64_ok ticks"
  shows "scale_to_nanos ticks unit what =
           (if i64_ok (ticks * k) then Inr (ticks * k)
            else fail Ec_Overflow (what @ '': unit conversion overflowed''))"
proof -
  have "i64_ok k" using assms(1) by (cases unit) (auto simp: i64_bounds)
  with assms show ?thesis by (simp add: scale_to_nanos_def checked_mul_i64_eq)
qed

lemma scale_to_nanos_unique:
  "scale_to_nanos t u w = Inr x \<Longrightarrow> scale_to_nanos t u w' = Inr y \<Longrightarrow> x = y"
  by (auto simp: scale_to_nanos_def split: option.splits)

lemma sub_case_Inr:
  "(case checked_sub_i64 a b of None \<Rightarrow> Inl e | Some d \<Rightarrow> Inr d) = Inr c \<longleftrightarrow> checked_sub_i64 a b = Some c"
  by (simp split: option.split)

lemma time_difference_InrE:
  assumes "time_difference m a b now = Inr delta"
  obtains l r x y where "find_domain (tp_domain a) m = Some l" "find_domain (tp_domain b) m = Some r"
    "comparable (assess_domains m (tp_domain a) (tp_domain b) now)"
    "scale_to_nanos (tp_ticks a) (cd_unit l) ''left reading'' = Inr x"
    "scale_to_nanos (tp_ticks b) (cd_unit r) ''right reading'' = Inr y" "delta = y - x"
proof -
  have c: "comparable (assess_domains m (tp_domain a) (tp_domain b) now)"
    using assms by (auto simp: time_difference_def split: if_splits)
  with assms obtain l r where lr: "find_domain (tp_domain a) m = Some l" "find_domain (tp_domain b) m = Some r"
    by (auto simp: time_difference_def split: option.split_asm)
  with assms c obtain x y where "scale_to_nanos (tp_ticks a) (cd_unit l) ''left reading'' = Inr x"
    "scale_to_nanos (tp_ticks b) (cd_unit r) ''right reading'' = Inr y" "checked_sub_i64 y x = Some delta"
    by (auto simp: time_difference_def res_bind_eq_Inr sub_case_Inr)
  with that c lr show thesis by (blast dest: checked_sub_i64_Some)
qed

lemma time_difference_antisym:
  assumes "time_difference m a b now = Inr d" and "time_difference m b a now = Inr d'"
  shows "d' = - d"
proof -
  from assms(1) obtain l r x y where 1: "find_domain (tp_domain a) m = Some l"
    "find_domain (tp_domain b) m = Some r"
    "scale_to_nanos (tp_ticks a) (cd_unit l) ''left reading'' = Inr x"
    "scale_to_nanos (tp_ticks b) (cd_unit r) ''right reading'' = Inr y" "d = y - x"
    by (rule time_difference_InrE)
  from assms(2) obtain l' r' x' y' where 2: "find_domain (tp_domain b) m = Some l'"
    "find_domain (tp_domain a) m = Some r'"
    "scale_to_nanos (tp_ticks b) (cd_unit l') ''left reading'' = Inr x'"
    "scale_to_nanos (tp_ticks a) (cd_unit r') ''right reading'' = Inr y'" "d' = y' - x'"
    by (rule time_difference_InrE)
  have "x' = y" "y' = x"
    using 1 2 scale_to_nanos_unique [OF 1(4), of "''left reading''" x']
      scale_to_nanos_unique [OF 1(3), of "''right reading''" y'] by simp_all
  with 1 2 show ?thesis by simp
qed

section \<open>Properties\<close>

text \<open>The operations a client can apply to a clock model, in any order.\<close>

datatype clock_operation = Op_Register clock_domain | Op_Declare clock_equivalence

fun clock_step :: "clock_operation \<Rightarrow> clock_model \<Rightarrow> clock_model" where
  "clock_step (Op_Register d) m = snd (snd (register_domain d m))"
| "clock_step (Op_Declare e) m = snd (declare_equivalence e m)"

lemma clock_steps_inv: "clock_model_inv m \<Longrightarrow> clock_model_inv (fold clock_step ops m)"
proof (induction ops arbitrary: m)
  case (Cons x xs)
  then show ?case
    by (cases x) (auto intro: register_domain_inv declare_equivalence_inv)
qed simp

lemma clock_step_policy [simp]: "cm_policy (clock_step x m) = cm_policy m"
  by (cases x)
    (simp_all add: register_domain_def declare_equivalence_def Let_def split: sum.split)

lemma clock_steps_policy [simp]: "cm_policy (fold clock_step ops m) = cm_policy m"
  by (induction ops arbitrary: m) simp_all

text \<open>
  After any sequence of registrations and declarations, successful or refused, the model
  holds distinct and valid domains within its capacity, at most one declaration per unordered
  pair, and only declarations between two registered domains whose offset and authority are
  within the policy.
\<close>

lemma clock_model_well_formed:
  "clock_model_inv (fold clock_step ops (clock_model_init policy)) \<and>
   cm_policy (fold clock_step ops (clock_model_init policy)) = policy"
  by (intro conjI clock_steps_inv clock_model_inv_init) (simp add: clock_model_init_def)

text \<open>
  Two clock domains are comparable exactly when both are named and registered and they are
  either the same domain or related by an unexpired declaration of sufficient authority (with
  convertible units where the policy asks for them); the relation is symmetric.
\<close>

lemma comparable_exactly:
  "comparable (assess_domains m a b now) = comparable (assess_domains m b a now) \<and>
   (comparable (assess_domains m a b now) \<longleftrightarrow>
     \<not> id_is_nil a \<and> \<not> id_is_nil b \<and>
     (case (find_domain a m, find_domain b m) of
        (Some l, Some r) \<Rightarrow>
          a = b \<or>
          ((cp_require_convertible_units (cm_policy m) \<longrightarrow>
              nanos_per_unit (cd_unit l) \<noteq> None \<and> nanos_per_unit (cd_unit r) \<noteq> None) \<and>
           (\<exists>e \<in> set (cm_equivalences m).
              usable_declaration (cp_minimum_authority (cm_policy m)) now a b e))
      | _ \<Rightarrow> False))"
  by (subst assess_swap) (simp only: assess_comparable_iff simp_thms)

definition plain_domain :: "clock_domain_id \<Rightarrow> time_unit \<Rightarrow> clock_domain" where
  "plain_domain i u =
     \<lparr>cd_id = i, cd_name = ''c'', cd_kind = Clock_MonotonicLocal, cd_unit = u, cd_epoch_note = '''',
      cd_declared_accuracy_ns = 0, cd_declared_utc_aligned = False, cd_owner = nil_id\<rparr>"

definition two_clocks :: clock_model where
  "two_clocks =
     \<lparr>cm_policy = default_comparability_policy,
      cm_domains = [plain_domain (StrongId 1) Unit_Microseconds, plain_domain (StrongId 2) Unit_Milliseconds],
      cm_equivalences = [\<lparr>ce_a = StrongId 1, ce_b = StrongId 2, ce_max_offset_ns = 10,
        ce_authority = Authority_Authoritative, ce_justification = ''j'', ce_valid_until_utc_ns = None\<rparr>]\<rparr>"

text \<open>
  A time difference is formed exactly between comparable readings whose units have a rate and
  whose conversion and subtraction stay within 64 bits; it is then the exact difference in
  nanoseconds, so no overflow or unit confusion can produce a value.
\<close>

lemma time_difference_exact:
  assumes "i64_ok (tp_ticks a)" "i64_ok (tp_ticks b)"
  shows "time_difference m a b now = Inr d \<longleftrightarrow>
     comparable (assess_domains m (tp_domain a) (tp_domain b) now) \<and>
     (\<exists>l r ka kb. find_domain (tp_domain a) m = Some l \<and> find_domain (tp_domain b) m = Some r \<and>
        nanos_per_unit (cd_unit l) = Some ka \<and> nanos_per_unit (cd_unit r) = Some kb \<and>
        i64_ok (tp_ticks a * ka) \<and> i64_ok (tp_ticks b * kb) \<and>
        d = tp_ticks b * kb - tp_ticks a * ka \<and> i64_ok d)"
proof -
  have scale: "scale_to_nanos t u w = Inr x \<longleftrightarrow>
      (\<exists>k. nanos_per_unit u = Some k \<and> i64_ok (t * k) \<and> x = t * k)" if "i64_ok t" for t u w x
    using scale_to_nanos_eq [OF _ that, of u] by (cases "nanos_per_unit u") (auto simp: scale_to_nanos_def)
  show ?thesis
    unfolding time_difference_def
    by (cases "find_domain (tp_domain a) m"; cases "find_domain (tp_domain b) m")
      (auto simp: res_bind_eq_Inr scale assms checked_sub_i64_eq split: if_splits)
qed

lemma time_difference_exact_witness:
  "time_difference two_clocks \<lparr>tp_domain = StrongId 1, tp_ticks = 5000\<rparr>
     \<lparr>tp_domain = StrongId 2, tp_ticks = 7\<rparr> 0 = Inr 2000000"
  using time_difference_exact [of "\<lparr>tp_domain = StrongId 1, tp_ticks = 5000\<rparr>"
      "\<lparr>tp_domain = StrongId 2, tp_ticks = 7\<rparr>" two_clocks 0 2000000]
  by (simp add: i64_bounds two_clocks_def plain_domain_def find_domain_def assess_domains_def
      default_comparability_policy_def comparable_def verdict_with_def id_is_nil_iff nil_id_def same_pair_def
      declaration_expired_def authority_rank_def)

lemma comparable_exactly_witness:
  "comparable (assess_domains two_clocks (StrongId 1) (StrongId 2) 0) \<and>
   \<not> comparable (assess_domains two_clocks (StrongId 1) (StrongId 3) 0)"
  using conjunct2 [OF comparable_exactly [of two_clocks "StrongId 1" "StrongId 2" 0]]
    conjunct2 [OF comparable_exactly [of two_clocks "StrongId 1" "StrongId 3" 0]]
  by (simp add: two_clocks_def plain_domain_def find_domain_def default_comparability_policy_def
      id_is_nil_iff nil_id_def usable_declaration_def same_pair_def declaration_expired_def authority_rank_def)

end
