(* ===== verification/Source.thy ===== *)
theory Source
  imports Clock
begin

text \<open>
  Observation sources, the replay guard of each source, and measured series:
  \<^verbatim>\<open>include/jitter/source.hpp\<close>, \<^verbatim>\<open>src/source.cpp\<close>, \<^verbatim>\<open>include/jitter/series.hpp\<close> and
  \<^verbatim>\<open>src/series.cpp\<close>. Both catalogs are registries; the guard is a state that only accepted
  observations advance.
\<close>

section \<open>Sources\<close>

record source_descriptor =
  sd_id :: source_id
  sd_name :: string
  sd_authority :: source_authority
  sd_origin :: evidence_origin
  sd_clock_domain :: clock_domain_id
  sd_description :: string
  sd_protocol_revision :: u32

definition source_parts :: "source_descriptor \<Rightarrow> bytes list" where
  "source_parts d =
     [enc_str kDomainSource, enc_str (sd_name d), enc_u8 (source_authority_code (sd_authority d)),
      enc_u8 (evidence_origin_code (sd_origin d)), enc_id (sd_clock_domain d),
      enc_u32 (sd_protocol_revision d), enc_str (sd_description d)]"

definition make_source_id :: "source_descriptor \<Rightarrow> source_id" where
  "make_source_id d = builder_id (source_parts d)"

definition kMaxSourceNameBytes :: nat where "kMaxSourceNameBytes = 128"
definition kMaxSourceDescriptionBytes :: nat where "kMaxSourceDescriptionBytes = 512"

definition validate_source :: "source_descriptor \<Rightarrow> status" where
  "validate_source d =
     (if sd_name d = '''' then fail Ec_InvalidArgument ''source name must not be empty''
      else if length (sd_name d) > kMaxSourceNameBytes
      then fail Ec_LimitExceeded ''source name is too long''
      else if length (sd_description d) > kMaxSourceDescriptionBytes
      then fail Ec_LimitExceeded ''source description is too long''
      else if sd_protocol_revision d = 0
      then fail Ec_InvalidArgument ''source protocol revision must be non zero''
      else if \<not> id_is_nil (sd_id d) \<and> sd_id d \<noteq> make_source_id d
      then fail Ec_InvalidArgument ''source id does not match its content addressed identity''
      else success)"

type_synonym source_registry = "source_descriptor list"

definition complete_source :: "source_descriptor \<Rightarrow> source_descriptor" where
  "complete_source d = (if id_is_nil (sd_id d) then d\<lparr>sd_id := make_source_id d\<rparr> else d)"

definition register_source ::
  "source_descriptor \<Rightarrow> source_registry \<Rightarrow> status \<times> source_descriptor \<times> source_registry" where
  "register_source descriptor sources =
     (let d = complete_source descriptor
      in case validate_source d of
           Inl e \<Rightarrow> (Inl e, d, sources)
         | Inr _ \<Rightarrow>
             if \<exists>existing \<in> set sources. sd_id existing = sd_id d then (success, d, sources)
             else if length sources \<ge> kMaxSources
             then (fail Ec_CapacityExceeded ''source registry is full'', d, sources)
             else (success, d, sources @ [d]))"

definition find_source :: "source_id \<Rightarrow> source_registry \<Rightarrow> source_descriptor option" where
  "find_source i sources = find (\<lambda>d. sd_id d = i) sources"

definition authority_of :: "source_id \<Rightarrow> source_registry \<Rightarrow> source_authority" where
  "authority_of i sources =
     (case find_source i sources of None \<Rightarrow> Authority_Unknown | Some d \<Rightarrow> sd_authority d)"

definition origin_of :: "source_id \<Rightarrow> source_registry \<Rightarrow> evidence_origin" where
  "origin_of i sources =
     (case find_source i sources of None \<Rightarrow> Origin_Unknown | Some d \<Rightarrow> sd_origin d)"

definition sorted_sources :: "source_registry \<Rightarrow> source_descriptor list" where
  "sorted_sources sources = sort_key sd_id sources"

interpretation srcs: registry register_source find_source "\<lambda>s. s" sd_id complete_source validate_source
  "\<lambda>d s. s @ [d]" kMaxSources "Error Ec_CapacityExceeded ''source registry is full''"
  by unfold_locales (simp_all add: register_source_def find_source_def Let_def)

section \<open>Series\<close>

datatype measurement_kind =
    Kind_Unknown
  | Kind_OneWayDelay
  | Kind_RoundTripTime
  | Kind_InterArrivalGap
  | Kind_QueueDwell
  | Kind_ServiceTime
  | Kind_CompletionLatency
  | Kind_ReplicationLag
  | Kind_Custom

fun measurement_kind_code :: "measurement_kind \<Rightarrow> u8" where
  "measurement_kind_code Kind_Unknown = 0"
| "measurement_kind_code Kind_OneWayDelay = 1"
| "measurement_kind_code Kind_RoundTripTime = 2"
| "measurement_kind_code Kind_InterArrivalGap = 3"
| "measurement_kind_code Kind_QueueDwell = 4"
| "measurement_kind_code Kind_ServiceTime = 5"
| "measurement_kind_code Kind_CompletionLatency = 6"
| "measurement_kind_code Kind_ReplicationLag = 7"
| "measurement_kind_code Kind_Custom = 8"

definition measurement_kind_of_code :: "u8 \<Rightarrow> measurement_kind option" where
  "measurement_kind_of_code raw =
     (if raw > measurement_kind_code Kind_Custom then None
      else Some ([Kind_Unknown, Kind_OneWayDelay, Kind_RoundTripTime,
                 Kind_InterArrivalGap, Kind_QueueDwell, Kind_ServiceTime,
                 Kind_CompletionLatency, Kind_ReplicationLag, Kind_Custom] ! unat raw))"

fun measurement_kind_text :: "measurement_kind \<Rightarrow> string" where
  "measurement_kind_text Kind_Unknown = ''unknown''"
| "measurement_kind_text Kind_OneWayDelay = ''one_way_delay''"
| "measurement_kind_text Kind_RoundTripTime = ''round_trip_time''"
| "measurement_kind_text Kind_InterArrivalGap = ''inter_arrival_gap''"
| "measurement_kind_text Kind_QueueDwell = ''queue_dwell''"
| "measurement_kind_text Kind_ServiceTime = ''service_time''"
| "measurement_kind_text Kind_CompletionLatency = ''completion_latency''"
| "measurement_kind_text Kind_ReplicationLag = ''replication_lag''"
| "measurement_kind_text Kind_Custom = ''custom''"

definition parse_measurement_kind :: "string \<Rightarrow> measurement_kind option" where
  "parse_measurement_kind v =
     (if v = ''unknown'' then Some Kind_Unknown
      else if v = ''one_way_delay'' then Some Kind_OneWayDelay
      else if v = ''round_trip_time'' then Some Kind_RoundTripTime
      else if v = ''inter_arrival_gap'' then Some Kind_InterArrivalGap
      else if v = ''queue_dwell'' then Some Kind_QueueDwell
      else if v = ''service_time'' then Some Kind_ServiceTime
      else if v = ''completion_latency'' then Some Kind_CompletionLatency
      else if v = ''replication_lag'' then Some Kind_ReplicationLag
      else if v = ''custom'' then Some Kind_Custom
      else None)"

interpretation measurement_kind_enum: u8_enum measurement_kind_code measurement_kind_of_code
proof
  fix x
  show "measurement_kind_of_code (measurement_kind_code x) = Some x" by (cases x) (simp_all add: measurement_kind_of_code_def)
qed

interpretation measurement_kind_names: text_enum measurement_kind_text parse_measurement_kind
proof
  fix x
  show "parse_measurement_kind (measurement_kind_text x) = Some x" by (cases x) (simp_all add: parse_measurement_kind_def)
qed

record series_descriptor =
  se_id :: series_id
  se_name :: string
  se_kind :: measurement_kind
  se_unit :: time_unit
  se_path :: path_id
  se_clock_domain :: clock_domain_id
  se_origin :: evidence_origin
  se_description :: string

definition series_parts :: "series_descriptor \<Rightarrow> bytes list" where
  "series_parts d =
     [enc_str kDomainSeries, enc_str (se_name d), enc_u8 (measurement_kind_code (se_kind d)),
      enc_u8 (time_unit_code (se_unit d)), enc_id (se_path d), enc_id (se_clock_domain d),
      enc_u8 (evidence_origin_code (se_origin d)), enc_str (se_description d)]"

definition make_series_id :: "series_descriptor \<Rightarrow> series_id" where
  "make_series_id d = builder_id (series_parts d)"

definition kMaxSeriesNameBytes :: nat where "kMaxSeriesNameBytes = 128"
definition kMaxSeriesDescriptionBytes :: nat where "kMaxSeriesDescriptionBytes = 512"

definition validate_series :: "series_descriptor \<Rightarrow> status" where
  "validate_series d =
     (if se_name d = '''' then fail Ec_InvalidArgument ''series name must not be empty''
      else if length (se_name d) > kMaxSeriesNameBytes
      then fail Ec_LimitExceeded ''series name is too long''
      else if length (se_description d) > kMaxSeriesDescriptionBytes
      then fail Ec_LimitExceeded ''series description is too long''
      else if se_unit d = Unit_Unknown
      then fail Ec_InvalidArgument ''series requires a declared unit for its latency readings''
      else if \<not> id_is_nil (se_id d) \<and> se_id d \<noteq> make_series_id d
      then fail Ec_InvalidArgument ''series id does not match its content addressed identity''
      else success)"

type_synonym series_catalog = "series_descriptor list"

definition complete_series :: "series_descriptor \<Rightarrow> series_descriptor" where
  "complete_series d = (if id_is_nil (se_id d) then d\<lparr>se_id := make_series_id d\<rparr> else d)"

definition register_series ::
  "series_descriptor \<Rightarrow> series_catalog \<Rightarrow> status \<times> series_descriptor \<times> series_catalog" where
  "register_series descriptor catalog =
     (let d = complete_series descriptor
      in case validate_series d of
           Inl e \<Rightarrow> (Inl e, d, catalog)
         | Inr _ \<Rightarrow>
             if \<exists>existing \<in> set catalog. se_id existing = se_id d then (success, d, catalog)
             else if length catalog \<ge> kMaxSeries
             then (fail Ec_CapacityExceeded ''series catalog is full'', d, catalog)
             else (success, d, catalog @ [d]))"

definition find_series :: "series_id \<Rightarrow> series_catalog \<Rightarrow> series_descriptor option" where
  "find_series i catalog = find (\<lambda>d. se_id d = i) catalog"

definition sorted_series :: "series_catalog \<Rightarrow> series_descriptor list" where
  "sorted_series catalog = sort_key se_id catalog"

interpretation sers: registry register_series find_series "\<lambda>s. s" se_id complete_series validate_series
  "\<lambda>d s. s @ [d]" kMaxSeries "Error Ec_CapacityExceeded ''series catalog is full''"
  by unfold_locales (simp_all add: register_series_def find_series_def Let_def)

text \<open>The stream hashed for a series determines every declared field.\<close>

lemma series_parts_inject:
  assumes "str_ok (se_name d)" "str_ok (se_name e)"
    and "str_ok (se_description d)" "str_ok (se_description e)"
    and "concat (series_parts d) = concat (series_parts e)"
  shows "d\<lparr>se_id := se_id e\<rparr> = e"
  using assms
  by (auto simp: series_parts_def kDomainSeries_def str_ok_def strc.enc_append_eq idc.enc_append_eq
      strc.enc_inject measurement_kind_enum.code_inject time_unit_enum.code_inject
      evidence_origin_enum.code_inject intro!: series_descriptor.equality)

lemma source_parts_inject:
  assumes "str_ok (sd_name d)" "str_ok (sd_name e)"
    and "str_ok (sd_description d)" "str_ok (sd_description e)"
    and "concat (source_parts d) = concat (source_parts e)"
  shows "d\<lparr>sd_id := sd_id e\<rparr> = e"
  using assms
  by (auto simp: source_parts_def kDomainSource_def str_ok_def strc.enc_append_eq idc.enc_append_eq
      strc.enc_inject u32c.enc_append_eq source_authority_enum.code_inject
      evidence_origin_enum.code_inject intro!: source_descriptor.equality)

section \<open>The replay guard\<close>

datatype sequence_verdict =
    Seq_Accept
  | Seq_DuplicateIdempotent
  | Seq_StaleIncarnation
  | Seq_StaleEpoch
  | Seq_StaleSequence
  | Seq_SequenceConflict
  | Seq_Historical

fun sequence_verdict_code :: "sequence_verdict \<Rightarrow> u8" where
  "sequence_verdict_code Seq_Accept = 0"
| "sequence_verdict_code Seq_DuplicateIdempotent = 1"
| "sequence_verdict_code Seq_StaleIncarnation = 2"
| "sequence_verdict_code Seq_StaleEpoch = 3"
| "sequence_verdict_code Seq_StaleSequence = 4"
| "sequence_verdict_code Seq_SequenceConflict = 5"
| "sequence_verdict_code Seq_Historical = 6"

fun sequence_verdict_text :: "sequence_verdict \<Rightarrow> string" where
  "sequence_verdict_text Seq_Accept = ''accept''"
| "sequence_verdict_text Seq_DuplicateIdempotent = ''duplicate_idempotent''"
| "sequence_verdict_text Seq_StaleIncarnation = ''stale_incarnation''"
| "sequence_verdict_text Seq_StaleEpoch = ''stale_epoch''"
| "sequence_verdict_text Seq_StaleSequence = ''stale_sequence''"
| "sequence_verdict_text Seq_SequenceConflict = ''sequence_conflict''"
| "sequence_verdict_text Seq_Historical = ''historical''"

record source_guard =
  sg_incarnation :: counter
  sg_epoch :: counter
  sg_last_sequence :: counter
  sg_last_content :: digest
  sg_initialized :: bool

definition guard_init :: source_guard where
  "guard_init = \<lparr>sg_incarnation = 0, sg_epoch = 0, sg_last_sequence = 0,
                 sg_last_content = zero_digest, sg_initialized = False\<rparr>"

record sequence_decision =
  qd_verdict :: sequence_verdict
  qd_reason :: string
  qd_advances_guard :: bool
  qd_admissible :: bool

definition accepted :: "string \<Rightarrow> sequence_decision" where
  "accepted r = \<lparr>qd_verdict = Seq_Accept, qd_reason = r, qd_advances_guard = True, qd_admissible = True\<rparr>"

definition refused :: "sequence_verdict \<Rightarrow> string \<Rightarrow> sequence_decision" where
  "refused v r = \<lparr>qd_verdict = v, qd_reason = r, qd_advances_guard = False, qd_admissible = False\<rparr>"

definition evaluate_sequence ::
  "source_guard \<Rightarrow> provenance \<Rightarrow> digest \<Rightarrow> bool \<Rightarrow> sequence_decision" where
  "evaluate_sequence g p content historical_mode =
     (if historical_mode then refused Seq_Historical ''historical_ingest_declared''
      else if \<not> sg_initialized g then accepted ''first_observation''
      else if pv_incarnation p < sg_incarnation g
      then refused Seq_StaleIncarnation ''incarnation_regression''
      else if pv_incarnation p > sg_incarnation g then accepted ''incarnation_advanced''
      else if pv_epoch p < sg_epoch g then refused Seq_StaleEpoch ''epoch_regression''
      else if pv_epoch p > sg_epoch g then accepted ''epoch_advanced''
      else if pv_sequence p > sg_last_sequence g then accepted ''sequence_advanced''
      else if pv_sequence p = sg_last_sequence g then
        (if content = sg_last_content g
         then refused Seq_DuplicateIdempotent ''identical_replay''
         else refused Seq_SequenceConflict ''same_sequence_different_content'')
      else refused Seq_StaleSequence ''sequence_regression'')"

definition apply_sequence :: "source_guard \<Rightarrow> provenance \<Rightarrow> digest \<Rightarrow> source_guard" where
  "apply_sequence g p content =
     (if \<not> sg_initialized g then
        \<lparr>sg_incarnation = pv_incarnation p, sg_epoch = pv_epoch p,
         sg_last_sequence = pv_sequence p, sg_last_content = content, sg_initialized = True\<rparr>
      else if pv_incarnation p > sg_incarnation g then
        g\<lparr>sg_incarnation := pv_incarnation p, sg_epoch := pv_epoch p,
          sg_last_sequence := pv_sequence p, sg_last_content := content\<rparr>
      else if pv_epoch p > sg_epoch g then
        g\<lparr>sg_epoch := pv_epoch p, sg_last_sequence := pv_sequence p, sg_last_content := content\<rparr>
      else if pv_sequence p \<ge> sg_last_sequence g then
        g\<lparr>sg_last_sequence := pv_sequence p, sg_last_content := content\<rparr>
      else g)"

text \<open>Positions are compared lexicographically; the product order of the library is that order.\<close>

definition guard_position :: "source_guard \<Rightarrow> counter \<times> counter \<times> counter" where
  "guard_position g = (sg_incarnation g, sg_epoch g, sg_last_sequence g)"

definition sample_position :: "provenance \<Rightarrow> counter \<times> counter \<times> counter" where
  "sample_position p = (pv_incarnation p, pv_epoch p, pv_sequence p)"

lemmas guard_defs = evaluate_sequence_def accepted_def refused_def guard_position_def
  sample_position_def less_prod_simp less_eq_prod_simp

lemma evaluate_accept_iff:
  "qd_verdict (evaluate_sequence g p c h) = Seq_Accept \<longleftrightarrow>
     \<not> h \<and> (\<not> sg_initialized g \<or> guard_position g < sample_position p)"
  by (auto simp: guard_defs)

lemma evaluate_flags:
  "qd_admissible (evaluate_sequence g p c h) = (qd_verdict (evaluate_sequence g p c h) = Seq_Accept)"
  "qd_advances_guard (evaluate_sequence g p c h) = (qd_verdict (evaluate_sequence g p c h) = Seq_Accept)"
  by (auto simp: evaluate_sequence_def accepted_def refused_def)

lemma evaluate_same_position:
  assumes "sg_initialized g" and "sample_position p = guard_position g"
  shows "qd_verdict (evaluate_sequence g p c False) =
           (if c = sg_last_content g then Seq_DuplicateIdempotent else Seq_SequenceConflict)"
  using assms by (auto simp: guard_defs)

lemma evaluate_older:
  assumes "sg_initialized g" and "sample_position p < guard_position g"
  shows "qd_verdict (evaluate_sequence g p c False) \<in> {Seq_StaleIncarnation, Seq_StaleEpoch, Seq_StaleSequence}"
  using assms by (auto simp: guard_defs)

lemma apply_accepted:
  assumes "qd_verdict (evaluate_sequence g p c h) = Seq_Accept"
  shows "guard_position (apply_sequence g p c) = sample_position p"
    and "sg_last_content (apply_sequence g p c) = c"
    and "sg_initialized (apply_sequence g p c)"
proof -
  have "\<not> sg_initialized g \<or> guard_position g < sample_position p"
    using assms by (simp only: evaluate_accept_iff)
  then show "guard_position (apply_sequence g p c) = sample_position p"
    "sg_last_content (apply_sequence g p c) = c" "sg_initialized (apply_sequence g p c)"
    by (auto simp: apply_sequence_def guard_position_def sample_position_def less_prod_simp)
qed

text \<open>One submission to the guard, as the ingest loop performs it, and a run of submissions.\<close>

definition guard_submit :: "source_guard \<Rightarrow> provenance \<times> digest \<Rightarrow> source_guard" where
  "guard_submit g pc =
     (if qd_advances_guard (evaluate_sequence g (fst pc) (snd pc) False)
      then apply_sequence g (fst pc) (snd pc) else g)"

fun accepted_run :: "source_guard \<Rightarrow> (provenance \<times> digest) list \<Rightarrow> (provenance \<times> digest) list" where
  "accepted_run g [] = []"
| "accepted_run g (pc # pcs) =
     (if qd_admissible (evaluate_sequence g (fst pc) (snd pc) False)
      then pc # accepted_run (guard_submit g pc) pcs
      else accepted_run (guard_submit g pc) pcs)"

lemma guard_submit_mono:
  "sg_initialized g \<Longrightarrow> sg_initialized (guard_submit g pc) \<and> guard_position g \<le> guard_position (guard_submit g pc)"
proof (cases "qd_verdict (evaluate_sequence g (fst pc) (snd pc) False) = Seq_Accept")
  case True
  moreover assume "sg_initialized g"
  ultimately show ?thesis
    using apply_accepted [OF True] by (simp add: guard_submit_def evaluate_flags evaluate_accept_iff)
qed (simp add: guard_submit_def evaluate_flags)

lemma accepted_run_above:
  "sg_initialized g \<Longrightarrow> pc \<in> set (accepted_run g pcs) \<Longrightarrow> guard_position g < sample_position (fst pc)"
proof (induction pcs arbitrary: g)
  case (Cons x xs)
  have "guard_position g < sample_position (fst pc)" if "pc \<in> set (accepted_run (guard_submit g x) xs)"
    using Cons.IH [OF _ that] guard_submit_mono [OF Cons.prems(1), of x] by auto
  moreover have "guard_position g < sample_position (fst x)"
    if "qd_admissible (evaluate_sequence g (fst x) (snd x) False)"
    using that Cons.prems(1) by (simp add: evaluate_flags evaluate_accept_iff)
  ultimately show ?case using Cons.prems(2) by (auto split: if_splits)
qed simp

lemma accepted_run_sorted:
  "sorted_wrt (<) (map (\<lambda>pc. sample_position (fst pc)) (accepted_run g pcs))"
proof (induction pcs arbitrary: g)
  case (Cons x xs)
  have "sample_position (fst x) < sample_position (fst pc)"
    if adm: "qd_admissible (evaluate_sequence g (fst x) (snd x) False)"
      and pc: "pc \<in> set (accepted_run (guard_submit g x) xs)" for pc
  proof -
    from adm have acc: "qd_verdict (evaluate_sequence g (fst x) (snd x) False) = Seq_Accept"
      by (simp add: evaluate_flags)
    then have "guard_submit g x = apply_sequence g (fst x) (snd x)"
      by (simp add: guard_submit_def evaluate_flags)
    with acc have "sg_initialized (guard_submit g x)"
      "guard_position (guard_submit g x) = sample_position (fst x)"
      by (simp_all add: apply_accepted)
    with accepted_run_above [OF _ pc] show ?thesis by simp
  qed
  with Cons.IH show ?case by auto
qed simp

text \<open>
  Outside the ingest loop (recovery replays stored samples with \<open>apply_sequence\<close> alone) the guard
  may mix the positions of two incarnations.
\<close>

lemma apply_without_evaluate_mixes:
  "guard_position (apply_sequence
      \<lparr>sg_incarnation = 2, sg_epoch = 1, sg_last_sequence = 1, sg_last_content = c, sg_initialized = True\<rparr>
      \<lparr>pv_source = s, pv_incarnation = 1, pv_epoch = 5, pv_sequence = 9, pv_authority = a,
       pv_origin = r, pv_ingest_path = ip\<rparr> c') = (2, 5, 9)"
  by (simp add: apply_sequence_def guard_position_def)

section \<open>Properties\<close>

text \<open>The verdicts, read off the lexicographic order of (incarnation, epoch, sequence).\<close>

definition replay_verdict :: "source_guard \<Rightarrow> provenance \<Rightarrow> digest \<Rightarrow> bool \<Rightarrow> sequence_verdict" where
  "replay_verdict g p c historical =
     (if historical then Seq_Historical
      else if \<not> sg_initialized g \<or> guard_position g < sample_position p then Seq_Accept
      else if sample_position p = guard_position g
      then (if c = sg_last_content g then Seq_DuplicateIdempotent else Seq_SequenceConflict)
      else if pv_incarnation p < sg_incarnation g then Seq_StaleIncarnation
      else if pv_epoch p < sg_epoch g then Seq_StaleEpoch else Seq_StaleSequence)"

text \<open>
  The replay decision is the lexicographic comparison of the observation's incarnation,
  epoch and sequence with the guard's: a larger position is accepted, the same position is an
  idempotent replay or a conflict depending on the content, a smaller one is stale in its first
  component that regressed; only an accepted observation is admissible and moves the guard.
\<close>

lemma replay_decision:
  "qd_verdict (evaluate_sequence g p c h) = replay_verdict g p c h \<and>
   (qd_admissible (evaluate_sequence g p c h) \<longleftrightarrow> replay_verdict g p c h = Seq_Accept) \<and>
   (qd_advances_guard (evaluate_sequence g p c h) \<longleftrightarrow> replay_verdict g p c h = Seq_Accept)"
proof -
  have "qd_verdict (evaluate_sequence g p c h) = replay_verdict g p c h"
    by (auto simp: replay_verdict_def guard_defs)
  then show ?thesis by (simp only: evaluate_flags simp_thms)
qed

text \<open>
  Over any sequence of submissions the observations a guard accepts are strictly increasing
  in (incarnation, epoch, sequence), and an initialised guard accepts nothing at or below its
  own position: no replay, however interleaved, is accepted twice.
\<close>

lemma replay_run_increasing:
  assumes "sg_initialized g"
  shows "sorted_wrt (<) (guard_position g # map (\<lambda>pc. sample_position (fst pc)) (accepted_run g pcs))"
  using accepted_run_sorted [of g pcs] accepted_run_above [OF assms] by auto

definition guard_at :: "counter \<Rightarrow> source_guard" where
  "guard_at n = \<lparr>sg_incarnation = 1, sg_epoch = 1, sg_last_sequence = n, sg_last_content = zero_digest,
                sg_initialized = True\<rparr>"

definition observation_at :: "counter \<Rightarrow> provenance \<times> digest" where
  "observation_at n =
     (\<lparr>pv_source = nil_id, pv_incarnation = 1, pv_epoch = 1, pv_sequence = n,
       pv_authority = Authority_Authoritative, pv_origin = Origin_Real, pv_ingest_path = []\<rparr>, zero_digest)"

lemma replay_run_increasing_witness:
  "map (\<lambda>pc. pv_sequence (fst pc)) (accepted_run (guard_at 4) (map observation_at [5, 5, 3, 9])) = [5, 9] \<and>
   sorted_wrt (<) (guard_position (guard_at 4) #
     map (\<lambda>pc. sample_position (fst pc)) (accepted_run (guard_at 4) (map observation_at [5, 5, 3, 9])))"
proof
  show "map (\<lambda>pc. pv_sequence (fst pc)) (accepted_run (guard_at 4) (map observation_at [5, 5, 3, 9])) = [5, 9]"
    by (simp add: guard_at_def observation_at_def evaluate_sequence_def accepted_def refused_def
        guard_submit_def apply_sequence_def)
  show "sorted_wrt (<) (guard_position (guard_at 4) #
     map (\<lambda>pc. sample_position (fst pc)) (accepted_run (guard_at 4) (map observation_at [5, 5, 3, 9])))"
    by (rule replay_run_increasing) (simp add: guard_at_def)
qed

text \<open>
  A series' canonical byte string determines every field its identity is meant to cover, so
  two different series cannot share an identity without a collision of the hash itself.
\<close>

lemma series_identity_injective:
  assumes "str_ok (se_name d)" "str_ok (se_name e)" "str_ok (se_description d)" "str_ok (se_description e)"
    and "concat (series_parts d) = concat (series_parts e)"
  shows "d\<lparr>se_id := se_id e\<rparr> = e"
  using assms by (rule series_parts_inject)

definition series_named :: "string \<Rightarrow> series_descriptor" where
  "series_named n =
     \<lparr>se_id = nil_id, se_name = n, se_kind = Kind_RoundTripTime, se_unit = Unit_Nanoseconds,
      se_path = StrongId 1, se_clock_domain = StrongId 3, se_origin = Origin_Real,
      se_description = ''''\<rparr>"

lemma series_identity_injective_witness:
  "concat (series_parts (series_named ''a'')) \<noteq> concat (series_parts (series_named ''b''))"
  using series_identity_injective [of "series_named ''a''" "series_named ''b''"]
  by (auto simp: series_named_def str_ok_def)

end
