(* ===== verification/Path.thy ===== *)
theory Path
  imports Source
begin

text \<open>
  Paths, hops and route generations: \<^verbatim>\<open>include/jitter/path.hpp\<close> and \<^verbatim>\<open>src/path.cpp\<close>.
  The two maps of \<^verbatim>\<open>PathCatalog\<close> are ordered maps; the history of a path is a list whose last
  element is the current generation. \<^verbatim>\<open>generations_[path]\<close> creates an empty history on access,
  which the model does too.
\<close>

section \<open>Descriptors\<close>

record hop_descriptor =
  hd_id :: hop_id
  hd_index :: u16
  hd_name :: string
  hd_timing_clock :: "clock_domain_id option"
  hd_origin :: evidence_origin
  hd_device_note :: string

record path_descriptor =
  pd_id :: path_id
  pd_name :: string
  pd_hops :: "hop_descriptor list"
  pd_origin :: evidence_origin
  pd_description :: string

record path_topology =
  pt_digest :: digest
  pt_hops :: "hop_id list"

record path_generation =
  pg_id :: generation_id
  pg_path :: path_id
  pg_ordinal :: counter
  pg_topology :: digest
  pg_revision :: counter
  pg_opened_at_utc_ns :: i64
  pg_closed_at_utc_ns :: "i64 option"
  pg_hop_count :: u32
  pg_cause :: string
  pg_close_reason :: string

definition pg_is_open :: "path_generation \<Rightarrow> bool" where
  "pg_is_open g \<longleftrightarrow> pg_closed_at_utc_ns g = None"

record generation_outcome =
  go_generation :: path_generation
  go_created_new :: bool
  go_reason :: string

definition kMaxPathNameBytes :: nat where "kMaxPathNameBytes = 128"
definition kMaxHopNameBytes :: nat where "kMaxHopNameBytes = 128"
definition kMaxDeviceNoteBytes :: nat where "kMaxDeviceNoteBytes = 256"
definition kMaxPathDescriptionBytes :: nat where "kMaxPathDescriptionBytes = 512"

definition hop_parts :: "hop_descriptor \<Rightarrow> path_id \<Rightarrow> bytes list" where
  "hop_parts d path =
     [enc_str kDomainHop, enc_id path, enc_u16 (hd_index d), enc_str (hd_name d),
      fld_optional_i64 (case hd_timing_clock d of None \<Rightarrow> None | Some _ \<Rightarrow> Some 0)]
     @ (case hd_timing_clock d of None \<Rightarrow> [] | Some c \<Rightarrow> [enc_id c])
     @ [enc_u8 (evidence_origin_code (hd_origin d)), enc_str (hd_device_note d)]"

definition make_hop_id :: "hop_descriptor \<Rightarrow> path_id \<Rightarrow> hop_id" where
  "make_hop_id d path = builder_id (hop_parts d path)"

definition path_parts :: "path_descriptor \<Rightarrow> bytes list" where
  "path_parts d =
     [enc_str kDomainPath, enc_str (pd_name d), enc_u8 (evidence_origin_code (pd_origin d)),
      enc_str (pd_description d)]"

definition make_path_id :: "path_descriptor \<Rightarrow> path_id" where
  "make_path_id d = builder_id (path_parts d)"

definition validate_hop :: "nat \<times> hop_descriptor \<Rightarrow> status" where
  "validate_hop ih = (case ih of (i, hop) \<Rightarrow>
     if unat (hd_index hop) \<noteq> i
     then fail Ec_InvalidArgument ''hop index must equal its position on the path''
     else if hd_name hop = '''' then fail Ec_InvalidArgument ''hop name must not be empty''
     else if length (hd_name hop) > kMaxHopNameBytes
     then fail Ec_LimitExceeded ''hop name is too long''
     else if length (hd_device_note hop) > kMaxDeviceNoteBytes
     then fail Ec_LimitExceeded ''hop device note is too long''
     else success)"

definition validate_path :: "path_descriptor \<Rightarrow> status" where
  "validate_path d =
     (if pd_name d = '''' then fail Ec_InvalidArgument ''path name must not be empty''
      else if length (pd_name d) > kMaxPathNameBytes
      then fail Ec_LimitExceeded ''path name is too long''
      else if length (pd_description d) > kMaxPathDescriptionBytes
      then fail Ec_LimitExceeded ''path description is too long''
      else if length (pd_hops d) > kMaxHopsPerPath
      then fail Ec_LimitExceeded ''path declares more hops than supported''
      else res_bind (check_each validate_hop (enumerate 0 (pd_hops d))) (\<lambda>_.
        if \<not> id_is_nil (pd_id d) \<and> pd_id d \<noteq> make_path_id d
        then fail Ec_InvalidArgument ''path id does not match its content addressed identity''
        else success))"

definition topology_parts :: "hop_id list \<Rightarrow> bytes list" where
  "topology_parts hops = enc_str kDomainTopology # enc_u32 (word_of_nat (length hops)) # map enc_id hops"

definition topology_of_hops :: "hop_id list \<Rightarrow> path_topology" where
  "topology_of_hops hops = \<lparr>pt_digest = builder_digest (topology_parts hops), pt_hops = hops\<rparr>"

definition make_topology :: "path_descriptor \<Rightarrow> path_topology" where
  "make_topology d =
     (let path = (if id_is_nil (pd_id d) then make_path_id d else pd_id d)
      in topology_of_hops (map (\<lambda>hop. make_hop_id hop path) (pd_hops d)))"

definition generation_parts :: "path_id \<Rightarrow> counter \<Rightarrow> digest \<Rightarrow> bytes list" where
  "generation_parts path ordinal topology =
     [enc_str kDomainGeneration, enc_id path, enc_u64 ordinal, digest_bytes topology]"

definition make_generation_id :: "path_id \<Rightarrow> counter \<Rightarrow> digest \<Rightarrow> generation_id" where
  "make_generation_id path ordinal topology = builder_id (generation_parts path ordinal topology)"

section \<open>The catalog\<close>

record path_catalog =
  pc_paths :: "(path_id, path_descriptor) omap"
  pc_generations :: "(path_id, path_generation list) omap"

definition path_catalog_init :: path_catalog where
  "path_catalog_init = \<lparr>pc_paths = [], pc_generations = []\<rparr>"

definition find_path :: "path_id \<Rightarrow> path_catalog \<Rightarrow> path_descriptor option" where
  "find_path i c = om_find i (pc_paths c)"

definition history :: "path_id \<Rightarrow> path_catalog \<Rightarrow> path_generation list" where
  "history path c = om_get [] path (pc_generations c)"

definition set_history :: "path_id \<Rightarrow> path_generation list \<Rightarrow> path_catalog \<Rightarrow> path_catalog" where
  "set_history path gs c = c\<lparr>pc_generations := om_put path gs (pc_generations c)\<rparr>"

definition find_hop :: "path_id \<Rightarrow> hop_id \<Rightarrow> path_catalog \<Rightarrow> hop_descriptor option" where
  "find_hop path hop c =
     (case find_path path c of
        None \<Rightarrow> None
      | Some d \<Rightarrow> find (\<lambda>candidate. make_hop_id candidate path = hop) (pd_hops d))"

definition all_paths :: "path_catalog \<Rightarrow> path_descriptor list" where
  "all_paths c = map snd (om_entries (pc_paths c))"

text \<open>The loop \<^verbatim>\<open>while (history.size() > kMax) history.erase(history.begin())\<close>.\<close>

definition trim_history :: "path_generation list \<Rightarrow> path_generation list" where
  "trim_history gs = drop (length gs - kMaxGenerationHistoryPerPath) gs"

definition close_generation :: "i64 \<Rightarrow> path_generation \<Rightarrow> path_generation" where
  "close_generation now g =
     (if pg_is_open g
      then g\<lparr>pg_closed_at_utc_ns :=
               Some (if now < pg_opened_at_utc_ns g then pg_opened_at_utc_ns g else now),
             pg_close_reason := ''topology_changed''\<rparr>
      else g)"

definition close_last :: "i64 \<Rightarrow> path_generation list \<Rightarrow> path_generation list" where
  "close_last now gs = (if gs = [] then [] else butlast gs @ [close_generation now (last gs)])"

definition next_generation ::
  "path_id \<Rightarrow> path_topology \<Rightarrow> i64 \<Rightarrow> string \<Rightarrow> path_generation list \<Rightarrow> path_generation" where
  "next_generation path topology now cause gs =
     (let ordinal = (if gs = [] then 1 else next_counter (pg_ordinal (last gs)))
      in \<lparr>pg_id = make_generation_id path ordinal (pt_digest topology), pg_path = path,
          pg_ordinal = ordinal, pg_topology = pt_digest topology, pg_revision = 0,
          pg_opened_at_utc_ns = now, pg_closed_at_utc_ns = None,
          pg_hop_count = word_of_nat (length (pt_hops topology)), pg_cause = cause,
          pg_close_reason = ''''\<rparr>)"

definition observe_topology ::
  "path_id \<Rightarrow> path_topology \<Rightarrow> i64 \<Rightarrow> string \<Rightarrow> path_catalog
     \<Rightarrow> generation_outcome result \<times> path_catalog" where
  "observe_topology path topology now cause c =
     (if find_path path c = None
      then (fail Ec_NotFound ''cannot open a generation for an unregistered path'', c)
      else if length (pt_hops topology) > kMaxHopsPerPath
      then (fail Ec_LimitExceeded ''topology declares more hops than supported'', c)
      else let gs = history path c
           in if gs \<noteq> [] \<and> pg_topology (last gs) = pt_digest topology
              then (Inr \<lparr>go_generation = last gs, go_created_new = False, go_reason = ''topology_unchanged''\<rparr>,
                    set_history path gs c)
              else let g = next_generation path topology now cause gs
                   in (Inr \<lparr>go_generation = g, go_created_new = True, go_reason = cause\<rparr>,
                       set_history path (trim_history (close_last now gs @ [g])) c))"

definition complete_hops :: "path_id \<Rightarrow> hop_descriptor list \<Rightarrow> hop_descriptor list" where
  "complete_hops path hops =
     map (\<lambda>hop. if id_is_nil (hd_id hop) then hop\<lparr>hd_id := make_hop_id hop path\<rparr> else hop) hops"

definition complete_path :: "path_descriptor \<Rightarrow> path_descriptor" where
  "complete_path descriptor =
     (let d = (if id_is_nil (pd_id descriptor)
               then descriptor\<lparr>pd_id := make_path_id descriptor\<rparr> else descriptor)
      in d\<lparr>pd_hops := complete_hops (pd_id d) (pd_hops d)\<rparr>)"

text \<open>The tail of \<^verbatim>\<open>register_path_impl\<close> that opens the first generation.\<close>

definition open_first ::
  "path_descriptor \<Rightarrow> path_catalog \<Rightarrow> status \<times> path_descriptor \<times> path_catalog" where
  "open_first d c =
     (case observe_topology (pd_id d) (make_topology d) 0 ''path_registered'' c of
        (Inl e, c') \<Rightarrow> (Inl e, d, c')
      | (Inr _, c') \<Rightarrow> (success, d, c'))"

definition register_path_impl ::
  "path_descriptor \<Rightarrow> bool \<Rightarrow> path_catalog \<Rightarrow> status \<times> path_descriptor \<times> path_catalog" where
  "register_path_impl descriptor open_generation c =
     (let d = complete_path descriptor
      in case validate_path d of
           Inl e \<Rightarrow> (Inl e, d, c)
         | Inr _ \<Rightarrow>
             (case find_path (pd_id d) c of
                Some existing \<Rightarrow>
                  if pd_hops existing = [] \<and> pd_hops d \<noteq> [] then
                    let c' = c\<lparr>pc_paths := om_put (pd_id d) d (pc_paths c)\<rparr>
                    in if open_generation then open_first d c' else (success, d, c')
                  else (success, existing, c)
              | None \<Rightarrow>
                  if length (pc_paths c) \<ge> kMaxPaths
                  then (fail Ec_CapacityExceeded ''path catalog is full'', d, c)
                  else let c' = c\<lparr>pc_paths := om_emplace (pd_id d) d (pc_paths c)\<rparr>
                       in if open_generation \<and> pd_hops d \<noteq> [] then open_first d c'
                          else (success, d, c')))"

definition register_path :: "path_descriptor \<Rightarrow> path_catalog \<Rightarrow> status \<times> path_descriptor \<times> path_catalog" where
  "register_path d c = register_path_impl d True c"

definition register_path_only :: "path_descriptor \<Rightarrow> path_catalog \<Rightarrow> status \<times> path_descriptor \<times> path_catalog" where
  "register_path_only d c = register_path_impl d False c"

definition update_last :: "(path_generation \<Rightarrow> path_generation) \<Rightarrow> path_generation list \<Rightarrow> path_generation list" where
  "update_last f gs = butlast gs @ [f (last gs)]"

definition bump_revision :: "path_id \<Rightarrow> string \<Rightarrow> path_catalog \<Rightarrow> status \<times> path_catalog" where
  "bump_revision path cause c =
     (if history path c = []
      then (fail Ec_NotFound ''cannot revise a path without a generation'', c)
      else (success,
            set_history path
              (update_last (\<lambda>g. g\<lparr>pg_revision := next_counter (pg_revision g), pg_cause := cause\<rparr>)
                 (history path c)) c))"

definition close_current :: "path_id \<Rightarrow> i64 \<Rightarrow> string \<Rightarrow> path_catalog \<Rightarrow> status \<times> path_catalog" where
  "close_current path now reason c =
     (if history path c = []
      then (fail Ec_NotFound ''cannot close a path without a generation'', c)
      else (success,
            set_history path
              (update_last (\<lambda>g. if pg_is_open g
                  then g\<lparr>pg_closed_at_utc_ns := Some now, pg_close_reason := reason\<rparr> else g)
                 (history path c)) c))"

definition import_generation :: "path_generation \<Rightarrow> path_catalog \<Rightarrow> status \<times> path_catalog" where
  "import_generation g c =
     (if find_path (pg_path g) c = None
      then (fail Ec_NotFound ''cannot import a generation for an unregistered path'', c)
      else if is_unset (pg_ordinal g)
      then (fail Ec_InvalidArgument ''imported generation must carry a non zero ordinal'', c)
      else let gs = history (pg_path g) c
           in if gs \<noteq> [] \<and> pg_ordinal g \<le> pg_ordinal (last gs)
              then (fail Ec_Conflict ''imported generation would rewind or repeat a path ordinal'',
                    set_history (pg_path g) gs c)
              else (success, set_history (pg_path g) (trim_history (gs @ [g])) c))"

definition current_generation :: "path_id \<Rightarrow> path_catalog \<Rightarrow> path_generation option" where
  "current_generation path c = (if history path c = [] then None else Some (last (history path c)))"

definition find_generation :: "generation_id \<Rightarrow> path_catalog \<Rightarrow> path_generation option" where
  "find_generation i c =
     find (\<lambda>g. pg_id g = i) (concat (map snd (om_entries (pc_generations c))))"

definition all_generations :: "path_catalog \<Rightarrow> path_generation list" where
  "all_generations c =
     sort_key (\<lambda>g. (pg_path g, pg_ordinal g)) (concat (map snd (om_entries (pc_generations c))))"

definition is_current :: "generation_id \<Rightarrow> path_catalog \<Rightarrow> bool" where
  "is_current i c \<longleftrightarrow> (case find_generation i c of None \<Rightarrow> False | Some g \<Rightarrow> pg_is_open g)"

definition generation_count :: "path_catalog \<Rightarrow> nat" where
  "generation_count c = sum_list (map (length \<circ> snd) (om_entries (pc_generations c)))"

section \<open>Histories\<close>

text \<open>
  Ordinals grow strictly, except that the saturating counter repeats its last value once it is
  reached.
\<close>

definition ordinal_before :: "path_generation \<Rightarrow> path_generation \<Rightarrow> bool" where
  "ordinal_before g h \<longleftrightarrow>
     pg_ordinal g < pg_ordinal h \<or> pg_ordinal g = u64_max \<and> pg_ordinal h = u64_max"

definition history_inv :: "path_id \<Rightarrow> path_generation list \<Rightarrow> bool" where
  "history_inv path gs \<longleftrightarrow>
     list_all (\<lambda>g. pg_path g = path \<and> pg_ordinal g \<noteq> 0) gs \<and>
     sorted_wrt ordinal_before gs \<and> length gs \<le> kMaxGenerationHistoryPerPath"

definition segmented :: "path_generation list \<Rightarrow> bool" where
  "segmented gs \<longleftrightarrow> list_all (\<lambda>g. \<not> pg_is_open g) (butlast gs)"

definition catalog_inv :: "path_catalog \<Rightarrow> bool" where
  "catalog_inv c \<longleftrightarrow> om_invar (pc_paths c) \<and> om_invar (pc_generations c) \<and>
     (\<forall>path. history_inv path (history path c)) \<and>
     (\<forall>path. history path c \<noteq> [] \<longrightarrow> find_path path c \<noteq> None)"

lemma ordinal_before_trans: "ordinal_before f g \<Longrightarrow> ordinal_before g h \<Longrightarrow> ordinal_before f h"
  by (auto simp: ordinal_before_def dest: order_less_trans)

lemma ordinal_before_le_trans:
  "ordinal_before g h \<or> pg_ordinal g = pg_ordinal h \<Longrightarrow> pg_ordinal k = next_counter (pg_ordinal h) \<Longrightarrow>
     ordinal_before g k"
  using next_counter_less [of "pg_ordinal h"] u64_le_max [of "pg_ordinal h"]
  by (auto simp: ordinal_before_def next_counter_def order_less_le dest: order_less_trans)

lemma history_set [simp]:
  "history p (set_history q gs c) = (if p = q then gs else history p c)"
  by (simp add: history_def set_history_def)

lemma find_path_set_history [simp]: "find_path p (set_history q gs c) = find_path p c"
  by (simp add: find_path_def set_history_def)

lemma catalog_inv_set_history:
  "catalog_inv c \<Longrightarrow> history_inv q gs \<Longrightarrow> (gs \<noteq> [] \<Longrightarrow> find_path q c \<noteq> None) \<Longrightarrow>
     catalog_inv (set_history q gs c)"
  by (simp add: catalog_inv_def) (simp add: set_history_def)

lemma length_trim: "length (trim_history gs) \<le> kMaxGenerationHistoryPerPath"
  by (simp add: trim_history_def)

lemma trim_ne [simp]: "gs \<noteq> [] \<Longrightarrow> trim_history gs \<noteq> []"
  by (cases gs) (auto simp: trim_history_def kMaxGenerationHistoryPerPath_def)

lemma last_trim [simp]: "gs \<noteq> [] \<Longrightarrow> last (trim_history gs) = last gs"
  using trim_ne [of gs] by (auto simp: trim_history_def last_drop)

lemma sorted_wrt_drop: "sorted_wrt R gs \<Longrightarrow> sorted_wrt R (drop n gs)"
  by (metis append_take_drop_id sorted_wrt_append)

lemma list_all_drop: "list_all P gs \<Longrightarrow> list_all P (drop n gs)"
  by (metis append_take_drop_id list_all_append)

lemma butlast_trim: "butlast (trim_history gs) = drop (length gs - kMaxGenerationHistoryPerPath) (butlast gs)"
  by (simp add: trim_history_def butlast_drop)

lemma segmented_trim: "segmented gs \<Longrightarrow> segmented (trim_history gs)"
  by (simp add: segmented_def butlast_trim list_all_drop)

lemma history_inv_trim_snoc:
  assumes "list_all (\<lambda>g. pg_path g = path \<and> pg_ordinal g \<noteq> 0) gs" "sorted_wrt ordinal_before gs"
    and "pg_path g = path" "pg_ordinal g \<noteq> 0" "\<And>h. h \<in> set gs \<Longrightarrow> ordinal_before h g"
  shows "history_inv path (trim_history (gs @ [g]))"
  using assms length_trim [of "gs @ [g]"] unfolding history_inv_def trim_history_def
  by (simp add: list_all_drop sorted_wrt_drop sorted_wrt_append del: drop_append)

text \<open>Rewriting the last generation without touching its path and ordinal keeps the invariant.\<close>

lemma history_inv_update_last:
  assumes "history_inv path gs" "gs \<noteq> []"
    and "\<And>g. pg_path (f g) = pg_path g" "\<And>g. pg_ordinal (f g) = pg_ordinal g"
  shows "history_inv path (update_last f gs)"
proof -
  have gs: "gs = butlast gs @ [last gs]" using assms(2) by simp
  have "history_inv path (butlast gs @ [last gs])" using assms(1) gs by simp
  then have "history_inv path (butlast gs @ [f (last gs)])"
    by (auto simp: history_inv_def sorted_wrt_append ordinal_before_def assms(3,4) list_all_iff)
  then show ?thesis by (simp add: update_last_def)
qed

lemma close_last_update: "gs \<noteq> [] \<Longrightarrow> close_last now gs = update_last (close_generation now) gs"
  by (simp add: close_last_def update_last_def)

lemma close_generation_frame [simp]:
  "pg_path (close_generation now g) = pg_path g" "pg_ordinal (close_generation now g) = pg_ordinal g"
  "pg_id (close_generation now g) = pg_id g" "pg_topology (close_generation now g) = pg_topology g"
  by (simp_all add: close_generation_def)

lemma close_generation_closed: "\<not> pg_is_open (close_generation now g)"
  by (simp add: close_generation_def pg_is_open_def)

lemma close_generation_time:
  "pg_is_open g \<Longrightarrow>
     pg_closed_at_utc_ns (close_generation now g) = Some (max now (pg_opened_at_utc_ns g))"
  by (simp add: close_generation_def max_def)

lemma history_inv_close_last: "history_inv path gs \<Longrightarrow> history_inv path (close_last now gs)"
  by (cases "gs = []") (simp add: close_last_def, simp add: close_last_update history_inv_update_last)

lemma segmented_close_last: "segmented gs \<Longrightarrow> list_all (\<lambda>g. \<not> pg_is_open g) (close_last now gs)"
  by (auto simp: segmented_def close_last_def close_generation_closed)

lemma segmented_update_last: "segmented gs \<Longrightarrow> segmented (update_last f gs)"
  by (simp add: segmented_def update_last_def)

lemma last_ordinal_max:
  "history_inv path gs \<Longrightarrow> h \<in> set gs \<Longrightarrow>
     ordinal_before h (last gs) \<or> pg_ordinal h = pg_ordinal (last gs)"
proof -
  assume inv: "history_inv path gs" and h: "h \<in> set gs"
  then have gs: "gs = butlast gs @ [last gs]" by (auto intro: append_butlast_last_id [symmetric])
  with inv have "sorted_wrt ordinal_before (butlast gs @ [last gs])" by (simp add: history_inv_def)
  moreover from h gs have "h \<in> set (butlast gs) \<or> h = last gs" by (metis in_set_conv_decomp set_append Un_iff set_ConsD empty_iff list.set(1))
  ultimately show ?thesis by (auto simp: sorted_wrt_append)
qed

lemma last_close_last [simp]: "gs \<noteq> [] \<Longrightarrow> pg_ordinal (last (close_last now gs)) = pg_ordinal (last gs)"
  by (simp add: close_last_def)

lemma close_last_Nil_iff [simp]: "close_last now gs = [] \<longleftrightarrow> gs = []"
  by (simp add: close_last_def)

lemma next_generation_frame [simp]:
  "pg_path (next_generation path topology now cause gs) = path"
  "pg_topology (next_generation path topology now cause gs) = pt_digest topology"
  "pg_is_open (next_generation path topology now cause gs)"
  "pg_ordinal (next_generation path topology now cause gs)
     = (if gs = [] then 1 else next_counter (pg_ordinal (last gs)))"
  by (simp_all add: next_generation_def Let_def pg_is_open_def)

lemma history_inv_observe:
  assumes inv: "history_inv path gs"
  shows "history_inv path (trim_history (close_last now gs @ [next_generation path topology now cause gs]))"
proof (rule history_inv_trim_snoc)
  note closed = history_inv_close_last [OF inv, of now]
  show "list_all (\<lambda>g. pg_path g = path \<and> pg_ordinal g \<noteq> 0) (close_last now gs)"
    and "sorted_wrt ordinal_before (close_last now gs)"
    using closed by (simp_all add: history_inv_def)
  show "ordinal_before h (next_generation path topology now cause gs)" if "h \<in> set (close_last now gs)" for h
  proof -
    from that have ne: "gs \<noteq> []" by (auto simp: close_last_def)
    show ?thesis
      by (rule ordinal_before_le_trans [OF last_ordinal_max [OF closed that]]) (simp add: ne)
  qed
qed simp_all

lemma history_inv_import:
  assumes "history_inv path gs" "pg_path g = path" "pg_ordinal g \<noteq> 0"
    and "gs = [] \<or> \<not> pg_ordinal g \<le> pg_ordinal (last gs)"
  shows "history_inv path (trim_history (gs @ [g]))"
proof (rule history_inv_trim_snoc)
  show "ordinal_before h g" if h: "h \<in> set gs" for h
    using last_ordinal_max [OF assms(1) h] assms(4) h
    by (auto simp: ordinal_before_def not_le dest: order_less_trans)
qed (use assms in \<open>simp_all add: history_inv_def\<close>)

section \<open>Every operation preserves the invariant\<close>

lemma history_inv_of: "catalog_inv c \<Longrightarrow> history_inv path (history path c)"
  by (simp add: catalog_inv_def)

lemma catalog_registered: "catalog_inv c \<Longrightarrow> history path c \<noteq> [] \<Longrightarrow> find_path path c \<noteq> None"
  by (simp add: catalog_inv_def)

lemma observe_topology_inv:
  assumes "catalog_inv c"
  shows "catalog_inv (snd (observe_topology path topology now cause c))"
proof -
  note next_inv = history_inv_observe [OF history_inv_of [OF assms], of path now topology cause]
  show ?thesis
    using assms next_inv history_inv_of [OF assms, of path]
    by (auto simp: observe_topology_def Let_def intro!: catalog_inv_set_history)
qed

lemma update_last_inv:
  assumes "catalog_inv c" "history path c \<noteq> []"
    and "\<And>g. pg_path (f g) = pg_path g" "\<And>g. pg_ordinal (f g) = pg_ordinal g"
  shows "catalog_inv (set_history path (update_last f (history path c)) c)"
  using assms
  by (intro catalog_inv_set_history history_inv_update_last history_inv_of catalog_registered) auto

lemma bump_revision_inv: "catalog_inv c \<Longrightarrow> catalog_inv (snd (bump_revision path cause c))"
  by (auto simp: bump_revision_def intro: update_last_inv)

lemma close_current_inv: "catalog_inv c \<Longrightarrow> catalog_inv (snd (close_current path now reason c))"
  by (auto simp: close_current_def intro: update_last_inv)

lemma import_generation_inv:
  assumes "catalog_inv c"
  shows "catalog_inv (snd (import_generation g c))"
proof -
  let ?gs = "history (pg_path g) c"
  have "history_inv (pg_path g) (trim_history (?gs @ [g]))"
    if "pg_ordinal g \<noteq> 0" "?gs = [] \<or> \<not> pg_ordinal g \<le> pg_ordinal (last ?gs)"
    using history_inv_import [OF history_inv_of [OF assms]] that by simp
  then show ?thesis
    using assms history_inv_of [OF assms, of "pg_path g"]
    by (auto simp: import_generation_def Let_def is_unset_def intro!: catalog_inv_set_history)
qed

lemma catalog_inv_add_path:
  "catalog_inv c \<Longrightarrow> catalog_inv (c\<lparr>pc_paths := om_put i d (pc_paths c)\<rparr>)"
  by (auto simp: catalog_inv_def find_path_def history_def)

lemma catalog_inv_emplace_path:
  "catalog_inv c \<Longrightarrow> catalog_inv (c\<lparr>pc_paths := om_emplace i d (pc_paths c)\<rparr>)"
  by (auto simp: catalog_inv_def find_path_def history_def)

lemma open_first_catalog:
  "snd (snd (open_first d c)) = snd (observe_topology (pd_id d) (make_topology d) 0 ''path_registered'' c)"
  by (simp add: open_first_def split: prod.split sum.split)

lemma register_path_impl_inv: "catalog_inv c \<Longrightarrow> catalog_inv (snd (snd (register_path_impl d b c)))"
  by (auto simp: register_path_impl_def Let_def open_first_catalog
      intro!: observe_topology_inv catalog_inv_add_path catalog_inv_emplace_path
      split: sum.split option.split)

section \<open>Reachable catalogs\<close>

text \<open>
  Every catalog the runtime can hold: the live operations, and the import of stored generations,
  which only recovery uses (\<open>recovering\<close>).
\<close>

inductive catalog_reach :: "bool \<Rightarrow> path_catalog \<Rightarrow> bool" for recovering :: bool where
  reach_init: "catalog_reach recovering path_catalog_init"
| reach_register: "catalog_reach recovering c \<Longrightarrow> catalog_reach recovering (snd (snd (register_path_impl d b c)))"
| reach_observe: "catalog_reach recovering c \<Longrightarrow>
    catalog_reach recovering (snd (observe_topology path topology now cause c))"
| reach_bump: "catalog_reach recovering c \<Longrightarrow> catalog_reach recovering (snd (bump_revision path cause c))"
| reach_close: "catalog_reach recovering c \<Longrightarrow> catalog_reach recovering (snd (close_current path now reason c))"
| reach_import: "recovering \<Longrightarrow> catalog_reach recovering c \<Longrightarrow>
    catalog_reach recovering (snd (import_generation g c))"

lemma catalog_inv_init [simp]: "catalog_inv path_catalog_init"
  by (simp add: catalog_inv_def path_catalog_init_def history_def om_get_def history_inv_def)

lemma catalog_reach_inv: "catalog_reach recovering c \<Longrightarrow> catalog_inv c"
  by (induction rule: catalog_reach.induct)
     (auto intro: observe_topology_inv bump_revision_inv close_current_inv import_generation_inv
        register_path_impl_inv)

definition catalog_segmented :: "path_catalog \<Rightarrow> bool" where
  "catalog_segmented c \<longleftrightarrow> (\<forall>path. segmented (history path c))"

lemma segmented_next: "segmented gs \<Longrightarrow> segmented (trim_history (close_last now gs @ [g]))"
  by (rule segmented_trim) (simp add: segmented_def segmented_close_last [unfolded segmented_def])

lemma observe_history:
  "history p (snd (observe_topology path topology now cause c)) = history p c \<or>
   p = path \<and> history p (snd (observe_topology path topology now cause c))
     = trim_history (close_last now (history path c) @ [next_generation path topology now cause (history path c)])"
  by (simp add: observe_topology_def Let_def)

lemma observe_segmented:
  assumes "catalog_segmented c"
  shows "catalog_segmented (snd (observe_topology path topology now cause c))"
  unfolding catalog_segmented_def
proof
  fix p
  have "segmented (history p c)" for p using assms by (simp add: catalog_segmented_def)
  then show "segmented (history p (snd (observe_topology path topology now cause c)))"
    using observe_history [of p path topology now cause c] segmented_next by metis
qed

lemma history_add_path [simp]: "history path (c\<lparr>pc_paths := ps\<rparr>) = history path c"
  by (simp add: history_def)

lemma register_segmented:
  "catalog_segmented c \<Longrightarrow> catalog_segmented (snd (snd (register_path_impl d b c)))"
  by (auto simp: register_path_impl_def Let_def open_first_catalog catalog_segmented_def
      intro!: observe_segmented [unfolded catalog_segmented_def, rule_format]
      split: sum.split option.split)

lemma catalog_reach_segmented: "catalog_reach recovering c \<Longrightarrow> \<not> recovering \<Longrightarrow> catalog_segmented c"
proof (induction rule: catalog_reach.induct)
  case reach_init
  then show ?case
    by (simp add: catalog_segmented_def path_catalog_init_def history_def om_get_def segmented_def)
next
  case (reach_bump c path cause)
  then show ?case
    by (simp add: catalog_segmented_def bump_revision_def segmented_update_last)
next
  case (reach_close c path now reason)
  then show ?case
    by (simp add: catalog_segmented_def close_current_def segmented_update_last)
qed (simp_all add: observe_segmented register_segmented)

lemma segmented_open_last:
  assumes "segmented gs" "g \<in> set gs" "pg_is_open g"
  shows "g = last gs"
proof -
  have "gs = butlast gs @ [last gs]" using assms(2) by (auto intro: append_butlast_last_id [symmetric])
  then have "g \<in> set (butlast gs) \<or> g = last gs"
    using assms(2) by (metis Un_iff empty_iff insert_iff list.set set_append)
  then show ?thesis using assms by (auto simp: segmented_def list_all_iff)
qed

section \<open>What an observation does\<close>

lemma observe_unchanged:
  assumes "find_path path c \<noteq> None" "length (pt_hops topology) \<le> kMaxHopsPerPath"
    and "current_generation path c = Some g" "pg_topology g = pt_digest topology"
  shows "fst (observe_topology path topology now cause c)
           = Inr \<lparr>go_generation = g, go_created_new = False, go_reason = ''topology_unchanged''\<rparr>"
    and "history p (snd (observe_topology path topology now cause c)) = history p c"
  using assms by (auto simp: observe_topology_def Let_def current_generation_def split: if_splits)

lemma observe_changed:
  assumes "find_path path c \<noteq> None" "length (pt_hops topology) \<le> kMaxHopsPerPath"
    and "\<And>g. current_generation path c = Some g \<Longrightarrow> pg_topology g \<noteq> pt_digest topology"
  shows "fst (observe_topology path topology now cause c)
           = Inr \<lparr>go_generation = next_generation path topology now cause (history path c),
                  go_created_new = True, go_reason = cause\<rparr>"
    and "history p (snd (observe_topology path topology now cause c)) =
           (if p = path
            then trim_history (close_last now (history path c)
                   @ [next_generation path topology now cause (history path c)])
            else history p c)"
    and "current_generation path (snd (observe_topology path topology now cause c))
           = Some (next_generation path topology now cause (history path c))"
  using assms by (auto simp: observe_topology_def Let_def current_generation_def split: if_splits)

lemma observe_current_topology:
  assumes "fst (observe_topology path topology now cause c) = Inr out"
  shows "current_generation path (snd (observe_topology path topology now cause c)) = Some (go_generation out)"
    and "pg_topology (go_generation out) = pt_digest topology"
    and "find_path path c \<noteq> None" and "length (pt_hops topology) \<le> kMaxHopsPerPath"
  using assms by (auto simp: observe_topology_def Let_def current_generation_def split: if_splits)

lemma observe_keeps_path [simp]:
  "find_path p (snd (observe_topology path topology now cause c)) = find_path p c"
  by (simp add: observe_topology_def Let_def)

lemma observe_again:
  assumes "fst (observe_topology path topology now cause c) = Inr out"
  defines "c' \<equiv> snd (observe_topology path topology now cause c)"
  shows "fst (observe_topology path topology now' cause' c')
           = Inr \<lparr>go_generation = go_generation out, go_created_new = False, go_reason = ''topology_unchanged''\<rparr>"
    and "history p (snd (observe_topology path topology now' cause' c')) = history p c'"
proof -
  note obs = observe_current_topology [OF assms(1)]
  have reg: "find_path path c' \<noteq> None" using obs(3) by (simp add: c'_def)
  show "fst (observe_topology path topology now' cause' c')
           = Inr \<lparr>go_generation = go_generation out, go_created_new = False, go_reason = ''topology_unchanged''\<rparr>"
    by (rule observe_unchanged [OF reg obs(4) _ obs(2)]) (simp add: c'_def obs(1))
  show "history p (snd (observe_topology path topology now' cause' c')) = history p c'"
    by (rule observe_unchanged [OF reg obs(4) _ obs(2)]) (simp add: c'_def obs(1))
qed

text \<open>Closing without a successor blocks the path until its topology changes.\<close>

lemma observe_after_close:
  assumes "current_generation path c = Some g" "find_path path c \<noteq> None"
    and "length (pt_hops topology) \<le> kMaxHopsPerPath" "pg_topology g = pt_digest topology" "pg_is_open g"
  shows "\<exists>out. fst (observe_topology path topology now cause (snd (close_current path t reason c))) = Inr out
           \<and> \<not> pg_is_open (go_generation out)"
proof -
  let ?c = "snd (close_current path t reason c)"
  have "current_generation path ?c
      = Some (g\<lparr>pg_closed_at_utc_ns := Some t, pg_close_reason := reason\<rparr>)"
    using assms(1,5) by (auto simp: close_current_def current_generation_def update_last_def split: if_splits)
  moreover have "find_path path ?c \<noteq> None" using assms(2) by (simp add: close_current_def)
  ultimately show ?thesis
    using observe_unchanged(1) [of path ?c topology _ now cause] assms(3,4) by (auto simp: pg_is_open_def)
qed

section \<open>Properties\<close>


definition plain_path :: path_descriptor where
  "plain_path = \<lparr>pd_id = nil_id, pd_name = ''p'', pd_hops = [], pd_origin = Origin_Real, pd_description = ''''\<rparr>"


text \<open>
  Observing the topology a path already has changes nothing; observing another one closes the
  current generation (never before it was opened), appends a generation with the next ordinal and
  drops only the oldest history beyond the bound, leaving every other path alone.
\<close>

lemma observe_topology_effect:
  assumes "find_path path c \<noteq> None" "length (pt_hops topology) \<le> kMaxHopsPerPath"
  shows "history p (snd (observe_topology path topology now cause c)) =
    (if p \<noteq> path \<or> map_option pg_topology (current_generation path c) = Some (pt_digest topology)
     then history p c
     else trim_history (close_last now (history path c)
            @ [next_generation path topology now cause (history path c)]))"
proof (cases "map_option pg_topology (current_generation path c) = Some (pt_digest topology)")
  case True
  then show ?thesis using observe_unchanged(2) [OF assms, where now = now and cause = cause and p = p] by auto
next
  case False
  then show ?thesis using observe_changed(2) [OF assms, where now = now and cause = cause and p = p] by auto
qed

definition one_path :: path_catalog where
  "one_path = \<lparr>pc_paths = [(StrongId 1, plain_path)], pc_generations = []\<rparr>"

lemma observe_topology_effect_witness:
  "history (StrongId 1) (snd (observe_topology (StrongId 1) (topology_of_hops [StrongId 7]) 5 ''route'' one_path)) =
     [next_generation (StrongId 1) (topology_of_hops [StrongId 7]) 5 ''route'' []]"
  by (subst observe_topology_effect)
     (simp_all add: one_path_def find_path_def topology_of_hops_def kMaxHopsPerPath_def
        current_generation_def history_def om_get_def close_last_def trim_history_def
        kMaxGenerationHistoryPerPath_def)

end
