(* ===== verification/Sample.thy ===== *)
theory Sample
  imports Path
begin

text \<open>
  Observations and batches: \<^verbatim>\<open>include/jitter/sample.hpp\<close> and \<^verbatim>\<open>src/sample.cpp\<close>. The
  metadata of a sample is a \<^verbatim>\<open>std::map<std::string, std::string>\<close>, an ordered map here.
\<close>

record hop_timing =
  ht_hop :: hop_id
  ht_arrived :: time_point

record latency_sample =
  ls_id :: measurement_id
  ls_series :: series_id
  ls_path :: path_id
  ls_generation :: generation_id
  ls_generation_ordinal :: counter
  ls_provenance :: provenance
  ls_latency_ns :: i64
  ls_observed_at :: time_point
  ls_received_at :: time_point
  ls_hop_timings :: "hop_timing list"
  ls_metadata :: "(string, string) omap"
  ls_content :: digest

definition timing_parts :: "hop_timing \<Rightarrow> bytes list" where
  "timing_parts t = [enc_id (ht_hop t), enc_id (tp_domain (ht_arrived t)), enc_i64 (tp_ticks (ht_arrived t))]"

definition metadata_parts :: "string \<times> string \<Rightarrow> bytes list" where
  "metadata_parts kv = [enc_str (fst kv), enc_str (snd kv)]"

definition sample_parts :: "latency_sample \<Rightarrow> bytes list" where
  "sample_parts s =
     [enc_str kDomainMeasurement, enc_id (ls_series s), enc_id (ls_path s), enc_id (ls_generation s),
      enc_u64 (ls_generation_ordinal s), enc_id (pv_source (ls_provenance s)),
      enc_u64 (pv_incarnation (ls_provenance s)), enc_u64 (pv_epoch (ls_provenance s)),
      enc_u64 (pv_sequence (ls_provenance s)),
      enc_u8 (source_authority_code (pv_authority (ls_provenance s))),
      enc_u8 (evidence_origin_code (pv_origin (ls_provenance s))),
      enc_str (pv_ingest_path (ls_provenance s)), enc_i64 (ls_latency_ns s),
      enc_id (tp_domain (ls_observed_at s)), enc_i64 (tp_ticks (ls_observed_at s)),
      enc_id (tp_domain (ls_received_at s)), enc_i64 (tp_ticks (ls_received_at s)),
      enc_u32 (word_of_nat (length (ls_hop_timings s)))]
     @ concat (map timing_parts (ls_hop_timings s))
     @ [enc_u32 (word_of_nat (length (ls_metadata s)))]
     @ concat (map metadata_parts (om_entries (ls_metadata s)))"

definition sample_content_digest :: "latency_sample \<Rightarrow> digest" where
  "sample_content_digest s = builder_digest (sample_parts s)"

definition validate_timing :: "hop_timing \<Rightarrow> status" where
  "validate_timing t =
     (if id_is_nil (ht_hop t) then fail Ec_InvalidArgument ''hop timing requires a hop identity''
      else if id_is_nil (tp_domain (ht_arrived t))
      then fail Ec_InvalidArgument ''hop timing requires the clock domain of its arrival time''
      else success)"

fun metadata_total :: "u64 \<Rightarrow> (string \<times> string) list \<Rightarrow> u64 result" where
  "metadata_total acc [] = Inr acc"
| "metadata_total acc ((k, v) # entries) =
     (if k = '''' then fail Ec_InvalidArgument ''metadata key must not be empty''
      else if length k > kMaxMetadataKeyBytes
      then fail Ec_LimitExceeded ''metadata key is too long''
      else if length v > kMaxMetadataValueBytes
      then fail Ec_LimitExceeded ''metadata value is too long''
      else res_bind (add_u64 acc (word_of_nat (length k)) ''metadata'') (\<lambda>t1.
           res_bind (add_u64 t1 (word_of_nat (length v)) ''metadata'') (\<lambda>t2.
             metadata_total t2 entries)))"

definition validate_sample :: "latency_sample \<Rightarrow> status" where
  "validate_sample s =
     (if id_is_nil (ls_series s) then fail Ec_InvalidArgument ''sample requires a series identity''
      else if id_is_nil (ls_path s) then fail Ec_InvalidArgument ''sample requires a path identity''
      else if id_is_nil (ls_generation s)
      then fail Ec_InvalidArgument ''sample requires a generation identity''
      else if is_unset (ls_generation_ordinal s)
      then fail Ec_InvalidArgument ''sample requires the generation ordinal it belongs to''
      else if id_is_nil (pv_source (ls_provenance s))
      then fail Ec_InvalidArgument ''sample requires a source identity''
      else if is_unset (pv_incarnation (ls_provenance s))
      then fail Ec_InvalidArgument ''sample requires a source incarnation''
      else if is_unset (pv_sequence (ls_provenance s))
      then fail Ec_InvalidArgument ''sample requires a source sequence''
      else if pv_origin (ls_provenance s) = Origin_Unknown
      then fail Ec_InvalidArgument
             ''sample requires an explicit evidence origin (real, synthetic or unsupported)''
      else if id_is_nil (tp_domain (ls_observed_at s))
      then fail Ec_InvalidArgument ''sample requires the clock domain of its observation time''
      else if id_is_nil (tp_domain (ls_received_at s))
      then fail Ec_InvalidArgument ''sample requires the clock domain of its receive time''
      else if tp_domain (ls_received_at s) \<noteq> local_clock_id
      then fail Ec_InvalidArgument
             ''receive time must be expressed on the runtime local clock domain''
      else if ls_latency_ns s < kMinLatencyNs \<or> ls_latency_ns s > kMaxLatencyNs
      then fail Ec_OutOfRange ''sample latency is outside the supported range''
      else if length (ls_hop_timings s) > kMaxHopsPerPath
      then fail Ec_LimitExceeded ''sample carries more hop timings than supported''
      else res_bind (check_each validate_timing (ls_hop_timings s)) (\<lambda>_.
        if length (ls_metadata s) > kMaxMetadataEntries
        then fail Ec_LimitExceeded ''sample carries too many metadata entries''
        else res_bind (metadata_total 0 (om_entries (ls_metadata s))) (\<lambda>acc.
          if acc > word_of_nat kMaxTotalMetadataBytes
          then fail Ec_LimitExceeded ''sample metadata exceeds the total byte budget''
          else success)))"

definition make_sample :: "latency_sample \<Rightarrow> latency_sample result" where
  "make_sample sample =
     res_bind (validate_sample sample) (\<lambda>_.
       let s = sample\<lparr>ls_content := sample_content_digest sample\<rparr>
       in if \<not> id_is_nil (ls_id s) \<and> ls_id s \<noteq> id_from_digest (ls_content s)
          then fail Ec_InvalidArgument
                 ''sample id does not match the content addressed identity of its content''
          else Inr (s\<lparr>ls_id := id_from_digest (ls_content s)\<rparr>))"

section \<open>Batches\<close>

record batch_header =
  bh_source :: source_id
  bh_incarnation :: counter
  bh_epoch :: counter
  bh_sequence :: counter
  bh_authority :: source_authority
  bh_origin :: evidence_origin
  bh_ingest_path :: string
  bh_series :: series_id
  bh_path :: path_id
  bh_generation :: generation_id
  bh_generation_ordinal :: counter
  bh_observation_clock :: clock_domain_id
  bh_protocol_revision :: u32

record latency_batch =
  lb_id :: batch_id
  lb_header :: batch_header
  lb_samples :: "latency_sample list"
  lb_content :: digest

definition batch_parts :: "latency_batch \<Rightarrow> bytes list" where
  "batch_parts b = (let h = lb_header b in
     [enc_str kDomainBatch, enc_id (bh_source h), enc_u64 (bh_incarnation h), enc_u64 (bh_epoch h),
      enc_u64 (bh_sequence h), enc_u8 (source_authority_code (bh_authority h)),
      enc_u8 (evidence_origin_code (bh_origin h)), enc_str (bh_ingest_path h), enc_id (bh_series h),
      enc_id (bh_path h), enc_id (bh_generation h), enc_u64 (bh_generation_ordinal h),
      enc_id (bh_observation_clock h), enc_u32 (bh_protocol_revision h),
      enc_u32 (word_of_nat (length (lb_samples b)))]
     @ map (\<lambda>s. digest_bytes (ls_content s)) (lb_samples b))"

definition batch_content_digest :: "latency_batch \<Rightarrow> digest" where
  "batch_content_digest b = builder_digest (batch_parts b)"

definition validate_batch_sample :: "batch_header \<Rightarrow> latency_sample \<Rightarrow> status" where
  "validate_batch_sample h s =
     res_bind (validate_sample s) (\<lambda>_.
       if ls_series s \<noteq> bh_series h
       then fail Ec_InvalidArgument ''batch mixes samples from different series''
       else if ls_path s \<noteq> bh_path h
       then fail Ec_InvalidArgument ''batch mixes samples from different paths''
       else if ls_generation s \<noteq> bh_generation h
       then fail Ec_InvalidArgument ''batch mixes samples from different generations''
       else if pv_source (ls_provenance s) \<noteq> bh_source h
       then fail Ec_InvalidArgument ''batch mixes samples from different sources''
       else if tp_domain (ls_observed_at s) \<noteq> bh_observation_clock h
       then fail Ec_InvalidArgument ''batch mixes observation clock domains''
       else success)"

definition validate_batch :: "latency_batch \<Rightarrow> status" where
  "validate_batch b = (let h = lb_header b in
     if id_is_nil (bh_source h) then fail Ec_InvalidArgument ''batch requires a source identity''
     else if is_unset (bh_incarnation h)
     then fail Ec_InvalidArgument ''batch requires a source incarnation''
     else if is_unset (bh_sequence h)
     then fail Ec_InvalidArgument ''batch requires a source sequence''
     else if id_is_nil (bh_series h)
     then fail Ec_InvalidArgument ''batch requires a series identity''
     else if id_is_nil (bh_path h)
     then fail Ec_InvalidArgument ''batch requires a path identity''
     else if id_is_nil (bh_generation h)
     then fail Ec_InvalidArgument ''batch requires a generation identity''
     else if id_is_nil (bh_observation_clock h)
     then fail Ec_InvalidArgument ''batch requires the clock domain of its observations''
     else if bh_origin h = Origin_Unknown
     then fail Ec_InvalidArgument ''batch requires an explicit evidence origin''
     else if lb_samples b = []
     then fail Ec_InvalidArgument ''batch must carry at least one sample''
     else if length (lb_samples b) > kMaxSamplesPerBatch
     then fail Ec_LimitExceeded ''batch carries more samples than supported''
     else check_each (validate_batch_sample h) (lb_samples b))"

definition make_batch :: "latency_batch \<Rightarrow> latency_batch result" where
  "make_batch batch =
     res_bind (validate_batch batch) (\<lambda>_.
       let b = batch\<lparr>lb_content := batch_content_digest batch\<rparr>
       in Inr (b\<lparr>lb_id := id_from_digest (lb_content b)\<rparr>))"

section \<open>What validation guarantees\<close>

text \<open>The declarative content of \<open>validate_sample\<close>.\<close>

definition metadata_ok :: "string \<times> string \<Rightarrow> bool" where
  "metadata_ok kv \<longleftrightarrow> fst kv \<noteq> '''' \<and> length (fst kv) \<le> kMaxMetadataKeyBytes \<and>
     length (snd kv) \<le> kMaxMetadataValueBytes"

definition sample_ok :: "latency_sample \<Rightarrow> bool" where
  "sample_ok s \<longleftrightarrow>
     ls_series s \<noteq> nil_id \<and> ls_path s \<noteq> nil_id \<and> ls_generation s \<noteq> nil_id \<and>
     ls_generation_ordinal s \<noteq> 0 \<and> pv_source (ls_provenance s) \<noteq> nil_id \<and>
     pv_incarnation (ls_provenance s) \<noteq> 0 \<and> pv_sequence (ls_provenance s) \<noteq> 0 \<and>
     pv_origin (ls_provenance s) \<noteq> Origin_Unknown \<and> tp_domain (ls_observed_at s) \<noteq> nil_id \<and>
     tp_domain (ls_received_at s) = local_clock_id \<and> local_clock_id \<noteq> nil_id \<and>
     kMinLatencyNs \<le> ls_latency_ns s \<and> ls_latency_ns s \<le> kMaxLatencyNs \<and>
     length (ls_hop_timings s) \<le> kMaxHopsPerPath \<and>
     list_all (\<lambda>t. ht_hop t \<noteq> nil_id \<and> tp_domain (ht_arrived t) \<noteq> nil_id) (ls_hop_timings s) \<and>
     length (ls_metadata s) \<le> kMaxMetadataEntries \<and> list_all metadata_ok (ls_metadata s) \<and>
     sum_list (map (\<lambda>kv. length (fst kv) + length (snd kv)) (ls_metadata s)) \<le> kMaxTotalMetadataBytes"

lemma add_u64_small:
  "unat a + n < 2 ^ 64 \<Longrightarrow> add_u64 a (word_of_nat n) ctx = Inr (a + word_of_nat n)"
proof -
  assume n: "unat a + n < 2 ^ 64"
  then have "unat (word_of_nat n :: u64) = n" by (simp add: unat_of_nat take_bit_nat_eq_self)
  with n show ?thesis by (simp add: add_u64_def checked_add_u64_eq)
qed

lemma unat_add_small: "unat (a :: u64) + n < 2 ^ 64 \<Longrightarrow> unat (a + word_of_nat n) = unat a + n"
  by (simp add: unat_word_ariths unat_of_nat take_bit_nat_eq_self)

abbreviation metadata_bytes :: "(string \<times> string) list \<Rightarrow> nat" where
  "metadata_bytes kvs \<equiv> sum_list (map (\<lambda>kv. length (fst kv) + length (snd kv)) kvs)"

lemma metadata_total_Inr:
  "unat acc + length entries * 608 < 2 ^ 64 \<Longrightarrow>
     metadata_total acc entries = Inr t \<longleftrightarrow>
       list_all metadata_ok entries \<and> t = acc + word_of_nat (metadata_bytes entries)"
proof (induction entries arbitrary: acc)
  case (Cons kv entries)
  obtain k v where kv: "kv = (k, v)" by (cases kv)
  show ?case
  proof (cases "metadata_ok kv")
    case True
    then have len: "length k \<le> 96" "length v \<le> 512"
      by (simp_all add: kv metadata_ok_def limit_defs)
    with Cons.prems have b: "unat acc + (length k + length v) + length entries * 608 < 2 ^ 64" by simp
    have s1: "unat (acc + word_of_nat (length k)) = unat acc + length k"
      using b by (intro unat_add_small) linarith
    have s2: "unat (acc + word_of_nat (length k) + word_of_nat (length v)) = unat acc + length k + length v"
      using b unat_add_small [of "acc + word_of_nat (length k)" "length v"] by (simp add: s1)
    have a1: "add_u64 acc (word_of_nat (length k)) ctx = Inr (acc + word_of_nat (length k))" for ctx
      using b by (intro add_u64_small) linarith
    have a2: "add_u64 (acc + word_of_nat (length k)) (word_of_nat (length v)) ctx
        = Inr (acc + word_of_nat (length k) + word_of_nat (length v))" for ctx
      using b by (intro add_u64_small) (simp add: s1)
    have "unat (acc + word_of_nat (length k) + word_of_nat (length v)) + length entries * 608 < 2 ^ 64"
      using b by (simp add: s2)
    note IH = Cons.IH [OF this]
    have "metadata_total acc (kv # entries)
        = metadata_total (acc + word_of_nat (length k) + word_of_nat (length v)) entries"
      using True by (simp add: kv metadata_ok_def a1 a2 not_less)
    then show ?thesis using True IH by (simp add: kv add.assoc)
  next
    case False
    then show ?thesis by (auto simp: kv metadata_ok_def)
  qed
qed auto

lemma metadata_bytes_bound: "list_all metadata_ok kvs \<Longrightarrow> metadata_bytes kvs \<le> length kvs * 608"
  by (induction kvs) (auto simp: metadata_ok_def limit_defs)

lemma validate_sample_iff: "validate_sample s = success \<longleftrightarrow> sample_ok s"
proof -
  have meta: "res_bind (metadata_total 0 kvs) (\<lambda>acc.
        if acc > word_of_nat kMaxTotalMetadataBytes
        then fail Ec_LimitExceeded ''sample metadata exceeds the total byte budget'' else success) = success
      \<longleftrightarrow> list_all metadata_ok kvs \<and> metadata_bytes kvs \<le> kMaxTotalMetadataBytes"
    if "length kvs \<le> 32" for kvs :: "(string \<times> string) list"
  proof -
    have "metadata_total 0 kvs = Inr t \<longleftrightarrow>
        list_all metadata_ok kvs \<and> t = word_of_nat (metadata_bytes kvs)" for t
      using that metadata_total_Inr [of 0 kvs t] by simp
    moreover have "\<not> word_of_nat kMaxTotalMetadataBytes < (word_of_nat (metadata_bytes kvs) :: u64)
        \<longleftrightarrow> metadata_bytes kvs \<le> kMaxTotalMetadataBytes" if "list_all metadata_ok kvs"
      using metadata_bytes_bound [OF that] \<open>length kvs \<le> 32\<close>
      by (simp add: word_less_nat_alt unat_of_nat take_bit_nat_eq_self limit_defs not_less)
    ultimately show ?thesis by (auto simp: res_bind_eq_Inr)
  qed
  have timing: "check_each validate_timing ts = success \<longleftrightarrow>
      list_all (\<lambda>t. ht_hop t \<noteq> nil_id \<and> tp_domain (ht_arrived t) \<noteq> nil_id) ts" for ts
    by (auto simp: check_each_ok list_all_iff validate_timing_def id_is_nil_iff)
  show ?thesis
    unfolding validate_sample_def sample_ok_def
    by (auto simp: id_is_nil_iff is_unset_def res_bind_eq_Inr timing om_entries_def
        meta [unfolded res_bind_eq_Inr] kMaxMetadataEntries_def not_less not_le split: if_splits)
qed

lemma make_sample_InrD:
  assumes "make_sample s = Inr t"
  shows "sample_ok s" "t = s\<lparr>ls_content := sample_content_digest s, ls_id := id_from_digest (sample_content_digest s)\<rparr>"
  using assms by (auto simp: make_sample_def res_bind_eq_Inr Let_def validate_sample_iff split: if_splits)

lemma sample_parts_frame [simp]:
  "sample_parts (s\<lparr>ls_id := i\<rparr>) = sample_parts s" "sample_parts (s\<lparr>ls_content := c\<rparr>) = sample_parts s"
  by (simp_all add: sample_parts_def)

lemma sample_ok_frame [simp]:
  "sample_ok (s\<lparr>ls_id := i\<rparr>) = sample_ok s" "sample_ok (s\<lparr>ls_content := c\<rparr>) = sample_ok s"
  by (simp_all add: sample_ok_def)

text \<open>A sample the constructor produced is its own fixed point.\<close>

definition sample_made :: "latency_sample \<Rightarrow> bool" where
  "sample_made s \<longleftrightarrow> sample_ok s \<and> ls_content s = sample_content_digest s \<and>
     ls_id s = id_from_digest (ls_content s)"

lemma make_sample_made: "make_sample s = Inr t \<Longrightarrow> sample_made t"
  using make_sample_InrD [of s t] by (simp add: sample_made_def sample_content_digest_def)

lemma make_sample_fixed: "sample_made s \<Longrightarrow> make_sample s = Inr s"
  by (auto simp: sample_made_def make_sample_def validate_sample_iff [THEN iffD2] Let_def)

lemma sample_made_iff: "sample_made s \<longleftrightarrow> make_sample s = Inr s"
  using make_sample_made make_sample_fixed by blast

definition batch_uniform :: "latency_batch \<Rightarrow> bool" where
  "batch_uniform b \<longleftrightarrow> lb_samples b \<noteq> [] \<and> length (lb_samples b) \<le> kMaxSamplesPerBatch \<and>
     (\<forall>s \<in> set (lb_samples b). sample_ok s \<and> ls_series s = bh_series (lb_header b) \<and>
        ls_path s = bh_path (lb_header b) \<and> ls_generation s = bh_generation (lb_header b) \<and>
        pv_source (ls_provenance s) = bh_source (lb_header b) \<and>
        tp_domain (ls_observed_at s) = bh_observation_clock (lb_header b))"

lemma validate_batch_sample_iff:
  "validate_batch_sample h s = success \<longleftrightarrow> sample_ok s \<and> ls_series s = bh_series h \<and>
     ls_path s = bh_path h \<and> ls_generation s = bh_generation h \<and>
     pv_source (ls_provenance s) = bh_source h \<and> tp_domain (ls_observed_at s) = bh_observation_clock h"
  by (auto simp: validate_batch_sample_def res_bind_eq_Inr validate_sample_iff split: if_splits)

lemma validate_batch_uniform: "validate_batch b = success \<Longrightarrow> batch_uniform b"
  by (auto simp: validate_batch_def Let_def batch_uniform_def check_each_ok validate_batch_sample_iff
      split: if_splits)

section \<open>Properties\<close>

text \<open>
  C34: The validator accepts exactly the well-formed observations, and the samples
  \<^verbatim>\<open>make_sample\<close> can produce are exactly those that are well formed and carry the digest of
  their own content as content address and identity; making a made sample changes nothing.
\<close>

lemma make_sample_range:
  "(validate_sample s = success \<longleftrightarrow> sample_ok s) \<and>
   ((\<exists>r. make_sample r = Inr s) \<longleftrightarrow>
      sample_ok s \<and> ls_content s = sample_content_digest s \<and> ls_id s = id_from_digest (ls_content s)) \<and>
   ((\<exists>r. make_sample r = Inr s) \<longleftrightarrow> make_sample s = Inr s)"
  using make_sample_made make_sample_fixed
  by (auto simp: validate_sample_iff sample_made_def [symmetric])

end
