(* ===== verification/Window.thy ===== *)
theory Window
  imports Sample "HOL-Library.Multiset"
begin

text \<open>
  Bounded observation windows: \<^verbatim>\<open>include/jitter/window.hpp\<close> and \<^verbatim>\<open>src/window.cpp\<close>. The
  deque is a list, oldest first. \<^verbatim>\<open>std::sort\<close> with \<^verbatim>\<open>sample_less\<close> is a sort by the key triple
  the comparator reads. The subtractions of the selection are unchecked signed arithmetic; they
  are read as two's complement wrap-around (\<open>wrap_i64\<close>), and \<open>close_to_plain\<close> states when no
  wrap happens.
\<close>

datatype window_kind =
    Window_Count
  | Window_Time
  | Window_Tumbling

fun window_kind_code :: "window_kind \<Rightarrow> u8" where
  "window_kind_code Window_Count = 0"
| "window_kind_code Window_Time = 1"
| "window_kind_code Window_Tumbling = 2"

definition window_kind_of_code :: "u8 \<Rightarrow> window_kind option" where
  "window_kind_of_code raw =
     (if raw > window_kind_code Window_Tumbling then None
      else Some ([Window_Count, Window_Time, Window_Tumbling] ! unat raw))"

fun window_kind_text :: "window_kind \<Rightarrow> string" where
  "window_kind_text Window_Count = ''count''"
| "window_kind_text Window_Time = ''time''"
| "window_kind_text Window_Tumbling = ''tumbling''"

definition parse_window_kind :: "string \<Rightarrow> window_kind option" where
  "parse_window_kind v =
     (if v = ''count'' then Some Window_Count
      else if v = ''time'' then Some Window_Time
      else if v = ''tumbling'' then Some Window_Tumbling
      else None)"

interpretation window_kind_enum: u8_enum window_kind_code window_kind_of_code
proof
  fix x
  show "window_kind_of_code (window_kind_code x) = Some x" by (cases x) (simp_all add: window_kind_of_code_def)
qed

interpretation window_kind_names: text_enum window_kind_text parse_window_kind
proof
  fix x
  show "parse_window_kind (window_kind_text x) = Some x" by (cases x) (simp_all add: parse_window_kind_def)
qed

record window_policy =
  wp_kind :: window_kind
  wp_count :: u64
  wp_duration_ns :: i64
  wp_capacity :: u64
  wp_anchor_ns :: i64

definition default_window_policy :: window_policy where
  "default_window_policy =
     \<lparr>wp_kind = Window_Count, wp_count = 256, wp_duration_ns = 1000000000, wp_capacity = 512,
      wp_anchor_ns = 0\<rparr>"

definition window_policy_parts :: "window_policy \<Rightarrow> bytes list" where
  "window_policy_parts p =
     [enc_str kDomainWindowPolicy, enc_u8 (window_kind_code (wp_kind p)), enc_u64 (wp_count p),
      enc_i64 (wp_duration_ns p), enc_u64 (wp_capacity p), enc_i64 (wp_anchor_ns p)]"

definition make_window_policy_id :: "window_policy \<Rightarrow> window_policy_id" where
  "make_window_policy_id p = builder_id (window_policy_parts p)"

definition validate_window_policy :: "window_policy \<Rightarrow> status" where
  "validate_window_policy p =
     (if wp_capacity p = 0 then fail Ec_InvalidArgument ''window capacity must be non zero''
      else if wp_capacity p > word_of_nat kMaxWindowSamples
      then fail Ec_LimitExceeded ''window capacity exceeds the supported bound''
      else case wp_kind p of
             Window_Count \<Rightarrow>
               if wp_count p = 0
               then fail Ec_InvalidArgument ''count window requires a non zero count''
               else if wp_count p > wp_capacity p
               then fail Ec_InvalidArgument ''count window size exceeds its capacity bound''
               else success
           | _ \<Rightarrow>
               if wp_duration_ns p \<le> 0
               then fail Ec_InvalidArgument ''time based window requires a positive duration''
               else if wp_duration_ns p > kMaxWindowDurationNs
               then fail Ec_LimitExceeded ''window duration exceeds the supported bound''
               else success)"

record window_selection =
  sel_samples :: "latency_sample list"
  sel_retained :: u64
  sel_excluded_by_policy :: u64
  sel_reason :: string

definition latencies_ns :: "window_selection \<Rightarrow> i64 list" where
  "latencies_ns sel = map ls_latency_ns (sel_samples sel)"

record sample_window =
  sw_policy :: window_policy
  sw_policy_id :: window_policy_id
  sw_samples :: "latency_sample list"
  sw_series :: "series_id option"
  sw_generation :: "generation_id option"
  sw_generation_ordinal :: "counter option"
  sw_evicted_by_capacity :: u64
  sw_out_of_order_accepted :: u64
  sw_duplicate_ignored :: u64
  sw_rejected_mismatch :: u64
  sw_newest_ticks :: i64
  sw_has_newest :: bool

definition window_init :: "window_policy \<Rightarrow> sample_window" where
  "window_init p =
     \<lparr>sw_policy = p, sw_policy_id = make_window_policy_id p, sw_samples = [], sw_series = None,
      sw_generation = None, sw_generation_ordinal = None, sw_evicted_by_capacity = 0,
      sw_out_of_order_accepted = 0, sw_duplicate_ignored = 0, sw_rejected_mismatch = 0,
      sw_newest_ticks = 0, sw_has_newest = False\<rparr>"

definition window_clear :: "sample_window \<Rightarrow> sample_window" where
  "window_clear w =
     w\<lparr>sw_samples := [], sw_series := None, sw_generation := None, sw_generation_ordinal := None,
       sw_has_newest := False, sw_newest_ticks := 0\<rparr>"

definition retained :: "sample_window \<Rightarrow> nat" where
  "retained w = length (sw_samples w)"

section \<open>Adding\<close>

text \<open>The eviction loop: each turn drops the oldest observation and counts it.\<close>

function evict :: "sample_window \<Rightarrow> sample_window" where
  "evict w =
     (if length (sw_samples w) > unat (wp_capacity (sw_policy w))
      then evict (w\<lparr>sw_samples := tl (sw_samples w),
                    sw_evicted_by_capacity := sw_evicted_by_capacity w + 1\<rparr>)
      else w)"
  by pat_completeness auto
termination
  by (relation "measure (\<lambda>w. length (sw_samples w))") auto

declare evict.simps [simp del]

definition bind_window :: "latency_sample \<Rightarrow> sample_window \<Rightarrow> sample_window" where
  "bind_window s w =
     (if sw_series w = None
      then w\<lparr>sw_series := Some (ls_series s), sw_generation := Some (ls_generation s),
             sw_generation_ordinal := Some (ls_generation_ordinal s)\<rparr>
      else w)"

definition window_add :: "latency_sample \<Rightarrow> sample_window \<Rightarrow> status \<times> sample_window" where
  "window_add s w =
     (if sw_series w \<noteq> None \<and>
         (sw_series w \<noteq> Some (ls_series s) \<or> sw_generation w \<noteq> Some (ls_generation s))
      then (fail Ec_Conflict ''window refuses observations from another series or generation'',
            w\<lparr>sw_rejected_mismatch := sw_rejected_mismatch w + 1\<rparr>)
      else let w1 = bind_window s w
           in if \<exists>existing \<in> set (sw_samples w1). ls_id existing = ls_id s
              then (success, w1\<lparr>sw_duplicate_ignored := sw_duplicate_ignored w1 + 1\<rparr>)
              else let ticks = tp_ticks (ls_observed_at s);
                       w2 = (if sw_has_newest w1 \<and> ticks < sw_newest_ticks w1
                             then w1\<lparr>sw_out_of_order_accepted := sw_out_of_order_accepted w1 + 1\<rparr>
                             else w1\<lparr>sw_newest_ticks := ticks, sw_has_newest := True\<rparr>)
                   in (success, evict (w2\<lparr>sw_samples := sw_samples w2 @ [s]\<rparr>)))"

section \<open>Selecting\<close>

definition sample_key :: "latency_sample \<Rightarrow> i64 \<times> counter \<times> measurement_id" where
  "sample_key s = (tp_ticks (ls_observed_at s), pv_sequence (ls_provenance s), ls_id s)"

definition window_ordered :: "sample_window \<Rightarrow> latency_sample list" where
  "window_ordered w = sort_key sample_key (sw_samples w)"

text \<open>\<^verbatim>\<open>newest >= ticks && (newest - ticks) <= duration\<close>\<close>

definition close_to :: "i64 \<Rightarrow> i64 \<Rightarrow> i64 \<Rightarrow> bool" where
  "close_to newest duration ticks \<longleftrightarrow> newest \<ge> ticks \<and> wrap_i64 (newest - ticks) \<le> duration"

text \<open>\<^verbatim>\<open>ticks >= anchor && (ticks - anchor) <= kMaxWindowDurationNs\<close>\<close>

definition bucket_in_range :: "i64 \<Rightarrow> i64 \<Rightarrow> bool" where
  "bucket_in_range anchor ticks \<longleftrightarrow> ticks \<ge> anchor \<and> wrap_i64 (ticks - anchor) \<le> kMaxWindowDurationNs"

definition bucket_of :: "i64 \<Rightarrow> i64 \<Rightarrow> i64" where
  "bucket_of duration offset = offset - (offset smod duration)"

definition tumbling_keep :: "window_policy \<Rightarrow> i64 \<Rightarrow> latency_sample \<Rightarrow> bool" where
  "tumbling_keep p newest s =
     (let ticks = tp_ticks (ls_observed_at s);
          bucket_known = bucket_in_range (wp_anchor_ns p) newest;
          offset = (if bucket_known then wrap_i64 (newest - wp_anchor_ns p) else 0);
          bucket = bucket_of (wp_duration_ns p) offset
      in if \<not> bucket_known then close_to newest (wp_duration_ns p) ticks
         else if \<not> bucket_in_range (wp_anchor_ns p) ticks then False
         else bucket_of (wp_duration_ns p) (wrap_i64 (ticks - wp_anchor_ns p)) = bucket)"

definition window_select :: "sample_window \<Rightarrow> window_selection" where
  "window_select w =
     (let n = length (sw_samples w); p = sw_policy w; ordered = window_ordered w;
          newest = tp_ticks (ls_observed_at (last ordered));
          result = (\<lambda>kept reason.
             \<lparr>sel_samples = kept, sel_retained = word_of_nat n,
              sel_excluded_by_policy = word_of_nat (n - length kept), sel_reason = reason\<rparr>)
      in if sw_samples w = [] then result [] ''window_empty''
         else case wp_kind p of
                Window_Count \<Rightarrow>
                  result (drop (n - unat (wp_count p)) ordered) ''most_recent_count''
              | Window_Time \<Rightarrow>
                  result (filter (\<lambda>s. close_to newest (wp_duration_ns p) (tp_ticks (ls_observed_at s))) ordered)
                    ''within_duration_of_newest_observation''
              | Window_Tumbling \<Rightarrow>
                  result (filter (tumbling_keep p newest) ordered) ''same_tumbling_bucket_as_newest'')"

definition window_snapshot :: "sample_window \<Rightarrow> latency_sample list" where
  "window_snapshot w = window_ordered w"

definition oldest_observation_ticks :: "sample_window \<Rightarrow> i64 option" where
  "oldest_observation_ticks w =
     (case sw_samples w of
        [] \<Rightarrow> None
      | s # ss \<Rightarrow> Some (fold (\<lambda>x m. min m (tp_ticks (ls_observed_at x))) (s # ss) (tp_ticks (ls_observed_at s))))"

definition newest_observation_ticks :: "sample_window \<Rightarrow> i64 option" where
  "newest_observation_ticks w = (if sw_has_newest w then Some (sw_newest_ticks w) else None)"

section \<open>Invariant\<close>

definition window_inv :: "sample_window \<Rightarrow> bool" where
  "window_inv w \<longleftrightarrow>
     sw_policy_id w = make_window_policy_id (sw_policy w) \<and>
     length (sw_samples w) \<le> unat (wp_capacity (sw_policy w)) \<and>
     distinct (map ls_id (sw_samples w)) \<and>
     (sw_series w = None \<longleftrightarrow> sw_generation w = None) \<and>
     (\<forall>s \<in> set (sw_samples w).
        sw_series w = Some (ls_series s) \<and> sw_generation w = Some (ls_generation s) \<and>
        sw_has_newest w \<and> tp_ticks (ls_observed_at s) \<le> sw_newest_ticks w)"

lemma window_inv_init [simp]: "window_inv (window_init p)"
  by (simp add: window_inv_def window_init_def)

lemma evict_frame [simp]:
  "sw_policy (evict w) = sw_policy w" "sw_policy_id (evict w) = sw_policy_id w"
  "sw_series (evict w) = sw_series w" "sw_generation (evict w) = sw_generation w"
  "sw_has_newest (evict w) = sw_has_newest w" "sw_newest_ticks (evict w) = sw_newest_ticks w"
  "sw_generation_ordinal (evict w) = sw_generation_ordinal w"
  "sw_out_of_order_accepted (evict w) = sw_out_of_order_accepted w"
  "sw_duplicate_ignored (evict w) = sw_duplicate_ignored w"
  "sw_rejected_mismatch (evict w) = sw_rejected_mismatch w"
  by (induction w rule: evict.induct; subst evict.simps; simp)+

lemma evict_samples:
  "sw_samples (evict w) = drop (length (sw_samples w) - unat (wp_capacity (sw_policy w))) (sw_samples w)"
proof (induction w rule: evict.induct)
  case (1 w)
  show ?case
  proof (cases "length (sw_samples w) > unat (wp_capacity (sw_policy w))")
    case True
    then have "length (sw_samples w) - unat (wp_capacity (sw_policy w))
        = Suc (length (sw_samples w) - 1 - unat (wp_capacity (sw_policy w)))" by simp
    with 1 [OF True] True show ?thesis
      by (subst evict.simps) (simp add: drop_Suc)
  next
    case False
    then show ?thesis by (subst evict.simps) simp
  qed
qed

lemma evict_count:
  "sw_evicted_by_capacity (evict w) = sw_evicted_by_capacity w
     + word_of_nat (length (sw_samples w) - unat (wp_capacity (sw_policy w)))"
proof (induction w rule: evict.induct)
  case (1 w)
  show ?case
  proof (cases "length (sw_samples w) > unat (wp_capacity (sw_policy w))")
    case True
    then have "length (sw_samples w) - unat (wp_capacity (sw_policy w))
        = Suc (length (sw_samples w) - 1 - unat (wp_capacity (sw_policy w)))" by simp
    with 1 [OF True] True show ?thesis
      by (subst evict.simps) (simp add: add.assoc)
  next
    case False
    then show ?thesis by (subst evict.simps) simp
  qed
qed

lemma window_add_policy [simp]: "sw_policy (snd (window_add s w)) = sw_policy w"
  by (simp add: window_add_def Let_def bind_window_def)

lemma window_add_inv:
  assumes "window_inv w"
  shows "window_inv (snd (window_add s w))"
proof -
  have drops: "distinct (map ls_id xs) \<Longrightarrow> distinct (map ls_id (drop n xs))" for n xs
    by (simp add: drop_map [symmetric])
  have "set (drop n xs) \<subseteq> set xs" for n and xs :: "latency_sample list" by (rule set_drop_subset)
  then show ?thesis
    using assms
    by (auto simp: window_add_def Let_def bind_window_def window_inv_def evict_samples
        intro!: drops dest!: in_set_dropD split: if_splits)
qed

lemma window_add_bound:
  "window_inv w \<Longrightarrow> retained (snd (window_add s w)) \<le> unat (wp_capacity (sw_policy w))"
  using window_add_inv [of w s] by (simp add: window_inv_def retained_def)

text \<open>Another series or generation is refused and leaves the contents alone.\<close>

lemma window_add_mismatch:
  assumes "window_inv w" "x \<in> set (sw_samples w)"
    and "ls_series x \<noteq> ls_series s \<or> ls_generation x \<noteq> ls_generation s"
  shows "window_add s w =
           (fail Ec_Conflict ''window refuses observations from another series or generation'',
            w\<lparr>sw_rejected_mismatch := sw_rejected_mismatch w + 1\<rparr>)"
proof -
  have "sw_series w = Some (ls_series x)" "sw_generation w = Some (ls_generation x)"
    using assms(1,2) by (auto simp: window_inv_def)
  with assms(3) show ?thesis by (auto simp: window_add_def)
qed

lemma window_add_retains:
  assumes "fst (window_add s w) = success" "wp_capacity (sw_policy w) \<noteq> 0"
  shows "\<exists>x \<in> set (sw_samples (snd (window_add s w))). ls_id x = ls_id s"
proof -
  have "0 < unat (wp_capacity (sw_policy w))" using assms(2) by (simp add: unat_gt_0)
  then have "s \<in> set (drop (Suc (length xs) - unat (wp_capacity (sw_policy w))) (xs @ [s]))" for xs
    by (cases "unat (wp_capacity (sw_policy w))") auto
  with assms(1) show ?thesis
    by (auto simp: window_add_def Let_def bind_window_def evict_samples split: if_splits)
qed

lemma window_add_again:
  assumes "fst (window_add s w) = success" "wp_capacity (sw_policy w) \<noteq> 0"
  shows "fst (window_add s (snd (window_add s w))) = success"
    and "sw_samples (snd (window_add s (snd (window_add s w)))) = sw_samples (snd (window_add s w))"
proof -
  let ?w = "snd (window_add s w)"
  have bound: "sw_series ?w = Some (ls_series s)" "sw_generation ?w = Some (ls_generation s)"
    using assms(1)
    by (auto simp: window_add_def Let_def bind_window_def split: if_splits)
  moreover have "\<exists>x \<in> set (sw_samples ?w). ls_id x = ls_id s" by (rule window_add_retains [OF assms])
  ultimately have "window_add s ?w = (success, ?w\<lparr>sw_duplicate_ignored := sw_duplicate_ignored ?w + 1\<rparr>)"
    by (simp add: window_add_def [of s ?w] bind_window_def Let_def del: split_paired_Ex)
  then show "fst (window_add s ?w) = success"
    and "sw_samples (snd (window_add s ?w)) = sw_samples ?w" by simp_all
qed

section \<open>Selection\<close>

lemma sample_key_inj: "distinct (map ls_id ss) \<Longrightarrow> inj_on sample_key (set ss)"
  by (auto simp: sample_key_def inj_on_def distinct_map)

lemma window_ordered_perm:
  assumes "mset (sw_samples w) = mset (sw_samples v)" "distinct (map ls_id (sw_samples w))"
  shows "window_ordered w = window_ordered v"
  unfolding window_ordered_def
proof (rule sort_key_inj_key_eq)
  show "mset (sw_samples w) = mset (sort_key sample_key (sw_samples v))" using assms(1) by simp
qed (simp_all add: sample_key_inj [OF assms(2)])

lemma window_select_perm:
  assumes "mset (sw_samples w) = mset (sw_samples v)" "distinct (map ls_id (sw_samples w))"
    and "sw_policy w = sw_policy v"
  shows "window_select w = window_select v"
proof -
  have "length (sw_samples w) = length (sw_samples v)" using assms(1) by (metis size_mset)
  moreover from this have "sw_samples w = [] \<longleftrightarrow> sw_samples v = []" by auto
  ultimately show ?thesis
    using window_ordered_perm [OF assms(1,2)] assms(3) by (simp add: window_select_def Let_def)
qed

lemma set_window_ordered [simp]: "set (window_ordered w) = set (sw_samples w)"
  by (simp add: window_ordered_def)

lemma window_select_subset: "set (sel_samples (window_select w)) \<subseteq> set (sw_samples w)"
  using set_drop_subset [of _ "window_ordered w"]
  by (auto simp: window_select_def Let_def split: window_kind.split dest: in_set_dropD)

lemma sorted_window_select: "sorted (map sample_key (sel_samples (window_select w)))"
  by (auto simp: window_select_def Let_def window_ordered_def drop_map [symmetric]
      sorted_wrt_drop sorted_filter split: window_kind.split)

lemma window_select_account:
  "length (sel_samples (window_select w)) + (length (sw_samples w) - length (sel_samples (window_select w)))
     = length (sw_samples w)"
proof -
  have "length (sel_samples (window_select w)) \<le> length (sw_samples w)"
    using length_filter_le [of _ "window_ordered w"]
    by (auto simp: window_select_def Let_def window_ordered_def split: window_kind.split
        intro: order_trans [OF length_filter_le])
  then show ?thesis by simp
qed

lemma window_select_count:
  assumes "wp_kind (sw_policy w) = Window_Count" "sw_samples w \<noteq> []"
  shows "length (sel_samples (window_select w)) = min (length (sw_samples w)) (unat (wp_count (sw_policy w)))"
    and "x \<in> set (sw_samples w) - set (sel_samples (window_select w)) \<Longrightarrow>
         y \<in> set (sel_samples (window_select w)) \<Longrightarrow> sample_key x \<le> sample_key y"
proof -
  let ?n = "length (sw_samples w) - unat (wp_count (sw_policy w))"
  have sel: "sel_samples (window_select w) = drop ?n (window_ordered w)"
    using assms by (simp add: window_select_def Let_def)
  then show "length (sel_samples (window_select w)) = min (length (sw_samples w)) (unat (wp_count (sw_policy w)))"
    by (simp add: window_ordered_def)
  assume x: "x \<in> set (sw_samples w) - set (sel_samples (window_select w))"
    and y: "y \<in> set (sel_samples (window_select w))"
  have "sorted (map sample_key (take ?n (window_ordered w)) @ map sample_key (drop ?n (window_ordered w)))"
    by (simp only: map_append [symmetric] append_take_drop_id) (simp add: window_ordered_def)
  moreover have "x \<in> set (take ?n (window_ordered w))"
    using x sel by (metis Diff_iff Un_iff append_take_drop_id set_append set_window_ordered)
  ultimately show "sample_key x \<le> sample_key y"
    using y unfolding sel sorted_append by simp
qed

lemma close_to_plain:
  "i64_ok (newest - ticks) \<Longrightarrow> close_to newest duration ticks \<longleftrightarrow> ticks \<le> newest \<and> newest - ticks \<le> duration"
  by (auto simp: close_to_def wrap_i64_id)

text \<open>
  The wrap-around reading of the overflow: a reading almost \<open>2 ^ 64\<close> ticks older than the newest
  one counts as close to it.
\<close>

lemma close_to_overflow: "close_to 9000000000000000000 1 (-9000000000000000000)"
  by (simp add: close_to_def wrap_i64_def)

section \<open>Properties\<close>

definition window_run :: "window_policy \<Rightarrow> latency_sample list \<Rightarrow> sample_window" where
  "window_run p ss = fold (\<lambda>s w. snd (window_add s w)) ss (window_init p)"

lemma window_run_inv: "window_inv (window_run p ss)"
proof -
  have "window_inv w \<Longrightarrow> window_inv (fold (\<lambda>s w. snd (window_add s w)) ss w)" for w
    by (induction ss arbitrary: w) (simp_all add: window_add_inv)
  then show ?thesis by (simp add: window_run_def)
qed

text \<open>
  Whatever is offered to a window, it never holds more than its capacity, holds no
  observation twice, and holds observations of one series and one generation only.
\<close>

lemma window_bounded_uniform:
  "length (sw_samples (window_run p ss)) \<le> unat (wp_capacity (sw_policy (window_run p ss))) \<and>
   distinct (map ls_id (sw_samples (window_run p ss))) \<and>
   list_all (\<lambda>s. sw_series (window_run p ss) = Some (ls_series s) \<and>
                 sw_generation (window_run p ss) = Some (ls_generation s)) (sw_samples (window_run p ss))"
  using window_run_inv [of p ss] by (simp add: window_inv_def list_all_iff)

text \<open>
  What a window selects depends only on the set of observations it retains and on its policy,
  not on their arrival order; the selection is sorted by observation time, sequence and identity.
\<close>

lemma window_select_order_independent:
  assumes "mset (sw_samples w) = mset (sw_samples v)" "distinct (map ls_id (sw_samples w))"
    and "sw_policy w = sw_policy v"
  shows "window_select w = window_select v \<and> sorted (map sample_key (sel_samples (window_select w)))"
  using window_select_perm [OF assms] sorted_window_select by blast

definition sample_at :: "u64 \<Rightarrow> i64 \<Rightarrow> i64 \<Rightarrow> latency_sample" where
  "sample_at n ticks latency =
     \<lparr>ls_id = StrongId (ucast n), ls_series = StrongId 1, ls_path = StrongId 2, ls_generation = StrongId 3,
      ls_generation_ordinal = 1,
      ls_provenance = \<lparr>pv_source = StrongId 4, pv_incarnation = 1, pv_epoch = 1, pv_sequence = n,
         pv_authority = Authority_Authoritative, pv_origin = Origin_Real, pv_ingest_path = []\<rparr>,
      ls_latency_ns = latency, ls_observed_at = \<lparr>tp_domain = StrongId 5, tp_ticks = ticks\<rparr>,
      ls_received_at = \<lparr>tp_domain = StrongId 6, tp_ticks = ticks\<rparr>, ls_hop_timings = [],
      ls_metadata = [], ls_content = zero_digest\<rparr>"

definition window_of :: "latency_sample list \<Rightarrow> sample_window" where
  "window_of ss = (window_init default_window_policy)\<lparr>sw_samples := ss\<rparr>"

lemma window_select_order_independent_witness:
  "window_select (window_of [sample_at 2 20 9, sample_at 1 10 7])
     = window_select (window_of [sample_at 1 10 7, sample_at 2 20 9])"
  using window_select_order_independent [of "window_of [sample_at 2 20 9, sample_at 1 10 7]"
      "window_of [sample_at 1 10 7, sample_at 2 20 9]"]
  by (simp add: window_of_def window_init_def sample_at_def add_mset_commute)

end
