(* ===== verification/Evidence.thy ===== *)
theory Evidence
  imports Window
begin

text \<open>
  Freshness, evidence accounting and contradictions: \<^verbatim>\<open>include/jitter/evidence.hpp\<close> and
  \<^verbatim>\<open>src/evidence.cpp\<close>. The counters of a summary count list elements and are naturals.
\<close>

datatype evidence_state =
    Ev_Fresh
  | Ev_Stale
  | Ev_Expired
  | Ev_Conflicting
  | Ev_Incomplete
  | Ev_Unsupported
  | Ev_Unknown
  | Ev_Missing

fun evidence_state_code :: "evidence_state \<Rightarrow> u8" where
  "evidence_state_code Ev_Fresh = 0"
| "evidence_state_code Ev_Stale = 1"
| "evidence_state_code Ev_Expired = 2"
| "evidence_state_code Ev_Conflicting = 3"
| "evidence_state_code Ev_Incomplete = 4"
| "evidence_state_code Ev_Unsupported = 5"
| "evidence_state_code Ev_Unknown = 6"
| "evidence_state_code Ev_Missing = 7"

definition evidence_state_of_code :: "u8 \<Rightarrow> evidence_state option" where
  "evidence_state_of_code raw =
     (if raw > evidence_state_code Ev_Missing then None
      else Some ([Ev_Fresh, Ev_Stale, Ev_Expired,
                 Ev_Conflicting, Ev_Incomplete, Ev_Unsupported,
                 Ev_Unknown, Ev_Missing] ! unat raw))"

fun evidence_state_text :: "evidence_state \<Rightarrow> string" where
  "evidence_state_text Ev_Fresh = ''fresh''"
| "evidence_state_text Ev_Stale = ''stale''"
| "evidence_state_text Ev_Expired = ''expired''"
| "evidence_state_text Ev_Conflicting = ''conflicting''"
| "evidence_state_text Ev_Incomplete = ''incomplete''"
| "evidence_state_text Ev_Unsupported = ''unsupported''"
| "evidence_state_text Ev_Unknown = ''unknown''"
| "evidence_state_text Ev_Missing = ''missing''"

definition parse_evidence_state :: "string \<Rightarrow> evidence_state option" where
  "parse_evidence_state v =
     (if v = ''fresh'' then Some Ev_Fresh
      else if v = ''stale'' then Some Ev_Stale
      else if v = ''expired'' then Some Ev_Expired
      else if v = ''conflicting'' then Some Ev_Conflicting
      else if v = ''incomplete'' then Some Ev_Incomplete
      else if v = ''unsupported'' then Some Ev_Unsupported
      else if v = ''unknown'' then Some Ev_Unknown
      else if v = ''missing'' then Some Ev_Missing
      else None)"

interpretation evidence_state_enum: u8_enum evidence_state_code evidence_state_of_code
proof
  fix x
  show "evidence_state_of_code (evidence_state_code x) = Some x" by (cases x) (simp_all add: evidence_state_of_code_def)
qed

interpretation evidence_state_names: text_enum evidence_state_text parse_evidence_state
proof
  fix x
  show "parse_evidence_state (evidence_state_text x) = Some x" by (cases x) (simp_all add: parse_evidence_state_def)
qed

definition is_positive_evidence :: "evidence_state \<Rightarrow> bool" where
  "is_positive_evidence s \<longleftrightarrow> s = Ev_Fresh"

record freshness_policy =
  fp_name :: string
  fp_max_ingest_age_ns :: i64
  fp_expiry_ingest_age_ns :: i64
  fp_max_observation_age_ns :: i64
  fp_expiry_observation_age_ns :: i64
  fp_future_tolerance_ns :: i64
  fp_require_observation_age :: bool

definition default_freshness_policy :: freshness_policy where
  "default_freshness_policy =
     \<lparr>fp_name = ''default'', fp_max_ingest_age_ns = 5000000000,
      fp_expiry_ingest_age_ns = 60000000000, fp_max_observation_age_ns = 2000000000,
      fp_expiry_observation_age_ns = 30000000000, fp_future_tolerance_ns = 1000000000,
      fp_require_observation_age = True\<rparr>"

definition freshness_policy_parts :: "freshness_policy \<Rightarrow> bytes list" where
  "freshness_policy_parts p =
     [enc_str kDomainEvidence, enc_str (fp_name p), enc_i64 (fp_max_ingest_age_ns p),
      enc_i64 (fp_expiry_ingest_age_ns p), enc_i64 (fp_max_observation_age_ns p),
      enc_i64 (fp_expiry_observation_age_ns p), enc_i64 (fp_future_tolerance_ns p),
      enc_bool (fp_require_observation_age p)]"

definition make_freshness_policy_id :: "freshness_policy \<Rightarrow> freshness_policy_id" where
  "make_freshness_policy_id p = builder_id (freshness_policy_parts p)"

definition kMinFreshnessBudgetNs :: i64 where "kMinFreshnessBudgetNs = 1"
definition kMaxFreshnessBudgetNs :: i64 where "kMaxFreshnessBudgetNs = 3600 * 1000000000"
definition kMaxPolicyNameBytes :: nat where "kMaxPolicyNameBytes = 64"

definition validate_freshness_policy :: "freshness_policy \<Rightarrow> status" where
  "validate_freshness_policy p =
     (if fp_name p = '''' \<or> length (fp_name p) > kMaxPolicyNameBytes
      then fail Ec_InvalidArgument ''freshness policy needs a short, non empty name''
      else if fp_max_ingest_age_ns p < kMinFreshnessBudgetNs \<or>
              fp_max_ingest_age_ns p > kMaxFreshnessBudgetNs
      then fail Ec_OutOfRange ''ingest freshness budget is outside the supported range''
      else if fp_expiry_ingest_age_ns p < fp_max_ingest_age_ns p
      then fail Ec_InvalidArgument
             ''ingest expiry must not be shorter than the ingest freshness budget''
      else if fp_max_observation_age_ns p < kMinFreshnessBudgetNs \<or>
              fp_max_observation_age_ns p > kMaxFreshnessBudgetNs
      then fail Ec_OutOfRange ''observation freshness budget is outside the supported range''
      else if fp_expiry_observation_age_ns p < fp_max_observation_age_ns p
      then fail Ec_InvalidArgument
             ''observation expiry must not be shorter than the observation freshness budget''
      else if fp_future_tolerance_ns p < 0 \<or> fp_future_tolerance_ns p > kMaxFreshnessBudgetNs
      then fail Ec_OutOfRange ''future tolerance is outside the supported range''
      else success)"

section \<open>One observation\<close>

record sample_assessment =
  sa_sample :: measurement_id
  sa_state :: evidence_state
  sa_reason :: string
  sa_ages :: age_assessment

text \<open>The age part of \<^verbatim>\<open>assess_sample\<close>. The observation age is a plain difference of ticks.\<close>

definition assess_ages :: "latency_sample \<Rightarrow> clock_model \<Rightarrow> i64 \<Rightarrow> age_assessment" where
  "assess_ages s clocks now =
     (let ca = assess_domains clocks (tp_domain (ls_observed_at s)) local_clock_id now
      in \<lparr>ag_ingest_age_ns = checked_sub_i64 now (tp_ticks (ls_received_at s)),
          ag_observation_age_ns =
            (if comparable ca then checked_sub_i64 now (tp_ticks (ls_observed_at s)) else None),
          ag_in_domain_span_ns =
            (if comparable ca
             then checked_sub_i64 (tp_ticks (ls_received_at s)) (tp_ticks (ls_observed_at s)) else None),
          ag_comparability = ca_verdict ca, ag_reason = ca_reason ca\<rparr>)"

definition exceeds :: "i64 option \<Rightarrow> i64 \<Rightarrow> bool" where
  "exceeds age limit \<longleftrightarrow> (case age of None \<Rightarrow> False | Some a \<Rightarrow> a > limit)"

definition in_future :: "i64 option \<Rightarrow> i64 \<Rightarrow> bool" where
  "in_future age tolerance \<longleftrightarrow> (case age of None \<Rightarrow> False | Some a \<Rightarrow> a < - tolerance)"

definition classify_ages :: "age_assessment \<Rightarrow> freshness_policy \<Rightarrow> evidence_state \<times> string" where
  "classify_ages ages p =
     (case ag_ingest_age_ns ages of
        None \<Rightarrow> (Ev_Unknown, ''ingest_age_overflowed_the_supported_range'')
      | Some ingest_age \<Rightarrow>
          if ingest_age > fp_expiry_ingest_age_ns p then (Ev_Expired, ''ingest_age_exceeds_expiry'')
          else if exceeds (ag_observation_age_ns ages) (fp_expiry_observation_age_ns p)
          then (Ev_Expired, ''observation_age_exceeds_expiry'')
          else if ingest_age > fp_max_ingest_age_ns p then (Ev_Stale, ''ingest_age_exceeds_budget'')
          else if exceeds (ag_observation_age_ns ages) (fp_max_observation_age_ns p)
          then (Ev_Stale, ''observation_age_exceeds_budget'')
          else if in_future (ag_observation_age_ns ages) (fp_future_tolerance_ns p)
          then (Ev_Unknown, ''observation_time_is_in_the_future'')
          else if ag_observation_age_ns ages = None \<and> ag_comparability ages = Verdict_Incomparable
          then (Ev_Unsupported, ''observation_clock_incomparable:'' @ ag_reason ages)
          else if ag_observation_age_ns ages = None \<and> fp_require_observation_age p
          then (Ev_Unknown, ''observation_age_not_establishable'')
          else (Ev_Fresh, ''within_all_declared_budgets''))"

definition assess_sample ::
  "latency_sample \<Rightarrow> clock_model \<Rightarrow> i64 \<Rightarrow> freshness_policy \<Rightarrow> sample_assessment" where
  "assess_sample s clocks now p =
     (let ages = assess_ages s clocks now; (state, reason) = classify_ages ages p
      in \<lparr>sa_sample = ls_id s, sa_state = state, sa_reason = reason, sa_ages = ages\<rparr>)"

section \<open>Summaries\<close>

record evidence_summary =
  es_total :: nat
  es_fresh :: nat
  es_stale :: nat
  es_expired :: nat
  es_conflicting :: nat
  es_incomplete :: nat
  es_unsupported :: nat
  es_unknown :: nat
  es_real_origin :: nat
  es_synthetic_origin :: nat
  es_dominant :: evidence_state
  es_reasons :: "string list"

definition evidence_summary_init :: evidence_summary where
  "evidence_summary_init =
     \<lparr>es_total = 0, es_fresh = 0, es_stale = 0, es_expired = 0, es_conflicting = 0,
      es_incomplete = 0, es_unsupported = 0, es_unknown = 0, es_real_origin = 0,
      es_synthetic_origin = 0, es_dominant = Ev_Missing, es_reasons = []\<rparr>"

definition admits_positive_assertion :: "evidence_summary \<Rightarrow> bool" where
  "admits_positive_assertion e \<longleftrightarrow> es_fresh e > 0 \<and> es_conflicting e = 0"

definition dominant_of :: "evidence_summary \<Rightarrow> evidence_state" where
  "dominant_of e =
     (if es_total e = 0 then Ev_Missing
      else if es_conflicting e > 0 then Ev_Conflicting
      else if es_fresh e > 0 then Ev_Fresh
      else if es_stale e > 0 then Ev_Stale
      else if es_expired e > 0 then Ev_Expired
      else if es_unsupported e > 0 then Ev_Unsupported
      else if es_unknown e > 0 then Ev_Unknown
      else Ev_Incomplete)"

definition recompute_dominant :: "evidence_summary \<Rightarrow> evidence_summary" where
  "recompute_dominant e = e\<lparr>es_dominant := dominant_of e\<rparr>"

fun count_state :: "evidence_state \<Rightarrow> evidence_summary \<Rightarrow> evidence_summary" where
  "count_state Ev_Fresh e = e\<lparr>es_fresh := Suc (es_fresh e)\<rparr>"
| "count_state Ev_Stale e = e\<lparr>es_stale := Suc (es_stale e)\<rparr>"
| "count_state Ev_Expired e = e\<lparr>es_expired := Suc (es_expired e)\<rparr>"
| "count_state Ev_Conflicting e = e\<lparr>es_conflicting := Suc (es_conflicting e)\<rparr>"
| "count_state Ev_Incomplete e = e\<lparr>es_incomplete := Suc (es_incomplete e)\<rparr>"
| "count_state Ev_Unsupported e = e\<lparr>es_unsupported := Suc (es_unsupported e)\<rparr>"
| "count_state Ev_Unknown e = e\<lparr>es_unknown := Suc (es_unknown e)\<rparr>"
| "count_state Ev_Missing e = e"

definition assessment_reason :: "sample_assessment \<Rightarrow> string" where
  "assessment_reason a = evidence_state_text (sa_state a) @ '':'' @ sa_reason a"

definition account :: "sample_assessment \<Rightarrow> evidence_summary \<Rightarrow> evidence_summary" where
  "account a e =
     (let e1 = count_state (sa_state a) e
      in e1\<lparr>es_reasons := add_reason (es_reasons e1) (assessment_reason a)\<rparr>)"

definition summarize_evidence :: "sample_assessment list \<Rightarrow> evidence_summary" where
  "summarize_evidence as =
     (let e = fold account as (evidence_summary_init\<lparr>es_total := length as\<rparr>)
      in recompute_dominant (e\<lparr>es_reasons := sort (es_reasons e)\<rparr>))"

section \<open>Contradictions\<close>

datatype conflict_outcome =
    Outcome_ResolvedByAuthority
  | Outcome_UnresolvedEqualAuthority
  | Outcome_UnresolvedSameSource
  | Outcome_RefusedUnknownAuthority

fun conflict_outcome_code :: "conflict_outcome \<Rightarrow> u8" where
  "conflict_outcome_code Outcome_ResolvedByAuthority = 0"
| "conflict_outcome_code Outcome_UnresolvedEqualAuthority = 1"
| "conflict_outcome_code Outcome_UnresolvedSameSource = 2"
| "conflict_outcome_code Outcome_RefusedUnknownAuthority = 3"

definition conflict_outcome_of_code :: "u8 \<Rightarrow> conflict_outcome option" where
  "conflict_outcome_of_code raw =
     (if raw > conflict_outcome_code Outcome_RefusedUnknownAuthority then None
      else Some ([Outcome_ResolvedByAuthority, Outcome_UnresolvedEqualAuthority, Outcome_UnresolvedSameSource,
                 Outcome_RefusedUnknownAuthority] ! unat raw))"

fun conflict_outcome_text :: "conflict_outcome \<Rightarrow> string" where
  "conflict_outcome_text Outcome_ResolvedByAuthority = ''resolved_by_authority''"
| "conflict_outcome_text Outcome_UnresolvedEqualAuthority = ''unresolved_equal_authority''"
| "conflict_outcome_text Outcome_UnresolvedSameSource = ''unresolved_same_source''"
| "conflict_outcome_text Outcome_RefusedUnknownAuthority = ''refused_unknown_authority''"

interpretation conflict_outcome_enum: u8_enum conflict_outcome_code conflict_outcome_of_code
proof
  fix x
  show "conflict_outcome_of_code (conflict_outcome_code x) = Some x" by (cases x) (simp_all add: conflict_outcome_of_code_def)
qed

record conflict_record =
  cr_series :: series_id
  cr_path :: path_id
  cr_generation :: generation_id
  cr_sequence :: counter
  cr_source_a :: source_id
  cr_source_b :: source_id
  cr_content_a :: digest
  cr_content_b :: digest
  cr_authority_a :: source_authority
  cr_authority_b :: source_authority
  cr_detected_at_utc_ns :: i64
  cr_outcome :: conflict_outcome
  cr_winner :: "source_id option"
  cr_reason :: string
  cr_identity :: digest

definition cr_resolved :: "conflict_record \<Rightarrow> bool" where
  "cr_resolved r \<longleftrightarrow> cr_outcome r = Outcome_ResolvedByAuthority"

definition resolve_conflict ::
  "source_authority \<Rightarrow> source_authority \<Rightarrow> source_id \<Rightarrow> source_id
     \<Rightarrow> conflict_outcome \<times> source_id option" where
  "resolve_conflict a b source_a source_b =
     (if a = Authority_Unknown \<or> b = Authority_Unknown then (Outcome_RefusedUnknownAuthority, None)
      else if source_a = source_b then (Outcome_UnresolvedSameSource, None)
      else if authority_rank a > authority_rank b then (Outcome_ResolvedByAuthority, Some source_a)
      else if authority_rank b > authority_rank a then (Outcome_ResolvedByAuthority, Some source_b)
      else (Outcome_UnresolvedEqualAuthority, None))"

definition conflict_parts :: "conflict_record \<Rightarrow> bytes list" where
  "conflict_parts r =
     [enc_str kDomainEvidence, enc_id (cr_series r), enc_id (cr_path r), enc_id (cr_generation r),
      enc_u64 (cr_sequence r), enc_id (cr_source_a r), enc_id (cr_source_b r),
      digest_bytes (cr_content_a r), digest_bytes (cr_content_b r)]"

definition make_conflict_record :: "conflict_record \<Rightarrow> conflict_record" where
  "make_conflict_record r =
     (let (outcome, winner) =
            resolve_conflict (cr_authority_a r) (cr_authority_b r) (cr_source_a r) (cr_source_b r)
      in r\<lparr>cr_winner := winner, cr_outcome := outcome, cr_identity := builder_digest (conflict_parts r),
           cr_reason := conflict_outcome_text outcome\<rparr>)"

record conflict_log =
  cl_records :: "conflict_record list"
  cl_dropped :: nat

definition conflict_log_init :: conflict_log where
  "conflict_log_init = \<lparr>cl_records = [], cl_dropped = 0\<rparr>"

definition conflict_append :: "conflict_record \<Rightarrow> conflict_log \<Rightarrow> bool \<times> conflict_log" where
  "conflict_append r l =
     (if \<exists>existing \<in> set (cl_records l). cr_identity existing = cr_identity r then (False, l)
      else let rs = sort_key cr_identity (cl_records l @ [r])
           in (True,
               if length rs > kMaxConflictsRetained
               then l\<lparr>cl_records := tl rs, cl_dropped := Suc (cl_dropped l)\<rparr>
               else l\<lparr>cl_records := rs\<rparr>))"

definition conflicts_for_series :: "series_id \<Rightarrow> conflict_log \<Rightarrow> conflict_record list" where
  "conflicts_for_series s l = filter (\<lambda>r. cr_series r = s) (cl_records l)"

definition has_conflict :: "series_id \<Rightarrow> generation_id \<Rightarrow> conflict_log \<Rightarrow> bool" where
  "has_conflict s g l \<longleftrightarrow> (\<exists>r \<in> set (cl_records l). cr_series r = s \<and> cr_generation r = g)"

section \<open>Freshness is within every budget\<close>

definition within_budgets :: "age_assessment \<Rightarrow> freshness_policy \<Rightarrow> bool" where
  "within_budgets ages p \<longleftrightarrow>
     (\<exists>i. ag_ingest_age_ns ages = Some i \<and> i \<le> fp_max_ingest_age_ns p) \<and>
     (case ag_observation_age_ns ages of
        Some a \<Rightarrow> - fp_future_tolerance_ns p \<le> a \<and> a \<le> fp_max_observation_age_ns p
      | None \<Rightarrow> ag_comparability ages \<noteq> Verdict_Incomparable \<and> \<not> fp_require_observation_age p)"

definition policy_ordered :: "freshness_policy \<Rightarrow> bool" where
  "policy_ordered p \<longleftrightarrow> fp_max_ingest_age_ns p \<le> fp_expiry_ingest_age_ns p \<and>
     fp_max_observation_age_ns p \<le> fp_expiry_observation_age_ns p"

lemma validate_policy_ordered: "validate_freshness_policy p = success \<Longrightarrow> policy_ordered p"
  by (auto simp: validate_freshness_policy_def policy_ordered_def split: if_splits)

lemma classify_ages_fresh:
  "policy_ordered p \<Longrightarrow> fst (classify_ages ages p) = Ev_Fresh \<longleftrightarrow> within_budgets ages p"
  by (auto simp: classify_ages_def within_budgets_def exceeds_def in_future_def policy_ordered_def
      split: option.split)

lemma classify_ages_range:
  "fst (classify_ages ages p) \<in> {Ev_Fresh, Ev_Stale, Ev_Expired, Ev_Unsupported, Ev_Unknown}"
  by (auto simp: classify_ages_def split: option.split)

lemma assess_sample_state: "sa_state (assess_sample s clocks now p) = fst (classify_ages (assess_ages s clocks now) p)"
  by (simp add: assess_sample_def Let_def split: prod.split)

lemma assess_sample_fresh_iff:
  assumes "policy_ordered p" "fp_require_observation_age p"
    and "i64_ok now" "i64_ok (tp_ticks (ls_received_at s))" "i64_ok (tp_ticks (ls_observed_at s))"
  shows "sa_state (assess_sample s clocks now p) = Ev_Fresh \<longleftrightarrow>
     i64_ok (now - tp_ticks (ls_received_at s)) \<and> i64_ok (now - tp_ticks (ls_observed_at s)) \<and>
     now - tp_ticks (ls_received_at s) \<le> fp_max_ingest_age_ns p \<and>
     comparable (assess_domains clocks (tp_domain (ls_observed_at s)) local_clock_id now) \<and>
     - fp_future_tolerance_ns p \<le> now - tp_ticks (ls_observed_at s) \<and>
     now - tp_ticks (ls_observed_at s) \<le> fp_max_observation_age_ns p"
  using assms
  by (auto simp: assess_sample_state classify_ages_fresh within_budgets_def assess_ages_def Let_def
      checked_sub_i64_eq split: option.splits if_splits)

text \<open>
  The ticks of a comparable clock are used as nanoseconds whatever the declared unit: a reading on
  a microsecond clock taken \<open>d\<close> nanoseconds ago is aged by its raw tick count.
\<close>

lemma assess_ages_raw_ticks:
  "comparable (assess_domains clocks (tp_domain (ls_observed_at s)) local_clock_id now) \<Longrightarrow>
     i64_ok now \<Longrightarrow> i64_ok (tp_ticks (ls_observed_at s)) \<Longrightarrow> i64_ok (now - tp_ticks (ls_observed_at s)) \<Longrightarrow>
     ag_observation_age_ns (assess_ages s clocks now) = Some (now - tp_ticks (ls_observed_at s))"
  by (simp add: assess_ages_def Let_def checked_sub_i64_eq)

section \<open>Accounting\<close>

lemma count_state_counts:
  "es_fresh (count_state s e) = es_fresh e + (if s = Ev_Fresh then 1 else 0)"
  "es_stale (count_state s e) = es_stale e + (if s = Ev_Stale then 1 else 0)"
  "es_expired (count_state s e) = es_expired e + (if s = Ev_Expired then 1 else 0)"
  "es_conflicting (count_state s e) = es_conflicting e + (if s = Ev_Conflicting then 1 else 0)"
  "es_incomplete (count_state s e) = es_incomplete e + (if s = Ev_Incomplete then 1 else 0)"
  "es_unsupported (count_state s e) = es_unsupported e + (if s = Ev_Unsupported then 1 else 0)"
  "es_unknown (count_state s e) = es_unknown e + (if s = Ev_Unknown then 1 else 0)"
  "es_total (count_state s e) = es_total e" "es_reasons (count_state s e) = es_reasons e"
  "es_real_origin (count_state s e) = es_real_origin e"
  "es_synthetic_origin (count_state s e) = es_synthetic_origin e"
  "es_dominant (count_state s e) = es_dominant e"
  by (cases s; simp)+

definition state_count :: "evidence_state \<Rightarrow> sample_assessment list \<Rightarrow> nat" where
  "state_count s as = length (filter (\<lambda>a. sa_state a = s) as)"

lemma account_fold:
  "es_fresh (fold account as e) = es_fresh e + state_count Ev_Fresh as"
  "es_stale (fold account as e) = es_stale e + state_count Ev_Stale as"
  "es_expired (fold account as e) = es_expired e + state_count Ev_Expired as"
  "es_conflicting (fold account as e) = es_conflicting e + state_count Ev_Conflicting as"
  "es_incomplete (fold account as e) = es_incomplete e + state_count Ev_Incomplete as"
  "es_unsupported (fold account as e) = es_unsupported e + state_count Ev_Unsupported as"
  "es_unknown (fold account as e) = es_unknown e + state_count Ev_Unknown as"
  "es_total (fold account as e) = es_total e"
  "es_real_origin (fold account as e) = es_real_origin e"
  "es_synthetic_origin (fold account as e) = es_synthetic_origin e"
  "es_dominant (fold account as e) = es_dominant e"
  by (induction as arbitrary: e) (auto simp: account_def Let_def count_state_counts state_count_def)

lemma account_reasons: "es_reasons (fold account as e) = add_reasons (es_reasons e) (map assessment_reason as)"
  unfolding add_reasons_def
  by (induction as arbitrary: e) (simp_all add: account_def Let_def count_state_counts)

lemma summarize_counts:
  "es_total (summarize_evidence as) = length as"
  "es_fresh (summarize_evidence as) = state_count Ev_Fresh as"
  "es_stale (summarize_evidence as) = state_count Ev_Stale as"
  "es_expired (summarize_evidence as) = state_count Ev_Expired as"
  "es_conflicting (summarize_evidence as) = state_count Ev_Conflicting as"
  "es_incomplete (summarize_evidence as) = state_count Ev_Incomplete as"
  "es_unsupported (summarize_evidence as) = state_count Ev_Unsupported as"
  "es_unknown (summarize_evidence as) = state_count Ev_Unknown as"
  "es_real_origin (summarize_evidence as) = 0" "es_synthetic_origin (summarize_evidence as) = 0"
  "es_dominant (summarize_evidence as) = dominant_of (summarize_evidence as)"
  by (simp_all add: summarize_evidence_def Let_def recompute_dominant_def account_fold
      evidence_summary_init_def dominant_of_def)

lemma summarize_reasons:
  "es_reasons (summarize_evidence as) = sort (add_reasons [] (map assessment_reason as))"
  by (simp add: summarize_evidence_def Let_def recompute_dominant_def account_reasons
      evidence_summary_init_def)

lemma state_count_pos: "0 < state_count s as \<longleftrightarrow> (\<exists>a \<in> set as. sa_state a = s)"
  by (auto simp: state_count_def filter_empty_conv)

lemma state_count_mset: "mset as = mset bs \<Longrightarrow> state_count s as = state_count s bs"
  unfolding state_count_def by (metis mset_filter size_mset)

lemma sort_distinct_set: "distinct xs \<Longrightarrow> distinct ys \<Longrightarrow> set xs = set ys \<Longrightarrow> sort xs = sort (ys :: 'a :: linorder list)"
  by (metis sorted_list_of_set_sort_remdups distinct_remdups_id)

lemma summarize_perm:
  assumes "mset as = mset bs"
  shows "summarize_evidence as = summarize_evidence bs"
proof (rule evidence_summary.equality)
  have "set (map assessment_reason as) = set (map assessment_reason bs)"
    using assms by (metis mset_map set_mset_mset)
  then show "es_reasons (summarize_evidence as) = es_reasons (summarize_evidence bs)"
    unfolding summarize_reasons by (intro sort_distinct_set) (simp_all only: distinct_add_reasons set_add_reasons distinct.simps)
  have "length as = length bs" using assms by (metis size_mset)
  with state_count_mset [OF assms] show
    "es_dominant (summarize_evidence as) = es_dominant (summarize_evidence bs)"
    "es_total (summarize_evidence as) = es_total (summarize_evidence bs)"
    "es_fresh (summarize_evidence as) = es_fresh (summarize_evidence bs)"
    "es_stale (summarize_evidence as) = es_stale (summarize_evidence bs)"
    "es_expired (summarize_evidence as) = es_expired (summarize_evidence bs)"
    "es_conflicting (summarize_evidence as) = es_conflicting (summarize_evidence bs)"
    "es_incomplete (summarize_evidence as) = es_incomplete (summarize_evidence bs)"
    "es_unsupported (summarize_evidence as) = es_unsupported (summarize_evidence bs)"
    "es_unknown (summarize_evidence as) = es_unknown (summarize_evidence bs)"
    by (simp_all add: summarize_counts dominant_of_def)
qed (simp_all add: summarize_counts)

lemma dominant_fresh_iff:
  "es_dominant (summarize_evidence as) = Ev_Fresh \<longleftrightarrow>
     (\<exists>a \<in> set as. sa_state a = Ev_Fresh) \<and> (\<forall>a \<in> set as. sa_state a \<noteq> Ev_Conflicting)"
  by (auto simp: summarize_counts dominant_of_def state_count_pos)

lemma admits_iff:
  "admits_positive_assertion (summarize_evidence as) \<longleftrightarrow> es_dominant (summarize_evidence as) = Ev_Fresh"
  unfolding dominant_fresh_iff
  using state_count_pos [of Ev_Conflicting as] state_count_pos [of Ev_Fresh as]
  by (auto simp: admits_positive_assertion_def summarize_counts)

section \<open>Conflict resolution\<close>

lemma authority_rank_less: "authority_rank a < authority_rank b \<longleftrightarrow> source_authority_code a < source_authority_code b"
  by (simp add: authority_rank_def)

lemma resolve_conflict_swap:
  "source_a \<noteq> source_b \<or> winner = None \<Longrightarrow>
     resolve_conflict a b source_a source_b = (o', winner) \<Longrightarrow>
     resolve_conflict b a source_b source_a = (o', winner)"
  by (auto simp: resolve_conflict_def split: if_splits)

lemma resolve_conflict_winner:
  assumes "resolve_conflict a b source_a source_b = (o', Some w)"
  shows "o' = Outcome_ResolvedByAuthority"
    and "w = source_a \<and> authority_rank b < authority_rank a \<or> w = source_b \<and> authority_rank a < authority_rank b"
    and "a \<noteq> Authority_Unknown" "b \<noteq> Authority_Unknown" "source_a \<noteq> source_b"
  using assms by (auto simp: resolve_conflict_def split: if_splits)

definition conflict_log_inv :: "conflict_log \<Rightarrow> bool" where
  "conflict_log_inv l \<longleftrightarrow> sorted_wrt (<) (map cr_identity (cl_records l)) \<and>
     length (cl_records l) \<le> kMaxConflictsRetained"

lemma conflict_append_inv:
  assumes "conflict_log_inv l"
  shows "conflict_log_inv (snd (conflict_append r l))"
proof (cases "\<exists>existing \<in> set (cl_records l). cr_identity existing = cr_identity r")
  case True
  with assms show ?thesis by (simp add: conflict_append_def)
next
  case False
  let ?rs = "sort_key cr_identity (cl_records l @ [r])"
  have "distinct (map cr_identity (cl_records l @ [r]))"
    using assms False by (auto simp: conflict_log_inv_def strict_sorted_iff)
  then have "distinct (map cr_identity ?rs)"
    by (metis distinct_map distinct_sort set_sort distinct_map [of cr_identity ?rs])
  then have s: "sorted_wrt (<) (map cr_identity ?rs)" by (simp add: strict_sorted_iff)
  then have "sorted_wrt (<) (map cr_identity (tl ?rs))" by (cases ?rs) auto
  with s assms False show ?thesis
    by (auto simp: conflict_append_def Let_def conflict_log_inv_def)
qed

lemma conflict_append_again:
  assumes "length (cl_records l) < kMaxConflictsRetained"
  shows "conflict_append r (snd (conflict_append r l)) = (False, snd (conflict_append r l))"
  using assms by (auto simp: conflict_append_def Let_def)

section \<open>Properties\<close>

text \<open>
  Under a policy that requires an observation age, evidence is fresh exactly when both ages
  can be computed, the observation clock is comparable with the local one, neither age exceeds
  its budget and the observation does not lie further in the future than tolerated; in every
  other case the evidence is stale, expired, unsupported or unknown, never fresh by default.
\<close>

lemma evidence_fresh_exactly:
  assumes "policy_ordered p" "fp_require_observation_age p"
    and "i64_ok now" "i64_ok (tp_ticks (ls_received_at s))" "i64_ok (tp_ticks (ls_observed_at s))"
  shows "sa_state (assess_sample s clocks now p) = Ev_Fresh \<longleftrightarrow>
     i64_ok (now - tp_ticks (ls_received_at s)) \<and> i64_ok (now - tp_ticks (ls_observed_at s)) \<and>
     now - tp_ticks (ls_received_at s) \<le> fp_max_ingest_age_ns p \<and>
     comparable (assess_domains clocks (tp_domain (ls_observed_at s)) local_clock_id now) \<and>
     - fp_future_tolerance_ns p \<le> now - tp_ticks (ls_observed_at s) \<and>
     now - tp_ticks (ls_observed_at s) \<le> fp_max_observation_age_ns p"
  using assms by (rule assess_sample_fresh_iff)

lemma evidence_fresh_exactly_witness:
  "sa_state (assess_sample (sample_at 1 0 7) two_clocks 9000000000 default_freshness_policy) \<noteq> Ev_Fresh"
  using evidence_fresh_exactly [of default_freshness_policy 9000000000 "sample_at 1 0 7" two_clocks]
  by (simp add: default_freshness_policy_def policy_ordered_def sample_at_def i64_bounds)

text \<open>
  A summary of assessments depends only on which assessments there are, counts every state,
  and permits a positive assertion exactly when some assessment is fresh and none conflicts.
\<close>

lemma evidence_summary_exact:
  assumes "mset as = mset bs"
  shows "summarize_evidence as = summarize_evidence bs \<and>
    es_total (summarize_evidence as) = length as \<and>
    es_fresh (summarize_evidence as) = state_count Ev_Fresh as \<and>
    es_stale (summarize_evidence as) = state_count Ev_Stale as \<and>
    (admits_positive_assertion (summarize_evidence as) \<longleftrightarrow>
       list_ex (\<lambda>a. sa_state a = Ev_Fresh) as \<and> list_all (\<lambda>a. sa_state a \<noteq> Ev_Conflicting) as)"
  by (intro conjI summarize_perm [OF assms])
    (simp_all add: summarize_counts(1-3) admits_iff dominant_fresh_iff list_ex_iff list_all_iff)

lemma evidence_summary_exact_witness:
  "es_total (summarize_evidence
     [assess_sample (sample_at 1 0 7) two_clocks 5 default_freshness_policy,
      assess_sample (sample_at 2 3 8) two_clocks 5 default_freshness_policy]) = 2"
  (is "es_total (summarize_evidence [?a, ?b]) = 2")
proof -
  have "mset [?a, ?b] = mset [?b, ?a]" by (simp add: add_mset_commute)
  from evidence_summary_exact [OF this] have "es_total (summarize_evidence [?a, ?b]) = length [?a, ?b]"
    by blast
  then show ?thesis by simp
qed

text \<open>
  Contradictions are resolved by strictly higher declared authority only, the same way
  whichever observation came first; equal authority, unknown authority or one source against
  itself never produce a winner.
\<close>

lemma conflict_resolution_symmetric:
  assumes "source_a \<noteq> source_b"
  shows "resolve_conflict a b source_a source_b = resolve_conflict b a source_b source_a \<and>
    snd (resolve_conflict a b source_a source_b) =
      (if a = Authority_Unknown \<or> b = Authority_Unknown \<or> authority_rank a = authority_rank b then None
       else Some (if authority_rank b < authority_rank a then source_a else source_b))"
  using assms by (auto simp: resolve_conflict_def)

lemma conflict_resolution_symmetric_witness:
  "snd (resolve_conflict Authority_Advisory Authority_Authoritative (StrongId 1) (StrongId 2)) = Some (StrongId 2)"
  using conjunct2 [OF conflict_resolution_symmetric
      [of "StrongId 1" "StrongId 2" Authority_Advisory Authority_Authoritative]]
  by (simp add: authority_rank_def)

end
