(* ===== verification/Metrics.thy ===== *)
theory Metrics
  imports F64 Evidence
begin

text \<open>
  Metric definitions and estimators: \<^verbatim>\<open>include/jitter/metrics.hpp\<close> and \<^verbatim>\<open>src/metrics.cpp\<close>.
  Deltas are exact integers; the estimators work on doubles, here rationals rounded after every
  operation (theory F64), and the value a metric publishes is the bit pattern of the result.
\<close>

section \<open>Definitions\<close>

datatype metric_family =
    Family_AbsoluteDelta
  | Family_SignedDelta
  | Family_Variance
  | Family_Dispersion
  | Family_OrderStatistic
  | Family_PeakToPeak
  | Family_Ewma
  | Family_Ratio
  | Family_CentralTendency

fun metric_family_code :: "metric_family \<Rightarrow> u8" where
  "metric_family_code Family_AbsoluteDelta = 0"
| "metric_family_code Family_SignedDelta = 1"
| "metric_family_code Family_Variance = 2"
| "metric_family_code Family_Dispersion = 3"
| "metric_family_code Family_OrderStatistic = 4"
| "metric_family_code Family_PeakToPeak = 5"
| "metric_family_code Family_Ewma = 6"
| "metric_family_code Family_Ratio = 7"
| "metric_family_code Family_CentralTendency = 8"

fun metric_family_text :: "metric_family \<Rightarrow> string" where
  "metric_family_text Family_AbsoluteDelta = ''absolute_delta''"
| "metric_family_text Family_SignedDelta = ''signed_delta''"
| "metric_family_text Family_Variance = ''variance''"
| "metric_family_text Family_Dispersion = ''dispersion''"
| "metric_family_text Family_OrderStatistic = ''order_statistic''"
| "metric_family_text Family_PeakToPeak = ''peak_to_peak''"
| "metric_family_text Family_Ewma = ''ewma''"
| "metric_family_text Family_Ratio = ''ratio''"
| "metric_family_text Family_CentralTendency = ''central_tendency''"

datatype metric_unit =
    MUnit_Nanoseconds
  | MUnit_NanosecondsSquared
  | MUnit_Dimensionless
  | MUnit_Count

fun metric_unit_code :: "metric_unit \<Rightarrow> u8" where
  "metric_unit_code MUnit_Nanoseconds = 0"
| "metric_unit_code MUnit_NanosecondsSquared = 1"
| "metric_unit_code MUnit_Dimensionless = 2"
| "metric_unit_code MUnit_Count = 3"

definition metric_unit_of_code :: "u8 \<Rightarrow> metric_unit option" where
  "metric_unit_of_code raw =
     (if raw > metric_unit_code MUnit_Count then None
      else Some ([MUnit_Nanoseconds, MUnit_NanosecondsSquared, MUnit_Dimensionless,
                 MUnit_Count] ! unat raw))"

fun metric_unit_text :: "metric_unit \<Rightarrow> string" where
  "metric_unit_text MUnit_Nanoseconds = ''nanoseconds''"
| "metric_unit_text MUnit_NanosecondsSquared = ''nanoseconds_squared''"
| "metric_unit_text MUnit_Dimensionless = ''dimensionless''"
| "metric_unit_text MUnit_Count = ''count''"

fun unit_label :: "metric_unit \<Rightarrow> string" where
  "unit_label MUnit_Nanoseconds = ''ns''"
| "unit_label MUnit_NanosecondsSquared = ''ns^2''"
| "unit_label MUnit_Dimensionless = ''1''"
| "unit_label MUnit_Count = ''count''"

datatype estimator =
    Est_Mean
  | Est_Median
  | Est_Maximum
  | Est_P95
  | Est_P99
  | Est_P50
  | Est_P25
  | Est_P75
  | Est_SampleStandardDeviation
  | Est_SampleVariance
  | Est_EwmaAlpha1Over16
  | Est_Span
  | Est_RatioOfDeviationToCenter

fun estimator_code :: "estimator \<Rightarrow> u8" where
  "estimator_code Est_Mean = 0"
| "estimator_code Est_Median = 1"
| "estimator_code Est_Maximum = 2"
| "estimator_code Est_P95 = 3"
| "estimator_code Est_P99 = 4"
| "estimator_code Est_P50 = 5"
| "estimator_code Est_P25 = 6"
| "estimator_code Est_P75 = 7"
| "estimator_code Est_SampleStandardDeviation = 8"
| "estimator_code Est_SampleVariance = 9"
| "estimator_code Est_EwmaAlpha1Over16 = 10"
| "estimator_code Est_Span = 11"
| "estimator_code Est_RatioOfDeviationToCenter = 12"

fun estimator_text :: "estimator \<Rightarrow> string" where
  "estimator_text Est_Mean = ''mean''"
| "estimator_text Est_Median = ''median''"
| "estimator_text Est_Maximum = ''maximum''"
| "estimator_text Est_P95 = ''p95''"
| "estimator_text Est_P99 = ''p99''"
| "estimator_text Est_P50 = ''p50''"
| "estimator_text Est_P25 = ''p25''"
| "estimator_text Est_P75 = ''p75''"
| "estimator_text Est_SampleStandardDeviation = ''sample_standard_deviation''"
| "estimator_text Est_SampleVariance = ''sample_variance''"
| "estimator_text Est_EwmaAlpha1Over16 = ''ewma_alpha_1_over_16''"
| "estimator_text Est_Span = ''span''"
| "estimator_text Est_RatioOfDeviationToCenter = ''ratio_of_deviation_to_center''"

datatype metric_input =
    Input_Latency
  | Input_AbsoluteSuccessiveDelta
  | Input_SignedSuccessiveDelta

fun metric_input_code :: "metric_input \<Rightarrow> u8" where
  "metric_input_code Input_Latency = 0"
| "metric_input_code Input_AbsoluteSuccessiveDelta = 1"
| "metric_input_code Input_SignedSuccessiveDelta = 2"

fun metric_input_text :: "metric_input \<Rightarrow> string" where
  "metric_input_text Input_Latency = ''latency''"
| "metric_input_text Input_AbsoluteSuccessiveDelta = ''absolute_successive_delta''"
| "metric_input_text Input_SignedSuccessiveDelta = ''signed_successive_delta''"

datatype metric_key =
    Metric_AbsoluteDeltaMean
  | Metric_AbsoluteDeltaMedian
  | Metric_AbsoluteDeltaP95
  | Metric_AbsoluteDeltaMax
  | Metric_AbsoluteDeltaEwma16
  | Metric_IpdvMean
  | Metric_IpdvStdDev
  | Metric_SampleVariance
  | Metric_SampleStdDev
  | Metric_CoefficientOfVariation
  | Metric_MeanAbsoluteDeviation
  | Metric_MedianAbsoluteDeviation
  | Metric_PeakToPeak
  | Metric_InterquartileRange
  | Metric_LatencyMean
  | Metric_LatencyP50
  | Metric_LatencyP95
  | Metric_LatencyP99
  | Metric_Count

fun metric_key_code :: "metric_key \<Rightarrow> u8" where
  "metric_key_code Metric_AbsoluteDeltaMean = 0"
| "metric_key_code Metric_AbsoluteDeltaMedian = 1"
| "metric_key_code Metric_AbsoluteDeltaP95 = 2"
| "metric_key_code Metric_AbsoluteDeltaMax = 3"
| "metric_key_code Metric_AbsoluteDeltaEwma16 = 4"
| "metric_key_code Metric_IpdvMean = 5"
| "metric_key_code Metric_IpdvStdDev = 6"
| "metric_key_code Metric_SampleVariance = 7"
| "metric_key_code Metric_SampleStdDev = 8"
| "metric_key_code Metric_CoefficientOfVariation = 9"
| "metric_key_code Metric_MeanAbsoluteDeviation = 10"
| "metric_key_code Metric_MedianAbsoluteDeviation = 11"
| "metric_key_code Metric_PeakToPeak = 12"
| "metric_key_code Metric_InterquartileRange = 13"
| "metric_key_code Metric_LatencyMean = 14"
| "metric_key_code Metric_LatencyP50 = 15"
| "metric_key_code Metric_LatencyP95 = 16"
| "metric_key_code Metric_LatencyP99 = 17"
| "metric_key_code Metric_Count = 18"

definition metric_key_of_code :: "u8 \<Rightarrow> metric_key option" where
  "metric_key_of_code raw =
     (if raw > metric_key_code Metric_Count then None
      else Some ([Metric_AbsoluteDeltaMean, Metric_AbsoluteDeltaMedian, Metric_AbsoluteDeltaP95,
                 Metric_AbsoluteDeltaMax, Metric_AbsoluteDeltaEwma16, Metric_IpdvMean,
                 Metric_IpdvStdDev, Metric_SampleVariance, Metric_SampleStdDev,
                 Metric_CoefficientOfVariation, Metric_MeanAbsoluteDeviation, Metric_MedianAbsoluteDeviation,
                 Metric_PeakToPeak, Metric_InterquartileRange, Metric_LatencyMean,
                 Metric_LatencyP50, Metric_LatencyP95, Metric_LatencyP99,
                 Metric_Count] ! unat raw))"

interpretation metric_unit_enum: u8_enum metric_unit_code metric_unit_of_code
proof
  fix x
  show "metric_unit_of_code (metric_unit_code x) = Some x" by (cases x) (simp_all add: metric_unit_of_code_def)
qed
interpretation metric_key_enum: u8_enum metric_key_code metric_key_of_code
proof
  fix x
  show "metric_key_of_code (metric_key_code x) = Some x" by (cases x) (simp_all add: metric_key_of_code_def)
qed

record metric_definition =
  md_id :: metric_id
  md_key :: metric_key
  md_name :: string
  md_formula :: string
  md_version :: u32
  md_family :: metric_family
  md_unit :: metric_unit
  md_estimator :: estimator
  md_input :: metric_input
  md_requires_ordered_samples :: bool
  md_min_samples :: nat
  md_min_terms :: nat

definition metric_parts :: "metric_definition \<Rightarrow> bytes list" where
  "metric_parts d =
     [enc_str kDomainMetric, enc_str (md_name d), enc_u32 (md_version d),
      enc_u8 (metric_family_code (md_family d)), enc_u8 (metric_unit_code (md_unit d)),
      enc_u8 (estimator_code (md_estimator d)), enc_u8 (metric_input_code (md_input d)),
      enc_bool (md_requires_ordered_samples d), enc_u64 (word_of_nat (md_min_samples d)),
      enc_u64 (word_of_nat (md_min_terms d)), enc_str (md_formula d)]"

definition make_metric_id :: "metric_definition \<Rightarrow> metric_id" where
  "make_metric_id d = builder_id (metric_parts d)"

definition metric_entry ::
  "metric_key \<Rightarrow> string \<Rightarrow> string \<Rightarrow> metric_family \<Rightarrow> metric_unit \<Rightarrow> estimator \<Rightarrow> metric_input
     \<Rightarrow> nat \<Rightarrow> nat \<Rightarrow> metric_definition" where
  "metric_entry key name formula family unit est input min_samples min_terms =
     (let d = \<lparr>md_id = nil_id, md_key = key, md_name = name, md_formula = formula, md_version = 1,
               md_family = family, md_unit = unit, md_estimator = est, md_input = input,
               md_requires_ordered_samples = True, md_min_samples = min_samples,
               md_min_terms = min_terms\<rparr>
      in d\<lparr>md_id := make_metric_id d\<rparr>)"

definition metric_table :: "metric_definition list" where
  "metric_table =
    [metric_entry Metric_AbsoluteDeltaMean ''jitter.absolute_delta.mean''
       ''mean over i in [1,n-1] of |x_i - x_(i-1)|''
       Family_AbsoluteDelta MUnit_Nanoseconds Est_Mean Input_AbsoluteSuccessiveDelta 2 1,
     metric_entry Metric_AbsoluteDeltaMedian ''jitter.absolute_delta.median''
       ''median over i in [1,n-1] of |x_i - x_(i-1)|''
       Family_AbsoluteDelta MUnit_Nanoseconds Est_Median Input_AbsoluteSuccessiveDelta 2 1,
     metric_entry Metric_AbsoluteDeltaP95 ''jitter.absolute_delta.p95''
       ''95th percentile of |x_i - x_(i-1)| using type 7 interpolation''
       Family_AbsoluteDelta MUnit_Nanoseconds Est_P95 Input_AbsoluteSuccessiveDelta 2 1,
     metric_entry Metric_AbsoluteDeltaMax ''jitter.absolute_delta.max''
       ''maximum over i in [1,n-1] of |x_i - x_(i-1)|''
       Family_AbsoluteDelta MUnit_Nanoseconds Est_Maximum Input_AbsoluteSuccessiveDelta 2 1,
     metric_entry Metric_AbsoluteDeltaEwma16 ''jitter.absolute_delta.ewma16''
       ''J_1 = |x_1 - x_0|; J_i = J_(i-1) + (|x_i - x_(i-1)| - J_(i-1))/16''
       Family_Ewma MUnit_Nanoseconds Est_EwmaAlpha1Over16 Input_AbsoluteSuccessiveDelta 2 1,
     metric_entry Metric_IpdvMean ''jitter.ipdv.mean''
       ''mean over i in [1,n-1] of (x_i - x_(i-1)), preserving sign; the signed successive delay variation of the latency series''
       Family_SignedDelta MUnit_Nanoseconds Est_Mean Input_SignedSuccessiveDelta 2 1,
     metric_entry Metric_IpdvStdDev ''jitter.ipdv.stddev''
       ''sample standard deviation of the signed successive deltas x_i - x_(i-1)''
       Family_SignedDelta MUnit_Nanoseconds Est_SampleStandardDeviation Input_SignedSuccessiveDelta 3 2,
     metric_entry Metric_SampleVariance ''jitter.variance.sample''
       ''sum of (x_i - mean)^2 divided by (n-1) over the latency readings''
       Family_Variance MUnit_NanosecondsSquared Est_SampleVariance Input_Latency 2 2,
     metric_entry Metric_SampleStdDev ''jitter.stddev.sample''
       ''square root of jitter.variance.sample over the latency readings''
       Family_Variance MUnit_Nanoseconds Est_SampleStandardDeviation Input_Latency 2 2,
     metric_entry Metric_CoefficientOfVariation ''jitter.cv''
       ''jitter.stddev.sample divided by the arithmetic mean of the readings''
       Family_Ratio MUnit_Dimensionless Est_RatioOfDeviationToCenter Input_Latency 2 2,
     metric_entry Metric_MeanAbsoluteDeviation ''jitter.mad.mean''
       ''mean of |x_i - mean(x)| over the latency readings''
       Family_Dispersion MUnit_Nanoseconds Est_Mean Input_Latency 1 1,
     metric_entry Metric_MedianAbsoluteDeviation ''jitter.mad.median''
       ''median of |x_i - median(x)| over the latency readings''
       Family_Dispersion MUnit_Nanoseconds Est_Median Input_Latency 1 1,
     metric_entry Metric_PeakToPeak ''jitter.peak_to_peak''
       ''max(x) - min(x) over the latency readings''
       Family_PeakToPeak MUnit_Nanoseconds Est_Span Input_Latency 1 1,
     metric_entry Metric_InterquartileRange ''jitter.iqr''
       ''p75(x) - p25(x) over the latency readings''
       Family_OrderStatistic MUnit_Nanoseconds Est_Span Input_Latency 2 2,
     metric_entry Metric_LatencyMean ''latency.mean''
       ''arithmetic mean of the latency readings; a central tendency, not a jitter metric''
       Family_CentralTendency MUnit_Nanoseconds Est_Mean Input_Latency 1 1,
     metric_entry Metric_LatencyP50 ''latency.p50''
       ''median latency reading using type 7 interpolation''
       Family_CentralTendency MUnit_Nanoseconds Est_P50 Input_Latency 1 1,
     metric_entry Metric_LatencyP95 ''latency.p95''
       ''95th percentile latency reading using type 7 interpolation''
       Family_CentralTendency MUnit_Nanoseconds Est_P95 Input_Latency 1 1,
     metric_entry Metric_LatencyP99 ''latency.p99''
       ''99th percentile latency reading using type 7 interpolation''
       Family_CentralTendency MUnit_Nanoseconds Est_P99 Input_Latency 1 1]"

definition metric_definition_of :: "metric_key \<Rightarrow> metric_definition" where
  "metric_definition_of key =
     (case find (\<lambda>d. md_key d = key) metric_table of None \<Rightarrow> hd metric_table | Some d \<Rightarrow> d)"

definition find_metric :: "metric_id \<Rightarrow> metric_definition option" where
  "find_metric i = find (\<lambda>d. md_id d = i) metric_table"

definition find_metric_by_name :: "string \<Rightarrow> metric_definition option" where
  "find_metric_by_name name = find (\<lambda>d. md_name d = name) metric_table"

definition sorted_definitions :: "metric_definition list" where
  "sorted_definitions = sort_key (\<lambda>d. (md_name d, md_id d)) metric_table"

fun verify_against :: "metric_definition \<Rightarrow> metric_definition list \<Rightarrow> status" where
  "verify_against d [] = success"
| "verify_against d (e # es) =
     (if md_name d = md_name e then fail Ec_Duplicate ''two metric definitions share a name''
      else if md_id d = md_id e then fail Ec_Duplicate ''two metric definitions share an identity''
      else if md_key d = md_key e then fail Ec_Duplicate ''two metric definitions share a key''
      else verify_against d es)"

fun verify_metric_entries :: "metric_definition list \<Rightarrow> status" where
  "verify_metric_entries [] = success"
| "verify_metric_entries (d # ds) =
     (if md_id d \<noteq> make_metric_id d
      then fail Ec_IntegrityFailure ''metric identity does not match its definition''
      else res_bind (verify_against d ds) (\<lambda>_.
        if md_min_terms d = 0 \<or> md_min_samples d = 0
        then fail Ec_IntegrityFailure ''metric definition declared a zero minimum''
        else verify_metric_entries ds))"

definition verify_metric_table :: status where
  "verify_metric_table = verify_metric_entries metric_table"

section \<open>Deltas\<close>

fun successive_deltas :: "i64 list \<Rightarrow> i64 list result" where
  "successive_deltas (x # y # zs) =
     (case checked_sub_i64 y x of
        None \<Rightarrow> fail Ec_Overflow ''successive delta overflowed the signed 64 bit range''
      | Some d \<Rightarrow> res_bind (successive_deltas (y # zs)) (\<lambda>ds. Inr (d # ds)))"
| "successive_deltas _ = Inr []"

definition signed_deltas :: "i64 list \<Rightarrow> i64 list result" where
  "signed_deltas xs =
     (if length xs < 2
      then fail Ec_InsufficientEvidence ''a signed delta metric needs at least two readings''
      else successive_deltas xs)"

text \<open>Negating the most negative delta would overflow; it is read as wrap-around.\<close>

definition absolute_deltas :: "i64 list \<Rightarrow> i64 list result" where
  "absolute_deltas xs =
     (if length xs < 2
      then fail Ec_InsufficientEvidence ''an absolute delta metric needs at least two readings''
      else res_bind (successive_deltas xs) (\<lambda>ds.
        Inr (map (\<lambda>d. if d < 0 then wrap_i64 (- d) else d) ds)))"

section \<open>Estimators\<close>

definition to_double :: "i64 list \<Rightarrow> rat list" where
  "to_double xs = map (\<lambda>x. rnd (of_int x)) xs"

definition comp_add :: "rat \<Rightarrow> rat \<times> rat \<Rightarrow> rat \<times> rat" where
  "comp_add v sc =
     (case sc of (s, c) \<Rightarrow>
        let t = rnd (s + v)
        in (t, if \<bar>s\<bar> \<ge> \<bar>v\<bar> then rnd (c + rnd (rnd (s - t) + v))
               else rnd (c + rnd (rnd (v - t) + s))))"

definition comp_sum :: "rat list \<Rightarrow> rat" where
  "comp_sum vs = (case fold comp_add vs (0, 0) of (s, c) \<Rightarrow> rnd (s + c))"

definition double_of_size :: "nat \<Rightarrow> rat" where
  "double_of_size n = rnd (of_nat n)"

definition mean_of :: "rat list \<Rightarrow> rat" where
  "mean_of vs = (if vs = [] then 0 else rnd (comp_sum vs / double_of_size (length vs)))"

definition quantile_of :: "rat list \<Rightarrow> rat \<Rightarrow> rat" where
  "quantile_of vs p =
     (if vs = [] then 0
      else let s = sort vs; n = length s
           in if n = 1 then hd s
              else let rank = rnd (p * double_of_size (n - 1));
                       floored = of_int \<lfloor>rank\<rfloor>;
                       lower = nat \<lfloor>rank\<rfloor>;
                       fraction = rnd (rank - floored)
                   in if lower + 1 \<ge> n then last s
                      else rnd (s ! lower + rnd (fraction * rnd (s ! (lower + 1) - s ! lower))))"

definition sample_variance_of :: "rat list \<Rightarrow> nat \<Rightarrow> rat result" where
  "sample_variance_of vs min_samples =
     (if length vs < min_samples
      then fail Ec_InsufficientEvidence ''not enough readings for a sample variance''
      else if length vs < 2
      then fail Ec_InsufficientEvidence ''sample variance needs at least two readings''
      else let mean = mean_of vs
           in Inr (rnd (comp_sum (map (\<lambda>v. rnd (rnd (v - mean) * rnd (v - mean))) vs)
                        / double_of_size (length vs - 1))))"

definition max_of :: "rat list \<Rightarrow> rat" where
  "max_of vs = fold max (tl vs) (hd vs)"

definition min_of :: "rat list \<Rightarrow> rat" where
  "min_of vs = fold min (tl vs) (hd vs)"

definition peak_to_peak_of :: "rat list \<Rightarrow> rat" where
  "peak_to_peak_of vs = (if vs = [] then 0 else rnd (max_of vs - min_of vs))"

definition ewma16_of :: "rat list \<Rightarrow> rat" where
  "ewma16_of ds =
     (case ds of
        [] \<Rightarrow> 0
      | d # rest \<Rightarrow> fold (\<lambda>x state. rnd (state + rnd (1 / 16 * rnd (x - state)))) rest d)"

definition p95 :: rat where "p95 = rnd (95 / 100)"
definition p99 :: rat where "p99 = rnd (99 / 100)"

section \<open>Computing a metric\<close>

record metric_value =
  mv_id :: metric_id
  mv_key :: metric_key
  mv_name :: string
  mv_version :: u32
  mv_unit :: metric_unit
  mv_value :: f64_bits
  mv_sample_count :: nat
  mv_term_count :: nat

text \<open>The three branches of the switch over the input: the estimate and its term count.\<close>

definition estimate_latency :: "metric_definition \<Rightarrow> i64 list \<Rightarrow> (rat \<times> nat) result" where
  "estimate_latency d xs =
     (let vs = to_double xs; n = length xs; ok = (\<lambda>v. Inr (v, n));
          variance = sample_variance_of vs (md_min_samples d)
      in case md_estimator d of
           Est_Mean \<Rightarrow> ok (mean_of vs)
         | Est_Median \<Rightarrow> ok (quantile_of vs (1 / 2))
         | Est_P50 \<Rightarrow> ok (quantile_of vs (1 / 2))
         | Est_P95 \<Rightarrow> ok (quantile_of vs p95)
         | Est_P99 \<Rightarrow> ok (quantile_of vs p99)
         | Est_P25 \<Rightarrow> ok (quantile_of vs (1 / 4))
         | Est_P75 \<Rightarrow> ok (quantile_of vs (3 / 4))
         | Est_SampleVariance \<Rightarrow> res_bind variance ok
         | Est_SampleStandardDeviation \<Rightarrow> res_bind variance (\<lambda>v. ok (f64_sqrt v))
         | Est_RatioOfDeviationToCenter \<Rightarrow>
             res_bind variance (\<lambda>v.
               let mean = mean_of vs
               in if \<not> mean > 0
                  then fail Ec_Unsupported ''coefficient of variation requires a strictly positive mean''
                  else ok (rnd (f64_sqrt v / mean)))
         | Est_Span \<Rightarrow> ok (peak_to_peak_of vs)
         | Est_Maximum \<Rightarrow> ok (max_of vs)
         | Est_EwmaAlpha1Over16 \<Rightarrow>
             fail Ec_Unsupported
               ''the exponentially weighted estimator is only defined over successive deltas'')"

definition estimate_absolute :: "metric_definition \<Rightarrow> i64 list \<Rightarrow> (rat \<times> nat) result" where
  "estimate_absolute d xs =
     res_bind (absolute_deltas xs) (\<lambda>deltas.
       let vs = to_double deltas; ok = (\<lambda>v. Inr (v, length vs))
       in if md_estimator d = Est_Span then ok (peak_to_peak_of vs)
          else if length xs < md_min_samples d
          then fail Ec_InsufficientEvidence ''not enough readings for this delta metric''
          else case md_estimator d of
                 Est_Mean \<Rightarrow> ok (mean_of vs)
               | Est_Median \<Rightarrow> ok (quantile_of vs (1 / 2))
               | Est_P95 \<Rightarrow> ok (quantile_of vs p95)
               | Est_Maximum \<Rightarrow> ok (max_of vs)
               | Est_EwmaAlpha1Over16 \<Rightarrow> ok (ewma16_of vs)
               | _ \<Rightarrow> fail Ec_Unsupported ''estimator is not defined for absolute successive deltas'')"

definition estimate_signed :: "metric_definition \<Rightarrow> i64 list \<Rightarrow> (rat \<times> nat) result" where
  "estimate_signed d xs =
     res_bind (signed_deltas xs) (\<lambda>deltas.
       let vs = to_double deltas; ok = (\<lambda>v. Inr (v, length vs))
       in case md_estimator d of
            Est_Mean \<Rightarrow> ok (mean_of vs)
          | Est_SampleStandardDeviation \<Rightarrow>
              res_bind (sample_variance_of vs (md_min_samples d - 1)) (\<lambda>v. ok (f64_sqrt v))
          | _ \<Rightarrow> fail Ec_Unsupported ''estimator is not defined for signed successive deltas'')"

definition estimate :: "metric_definition \<Rightarrow> i64 list \<Rightarrow> (rat \<times> nat) result" where
  "estimate d xs =
     (case md_input d of
        Input_Latency \<Rightarrow> estimate_latency d xs
      | Input_AbsoluteSuccessiveDelta \<Rightarrow> estimate_absolute d xs
      | Input_SignedSuccessiveDelta \<Rightarrow> estimate_signed d xs)"

definition compute_metric :: "metric_key \<Rightarrow> i64 list \<Rightarrow> metric_value result" where
  "compute_metric key xs =
     (let d = metric_definition_of key
      in if xs = [] then fail Ec_NoEvidence ''no readings in the window''
         else if length xs < md_min_samples d
         then fail Ec_InsufficientEvidence ''not enough readings for this metric''
         else res_bind (estimate d xs) (\<lambda>(v, terms).
           Inr \<lparr>mv_id = md_id d, mv_key = md_key d, mv_name = md_name d, mv_version = md_version d,
                mv_unit = md_unit d, mv_value = f64_of_rat v, mv_sample_count = length xs,
                mv_term_count = terms\<rparr>))"

definition compute_metric_by_id :: "metric_id \<Rightarrow> i64 list \<Rightarrow> metric_value result" where
  "compute_metric_by_id i xs =
     (case find_metric i of
        None \<Rightarrow> fail Ec_NotFound ''unknown metric identity''
      | Some d \<Rightarrow> compute_metric (md_key d) xs)"

section \<open>Metric sets\<close>

type_synonym metric_set = "(metric_id, metric_value) omap"

definition metric_insert :: "metric_value \<Rightarrow> metric_set \<Rightarrow> metric_set" where
  "metric_insert v s = om_put (mv_id v) v s"

definition metric_find :: "metric_id \<Rightarrow> metric_set \<Rightarrow> metric_value option" where
  "metric_find i s = om_find i s"

definition metric_find_key :: "metric_key \<Rightarrow> metric_set \<Rightarrow> metric_value option" where
  "metric_find_key k s = find (\<lambda>v. mv_key v = k) (map snd (om_entries s))"

definition metrics_ordered :: "metric_set \<Rightarrow> metric_value list" where
  "metrics_ordered s = sort_key (\<lambda>v. (mv_name v, mv_id v)) (map snd (om_entries s))"

definition compute_step ::
  "i64 list \<Rightarrow> metric_key \<Rightarrow> metric_set \<times> string list \<Rightarrow> metric_set \<times> string list" where
  "compute_step xs key acc =
     (case compute_metric key xs of
        Inl e \<Rightarrow> (fst acc, snd acc @ [md_name (metric_definition_of key) @ '':'' @ error_code_text (err_code e)])
      | Inr v \<Rightarrow> (metric_insert v (fst acc), snd acc))"

definition compute_all :: "metric_key list \<Rightarrow> i64 list \<Rightarrow> metric_set \<times> string list" where
  "compute_all keys xs =
     (case fold (compute_step xs) keys ([], []) of (vs, unavailable) \<Rightarrow> (vs, sort unavailable))"

definition check_comparable :: "metric_value \<Rightarrow> metric_value \<Rightarrow> status" where
  "check_comparable a b =
     (if mv_id a \<noteq> mv_id b
      then fail Ec_MetricMismatch ''two different metric definitions were compared''
      else if mv_version a \<noteq> mv_version b
      then fail Ec_VersionUnsupported ''the same metric name was produced by different definition versions''
      else if mv_unit a \<noteq> mv_unit b then fail Ec_UnitMismatch ''metric units differ''
      else success)"

definition sort_canonical :: "i64 list \<Rightarrow> i64 list" where
  "sort_canonical xs = sort xs"

end
