(* ===== verification/Metric_Facts.thy ===== *)
theory Metric_Facts
  imports Metrics
begin

text \<open>
  What the metric engine of theory Metrics guarantees: the table is consistent, delta metrics
  ignore a translation of the readings, a validated window always yields its metrics, constant
  readings show no variation, and the maximum delta is exact. Three definitions whose estimator
  does not compute the formula they publish are pinned down by equations.
\<close>

section \<open>The table\<close>

lemma metric_entry_fields [simp]:
  "md_key (metric_entry k n f fa u e i ms mt) = k" "md_name (metric_entry k n f fa u e i ms mt) = n"
  "md_formula (metric_entry k n f fa u e i ms mt) = f" "md_version (metric_entry k n f fa u e i ms mt) = 1"
  "md_family (metric_entry k n f fa u e i ms mt) = fa" "md_unit (metric_entry k n f fa u e i ms mt) = u"
  "md_estimator (metric_entry k n f fa u e i ms mt) = e" "md_input (metric_entry k n f fa u e i ms mt) = i"
  "md_min_samples (metric_entry k n f fa u e i ms mt) = ms"
  "md_min_terms (metric_entry k n f fa u e i ms mt) = mt"
  by (simp_all add: metric_entry_def Let_def)

lemma metric_entry_id:
  "md_id (metric_entry k n f fa u e i ms mt) = make_metric_id (metric_entry k n f fa u e i ms mt)"
  by (simp add: metric_entry_def Let_def make_metric_id_def metric_parts_def)

fun metric_shape :: "metric_key \<Rightarrow> estimator \<times> metric_input \<times> nat" where
  "metric_shape Metric_AbsoluteDeltaMean = (Est_Mean, Input_AbsoluteSuccessiveDelta, 2)"
| "metric_shape Metric_AbsoluteDeltaMedian = (Est_Median, Input_AbsoluteSuccessiveDelta, 2)"
| "metric_shape Metric_AbsoluteDeltaP95 = (Est_P95, Input_AbsoluteSuccessiveDelta, 2)"
| "metric_shape Metric_AbsoluteDeltaMax = (Est_Maximum, Input_AbsoluteSuccessiveDelta, 2)"
| "metric_shape Metric_AbsoluteDeltaEwma16 = (Est_EwmaAlpha1Over16, Input_AbsoluteSuccessiveDelta, 2)"
| "metric_shape Metric_IpdvMean = (Est_Mean, Input_SignedSuccessiveDelta, 2)"
| "metric_shape Metric_IpdvStdDev = (Est_SampleStandardDeviation, Input_SignedSuccessiveDelta, 3)"
| "metric_shape Metric_SampleVariance = (Est_SampleVariance, Input_Latency, 2)"
| "metric_shape Metric_SampleStdDev = (Est_SampleStandardDeviation, Input_Latency, 2)"
| "metric_shape Metric_CoefficientOfVariation = (Est_RatioOfDeviationToCenter, Input_Latency, 2)"
| "metric_shape Metric_MeanAbsoluteDeviation = (Est_Mean, Input_Latency, 1)"
| "metric_shape Metric_MedianAbsoluteDeviation = (Est_Median, Input_Latency, 1)"
| "metric_shape Metric_PeakToPeak = (Est_Span, Input_Latency, 1)"
| "metric_shape Metric_InterquartileRange = (Est_Span, Input_Latency, 2)"
| "metric_shape Metric_LatencyMean = (Est_Mean, Input_Latency, 1)"
| "metric_shape Metric_LatencyP50 = (Est_P50, Input_Latency, 1)"
| "metric_shape Metric_LatencyP95 = (Est_P95, Input_Latency, 1)"
| "metric_shape Metric_LatencyP99 = (Est_P99, Input_Latency, 1)"
| "metric_shape Metric_Count = (Est_Mean, Input_AbsoluteSuccessiveDelta, 2)"

lemma metric_shape_eq:
  "metric_shape key = (md_estimator (metric_definition_of key), md_input (metric_definition_of key),
     md_min_samples (metric_definition_of key))"
  by (cases key) (simp_all add: metric_definition_of_def metric_table_def)

lemma metric_shapeD:
  assumes "metric_shape key = (e, i, n)"
  shows "md_estimator (metric_definition_of key) = e" "md_input (metric_definition_of key) = i"
    "md_min_samples (metric_definition_of key) = n"
  using assms by (simp_all add: metric_shape_eq)

lemma metric_names_distinct: "distinct (map md_name metric_table)"
  by (simp add: metric_table_def)

lemma metric_keys_distinct: "distinct (map md_key metric_table)"
  by (simp add: metric_table_def)

lemma verify_against_ok:
  "verify_against d es = success \<longleftrightarrow>
     md_name d \<notin> md_name ` set es \<and> md_id d \<notin> md_id ` set es \<and> md_key d \<notin> md_key ` set es"
  by (induction es) auto

lemma verify_metric_entries_ok:
  "verify_metric_entries ds = success \<longleftrightarrow>
     (\<forall>d \<in> set ds. md_id d = make_metric_id d \<and> md_min_terms d \<noteq> 0 \<and> md_min_samples d \<noteq> 0) \<and>
     distinct (map md_name ds) \<and> distinct (map md_id ds) \<and> distinct (map md_key ds)"
  by (induction ds) (auto simp: res_bind_eq_Inr verify_against_ok)

lemma metric_table_entries:
  "d \<in> set metric_table \<Longrightarrow> md_id d = make_metric_id d \<and> md_min_terms d \<noteq> 0 \<and> md_min_samples d \<noteq> 0"
  unfolding metric_table_def by (auto simp: metric_entry_id)

lemma verify_metric_table_iff: "verify_metric_table = success \<longleftrightarrow> distinct (map md_id metric_table)"
  unfolding verify_metric_table_def verify_metric_entries_ok
  using metric_table_entries metric_names_distinct metric_keys_distinct by blast

lemma find_metric_by_name_key:
  "find_metric_by_name (md_name (metric_definition_of key)) = Some (metric_definition_of key)"
  by (cases key) (simp_all add: find_metric_by_name_def metric_definition_of_def metric_table_def)

section \<open>Translation invariance\<close>

lemma successive_deltas_shift:
  "list_all i64_ok xs \<Longrightarrow> list_all (\<lambda>x. i64_ok (x + c)) xs \<Longrightarrow>
     successive_deltas (map (\<lambda>x. x + c) xs) = successive_deltas xs"
proof (induction xs rule: successive_deltas.induct)
  case (1 x y zs)
  then have "checked_sub_i64 (y + c) (x + c) = checked_sub_i64 y x"
    by (simp add: checked_sub_i64_eq)
  with 1 show ?case by (simp split: option.split)
qed simp_all

lemma compute_metric_shift:
  assumes "fst (snd (metric_shape key)) \<noteq> Input_Latency"
    and "list_all i64_ok xs" "list_all (\<lambda>x. i64_ok (x + c)) xs"
  shows "compute_metric key (map (\<lambda>x. x + c) xs) = compute_metric key xs"
proof -
  have "absolute_deltas (map (\<lambda>x. x + c) xs) = absolute_deltas xs"
    "signed_deltas (map (\<lambda>x. x + c) xs) = signed_deltas xs"
    using assms by (simp_all add: absolute_deltas_def signed_deltas_def successive_deltas_shift)
  then have "estimate (metric_definition_of key) (map (\<lambda>x. x + c) xs)
      = estimate (metric_definition_of key) xs"
    using assms(1)
    by (auto simp: metric_shape_eq estimate_def estimate_absolute_def estimate_signed_def
        cong del: if_weak_cong split: metric_input.split)
  then show ?thesis by (simp add: compute_metric_def Let_def)
qed

section \<open>Totality on validated readings\<close>

definition latency_in_range :: "i64 \<Rightarrow> bool" where
  "latency_in_range x \<longleftrightarrow> kMinLatencyNs \<le> x \<and> x \<le> kMaxLatencyNs"

definition deltas :: "i64 list \<Rightarrow> i64 list" where
  "deltas xs = map2 (\<lambda>x y. y - x) xs (tl xs)"

lemma length_deltas [simp]: "length (deltas xs) = length xs - 1"
  by (simp add: deltas_def)

lemma range_sub: "latency_in_range x \<Longrightarrow> latency_in_range y \<Longrightarrow> checked_sub_i64 y x = Some (y - x)"
  by (simp add: latency_in_range_def kMinLatencyNs_def kMaxLatencyNs_def checked_sub_i64_eq i64_bounds)

lemma successive_deltas_range: "list_all latency_in_range xs \<Longrightarrow> successive_deltas xs = Inr (deltas xs)"
  by (induction xs rule: successive_deltas.induct) (simp_all add: range_sub deltas_def)

lemma in_set_deltas:
  assumes "d \<in> set (deltas xs)"
  obtains x y where "x \<in> set xs" "y \<in> set xs" "d = y - x"
proof -
  from assms obtain x y where xy: "(x, y) \<in> set (zip xs (tl xs))" "d = y - x"
    by (auto simp: deltas_def)
  then have "x \<in> set xs" "y \<in> set (tl xs)" by (auto dest: set_zip_leftD set_zip_rightD)
  with that xy(2) show thesis by (cases xs) auto
qed

lemma deltas_range:
  assumes "list_all latency_in_range xs" "d \<in> set (deltas xs)"
  shows "\<bar>d\<bar> \<le> 7200000000000"
proof -
  from assms(2) obtain x y where "x \<in> set xs" "y \<in> set xs" "d = y - x" by (rule in_set_deltas)
  moreover from this assms(1) have "latency_in_range x" "latency_in_range y" by (auto simp: list_all_iff)
  ultimately show ?thesis
    by (auto simp: latency_in_range_def kMinLatencyNs_def kMaxLatencyNs_def abs_le_iff)
qed

lemma absolute_deltas_range:
  assumes "list_all latency_in_range xs" "2 \<le> length xs"
  shows "absolute_deltas xs = Inr (map abs (deltas xs))"
proof -
  have "(if d < 0 then wrap_i64 (- d) else d) = \<bar>d\<bar>" if "d \<in> set (deltas xs)" for d
    using deltas_range [OF assms(1) that] by (simp add: wrap_i64_id i64_bounds)
  with assms show ?thesis
    by (simp add: absolute_deltas_def successive_deltas_range)
qed

lemma signed_deltas_range:
  "list_all latency_in_range xs \<Longrightarrow> 2 \<le> length xs \<Longrightarrow> signed_deltas xs = Inr (deltas xs)"
  by (simp add: signed_deltas_def successive_deltas_range)

lemma length_to_double [simp]: "length (to_double xs) = length xs"
  by (simp add: to_double_def)

definition expected_terms :: "metric_key \<Rightarrow> i64 list \<Rightarrow> nat" where
  "expected_terms key xs =
     (if fst (snd (metric_shape key)) = Input_Latency then length xs else length xs - 1)"

lemma estimate_total:
  assumes "list_all latency_in_range xs" "snd (snd (metric_shape key)) \<le> length xs"
    and "key \<noteq> Metric_CoefficientOfVariation"
  shows "\<exists>v. estimate (metric_definition_of key) xs = Inr (v, expected_terms key xs)"
  using assms
  by (cases key)
     (simp_all add: metric_shapeD estimate_def estimate_latency_def estimate_absolute_def
        estimate_signed_def absolute_deltas_range signed_deltas_range sample_variance_of_def
        expected_terms_def Let_def)

lemma compute_metric_total:
  assumes "list_all latency_in_range xs" "snd (snd (metric_shape key)) \<le> length xs"
    and "key \<noteq> Metric_CoefficientOfVariation"
  shows "\<exists>v. compute_metric key xs = Inr v \<and> mv_id v = md_id (metric_definition_of key) \<and>
           mv_unit v = md_unit (metric_definition_of key) \<and> mv_sample_count v = length xs \<and>
           mv_term_count v = expected_terms key xs"
proof -
  have "snd (snd (metric_shape key)) \<ge> 1" by (cases key) simp_all
  with assms(2) have "xs \<noteq> []" by auto
  with estimate_total [OF assms] assms(2) show ?thesis
    by (auto simp: compute_metric_def Let_def metric_shape_eq)
qed

lemma compute_metric_few:
  "length xs < snd (snd (metric_shape key)) \<Longrightarrow>
     compute_metric key xs =
       (if xs = [] then fail Ec_NoEvidence ''no readings in the window''
        else fail Ec_InsufficientEvidence ''not enough readings for this metric'')"
  by (simp add: compute_metric_def Let_def metric_shape_eq)

section \<open>Constant readings\<close>

lemma funpow_fix: "f x = x \<Longrightarrow> (f ^^ n) x = x"
  by (induction n) simp_all

lemma fold_zeros: "f 0 x = x \<Longrightarrow> fold f (replicate n (0 :: rat)) x = x"
  by (simp add: fold_replicate funpow_fix)

lemma comp_zeros [simp]: "comp_sum (replicate n 0) = 0"
  unfolding comp_sum_def by (subst fold_zeros) (simp_all add: comp_add_def Let_def)

lemma mean_zeros [simp]: "mean_of (replicate n 0) = 0"
  by (simp add: mean_of_def)

lemma sort_replicate [simp]: "sort (replicate n (x :: 'a :: linorder)) = replicate n x"
  by (simp add: sorted_sort_id)

lemma quantile_zeros [simp]: "quantile_of (replicate n 0) p = 0"
  by (auto simp: quantile_of_def Let_def not_le nth_append)

lemma max_zeros [simp]: "max_of (replicate (Suc n) 0) = 0"
  unfolding max_of_def replicate_Suc list.sel by (rule fold_zeros) simp

lemma ewma_zeros [simp]: "ewma16_of (replicate n 0) = 0"
proof (cases n)
  case (Suc m)
  show ?thesis unfolding ewma16_of_def Suc replicate_Suc list.case by (rule fold_zeros) simp
qed (simp add: ewma16_of_def)

lemma variance_zeros: "m \<le> n \<Longrightarrow> 2 \<le> n \<Longrightarrow> sample_variance_of (replicate n 0) m = Inr 0"
  by (simp add: sample_variance_of_def Let_def)

lemma to_double_zeros [simp]: "to_double (replicate n 0) = replicate n 0"
  by (simp add: to_double_def)

lemma deltas_constant: "deltas (replicate n c) = replicate (n - 1) 0"
  unfolding deltas_def tl_replicate zip_replicate by (cases n) simp_all

lemma constant_no_variation:
  assumes "latency_in_range c" "snd (snd (metric_shape key)) \<le> n"
    and "fst (snd (metric_shape key)) \<noteq> Input_Latency"
  shows "\<exists>v. compute_metric key (replicate n c) = Inr v \<and> mv_value v = f64_zero"
proof -
  have range: "list_all latency_in_range (replicate n c)" using assms(1) by (simp add: list_all_iff)
  have n: "2 \<le> n" using assms(2,3) by (cases key) simp_all
  then obtain k where k: "n - 1 = Suc k" by (cases n; cases "n - 1") auto
  have abs: "absolute_deltas (replicate n c) = Inr (replicate (Suc k) 0)"
    and sig: "signed_deltas (replicate n c) = Inr (replicate (Suc k) 0)"
    using n by (simp_all only: absolute_deltas_range [OF range] signed_deltas_range [OF range]
        length_replicate deltas_constant k map_replicate abs_zero)
  have "estimate (metric_definition_of key) (replicate n c) = Inr (0, Suc k)"
    using assms(2,3) n k
    by (cases key)
       (simp_all add: metric_shapeD estimate_def estimate_absolute_def estimate_signed_def abs sig
          Let_def variance_zeros del: replicate_Suc)
  moreover have "f64_of_rat 0 = f64_zero" by (simp add: f64_of_rat_def f64_zero_def)
  ultimately show ?thesis using assms(2) n by (auto simp: compute_metric_def Let_def metric_shape_eq)
qed

section \<open>The maximum delta is exact\<close>

lemma max_of_Max: "vs \<noteq> [] \<Longrightarrow> max_of vs = Max (set vs)"
  by (cases vs) (simp_all add: max_of_def flip: Max.set_eq_fold)

lemma max_delta_exact:
  assumes "list_all latency_in_range xs" "2 \<le> length xs"
  shows "\<exists>v. compute_metric Metric_AbsoluteDeltaMax xs = Inr v \<and>
           f64_val (mv_value v) = Fin (of_int (Max (abs ` set (deltas xs))))"
proof -
  let ?ds = "map abs (deltas xs)"
  have ne: "?ds \<noteq> []" using assms(2) by (cases "deltas xs") (auto dest: arg_cong [where f = length])
  have bound: "\<bar>d\<bar> \<le> 7200000000000" if "d \<in> set ?ds" for d
    using that deltas_range [OF assms(1)] by auto
  have "to_double ?ds = map of_int ?ds"
    unfolding to_double_def
  proof (rule map_cong [OF refl])
    fix d assume "d \<in> set ?ds"
    then show "rnd (of_int d) = of_int d" using bound [of d] by (intro rnd_int) simp
  qed
  then have m: "max_of (to_double ?ds) = Max (of_int ` set ?ds)"
    using ne by (simp add: max_of_Max image_image)
  also have "\<dots> = of_int (Max (set ?ds))"
    using ne by (intro mono_Max_commute [symmetric]) (auto simp: mono_def)
  finally have m: "max_of (to_double ?ds) = of_int (Max (set ?ds))" .
  have "Max (set ?ds) \<in> set ?ds" using ne by (intro Max_in) auto
  then have small: "\<bar>Max (set ?ds)\<bar> \<le> 7200000000000" by (rule bound)
  then have "representable (of_int (Max (set ?ds)))" by (intro representable_int) simp
  moreover have "\<bar>of_int (Max (set ?ds)) :: rat\<bar> < 2 powi 1024"
  proof -
    have "\<bar>of_int (Max (set ?ds)) :: rat\<bar> \<le> 7200000000000"
      using small by (metis of_int_abs of_int_le_iff of_int_numeral)
    also have "\<dots> < 2 powi 1024" by simp
    finally show ?thesis .
  qed
  ultimately have val: "f64_val (f64_of_rat (of_int (Max (set ?ds)))) = Fin (of_int (Max (set ?ds)))"
    by (rule f64_val_of_rat)
  have "estimate (metric_definition_of Metric_AbsoluteDeltaMax) xs
      = Inr (of_int (Max (set ?ds)), length xs - 1)"
    using assms
    by (simp add: metric_shapeD estimate_def estimate_absolute_def absolute_deltas_range m [simplified])
  then show ?thesis
    using assms(2) val
    by (auto simp: compute_metric_def Let_def metric_shapeD [of Metric_AbsoluteDeltaMax])
qed

section \<open>Comparability\<close>

lemma check_comparable_iff:
  "check_comparable a b = success \<longleftrightarrow> mv_id a = mv_id b \<and> mv_version a = mv_version b \<and> mv_unit a = mv_unit b"
  by (simp add: check_comparable_def)

lemma check_comparable_sym: "check_comparable a b = check_comparable b a"
  by (auto simp: check_comparable_def)

section \<open>Metric sets\<close>

lemma compute_step_inv: "om_invar (fst acc) \<Longrightarrow> om_invar (fst (compute_step xs key acc))"
  by (simp add: compute_step_def metric_insert_def split: sum.split)

lemma compute_all_inv: "om_invar (fst (compute_all keys xs))"
proof -
  have "om_invar (fst (fold (compute_step xs) keys acc))" if "om_invar (fst acc)" for acc
    using that by (induction keys arbitrary: acc) (simp_all add: compute_step_inv)
  then show ?thesis by (simp add: compute_all_def split: prod.split) (metis fst_conv om_invar_Nil)
qed

section \<open>Estimators that do not match their formula\<close>

lemma mad_mean_is_mean:
  "map_sum id mv_value (compute_metric Metric_MeanAbsoluteDeviation xs)
     = map_sum id mv_value (compute_metric Metric_LatencyMean xs)"
  by (simp add: compute_metric_def metric_shapeD estimate_def estimate_latency_def Let_def)

lemma mad_median_is_median:
  "map_sum id mv_value (compute_metric Metric_MedianAbsoluteDeviation xs)
     = map_sum id mv_value (compute_metric Metric_LatencyP50 xs)"
  by (simp add: compute_metric_def metric_shapeD estimate_def estimate_latency_def Let_def)

lemma iqr_is_peak_to_peak:
  "2 \<le> length xs \<Longrightarrow>
     map_sum id mv_value (compute_metric Metric_InterquartileRange xs)
       = map_sum id mv_value (compute_metric Metric_PeakToPeak xs)"
  by (simp add: compute_metric_def metric_shapeD estimate_def estimate_latency_def Let_def)

section \<open>Properties\<close>

text \<open>
  C33: Every metric other than the coefficient of variation (whose mean may be zero) is computed
  for every window of validated readings that is long enough, and its value carries the
  identity and unit of the published definition, the number of readings and the number of terms
  that entered it.
\<close>

lemma metric_always_computed:
  assumes "list_all latency_in_range xs" "snd (snd (metric_shape key)) \<le> length xs"
    and "key \<noteq> Metric_CoefficientOfVariation"
  shows "\<exists>v. compute_metric key xs = Inr v \<and> mv_id v = md_id (metric_definition_of key) \<and>
           mv_unit v = md_unit (metric_definition_of key) \<and> mv_sample_count v = length xs \<and>
           mv_term_count v = expected_terms key xs"
  using assms by (rule compute_metric_total)

lemma metric_always_computed_witness:
  "\<exists>v. compute_metric Metric_IpdvStdDev [900, 1000, 1300] = Inr v \<and> mv_term_count v = 2"
  using metric_always_computed [of "[900, 1000, 1300]" Metric_IpdvStdDev]
  by (auto simp: latency_in_range_def kMinLatencyNs_def kMaxLatencyNs_def expected_terms_def)

text \<open>
  A window shorter than the metric's minimum yields an explicit error (no evidence when it is
  empty, insufficient evidence otherwise) and never a number.
\<close>

lemma metric_too_few_readings:
  assumes "length xs < snd (snd (metric_shape key))"
  shows "compute_metric key xs =
       (if xs = [] then fail Ec_NoEvidence ''no readings in the window''
        else fail Ec_InsufficientEvidence ''not enough readings for this metric'')"
  using assms by (rule compute_metric_few)

lemma metric_too_few_readings_witness:
  "compute_metric Metric_AbsoluteDeltaMax [42]
     = fail Ec_InsufficientEvidence ''not enough readings for this metric''"
  using metric_too_few_readings [of "[42]" Metric_AbsoluteDeltaMax] by simp

text \<open>
  The jitter metrics (those computed from successive differences) do not see a constant
  offset: adding the same latency to every reading leaves value, terms and errors unchanged.
\<close>

lemma jitter_ignores_offset:
  assumes "fst (snd (metric_shape key)) \<noteq> Input_Latency"
    and "list_all i64_ok xs" "list_all (\<lambda>x. i64_ok (x + c)) xs"
  shows "compute_metric key (map (\<lambda>x. x + c) xs) = compute_metric key xs"
  using assms by (rule compute_metric_shift)

lemma jitter_ignores_offset_witness:
  "compute_metric Metric_AbsoluteDeltaP95 [1010, 1035, 1015, 1090]
     = compute_metric Metric_AbsoluteDeltaP95 [10, 35, 15, 90]"
  using jitter_ignores_offset [of Metric_AbsoluteDeltaP95 "[10, 35, 15, 90]" 1000] by (simp add: i64_bounds)

text \<open>The maximum absolute delta is exact: its double is the largest difference itself.\<close>

lemma maximum_delta_exact:
  assumes "list_all latency_in_range xs" "2 \<le> length xs"
  shows "\<exists>v. compute_metric Metric_AbsoluteDeltaMax xs = Inr v \<and>
           f64_val (mv_value v) = Fin (of_int (Max (abs ` set (deltas xs))))"
  using assms by (rule max_delta_exact)

lemma maximum_delta_exact_witness:
  "\<exists>v. compute_metric Metric_AbsoluteDeltaMax [900, 1000, 700] = Inr v \<and> f64_val (mv_value v) = Fin 300"
  using maximum_delta_exact [of "[900, 1000, 700]"]
  by (simp add: latency_in_range_def kMinLatencyNs_def kMaxLatencyNs_def deltas_def)

text \<open>Constant readings have no jitter: every metric of successive differences is zero.\<close>

lemma constant_latency_no_jitter:
  assumes "latency_in_range c" "snd (snd (metric_shape key)) \<le> n"
    and "fst (snd (metric_shape key)) \<noteq> Input_Latency"
  shows "\<exists>v. compute_metric key (replicate n c) = Inr v \<and> mv_value v = f64_zero"
  using assms by (rule constant_no_variation)

lemma constant_latency_no_jitter_witness:
  "\<exists>v. compute_metric Metric_IpdvStdDev [500, 500, 500, 500] = Inr v \<and> mv_value v = f64_zero"
  using constant_latency_no_jitter [of 500 Metric_IpdvStdDev 4]
  by (simp add: latency_in_range_def kMinLatencyNs_def kMaxLatencyNs_def numeral_nat)

text \<open>
  The estimators published as mean absolute deviation, median absolute deviation and
  interquartile range return the plain mean, the plain median and the peak-to-peak span: the
  registered formulas mention deviations and quartiles, the code applies the estimator to the
  readings themselves.
\<close>

lemma deviation_metrics_are_plain:
  "map_sum id mv_value (compute_metric Metric_MeanAbsoluteDeviation xs)
     = map_sum id mv_value (compute_metric Metric_LatencyMean xs) \<and>
   map_sum id mv_value (compute_metric Metric_MedianAbsoluteDeviation xs)
     = map_sum id mv_value (compute_metric Metric_LatencyP50 xs) \<and>
   map_sum id mv_value (compute_metric Metric_InterquartileRange (x # y # xs))
     = map_sum id mv_value (compute_metric Metric_PeakToPeak (x # y # xs))"
  by (simp add: mad_mean_is_mean mad_median_is_median iqr_is_peak_to_peak)

end
