(* ===== verification/Classification.thy ===== *)
theory Classification
  imports Metric_Facts
begin

text \<open>
  Policy driven classification: \<^verbatim>\<open>include/jitter/classification.hpp\<close> and
  \<^verbatim>\<open>src/classification.cpp\<close>. A threshold is the bit pattern of a double and is compared as one.
  The loop over the rules is a map; its any/all flags are quantifiers over the evaluations it
  leaves, where a rule that could not be evaluated counts as not breached.
\<close>

section \<open>Levels and policies\<close>

datatype instability_level =
    Level_Unknown
  | Level_Unsupported
  | Level_Missing
  | Level_Insufficient
  | Level_Stale
  | Level_Expired
  | Level_Conflicting
  | Level_Stable
  | Level_Elevated
  | Level_Unstable

fun instability_level_code :: "instability_level \<Rightarrow> u8" where
  "instability_level_code Level_Unknown = 0"
| "instability_level_code Level_Unsupported = 1"
| "instability_level_code Level_Missing = 2"
| "instability_level_code Level_Insufficient = 3"
| "instability_level_code Level_Stale = 4"
| "instability_level_code Level_Expired = 5"
| "instability_level_code Level_Conflicting = 6"
| "instability_level_code Level_Stable = 7"
| "instability_level_code Level_Elevated = 8"
| "instability_level_code Level_Unstable = 9"

definition instability_level_of_code :: "u8 \<Rightarrow> instability_level option" where
  "instability_level_of_code raw =
     (if raw > instability_level_code Level_Unstable then None
      else Some ([Level_Unknown, Level_Unsupported, Level_Missing,
                 Level_Insufficient, Level_Stale, Level_Expired,
                 Level_Conflicting, Level_Stable, Level_Elevated,
                 Level_Unstable] ! unat raw))"

fun instability_level_text :: "instability_level \<Rightarrow> string" where
  "instability_level_text Level_Unknown = ''unknown''"
| "instability_level_text Level_Unsupported = ''unsupported''"
| "instability_level_text Level_Missing = ''missing''"
| "instability_level_text Level_Insufficient = ''insufficient''"
| "instability_level_text Level_Stale = ''stale''"
| "instability_level_text Level_Expired = ''expired''"
| "instability_level_text Level_Conflicting = ''conflicting''"
| "instability_level_text Level_Stable = ''stable''"
| "instability_level_text Level_Elevated = ''elevated''"
| "instability_level_text Level_Unstable = ''unstable''"

definition parse_instability_level :: "string \<Rightarrow> instability_level option" where
  "parse_instability_level v =
     (if v = ''unknown'' then Some Level_Unknown
      else if v = ''unsupported'' then Some Level_Unsupported
      else if v = ''missing'' then Some Level_Missing
      else if v = ''insufficient'' then Some Level_Insufficient
      else if v = ''stale'' then Some Level_Stale
      else if v = ''expired'' then Some Level_Expired
      else if v = ''conflicting'' then Some Level_Conflicting
      else if v = ''stable'' then Some Level_Stable
      else if v = ''elevated'' then Some Level_Elevated
      else if v = ''unstable'' then Some Level_Unstable
      else None)"

interpretation instability_level_enum: u8_enum instability_level_code instability_level_of_code
proof
  fix x
  show "instability_level_of_code (instability_level_code x) = Some x" by (cases x) (simp_all add: instability_level_of_code_def)
qed

interpretation instability_level_names: text_enum instability_level_text parse_instability_level
proof
  fix x
  show "parse_instability_level (instability_level_text x) = Some x" by (cases x) (simp_all add: parse_instability_level_def)
qed

definition asserts_instability :: "instability_level \<Rightarrow> bool" where
  "asserts_instability l \<longleftrightarrow> l = Level_Elevated \<or> l = Level_Unstable"

definition asserts_stability :: "instability_level \<Rightarrow> bool" where
  "asserts_stability l \<longleftrightarrow> l = Level_Stable"

definition makes_positive_assertion :: "instability_level \<Rightarrow> bool" where
  "makes_positive_assertion l \<longleftrightarrow> asserts_instability l \<or> asserts_stability l"

datatype threshold_direction =
    Dir_AtLeast
  | Dir_AtMost

fun threshold_direction_code :: "threshold_direction \<Rightarrow> u8" where
  "threshold_direction_code Dir_AtLeast = 0"
| "threshold_direction_code Dir_AtMost = 1"

fun threshold_direction_text :: "threshold_direction \<Rightarrow> string" where
  "threshold_direction_text Dir_AtLeast = ''at_least''"
| "threshold_direction_text Dir_AtMost = ''at_most''"

record threshold_rule =
  tr_metric :: metric_key
  tr_direction :: threshold_direction
  tr_elevated_at :: f64_bits
  tr_unstable_at :: f64_bits
  tr_justification :: string

record instability_policy =
  ip_name :: string
  ip_rules :: "threshold_rule list"
  ip_min_fresh_samples :: nat
  ip_min_terms :: nat
  ip_require_all_rules :: bool
  ip_max_conflicts_tolerated :: nat
  ip_episode_close_windows :: nat
  ip_freshness :: freshness_policy

definition default_instability_policy :: instability_policy where
  "default_instability_policy =
     \<lparr>ip_name = ''default'',
      ip_rules =
        [\<lparr>tr_metric = Metric_AbsoluteDeltaP95, tr_direction = Dir_AtLeast,
          tr_elevated_at = f64_of_rat 250000, tr_unstable_at = f64_of_rat 1000000,
          tr_justification =
            ''the 95th percentile of the successive absolute latency delta is above a quarter of a '' @
            ''millisecond for the elevated band and above one millisecond for the unstable band''\<rparr>,
         \<lparr>tr_metric = Metric_AbsoluteDeltaMax, tr_direction = Dir_AtLeast,
          tr_elevated_at = f64_of_rat 1000000, tr_unstable_at = f64_of_rat 10000000,
          tr_justification =
            ''a single successive absolute latency delta above one millisecond is elevated and above '' @
            ''ten milliseconds is unstable''\<rparr>,
         \<lparr>tr_metric = Metric_CoefficientOfVariation, tr_direction = Dir_AtLeast,
          tr_elevated_at = f64_of_rat (1 / 4), tr_unstable_at = f64_of_rat 1,
          tr_justification =
            ''the sample standard deviation exceeding a quarter of the mean latency is elevated and '' @
            ''exceeding the mean itself is unstable''\<rparr>],
      ip_min_fresh_samples = 8, ip_min_terms = 4, ip_require_all_rules = False,
      ip_max_conflicts_tolerated = 0, ip_episode_close_windows = 2,
      ip_freshness = default_freshness_policy\<rparr>"

definition rule_parts :: "threshold_rule \<Rightarrow> bytes list" where
  "rule_parts r =
     [enc_u8 (metric_key_code (tr_metric r)), enc_u8 (threshold_direction_code (tr_direction r)),
      enc_f64 (tr_elevated_at r), enc_f64 (tr_unstable_at r), enc_str (tr_justification r)]"

definition instability_policy_parts :: "instability_policy \<Rightarrow> bytes list" where
  "instability_policy_parts p =
     [enc_str kDomainPolicy, enc_str (ip_name p), enc_u32 (word_of_nat (length (ip_rules p)))]
     @ concat (map rule_parts (ip_rules p))
     @ [enc_u64 (word_of_nat (ip_min_fresh_samples p)), enc_u64 (word_of_nat (ip_min_terms p)),
        enc_bool (ip_require_all_rules p), enc_u64 (word_of_nat (ip_max_conflicts_tolerated p)),
        enc_u32 (word_of_nat (ip_episode_close_windows p)),
        enc_id (make_freshness_policy_id (ip_freshness p))]"

definition make_instability_policy_id :: "instability_policy \<Rightarrow> instability_policy_id" where
  "make_instability_policy_id p = builder_id (instability_policy_parts p)"

definition kMaxRuleJustificationBytes :: nat where "kMaxRuleJustificationBytes = 256"

definition f64_greater :: "f64_bits \<Rightarrow> f64_bits \<Rightarrow> bool" where
  "f64_greater a b \<longleftrightarrow> f64_less b a"

fun validate_rules :: "threshold_rule list \<Rightarrow> status" where
  "validate_rules [] = success"
| "validate_rules (r # rs) =
     (if tr_metric r = Metric_Count
      then fail Ec_InvalidArgument ''threshold rule names an invalid metric''
      else if tr_justification r = ''''
      then fail Ec_InvalidArgument ''threshold rule requires a justification''
      else if length (tr_justification r) > kMaxRuleJustificationBytes
      then fail Ec_LimitExceeded ''threshold justification is too long''
      else if \<not> f64_is_finite (tr_elevated_at r) \<or> \<not> f64_is_finite (tr_unstable_at r)
      then fail Ec_InvalidArgument ''threshold values must be finite''
      else if tr_direction r = Dir_AtLeast \<and> f64_less (tr_unstable_at r) (tr_elevated_at r)
      then fail Ec_InvalidArgument
             ''for an at-least rule the unstable threshold must not be below the elevated threshold''
      else if tr_direction r = Dir_AtMost \<and> f64_greater (tr_unstable_at r) (tr_elevated_at r)
      then fail Ec_InvalidArgument
             ''for an at-most rule the unstable threshold must not be above the elevated threshold''
      else if \<exists>s \<in> set rs. tr_metric s = tr_metric r \<and> tr_direction s = tr_direction r
      then fail Ec_Duplicate ''the same metric is watched twice by one policy''
      else validate_rules rs)"

definition validate_instability_policy :: "instability_policy \<Rightarrow> status" where
  "validate_instability_policy p =
     (if ip_name p = '''' \<or> length (ip_name p) > kMaxPolicyNameBytes
      then fail Ec_InvalidArgument ''instability policy needs a short, non empty name''
      else if length (ip_rules p) > kMaxWatchedMetrics
      then fail Ec_LimitExceeded ''instability policy watches too many metrics''
      else if ip_min_terms p = 0
      then fail Ec_InvalidArgument ''instability policy requires a non zero term minimum''
      else if ip_episode_close_windows p = 0
      then fail Ec_InvalidArgument ''episode close window count must be at least one''
      else res_bind (validate_rules (ip_rules p)) (\<lambda>_. validate_freshness_policy (ip_freshness p)))"

section \<open>Classifying\<close>

record rule_evaluation =
  re_metric :: metric_key
  re_metric_id :: metric_id
  re_metric_name :: string
  re_direction :: threshold_direction
  re_elevated_at :: f64_bits
  re_unstable_at :: f64_bits
  re_value :: f64_bits
  re_value_present :: bool
  re_breached_elevated :: bool
  re_breached_unstable :: bool
  re_term_count :: nat
  re_reason :: string

record classification_input =
  ci_series :: series_id
  ci_path :: path_id
  ci_generation :: generation_id
  ci_generation_ordinal :: counter
  ci_policy :: instability_policy
  ci_window :: window_policy_id
  ci_evidence :: evidence_summary
  ci_metrics :: metric_set
  ci_metric_diagnostics :: "string list"
  ci_current_generation :: bool

record classification =
  cf_level :: instability_level
  cf_evidence :: evidence_state
  cf_has_driver :: bool
  cf_driver_key :: metric_key
  cf_driver_id :: metric_id
  cf_driver_value :: f64_bits
  cf_series :: series_id
  cf_path :: path_id
  cf_generation :: generation_id
  cf_generation_ordinal :: counter
  cf_policy :: instability_policy_id
  cf_window :: window_policy_id
  cf_current_generation :: bool
  cf_episode_close_windows :: nat
  cf_fresh_samples :: nat
  cf_terms :: nat
  cf_rules :: "rule_evaluation list"
  cf_reasons :: "string list"

definition asserts_current_instability :: "classification \<Rightarrow> bool" where
  "asserts_current_instability c \<longleftrightarrow> cf_current_generation c \<and> asserts_instability (cf_level c)"

definition breaches :: "f64_bits \<Rightarrow> f64_bits \<Rightarrow> threshold_direction \<Rightarrow> bool" where
  "breaches v threshold direction =
     (if direction = Dir_AtLeast then f64_le threshold v else f64_le v threshold)"

definition evaluate_rule :: "instability_policy \<Rightarrow> metric_set \<Rightarrow> threshold_rule \<Rightarrow> rule_evaluation" where
  "evaluate_rule p metrics r =
     (let d = metric_definition_of (tr_metric r);
          ev = \<lparr>re_metric = tr_metric r, re_metric_id = md_id d, re_metric_name = md_name d,
                re_direction = tr_direction r, re_elevated_at = tr_elevated_at r,
                re_unstable_at = tr_unstable_at r, re_value = f64_zero, re_value_present = False,
                re_breached_elevated = False, re_breached_unstable = False, re_term_count = 0,
                re_reason = ''''\<rparr>
      in case metric_find (md_id d) metrics of
           None \<Rightarrow> ev\<lparr>re_reason := ''metric_not_computed''\<rparr>
         | Some v \<Rightarrow>
             let ev1 = ev\<lparr>re_value := mv_value v, re_value_present := True, re_term_count := mv_term_count v\<rparr>
             in if mv_term_count v < ip_min_terms p
                then ev1\<lparr>re_value_present := False, re_reason := ''fewer_terms_than_policy_requires''\<rparr>
                else let be = breaches (mv_value v) (tr_elevated_at r) (tr_direction r);
                         bu = breaches (mv_value v) (tr_unstable_at r) (tr_direction r)
                     in ev1\<lparr>re_breached_elevated := be, re_breached_unstable := bu,
                            re_reason := (if bu then ''breaches_unstable_threshold''
                                          else if be then ''breaches_elevated_threshold''
                                          else ''within_thresholds'')\<rparr>)"

definition classification_base :: "classification_input \<Rightarrow> classification" where
  "classification_base i =
     \<lparr>cf_level = Level_Unknown, cf_evidence = es_dominant (ci_evidence i), cf_has_driver = False,
      cf_driver_key = Metric_Count, cf_driver_id = nil_id, cf_driver_value = f64_zero,
      cf_series = ci_series i, cf_path = ci_path i, cf_generation = ci_generation i,
      cf_generation_ordinal = ci_generation_ordinal i,
      cf_policy = make_instability_policy_id (ci_policy i), cf_window = ci_window i,
      cf_current_generation = ci_current_generation i,
      cf_episode_close_windows = ip_episode_close_windows (ci_policy i),
      cf_fresh_samples = es_fresh (ci_evidence i), cf_terms = 0, cf_rules = [],
      cf_reasons = add_reasons [] (map (\<lambda>d. ''metric_unavailable:'' @ d) (ci_metric_diagnostics i))\<rparr>"

definition refuse_with :: "instability_level \<Rightarrow> string \<Rightarrow> classification \<Rightarrow> classification" where
  "refuse_with l r c = c\<lparr>cf_level := l, cf_reasons := finalize_reasons (add_reason (cf_reasons c) r)\<rparr>"

definition rule_reason :: "rule_evaluation \<Rightarrow> string" where
  "rule_reason ev =
     ''rule:'' @ md_name (metric_definition_of (re_metric ev)) @ '':'' @ re_reason ev"

definition breach_reasons :: "rule_evaluation \<Rightarrow> string list" where
  "breach_reasons ev =
     [rule_reason ev]
     @ (if re_breached_elevated ev
        then [''threshold_breached_elevated:'' @ md_name (metric_definition_of (re_metric ev))] else [])
     @ (if re_breached_unstable ev
        then [''threshold_breached_unstable:'' @ md_name (metric_definition_of (re_metric ev))] else [])"

definition drives :: "instability_level \<Rightarrow> rule_evaluation \<Rightarrow> bool" where
  "drives l ev \<longleftrightarrow> re_value_present ev \<and>
     (if l = Level_Unstable then re_breached_unstable ev else re_breached_elevated ev)"

definition choose_driver :: "classification \<Rightarrow> classification" where
  "choose_driver c =
     (case find (drives (cf_level c)) (cf_rules c) of
        None \<Rightarrow> c
      | Some ev \<Rightarrow> c\<lparr>cf_has_driver := True, cf_driver_key := re_metric ev, cf_driver_id := re_metric_id ev,
                     cf_driver_value := re_value ev, cf_terms := re_term_count ev\<rparr>)"

definition rule_level :: "bool \<Rightarrow> rule_evaluation list \<Rightarrow> instability_level" where
  "rule_level require_all evs =
     (let unstable = (if require_all then (\<forall>ev \<in> set evs. re_breached_unstable ev)
                      else (\<exists>ev \<in> set evs. re_breached_unstable ev));
          elevated = (if require_all then (\<forall>ev \<in> set evs. re_breached_elevated ev)
                      else (\<exists>ev \<in> set evs. re_breached_elevated ev))
      in if unstable then Level_Unstable else if elevated then Level_Elevated else Level_Stable)"

definition classify_rules :: "classification_input \<Rightarrow> classification \<Rightarrow> classification" where
  "classify_rules i base =
     (let evs = map (evaluate_rule (ci_policy i) (ci_metrics i)) (ip_rules (ci_policy i));
          evaluable = length (filter re_value_present evs);
          c0 = base\<lparr>cf_rules := evs\<rparr>
      in if evaluable = 0
         then let c1 = refuse_with Level_Insufficient ''no_rule_could_be_evaluated'' c0
              in c1\<lparr>cf_reasons := finalize_reasons (add_reasons (cf_reasons c1) (map rule_reason evs))\<rparr>
         else let c1 = choose_driver (c0\<lparr>cf_level := rule_level (ip_require_all_rules (ci_policy i)) evs\<rparr>);
                  r1 = add_reasons (cf_reasons c1) (concat (map breach_reasons evs));
                  r2 = add_reason r1 (''level:'' @ instability_level_text (cf_level c1));
                  r3 = add_reason r2 (''evaluable_rules:'' @ nat_text evaluable)
              in c1\<lparr>cf_reasons := finalize_reasons r3\<rparr>)"

definition classify :: "classification_input \<Rightarrow> classification" where
  "classify i =
     (let base = classification_base i; e = ci_evidence i; p = ci_policy i
      in if \<not> ci_current_generation i then refuse_with Level_Unsupported ''generation_is_not_current'' base
         else if ip_rules p = [] then refuse_with Level_Unsupported ''no_threshold_rules_declared'' base
         else if es_total e = 0 then refuse_with Level_Missing ''no_observations_in_window'' base
         else if es_conflicting e > ip_max_conflicts_tolerated p
         then refuse_with Level_Conflicting ''evidence_is_contradicted'' base
         else if es_fresh e = 0 then
           (if es_stale e = 0 \<and> es_unknown e = 0 \<and> es_unsupported e = 0 \<and> es_incomplete e = 0 \<and>
               es_expired e > 0
            then refuse_with Level_Expired ''all_evidence_expired'' base
            else refuse_with Level_Stale ''no_fresh_evidence'' base)
         else if es_fresh e < ip_min_fresh_samples p
         then refuse_with Level_Insufficient ''fewer_fresh_observations_than_policy_requires'' base
         else classify_rules i base)"

section \<open>When a positive level is asserted\<close>

definition rule_evaluable :: "instability_policy \<Rightarrow> metric_set \<Rightarrow> threshold_rule \<Rightarrow> bool" where
  "rule_evaluable p metrics r \<longleftrightarrow>
     (case metric_find (md_id (metric_definition_of (tr_metric r))) metrics of
        None \<Rightarrow> False | Some v \<Rightarrow> ip_min_terms p \<le> mv_term_count v)"

lemma evaluate_rule_present: "re_value_present (evaluate_rule p metrics r) \<longleftrightarrow> rule_evaluable p metrics r"
  by (simp add: evaluate_rule_def rule_evaluable_def Let_def split: option.split)

lemma breached_evaluable:
  "re_breached_elevated (evaluate_rule p metrics r) \<or> re_breached_unstable (evaluate_rule p metrics r) \<Longrightarrow>
     rule_evaluable p metrics r"
  by (auto simp: evaluate_rule_def rule_evaluable_def Let_def split: option.splits if_splits)

lemma evaluate_rule_breach:
  assumes "rule_evaluable p metrics r"
  obtains v where "metric_find (md_id (metric_definition_of (tr_metric r))) metrics = Some v"
    "re_value (evaluate_rule p metrics r) = mv_value v"
    "re_term_count (evaluate_rule p metrics r) = mv_term_count v"
    "re_breached_elevated (evaluate_rule p metrics r) = breaches (mv_value v) (tr_elevated_at r) (tr_direction r)"
    "re_breached_unstable (evaluate_rule p metrics r) = breaches (mv_value v) (tr_unstable_at r) (tr_direction r)"
  using assms by (auto simp: evaluate_rule_def rule_evaluable_def Let_def split: option.splits)

lemma positive_simps [simp]:
  "\<not> makes_positive_assertion Level_Unknown" "\<not> makes_positive_assertion Level_Unsupported"
  "\<not> makes_positive_assertion Level_Missing" "\<not> makes_positive_assertion Level_Insufficient"
  "\<not> makes_positive_assertion Level_Stale" "\<not> makes_positive_assertion Level_Expired"
  "\<not> makes_positive_assertion Level_Conflicting" "makes_positive_assertion Level_Stable"
  "makes_positive_assertion Level_Elevated" "makes_positive_assertion Level_Unstable"
  by (simp_all add: makes_positive_assertion_def asserts_instability_def asserts_stability_def)

lemma rule_level_positive [simp]: "makes_positive_assertion (rule_level b evs)"
  by (simp add: rule_level_def Let_def)

lemma choose_driver_frame [simp]:
  "cf_level (choose_driver c) = cf_level c" "cf_rules (choose_driver c) = cf_rules c"
  "cf_reasons (choose_driver c) = cf_reasons c"
  "cf_current_generation (choose_driver c) = cf_current_generation c"
  by (simp_all add: choose_driver_def split: option.split)

lemma refuse_with_level [simp]: "cf_level (refuse_with l r c) = l"
  by (simp add: refuse_with_def)

lemma classify_rules_level:
  "cf_level (classify_rules i base) =
     (if \<forall>r \<in> set (ip_rules (ci_policy i)). \<not> rule_evaluable (ci_policy i) (ci_metrics i) r
      then Level_Insufficient
      else rule_level (ip_require_all_rules (ci_policy i))
             (map (evaluate_rule (ci_policy i) (ci_metrics i)) (ip_rules (ci_policy i))))"
  by (auto simp: classify_rules_def Let_def filter_empty_conv evaluate_rule_present)

definition positive_conditions :: "classification_input \<Rightarrow> bool" where
  "positive_conditions i \<longleftrightarrow>
     ci_current_generation i \<and> 0 < es_total (ci_evidence i) \<and>
     es_conflicting (ci_evidence i) \<le> ip_max_conflicts_tolerated (ci_policy i) \<and>
     0 < es_fresh (ci_evidence i) \<and> ip_min_fresh_samples (ci_policy i) \<le> es_fresh (ci_evidence i) \<and>
     (\<exists>r \<in> set (ip_rules (ci_policy i)). rule_evaluable (ci_policy i) (ci_metrics i) r)"

lemma classify_positive_iff:
  "makes_positive_assertion (cf_level (classify i)) \<longleftrightarrow> positive_conditions i"
  by (auto simp: classify_def Let_def classify_rules_level positive_conditions_def)

lemma classify_level_positive:
  "positive_conditions i \<Longrightarrow>
     cf_level (classify i) = rule_level (ip_require_all_rules (ci_policy i))
       (map (evaluate_rule (ci_policy i) (ci_metrics i)) (ip_rules (ci_policy i)))"
  by (auto simp: positive_conditions_def classify_def Let_def classify_rules_level)

lemma classify_rules_evaluated:
  "positive_conditions i \<Longrightarrow>
     cf_rules (classify i) = map (evaluate_rule (ci_policy i) (ci_metrics i)) (ip_rules (ci_policy i))"
  by (auto simp: positive_conditions_def classify_def Let_def classify_rules_def refuse_with_def)

section \<open>Thresholds and drivers\<close>

lemma class_le_trans:
  "class_less x y \<or> class_eq x y \<Longrightarrow> class_less y z \<or> class_eq y z \<Longrightarrow> class_less x z \<or> class_eq x z"
  by (cases x; cases y; cases z) auto

lemma f64_le_trans: "f64_le a b \<Longrightarrow> f64_le b c \<Longrightarrow> f64_le a c"
  unfolding f64_le_def f64_less_def f64_eq_def by (rule class_le_trans)

lemma finite_le_iff: "f64_is_finite a \<Longrightarrow> f64_is_finite b \<Longrightarrow> \<not> f64_less b a \<Longrightarrow> f64_le a b"
  by (auto simp: f64_is_finite_def f64_le_def f64_less_def f64_eq_def split: f64_class.splits)

definition rule_ordered :: "threshold_rule \<Rightarrow> bool" where
  "rule_ordered r \<longleftrightarrow>
     (if tr_direction r = Dir_AtLeast then f64_le (tr_elevated_at r) (tr_unstable_at r)
      else f64_le (tr_unstable_at r) (tr_elevated_at r))"

lemma validate_rules_ordered: "validate_rules rs = success \<Longrightarrow> r \<in> set rs \<Longrightarrow> rule_ordered r"
proof (induction rs)
  case (Cons x xs)
  then show ?case
    by (cases "tr_direction x")
       (auto simp: rule_ordered_def f64_greater_def intro: finite_le_iff split: if_splits)
qed simp

lemma breaches_ordered:
  "rule_ordered r \<Longrightarrow> breaches v (tr_unstable_at r) (tr_direction r) \<Longrightarrow>
     breaches v (tr_elevated_at r) (tr_direction r)"
  by (auto simp: rule_ordered_def breaches_def intro: f64_le_trans split: if_splits)

lemma unstable_breach_elevated:
  assumes "rule_ordered r" "re_breached_unstable (evaluate_rule p metrics r)"
  shows "re_breached_elevated (evaluate_rule p metrics r)"
proof -
  have "rule_evaluable p metrics r" using assms(2) by (blast intro: breached_evaluable)
  then show ?thesis using assms by (elim evaluate_rule_breach) (simp add: breaches_ordered)
qed

lemma rule_level_unstable:
  assumes "rule_level b evs = Level_Unstable" "evs \<noteq> []"
  shows "\<exists>ev \<in> set evs. re_breached_unstable ev"
proof (cases b)
  case True
  with assms(1) have "\<forall>ev \<in> set evs. re_breached_unstable ev"
    by (simp add: rule_level_def Let_def split: if_splits)
  with assms(2) show ?thesis by (cases evs) simp_all
next
  case False
  with assms(1) show ?thesis by (simp add: rule_level_def Let_def split: if_splits)
qed

lemma rule_level_elevated:
  assumes "rule_level b evs = Level_Elevated" "evs \<noteq> []"
  shows "\<exists>ev \<in> set evs. re_breached_elevated ev"
proof (cases b)
  case True
  with assms(1) have "\<forall>ev \<in> set evs. re_breached_elevated ev"
    by (simp add: rule_level_def Let_def split: if_splits)
  with assms(2) show ?thesis by (cases evs) simp_all
next
  case False
  with assms(1) show ?thesis by (simp add: rule_level_def Let_def split: if_splits)
qed

lemma rule_level_driven:
  assumes "asserts_instability (rule_level b evs)" "evs \<noteq> []"
  shows "\<exists>ev \<in> set evs. if rule_level b evs = Level_Unstable then re_breached_unstable ev
           else re_breached_elevated ev"
  using assms rule_level_unstable [of b evs] rule_level_elevated [of b evs]
  by (cases "rule_level b evs = Level_Unstable") (simp_all add: asserts_instability_def)

lemma classify_driver:
  assumes "asserts_instability (cf_level (classify i))"
  shows "cf_has_driver (classify i)"
proof -
  have pos: "positive_conditions i"
    using assms classify_positive_iff [of i] by (auto simp: makes_positive_assertion_def)
  let ?evs = "map (evaluate_rule (ci_policy i) (ci_metrics i)) (ip_rules (ci_policy i))"
  let ?l = "rule_level (ip_require_all_rules (ci_policy i)) ?evs"
  have l: "asserts_instability ?l" using assms classify_level_positive [OF pos] by simp
  have ne: "?evs \<noteq> []" using pos by (auto simp: positive_conditions_def)
  have present: "re_value_present ev"
    if ev: "ev \<in> set ?evs" and "re_breached_unstable ev \<or> re_breached_elevated ev" for ev
  proof -
    from ev obtain r where "ev = evaluate_rule (ci_policy i) (ci_metrics i) r" by auto
    with that(2) show ?thesis using breached_evaluable by (auto simp: evaluate_rule_present)
  qed
  from rule_level_driven [OF l ne] obtain ev where ev: "ev \<in> set ?evs"
    "if ?l = Level_Unstable then re_breached_unstable ev else re_breached_elevated ev" by blast
  then have "drives ?l ev" using present [OF ev(1)] unfolding drives_def by (auto split: if_splits)
  with ev(1) have "find (drives ?l) ?evs \<noteq> None" unfolding find_None_iff by blast
  moreover have "cf_has_driver (classify i) = cf_has_driver
      (choose_driver (classification_base i\<lparr>cf_rules := ?evs, cf_level := ?l\<rparr>))"
    using pos by (auto simp: positive_conditions_def classify_def Let_def classify_rules_def
        filter_empty_conv evaluate_rule_present)
  ultimately show ?thesis by (auto simp: choose_driver_def)
qed

section \<open>Reason lists\<close>

definition reasons_final :: "classification \<Rightarrow> bool" where
  "reasons_final c \<longleftrightarrow> sorted (cf_reasons c) \<and> distinct (cf_reasons c)"

lemma refuse_with_final: "reasons_final (refuse_with l r c)"
  by (simp add: reasons_final_def refuse_with_def sorted_finalize_reasons distinct_finalize_reasons)

lemma classify_rules_final: "reasons_final (classify_rules i base)"
  by (simp add: classify_rules_def reasons_final_def Let_def sorted_finalize_reasons
      distinct_finalize_reasons)

lemma classify_reasons: "reasons_final (classify i)"
  by (simp add: classify_def Let_def refuse_with_final classify_rules_final)

section \<open>Permuting the rules\<close>

lemma rule_level_set: "set evs = set evs' \<Longrightarrow> rule_level b evs = rule_level b evs'"
  by (simp add: rule_level_def)

text \<open>A stable level can still name a driver: one of several required rules is breached.\<close>

lemma stable_with_driver:
  assumes "positive_conditions i" "ip_require_all_rules (ci_policy i)"
    and "r \<in> set (ip_rules (ci_policy i))"
    "re_breached_elevated (evaluate_rule (ci_policy i) (ci_metrics i) r)"
    and "s \<in> set (ip_rules (ci_policy i))"
    "\<not> re_breached_elevated (evaluate_rule (ci_policy i) (ci_metrics i) s)"
    "\<not> re_breached_unstable (evaluate_rule (ci_policy i) (ci_metrics i) s)"
  shows "cf_level (classify i) = Level_Stable" "cf_has_driver (classify i)"
proof -
  let ?evs = "map (evaluate_rule (ci_policy i) (ci_metrics i)) (ip_rules (ci_policy i))"
  have l: "rule_level True ?evs = Level_Stable"
    using assms(5-7) by (auto simp: rule_level_def Let_def)
  then show "cf_level (classify i) = Level_Stable"
    using classify_level_positive [OF assms(1)] assms(2) by simp
  have "drives Level_Stable (evaluate_rule (ci_policy i) (ci_metrics i) r)"
    using assms(4) breached_evaluable by (auto simp: drives_def evaluate_rule_present)
  then have "find (drives Level_Stable) ?evs \<noteq> None" using assms(3) by (auto simp: find_None_iff)
  moreover have "cf_has_driver (classify i) = cf_has_driver
      (choose_driver (classification_base i\<lparr>cf_rules := ?evs, cf_level := Level_Stable\<rparr>))"
    using assms(1,2) l by (auto simp: positive_conditions_def classify_def Let_def classify_rules_def
        filter_empty_conv evaluate_rule_present)
  ultimately show "cf_has_driver (classify i)" by (auto simp: choose_driver_def)
qed

section \<open>Properties\<close>


definition rule_at :: "f64_bits \<Rightarrow> f64_bits \<Rightarrow> threshold_rule" where
  "rule_at e u = \<lparr>tr_metric = Metric_AbsoluteDeltaMax, tr_direction = Dir_AtLeast, tr_elevated_at = e,
                 tr_unstable_at = u, tr_justification = ''j''\<rparr>"

definition policy_of :: "threshold_rule list \<Rightarrow> instability_policy" where
  "policy_of rs = default_instability_policy\<lparr>ip_rules := rs\<rparr>"

definition value_of :: "f64_bits \<Rightarrow> metric_set" where
  "value_of v =
     (let d = metric_definition_of Metric_AbsoluteDeltaMax
      in [(md_id d, \<lparr>mv_id = md_id d, mv_key = Metric_AbsoluteDeltaMax, mv_name = md_name d, mv_version = 1,
                    mv_unit = md_unit d, mv_value = v, mv_sample_count = 11, mv_term_count = 10\<rparr>)])"

definition input_of :: "threshold_rule list \<Rightarrow> f64_bits \<Rightarrow> classification_input" where
  "input_of rs v =
     \<lparr>ci_series = StrongId 1, ci_path = StrongId 2, ci_generation = StrongId 3, ci_generation_ordinal = 1,
      ci_policy = policy_of rs, ci_window = StrongId 4,
      ci_evidence = evidence_summary_init\<lparr>es_total := 11, es_fresh := 11\<rparr>,
      ci_metrics = value_of v, ci_metric_diagnostics = [], ci_current_generation = True\<rparr>"

text \<open>
  Under a validated policy the thresholds of every rule are ordered, so whatever the metric
  values are (infinities and NaN included), a reading that breaches a rule's unstable threshold
  also breaches its elevated one.
\<close>

lemma thresholds_nested:
  assumes "validate_instability_policy p = success" "r \<in> set (ip_rules p)"
  shows "re_breached_unstable (evaluate_rule p metrics r) \<le> re_breached_elevated (evaluate_rule p metrics r)"
proof -
  have "validate_rules (ip_rules p) = success"
    using assms(1) by (auto simp: validate_instability_policy_def res_bind_eq_Inr split: if_splits)
  with assms(2) have "rule_ordered r" by (simp add: validate_rules_ordered)
  then show ?thesis using unstable_breach_elevated by auto
qed

lemma thresholds_nested_witness:
  "re_breached_elevated (evaluate_rule (policy_of [rule_at f64_zero f64_zero]) (value_of f64_zero)
     (rule_at f64_zero f64_zero))"
proof -
  have zero: "f64_val 0 = Fin 0" by (simp add: f64_val_def)
  let ?p = "policy_of [rule_at f64_zero f64_zero]"
  have "validate_instability_policy ?p = success"
    by (simp add: validate_instability_policy_def policy_of_def default_instability_policy_def rule_at_def
        f64_zero_def f64_is_finite_def f64_less_def zero kMaxPolicyNameBytes_def kMaxWatchedMetrics_def
        kMaxRuleJustificationBytes_def validate_freshness_policy_def default_freshness_policy_def kMinFreshnessBudgetNs_def
        kMaxFreshnessBudgetNs_def)
  from thresholds_nested [OF this, of "rule_at f64_zero f64_zero" "value_of f64_zero"]
  show ?thesis
    by (simp add: evaluate_rule_def Let_def metric_find_def value_of_def policy_of_def
        default_instability_policy_def rule_at_def breaches_def f64_le_def f64_less_def f64_eq_def
        f64_zero_def zero)
qed

text \<open>An assertion of instability always names the metric, the value and the rule behind it.\<close>

lemma instability_has_driver:
  assumes "asserts_instability (cf_level (classify i))"
  shows "cf_has_driver (classify i) \<and> reasons_final (classify i)"
  using classify_driver [OF assms] classify_reasons by blast

lemma instability_has_driver_witness:
  "cf_has_driver (classify (input_of [rule_at f64_zero f64_zero] f64_zero))"
proof -
  have zero: "f64_val 0 = Fin 0" by (simp add: f64_val_def)
  have "asserts_instability (cf_level (classify (input_of [rule_at f64_zero f64_zero] f64_zero)))"
    by (simp add: classify_level_positive positive_conditions_def input_of_def policy_of_def
        default_instability_policy_def evidence_summary_init_def rule_evaluable_def metric_find_def
        value_of_def Let_def rule_at_def rule_level_def evaluate_rule_def breaches_def f64_le_def
        f64_less_def f64_eq_def f64_zero_def zero asserts_instability_def)
  from instability_has_driver [OF this] show ?thesis by blast
qed

end
