(* ===== verification/Episode.thy ===== *)
theory Episode
  imports Classification
begin

text \<open>
  Historical instability episodes: \<^verbatim>\<open>include/jitter/episode.hpp\<close> and \<^verbatim>\<open>src/episode.cpp\<close>.
  \<^verbatim>\<open>EpisodeLog\<close> keeps its open episodes in a map under \<^verbatim>\<open>EpisodeKey\<close> (a tuple, ordered
  lexicographically as its \<^verbatim>\<open>operator<\<close>) and its closed ones per series, sorted by opening time and
  identity. The observation counters are the 64-bit counters of the source.
\<close>

section \<open>Episodes\<close>

datatype episode_close_reason =
    Close_None
  | Close_Recovered
  | Close_GenerationChanged
  | Close_EvidenceLost
  | Close_PolicyChanged
  | Close_WindowChanged
  | Close_Superseded

fun episode_close_reason_code :: "episode_close_reason \<Rightarrow> u8" where
  "episode_close_reason_code Close_None = 0"
| "episode_close_reason_code Close_Recovered = 1"
| "episode_close_reason_code Close_GenerationChanged = 2"
| "episode_close_reason_code Close_EvidenceLost = 3"
| "episode_close_reason_code Close_PolicyChanged = 4"
| "episode_close_reason_code Close_WindowChanged = 5"
| "episode_close_reason_code Close_Superseded = 6"

definition episode_close_reason_of_code :: "u8 \<Rightarrow> episode_close_reason option" where
  "episode_close_reason_of_code raw =
     (if raw > episode_close_reason_code Close_Superseded then None
      else Some ([Close_None, Close_Recovered, Close_GenerationChanged,
                 Close_EvidenceLost, Close_PolicyChanged, Close_WindowChanged,
                 Close_Superseded] ! unat raw))"

fun episode_close_reason_text :: "episode_close_reason \<Rightarrow> string" where
  "episode_close_reason_text Close_None = ''none''"
| "episode_close_reason_text Close_Recovered = ''recovered''"
| "episode_close_reason_text Close_GenerationChanged = ''generation_changed''"
| "episode_close_reason_text Close_EvidenceLost = ''evidence_lost''"
| "episode_close_reason_text Close_PolicyChanged = ''policy_changed''"
| "episode_close_reason_text Close_WindowChanged = ''window_changed''"
| "episode_close_reason_text Close_Superseded = ''superseded''"

interpretation episode_close_reason_enum: u8_enum episode_close_reason_code episode_close_reason_of_code
proof
  fix x
  show "episode_close_reason_of_code (episode_close_reason_code x) = Some x" by (cases x) (simp_all add: episode_close_reason_of_code_def)
qed

record episode =
  ep_id :: episode_id
  ep_series :: series_id
  ep_path :: path_id
  ep_generation :: generation_id
  ep_generation_ordinal :: counter
  ep_policy :: instability_policy_id
  ep_window :: window_policy_id
  ep_peak_level :: instability_level
  ep_driver_key :: metric_key
  ep_driver_id :: metric_id
  ep_opening_value :: f64_bits
  ep_peak_value :: f64_bits
  ep_opened_at_utc_ns :: i64
  ep_closed_at_utc_ns :: "i64 option"
  ep_observations :: u64
  ep_breach_observations :: u64
  ep_recovery_observations :: u64
  ep_close_windows_required :: nat
  ep_close_reason :: episode_close_reason
  ep_close_detail :: string
  ep_reasons :: "string list"

definition ep_is_open :: "episode \<Rightarrow> bool" where
  "ep_is_open e \<longleftrightarrow> ep_closed_at_utc_ns e = None"

text \<open>\<^verbatim>\<open>duration_ns\<close> subtracts unchecked.\<close>

definition ep_duration_ns :: "episode \<Rightarrow> i64 option" where
  "ep_duration_ns e =
     map_option (\<lambda>t. wrap_i64 (t - ep_opened_at_utc_ns e)) (ep_closed_at_utc_ns e)"

definition episode_parts :: "episode \<Rightarrow> bytes list" where
  "episode_parts e =
     [enc_str kDomainEpisode, enc_id (ep_series e), enc_id (ep_path e), enc_id (ep_generation e),
      enc_u64 (ep_generation_ordinal e), enc_i64 (ep_opened_at_utc_ns e), enc_id (ep_policy e),
      enc_id (ep_window e), enc_id (ep_driver_id e), enc_u8 (metric_key_code (ep_driver_key e))]"

definition make_episode_id :: "episode \<Rightarrow> episode_id" where
  "make_episode_id e = builder_id (episode_parts e)"

type_synonym episode_key = "series_id \<times> generation_id \<times> instability_policy_id \<times> window_policy_id"

definition key_of_episode :: "episode \<Rightarrow> episode_key" where
  "key_of_episode e = (ep_series e, ep_generation e, ep_policy e, ep_window e)"

definition key_of_classification :: "classification \<Rightarrow> episode_key" where
  "key_of_classification c = (cf_series c, cf_generation c, cf_policy c, cf_window c)"

record episode_update =
  eu_opened :: "episode option"
  eu_closed :: "episode option"
  eu_extended :: bool

definition no_update :: episode_update where
  "no_update = \<lparr>eu_opened = None, eu_closed = None, eu_extended = False\<rparr>"

record episode_log =
  el_open :: "(episode_key, episode) omap"
  el_episodes :: "(series_id, episode list) omap"
  el_dropped :: u64

definition episode_log_init :: episode_log where
  "episode_log_init = \<lparr>el_open = [], el_episodes = [], el_dropped = 0\<rparr>"

section \<open>Closing\<close>

definition close_episode :: "i64 \<Rightarrow> episode_close_reason \<Rightarrow> string \<Rightarrow> episode \<Rightarrow> episode" where
  "close_episode now reason detail e =
     e\<lparr>ep_closed_at_utc_ns := Some (if now < ep_opened_at_utc_ns e then ep_opened_at_utc_ns e else now),
       ep_close_reason := reason, ep_close_detail := detail,
       ep_reasons := add_reason (ep_reasons e) (''closed:'' @ episode_close_reason_text reason)\<rparr>"

definition episode_order :: "episode \<Rightarrow> i64 \<times> episode_id" where
  "episode_order e = (ep_opened_at_utc_ns e, ep_id e)"

definition episodes :: "series_id \<Rightarrow> episode_log \<Rightarrow> episode list" where
  "episodes s l = om_get [] s (el_episodes l)"

definition insert_closed :: "episode \<Rightarrow> episode_log \<Rightarrow> episode_log" where
  "insert_closed e l =
     (let bucket = sort_key episode_order (episodes (ep_series e) l @ [e]);
          excess = length bucket - kMaxEpisodesPerSeries
      in l\<lparr>el_episodes := om_put (ep_series e) (drop excess bucket) (el_episodes l),
           el_dropped := el_dropped l + word_of_nat excess\<rparr>)"

text \<open>The four steps the source repeats: close the copy, file it, erase the key, report it.\<close>

definition finish_episode :: "episode_key \<Rightarrow> episode \<Rightarrow> episode_log \<Rightarrow> episode_log" where
  "finish_episode k fin l =
     (let l' = insert_closed fin l in l'\<lparr>el_open := om_erase k (el_open l')\<rparr>)"

section \<open>Observing a classification\<close>

definition open_episode :: "classification \<Rightarrow> i64 \<Rightarrow> episode" where
  "open_episode c now =
     (let e = \<lparr>ep_id = nil_id, ep_series = cf_series c, ep_path = cf_path c,
               ep_generation = cf_generation c, ep_generation_ordinal = cf_generation_ordinal c,
               ep_policy = cf_policy c, ep_window = cf_window c, ep_peak_level = cf_level c,
               ep_driver_key = cf_driver_key c, ep_driver_id = cf_driver_id c,
               ep_opening_value = cf_driver_value c, ep_peak_value = cf_driver_value c,
               ep_opened_at_utc_ns = now, ep_closed_at_utc_ns = None, ep_observations = 1,
               ep_breach_observations = 1, ep_recovery_observations = 0,
               ep_close_windows_required = 0, ep_close_reason = Close_None, ep_close_detail = '''',
               ep_reasons = add_reason (cf_reasons c) ''opened:instability_asserted''\<rparr>
      in e\<lparr>ep_id := make_episode_id e\<rparr>)"

definition extend_episode :: "classification \<Rightarrow> episode \<Rightarrow> episode" where
  "extend_episode c e =
     (let e1 = e\<lparr>ep_observations := ep_observations e + 1,
                 ep_breach_observations := ep_breach_observations e + 1,
                 ep_recovery_observations := 0\<rparr>;
          e2 = (if f64_greater (cf_driver_value c) (ep_peak_value e1)
                then e1\<lparr>ep_peak_value := cf_driver_value c, ep_driver_key := cf_driver_key c,
                        ep_driver_id := cf_driver_id c\<rparr> else e1);
          e3 = (if cf_level c = Level_Unstable then e2\<lparr>ep_peak_level := Level_Unstable\<rparr> else e2)
      in e3\<lparr>ep_reasons := add_reasons (ep_reasons e3) (cf_reasons c)\<rparr>)"

definition evidence_lost_level :: "instability_level \<Rightarrow> bool" where
  "evidence_lost_level l \<longleftrightarrow>
     l = Level_Missing \<or> l = Level_Stale \<or> l = Level_Expired \<or> l = Level_Conflicting \<or>
     l = Level_Unknown \<or> l = Level_Unsupported"

definition calm_observation :: "classification \<Rightarrow> episode \<Rightarrow> episode" where
  "calm_observation c e =
     e\<lparr>ep_close_windows_required := cf_episode_close_windows c,
       ep_observations := ep_observations e + 1\<rparr>"

definition recovery_observation :: "classification \<Rightarrow> episode \<Rightarrow> episode" where
  "recovery_observation c e =
     e\<lparr>ep_recovery_observations := ep_recovery_observations e + 1,
       ep_reasons := add_reasons (ep_reasons e) (cf_reasons c)\<rparr>"

definition observe :: "classification \<Rightarrow> i64 \<Rightarrow> episode_log \<Rightarrow> episode_update \<times> episode_log" where
  "observe c now l =
     (let k = key_of_classification c
      in if \<not> cf_current_generation c then
           (case om_find k (el_open l) of
              None \<Rightarrow> (no_update, l)
            | Some e \<Rightarrow>
                let fin = close_episode now Close_Superseded ''classification_targets_a_closed_generation'' e
                in (no_update\<lparr>eu_closed := Some fin\<rparr>, finish_episode k fin l))
         else if asserts_instability (cf_level c) then
           (case om_find k (el_open l) of
              None \<Rightarrow>
                let e = open_episode c now
                in (no_update\<lparr>eu_opened := Some e\<rparr>, l\<lparr>el_open := om_emplace k e (el_open l)\<rparr>)
            | Some e \<Rightarrow>
                (no_update\<lparr>eu_extended := True\<rparr>, l\<lparr>el_open := om_put k (extend_episode c e) (el_open l)\<rparr>))
         else
           (case om_find k (el_open l) of
              None \<Rightarrow> (no_update, l)
            | Some e \<Rightarrow>
                let e1 = calm_observation c e
                in if evidence_lost_level (cf_level c)
                   then let fin = close_episode now Close_EvidenceLost
                              (''level:'' @ instability_level_text (cf_level c)) e1
                        in (no_update\<lparr>eu_closed := Some fin\<rparr>, finish_episode k fin l)
                   else let e2 = recovery_observation c e1
                        in if unat (ep_recovery_observations e2) \<ge> cf_episode_close_windows c
                           then let fin = close_episode now Close_Recovered
                                      ''level_returned_below_thresholds'' e2
                                in (no_update\<lparr>eu_closed := Some fin\<rparr>, finish_episode k fin l)
                           else (no_update\<lparr>eu_extended := True\<rparr>,
                                 l\<lparr>el_open := om_put k e2 (el_open l)\<rparr>)))"

section \<open>Retiring and importing\<close>

definition retire_reason ::
  "generation_id \<Rightarrow> instability_policy_id \<Rightarrow> window_policy_id \<Rightarrow> episode_key
     \<Rightarrow> (episode_close_reason \<times> string) option" where
  "retire_reason generation policy window k = (case k of (_, g, p, w) \<Rightarrow>
     if g \<noteq> generation then Some (Close_GenerationChanged, ''route_generation_changed'')
     else if p \<noteq> policy then Some (Close_PolicyChanged, ''instability_policy_changed'')
     else if w \<noteq> window then Some (Close_WindowChanged, ''window_policy_changed'')
     else None)"

fun retire_over ::
  "series_id \<Rightarrow> generation_id \<Rightarrow> instability_policy_id \<Rightarrow> window_policy_id \<Rightarrow> i64
     \<Rightarrow> (episode_key \<times> episode) list \<Rightarrow> episode_log \<Rightarrow> episode list \<times> episode_log" where
  "retire_over series generation policy window now [] l = ([], l)"
| "retire_over series generation policy window now ((k, e) # rest) l =
     (if fst k \<noteq> series then retire_over series generation policy window now rest l
      else case retire_reason generation policy window k of
             None \<Rightarrow> retire_over series generation policy window now rest l
           | Some (reason, detail) \<Rightarrow>
               let fin = close_episode now reason detail e;
                   (closed_now, l') = retire_over series generation policy window now rest
                                        (finish_episode k fin l)
               in (fin # closed_now, l'))"

definition retire ::
  "series_id \<Rightarrow> generation_id \<Rightarrow> instability_policy_id \<Rightarrow> window_policy_id \<Rightarrow> i64
     \<Rightarrow> episode_log \<Rightarrow> episode list \<times> episode_log" where
  "retire series generation policy window now l =
     retire_over series generation policy window now (om_entries (el_open l)) l"

definition import_episode :: "episode \<Rightarrow> i64 \<Rightarrow> episode_log \<Rightarrow> status \<times> episode_log" where
  "import_episode e now l =
     (if id_is_nil (ep_series e) \<or> id_is_nil (ep_generation e)
      then (fail Ec_InvalidArgument ''imported episode requires series and generation identities'', l)
      else (success,
            insert_closed
              (if ep_is_open e
               then close_episode now Close_EvidenceLost
                      ''restored_open_episode_cannot_be_confirmed_after_restart'' e
               else e) l))"

definition open_episodes :: "episode_log \<Rightarrow> episode list" where
  "open_episodes l = map snd (om_entries (el_open l))"

definition all_episodes :: "episode_log \<Rightarrow> episode list" where
  "all_episodes l =
     sort_key episode_order (concat (map snd (om_entries (el_episodes l))) @ open_episodes l)"

definition el_size :: "episode_log \<Rightarrow> nat" where
  "el_size l = length (el_episodes l)"

definition el_clear :: "episode_log \<Rightarrow> episode_log" where
  "el_clear l = episode_log_init"

section \<open>Closing and filing\<close>

lemma key_close [simp]: "key_of_episode (close_episode now r d e) = key_of_episode e"
  by (simp add: key_of_episode_def close_episode_def)

lemma close_episode_frame [simp]:
  "ep_series (close_episode now r d e) = ep_series e" "ep_id (close_episode now r d e) = ep_id e"
  "ep_opened_at_utc_ns (close_episode now r d e) = ep_opened_at_utc_ns e"
  "ep_close_reason (close_episode now r d e) = r"
  "ep_closed_at_utc_ns (close_episode now r d e) = Some (max now (ep_opened_at_utc_ns e))"
  "\<not> ep_is_open (close_episode now r d e)"
  by (simp_all add: close_episode_def ep_is_open_def max_def)

lemma key_series: "key_of_episode e = k \<Longrightarrow> ep_series e = fst k"
  by (auto simp: key_of_episode_def)

definition properly_closed :: "episode \<Rightarrow> bool" where
  "properly_closed e \<longleftrightarrow>
     (case ep_closed_at_utc_ns e of None \<Rightarrow> False
      | Some t \<Rightarrow> ep_opened_at_utc_ns e \<le> t \<and> ep_close_reason e \<noteq> Close_None)"

lemma properly_closed_close [simp]: "r \<noteq> Close_None \<Longrightarrow> properly_closed (close_episode now r d e)"
  by (simp add: properly_closed_def)

lemma properly_closed_not_open: "properly_closed e \<Longrightarrow> \<not> ep_is_open e"
  by (auto simp: properly_closed_def ep_is_open_def split: option.splits)

text \<open>Imported closed episodes are filed as they are (\<open>trusted\<close> is false there).\<close>

definition bucket_inv :: "bool \<Rightarrow> series_id \<Rightarrow> episode list \<Rightarrow> bool" where
  "bucket_inv trusted s es \<longleftrightarrow>
     sorted (map episode_order es) \<and> length es \<le> kMaxEpisodesPerSeries \<and>
     list_all (\<lambda>e. ep_series e = s \<and> \<not> ep_is_open e \<and> (trusted \<longrightarrow> properly_closed e)) es"

definition open_inv :: "(episode_key, episode) omap \<Rightarrow> bool" where
  "open_inv m \<longleftrightarrow> om_invar m \<and>
     (\<forall>k e. om_find k m = Some e \<longrightarrow> ep_is_open e \<and> key_of_episode e = k)"

definition episode_log_inv :: "bool \<Rightarrow> episode_log \<Rightarrow> bool" where
  "episode_log_inv trusted l \<longleftrightarrow>
     open_inv (el_open l) \<and> om_invar (el_episodes l) \<and> (\<forall>s. bucket_inv trusted s (episodes s l))"

lemma episode_log_inv_init: "episode_log_inv trusted episode_log_init"
  by (simp add: episode_log_inv_def episode_log_init_def open_inv_def episodes_def om_get_def bucket_inv_def)

definition filed :: "episode \<Rightarrow> episode list \<Rightarrow> episode list" where
  "filed e es = sort_key episode_order (es @ [e])"

lemma episodes_insert_closed:
  "episodes s (insert_closed e l) =
     (if s = ep_series e
      then drop (Suc (length (episodes s l)) - kMaxEpisodesPerSeries) (filed e (episodes s l))
      else episodes s l)"
  by (simp add: insert_closed_def Let_def episodes_def filed_def)

lemma insert_closed_open [simp]: "el_open (insert_closed e l) = el_open l"
  by (simp add: insert_closed_def Let_def)

lemma finish_episode_open [simp]: "el_open (finish_episode k e l) = om_erase k (el_open l)"
  by (simp add: finish_episode_def Let_def)

lemma episodes_finish [simp]: "episodes s (finish_episode k e l) = episodes s (insert_closed e l)"
  by (simp add: finish_episode_def Let_def episodes_def)

lemma set_filed [simp]: "set (filed e es) = insert e (set es)"
  by (simp add: filed_def)

lemma sorted_filed: "sorted (map episode_order (filed e es))"
  by (simp add: filed_def)

lemma bucket_inv_file:
  assumes "bucket_inv trusted s es" "ep_series e = s" "\<not> ep_is_open e" "trusted \<Longrightarrow> properly_closed e"
  shows "bucket_inv trusted s (drop (Suc (length es) - kMaxEpisodesPerSeries) (filed e es))"
proof -
  have "length (filed e es) = Suc (length es)" by (simp add: filed_def)
  moreover have "sorted (map episode_order (drop n (filed e es)))" for n
    unfolding drop_map [symmetric] by (rule sorted_wrt_drop) (rule sorted_filed)
  ultimately show ?thesis using assms by (auto simp: bucket_inv_def list_all_iff dest!: in_set_dropD)
qed

lemma insert_closed_inv:
  assumes "episode_log_inv trusted l" "\<not> ep_is_open e" "trusted \<Longrightarrow> properly_closed e"
  shows "episode_log_inv trusted (insert_closed e l)"
proof -
  have "bucket_inv trusted s (episodes s (insert_closed e l))" for s
    using assms bucket_inv_file [of trusted s "episodes s l" e]
    by (auto simp: episode_log_inv_def episodes_insert_closed)
  with assms(1) show ?thesis
    by (simp add: episode_log_inv_def insert_closed_def Let_def)
qed

lemma open_inv_erase: "open_inv m \<Longrightarrow> open_inv (om_erase k m)"
  by (simp add: open_inv_def)

lemma open_inv_put: "open_inv m \<Longrightarrow> ep_is_open e \<Longrightarrow> key_of_episode e = k \<Longrightarrow> open_inv (om_put k e m)"
  by (simp add: open_inv_def)

lemma episode_log_inv_open:
  "episode_log_inv trusted l \<Longrightarrow> open_inv m \<Longrightarrow> episode_log_inv trusted (l\<lparr>el_open := m\<rparr>)"
  by (simp add: episode_log_inv_def episodes_def)

lemma finish_episode_inv:
  assumes "episode_log_inv trusted l" "r \<noteq> Close_None"
  shows "episode_log_inv trusted (finish_episode k (close_episode now r d e) l)"
  using insert_closed_inv [OF assms(1), of "close_episode now r d e"] assms
  by (simp add: finish_episode_def Let_def episode_log_inv_open open_inv_erase episode_log_inv_def episodes_def)

section \<open>Every operation preserves the invariant\<close>

lemma open_episode_frame [simp]:
  "ep_is_open (open_episode c now)" "key_of_episode (open_episode c now) = key_of_classification c"
  "ep_recovery_observations (open_episode c now) = 0"
  "ep_peak_value (open_episode c now) = cf_driver_value c"
  "ep_opened_at_utc_ns (open_episode c now) = now"
  by (simp_all add: open_episode_def Let_def ep_is_open_def key_of_episode_def key_of_classification_def)

lemma extend_episode_frame [simp]:
  "ep_is_open (extend_episode c e) = ep_is_open e"
  "key_of_episode (extend_episode c e) = key_of_episode e"
  "ep_recovery_observations (extend_episode c e) = 0"
  "ep_opened_at_utc_ns (extend_episode c e) = ep_opened_at_utc_ns e"
  by (simp_all add: extend_episode_def Let_def ep_is_open_def key_of_episode_def)

lemma calm_frame [simp]:
  "ep_is_open (recovery_observation c (calm_observation c e)) = ep_is_open e"
  "key_of_episode (recovery_observation c (calm_observation c e)) = key_of_episode e"
  "ep_recovery_observations (recovery_observation c (calm_observation c e)) = ep_recovery_observations e + 1"
  "ep_recovery_observations (calm_observation c e) = ep_recovery_observations e"
  "key_of_episode (calm_observation c e) = key_of_episode e"
  by (simp_all add: recovery_observation_def calm_observation_def ep_is_open_def key_of_episode_def)

lemma open_found: "episode_log_inv trusted l \<Longrightarrow> om_find k (el_open l) = Some e \<Longrightarrow>
    ep_is_open e \<and> key_of_episode e = k"
  unfolding episode_log_inv_def open_inv_def by blast

lemma observe_inv:
  assumes inv: "episode_log_inv trusted l"
  shows "episode_log_inv trusted (snd (observe c now l))"
proof -
  have o: "open_inv (el_open l)" using inv by (simp add: episode_log_inv_def)
  show ?thesis
    by (auto simp: observe_def Let_def om_emplace_def inv finish_episode_inv open_found [OF inv]
        intro!: episode_log_inv_open [OF inv] open_inv_put [OF o] split: option.split)
qed

lemma retire_reason_close: "retire_reason g p w k = Some (r, d) \<Longrightarrow> r \<noteq> Close_None"
  by (auto simp: retire_reason_def split: prod.splits if_splits)

lemma retire_over_close:
  assumes "retire_reason g p w k = Some (r, d)"
  shows "retire_over s g p w now ((k, e) # rest) l =
     (if fst k \<noteq> s then retire_over s g p w now rest l
      else let t = retire_over s g p w now rest (finish_episode k (close_episode now r d e) l)
           in (close_episode now r d e # fst t, snd t))"
  by (simp add: assms Let_def split_beta)

lemma retire_over_inv:
  "episode_log_inv trusted l \<Longrightarrow> episode_log_inv trusted (snd (retire_over s g p w now es l))"
proof (induction s g p w now es l rule: retire_over.induct)
  case (2 s g p w now k e rest l)
  show ?case
  proof (cases "retire_reason g p w k")
    case (Some x)
    obtain r d where x: "x = (r, d)" by (cases x)
    have "r \<noteq> Close_None" using Some x by (auto dest: retire_reason_close)
    then have "episode_log_inv trusted (finish_episode k (close_episode now r d e) l)"
      by (rule finish_episode_inv [OF "2.prems"])
    with 2 Some x show ?thesis by (simp add: Let_def split_beta)
  qed (use 2 in simp)
qed simp

lemma retire_inv: "episode_log_inv trusted l \<Longrightarrow> episode_log_inv trusted (snd (retire s g p w now l))"
  by (simp add: retire_def retire_over_inv)

lemma import_episode_inv: "episode_log_inv False l \<Longrightarrow> episode_log_inv False (snd (import_episode e now l))"
  by (auto simp: import_episode_def intro: insert_closed_inv)

text \<open>The logs the runtime can hold; only recovery imports.\<close>

inductive episode_reach :: "bool \<Rightarrow> episode_log \<Rightarrow> bool" for recovering :: bool where
  ep_reach_init: "episode_reach recovering episode_log_init"
| ep_reach_observe: "episode_reach recovering l \<Longrightarrow> episode_reach recovering (snd (observe c now l))"
| ep_reach_retire: "episode_reach recovering l \<Longrightarrow> episode_reach recovering (snd (retire s g p w now l))"
| ep_reach_import: "recovering \<Longrightarrow> episode_reach recovering l \<Longrightarrow>
    episode_reach recovering (snd (import_episode e now l))"

lemma episode_reach_inv: "episode_reach recovering l \<Longrightarrow> episode_log_inv (\<not> recovering) l"
proof (induction rule: episode_reach.induct)
  case (ep_reach_import l e now)
  then show ?case using import_episode_inv [of l e now] by simp
qed (auto intro: episode_log_inv_init observe_inv retire_inv)

section \<open>Opening and extending\<close>

lemma observe_asserting:
  assumes "asserts_current_instability c" "om_find (key_of_classification c) (el_open l) = None"
  shows "observe c now l =
    (no_update\<lparr>eu_opened := Some (open_episode c now)\<rparr>,
     l\<lparr>el_open := om_put (key_of_classification c) (open_episode c now) (el_open l)\<rparr>)"
  using assms by (simp add: asserts_current_instability_def observe_def Let_def om_emplace_def)

lemma observe_extending:
  assumes "asserts_current_instability c" "om_find (key_of_classification c) (el_open l) = Some e"
  shows "observe c now l =
    (no_update\<lparr>eu_extended := True\<rparr>,
     l\<lparr>el_open := om_put (key_of_classification c) (extend_episode c e) (el_open l)\<rparr>)"
  using assms by (simp add: asserts_current_instability_def observe_def Let_def)

lemma class_less_asym: "class_less x y \<Longrightarrow> \<not> class_less y x"
  by (cases x; cases y) auto

lemma f64_less_asym: "f64_less a b \<Longrightarrow> \<not> f64_less b a"
  unfolding f64_less_def by (rule class_less_asym)

lemma f64_less_irrefl [simp]: "\<not> f64_less a a"
  using f64_less_asym by blast

lemma extend_peak_value:
  "ep_peak_value (extend_episode c e) =
     (if f64_less (ep_peak_value e) (cf_driver_value c) then cf_driver_value c else ep_peak_value e)"
  by (simp add: extend_episode_def Let_def f64_greater_def)

lemma extend_peak_max:
  "\<not> f64_less (ep_peak_value (extend_episode c e)) (ep_peak_value e)"
  "\<not> f64_less (ep_peak_value (extend_episode c e)) (cf_driver_value c)"
  by (auto simp: extend_peak_value dest: f64_less_asym)

section \<open>Recovery\<close>

definition calm :: "classification \<Rightarrow> bool" where
  "calm c \<longleftrightarrow> cf_current_generation c \<and> \<not> asserts_instability (cf_level c) \<and>
     \<not> evidence_lost_level (cf_level c)"

lemma calm_iff: "calm c \<longleftrightarrow>
    cf_current_generation c \<and> (cf_level c = Level_Stable \<or> cf_level c = Level_Insufficient)"
  by (cases "cf_level c") (auto simp: calm_def asserts_instability_def evidence_lost_level_def)

definition observe_all :: "(classification \<times> i64) list \<Rightarrow> episode_log \<Rightarrow> episode_log" where
  "observe_all cs l = fold (\<lambda>(c, now) l. snd (observe c now l)) cs l"

lemma observe_all_simps [simp]:
  "observe_all [] l = l"
  "observe_all ((c, now) # cs) l = observe_all cs (snd (observe c now l))"
  "observe_all (cs @ ds) l = observe_all ds (observe_all cs l)"
  by (simp_all add: observe_all_def)

abbreviation recovered :: "classification \<Rightarrow> episode \<Rightarrow> episode" where
  "recovered c e \<equiv> recovery_observation c (calm_observation c e)"

lemma observe_calm:
  assumes "calm c" "om_find (key_of_classification c) (el_open l) = Some e"
  shows "observe c now l =
    (if cf_episode_close_windows c \<le> unat (ep_recovery_observations e + 1)
     then let fin = close_episode now Close_Recovered ''level_returned_below_thresholds'' (recovered c e)
          in (no_update\<lparr>eu_closed := Some fin\<rparr>, finish_episode (key_of_classification c) fin l)
     else (no_update\<lparr>eu_extended := True\<rparr>,
           l\<lparr>el_open := om_put (key_of_classification c) (recovered c e) (el_open l)\<rparr>))"
  using assms by (simp add: calm_def observe_def Let_def)

lemma unat_Suc_small: "unat r + 1 < 2 ^ 64 \<Longrightarrow> unat (r + 1 :: u64) = unat r + 1"
  by (simp add: unat_plus_if')

lemma calm_run:
  assumes "om_find k (el_open l) = Some e"
    and "\<forall>(c, now) \<in> set cs. calm c \<and> key_of_classification c = k \<and> cf_episode_close_windows c = n"
    and "unat (ep_recovery_observations e) + length cs < n" "n < 2 ^ 32"
  shows "\<exists>e'. om_find k (el_open (observe_all cs l)) = Some e' \<and>
    unat (ep_recovery_observations e') = unat (ep_recovery_observations e) + length cs \<and>
    ep_series e' = ep_series e"
  using assms
proof (induction cs arbitrary: l e)
  case (Cons x cs)
  obtain c now where x: "x = (c, now)" by (cases x)
  have c: "calm c" "key_of_classification c = k" "cf_episode_close_windows c = n"
    using Cons.prems(2) by (auto simp: x)
  have r: "unat (ep_recovery_observations e + 1) = unat (ep_recovery_observations e) + 1"
    using Cons.prems(3,4) by (intro unat_Suc_small) simp
  let ?l = "snd (observe c now l)"
  have "om_find k (el_open ?l) = Some (recovered c e)"
    using c Cons.prems(1,3) r by (simp add: observe_calm)
  moreover have "ep_series (recovered c e) = ep_series e"
    by (simp add: recovery_observation_def calm_observation_def)
  ultimately show ?case
    using Cons.IH [of ?l "recovered c e"] Cons.prems(2-4) r by (auto simp: x)
qed simp

lemma calm_run_closes:
  assumes "episode_log_inv trusted l" "om_find k (el_open l) = Some e"
    and "\<forall>(c, now) \<in> set (cs @ [(d, t)]). calm c \<and> key_of_classification c = k \<and> cf_episode_close_windows c = n"
    and "ep_recovery_observations e = 0" "length cs + 1 = n" "n < 2 ^ 32"
  shows "om_find k (el_open (observe_all (cs @ [(d, t)]) l)) = None"
    and "\<exists>fin. eu_closed (fst (observe d t (observe_all cs l))) = Some fin \<and>
           ep_close_reason fin = Close_Recovered \<and> ep_series fin = ep_series e"
proof -
  obtain e' where e': "om_find k (el_open (observe_all cs l)) = Some e'"
    "unat (ep_recovery_observations e') = length cs" "ep_series e' = ep_series e"
    using calm_run [OF assms(2), of cs n] assms(3-6) by auto
  have d: "calm d" "key_of_classification d = k" "cf_episode_close_windows d = n"
    using assms(3) by auto
  have "unat (ep_recovery_observations e' + 1) = n"
    using e'(2) assms(5,6) by (subst unat_Suc_small) simp_all
  then have *: "observe d t (observe_all cs l) =
     (let fin = close_episode t Close_Recovered ''level_returned_below_thresholds'' (recovered d e')
          in (no_update\<lparr>eu_closed := Some fin\<rparr>, finish_episode k fin (observe_all cs l)))"
    using observe_calm [OF d(1), of "observe_all cs l" e' t] e'(1) d(2,3) by simp
  show "om_find k (el_open (observe_all (cs @ [(d, t)]) l)) = None"
    by (simp add: * Let_def)
  show "\<exists>fin. eu_closed (fst (observe d t (observe_all cs l))) = Some fin \<and>
           ep_close_reason fin = Close_Recovered \<and> ep_series fin = ep_series e"
    by (simp add: * Let_def e'(3) recovery_observation_def calm_observation_def)
qed

section \<open>Segmentation\<close>

lemma retire_over_open:
  "om_find k (el_open (snd (retire_over s g p w now es l))) =
     (if fst k = s \<and> retire_reason g p w k \<noteq> None \<and> k \<in> fst ` set es then None
      else om_find k (el_open l))"
proof (induction s g p w now es l rule: retire_over.induct)
  case (2 s g p w now k' e rest l)
  then show ?case
    by (cases "retire_reason g p w k'") (auto simp: Let_def split_beta simp del: split_paired_All split_paired_Ex)
qed simp

lemma om_find_keys: "om_find k m \<noteq> None \<longleftrightarrow> k \<in> fst ` set m"
  by (simp add: om_find_map_of map_of_eq_None_iff)

lemma retire_reason_None: "retire_reason g p w k = None \<longleftrightarrow> snd k = (g, p, w)"
  by (cases k) (simp add: retire_reason_def)

lemma retire_open:
  "om_find k (el_open (snd (retire s g p w now l))) =
     (if fst k = s \<and> snd k \<noteq> (g, p, w) then None else om_find k (el_open l))"
  unfolding retire_def retire_over_open om_entries_def om_find_keys [symmetric] retire_reason_None
  by simp

section \<open>Closed episodes are final and counted\<close>

lemma insert_closed_bucket:
  "e' \<in> set (episodes s (insert_closed e l)) \<Longrightarrow> e' \<in> set (episodes s l) \<or> e' = e \<and> s = ep_series e"
  by (auto simp: episodes_insert_closed split: if_splits dest!: in_set_dropD)

lemma observe_cases:
  "eu_closed (fst (observe c now l)) = None \<and> el_dropped (snd (observe c now l)) = el_dropped l \<and>
     el_episodes (snd (observe c now l)) = el_episodes l \<or>
   (\<exists>fin. eu_closed (fst (observe c now l)) = Some fin \<and>
      snd (observe c now l) = finish_episode (key_of_classification c) fin l)"
  by (simp add: observe_def Let_def no_update_def split: option.split)

lemma observe_final:
  "e \<in> set (episodes s (snd (observe c now l))) \<Longrightarrow>
     e \<in> set (episodes s l) \<or> eu_closed (fst (observe c now l)) = Some e"
  using observe_cases [of c now l]
  by (elim disjE exE conjE) (simp add: episodes_def, auto dest: insert_closed_bucket)

lemma retire_over_final:
  "e \<in> set (episodes s' (snd (retire_over s g p w now es l))) \<Longrightarrow>
     e \<in> set (episodes s' l) \<or> e \<in> set (fst (retire_over s g p w now es l))"
proof (induction s g p w now es l rule: retire_over.induct)
  case (2 s g p w now k e' rest l)
  show ?case
  proof (cases "fst k = s \<and> retire_reason g p w k \<noteq> None")
    case True
    then obtain r d where rd: "retire_reason g p w k = Some (r, d)" by auto
    let ?fin = "close_episode now r d e'"
    let ?t = "retire_over s g p w now rest (finish_episode k ?fin l)"
    have "e \<in> set (episodes s' (snd ?t))" using "2.prems" True rd by (simp add: Let_def split_beta)
    then have "e \<in> set (episodes s' (finish_episode k ?fin l)) \<or> e \<in> set (fst ?t)"
      using True rd by (intro "2.IH"(3)) auto
    then show ?thesis using True rd
      by (auto simp: Let_def split_beta dest: insert_closed_bucket)
  next
    case False
    then have step: "retire_over s g p w now ((k, e') # rest) l = retire_over s g p w now rest l"
      by (cases "retire_reason g p w k") auto
    with "2.prems" have "e \<in> set (episodes s' (snd (retire_over s g p w now rest l)))" by simp
    then have "e \<in> set (episodes s' l) \<or> e \<in> set (fst (retire_over s g p w now rest l))"
      using False "2.IH"(1,2) by blast
    then show ?thesis by (simp only: step)
  qed
qed simp

lemma retire_final:
  "e \<in> set (episodes s' (snd (retire s g p w now l))) \<Longrightarrow>
     e \<in> set (episodes s' l) \<or> e \<in> set (fst (retire s g p w now l))"
  unfolding retire_def by (rule retire_over_final)

definition stored :: "episode_log \<Rightarrow> nat" where
  "stored l = sum_list (map (\<lambda>(s, es). length es) (el_episodes l))"

definition closed_total :: "episode_log \<Rightarrow> u64" where
  "closed_total l = word_of_nat (stored l) + el_dropped l"

lemma sum_om_put:
  "om_invar m \<Longrightarrow> sum_list (map (\<lambda>(k, v). f v) (om_put k v m))
       + (case om_find k m of None \<Rightarrow> 0 | Some w \<Rightarrow> f w)
     = sum_list (map (\<lambda>(k, v). f v) m) + (f v :: nat)"
proof (induction m)
  case (Cons x m)
  obtain k' v' where x: "x = (k', v')" by (cases x)
  have "om_invar m" using Cons.prems by (simp add: om_invar_def)
  note IH = Cons.IH [OF this]
  have "om_find k m = None" if "k \<le> k'"
  proof (rule ccontr)
    assume "om_find k m \<noteq> None"
    then have "k \<in> fst ` set m" unfolding om_find_keys .
    then have "k' < k" using Cons.prems by (auto simp: om_invar_def x)
    with that show False by simp
  qed
  then show ?case using IH by (auto simp: x split: option.splits)
qed simp

lemma closed_total_insert:
  assumes "om_invar (el_episodes l)"
  shows "closed_total (insert_closed e l) = closed_total l + 1"
proof -
  let ?b = "filed e (episodes (ep_series e) l)"
  let ?x = "length ?b - kMaxEpisodesPerSeries"
  have len: "length ?b = Suc (length (episodes (ep_series e) l))" by (simp add: filed_def)
  have "stored (insert_closed e l) + length (episodes (ep_series e) l) = stored l + (length ?b - ?x)"
    using sum_om_put [OF assms, of length "ep_series e" "drop ?x ?b"]
    by (simp add: stored_def insert_closed_def Let_def episodes_def om_get_def filed_def split: option.splits)
  then have "stored (insert_closed e l) + ?x = Suc (stored l)" using len by linarith
  then have "word_of_nat (stored (insert_closed e l)) + word_of_nat ?x = (word_of_nat (stored l) + 1 :: u64)"
    by (metis of_nat_Suc of_nat_add add.commute)
  moreover have "el_dropped (insert_closed e l) = el_dropped l + word_of_nat ?x"
    by (simp add: insert_closed_def Let_def filed_def)
  ultimately show ?thesis by (simp add: closed_total_def ac_simps)
qed

lemma closed_total_finish:
  "om_invar (el_episodes l) \<Longrightarrow> closed_total (finish_episode k e l) = closed_total l + 1"
  using closed_total_insert [of l e]
  by (simp add: finish_episode_def Let_def closed_total_def stored_def)

lemma closed_total_observe:
  assumes "om_invar (el_episodes l)"
  shows "closed_total (snd (observe c now l)) =
     closed_total l + (if eu_closed (fst (observe c now l)) = None then 0 else 1)"
  using observe_cases [of c now l]
proof (elim disjE exE conjE)
  assume "eu_closed (fst (observe c now l)) = None" "el_dropped (snd (observe c now l)) = el_dropped l"
    "el_episodes (snd (observe c now l)) = el_episodes l"
  then show ?thesis by (simp add: closed_total_def stored_def)
qed (simp add: closed_total_finish [OF assms])

text \<open>What the bound drops is the oldest part of the bucket.\<close>

lemma sorted_key_take_drop:
  "sorted (map f xs) \<Longrightarrow> x \<in> set (take n xs) \<Longrightarrow> y \<in> set (drop n xs) \<Longrightarrow> f x \<le> f y"
  using sorted_append [of "map f (take n xs)" "map f (drop n xs)"]
  by (simp flip: map_append)

lemma insert_closed_drops_oldest:
  assumes "x \<in> set (episodes (ep_series e) l) \<union> {e}"
    and "x \<notin> set (episodes (ep_series e) (insert_closed e l))"
    and "y \<in> set (episodes (ep_series e) (insert_closed e l))"
  shows "episode_order x \<le> episode_order y"
proof -
  let ?b = "filed e (episodes (ep_series e) l)"
  let ?n = "Suc (length (episodes (ep_series e) l)) - kMaxEpisodesPerSeries"
  have b: "episodes (ep_series e) (insert_closed e l) = drop ?n ?b" by (simp add: episodes_insert_closed)
  have "x \<in> set ?b" using assms(1) by auto
  then have "x \<in> set (take ?n ?b) \<union> set (drop ?n ?b)" by (metis append_take_drop_id set_append)
  then show ?thesis using sorted_key_take_drop [OF sorted_filed] assms(2,3) unfolding b by blast
qed

section \<open>Properties\<close>

text \<open>
  In every episode log the runtime can reach, an open episode is filed under the key of its
  own series, generation, policy and window, and a series' closed episodes are sorted, within the
  bound and closed; unless they were imported they end no earlier than they began and carry a
  close reason.
\<close>

lemma episode_log_well_formed:
  assumes "episode_reach recovering l"
  shows "episode_log_inv (\<not> recovering) l"
  using assms by (rule episode_reach_inv)

definition classified :: "instability_level \<Rightarrow> classification" where
  "classified level =
     \<lparr>cf_level = level, cf_evidence = Ev_Fresh, cf_has_driver = True, cf_driver_key = Metric_AbsoluteDeltaMax,
      cf_driver_id = StrongId 9, cf_driver_value = f64_zero, cf_series = StrongId 1, cf_path = StrongId 2,
      cf_generation = StrongId 3, cf_generation_ordinal = 1, cf_policy = StrongId 4, cf_window = StrongId 5,
      cf_current_generation = True, cf_episode_close_windows = 3, cf_fresh_samples = 8, cf_terms = 7,
      cf_rules = [], cf_reasons = []\<rparr>"

definition after_breach :: episode_log where
  "after_breach = snd (observe (classified Level_Unstable) 100 episode_log_init)"

lemma episode_log_well_formed_witness:
  "episode_log_inv True (snd (observe (classified Level_Missing) 50 after_breach))"
  using episode_log_well_formed [OF ep_reach_observe [OF ep_reach_observe [OF ep_reach_init]],
      where recovering = False] by (simp add: after_breach_def)

text \<open>
  A current assertion of instability always leaves an open episode under its key, whose peak
  is never below the value just observed nor below its previous peak; a classification of a
  generation that is not current leaves none and opens none.
\<close>

lemma episode_follows_assertion:
  assumes "asserts_current_instability c"
  shows "\<exists>e. om_find (key_of_classification c) (el_open (snd (observe c now l))) = Some e \<and>
    \<not> f64_less (ep_peak_value e) (cf_driver_value c) \<and> ep_recovery_observations e = 0 \<and>
    (case om_find (key_of_classification c) (el_open l) of
       None \<Rightarrow> e = open_episode c now
     | Some e0 \<Rightarrow> \<not> f64_less (ep_peak_value e) (ep_peak_value e0) \<and>
         ep_opened_at_utc_ns e = ep_opened_at_utc_ns e0)"
proof (cases "om_find (key_of_classification c) (el_open l)")
  case None
  then show ?thesis by (simp add: observe_asserting [OF assms])
next
  case (Some e0)
  then show ?thesis by (simp add: observe_extending [OF assms] extend_peak_max)
qed

lemma episode_follows_assertion_witness:
  "\<exists>e. om_find (key_of_classification (classified Level_Elevated))
     (el_open (snd (observe (classified Level_Elevated) 7 after_breach))) = Some e"
  using episode_follows_assertion [of "classified Level_Elevated" 7 after_breach]
  by (auto simp: asserts_current_instability_def asserts_instability_def classified_def)



text \<open>
  Retiring a series closes exactly its open episodes whose generation, policy or window is no
  longer in force and touches nothing else, so an episode never spans a route change.
\<close>

lemma retire_segments_episodes:
  "om_find k (el_open (snd (retire s g p w now l))) =
     (if fst k = s \<and> snd k \<noteq> (g, p, w) then None else om_find k (el_open l))"
  by (rule retire_open)

text \<open>
  Closed episodes are final and accounted for: an observation leaves every filed episode as it
  was, files only the episode it reports as closed, and raises the number of episodes filed plus
  dropped by exactly the number it closed.
\<close>

lemma closed_episodes_final:
  assumes "om_invar (el_episodes l)"
  shows "set (episodes s (snd (observe c now l))) \<subseteq>
      set (episodes s l) \<union> set_option (eu_closed (fst (observe c now l))) \<and>
    closed_total (snd (observe c now l)) =
      closed_total l + (if eu_closed (fst (observe c now l)) = None then 0 else 1)"
  using observe_final [of _ s c now l] closed_total_observe [OF assms, of c now]
  by (auto simp: elem_set)

lemma closed_episodes_final_witness:
  "closed_total (snd (observe (classified Level_Unstable) 100 episode_log_init)) = 0"
  using closed_episodes_final [of episode_log_init "StrongId 1" "classified Level_Unstable" 100]
  by (simp add: episode_log_init_def closed_total_def stored_def observe_def Let_def classified_def
      asserts_instability_def no_update_def)

end
