(* ===== verification/Summary.thy ===== *)
theory Summary
  imports Episode
begin

text \<open>
  Deterministic summaries: \<^verbatim>\<open>include/jitter/summary.hpp\<close> and \<^verbatim>\<open>src/summary.cpp\<close>. The
  samples a selection points to are carried by value; the loop over them that widens the observed
  and received ranges is a fold over the summary under construction. The digest of a summary is
  taken over the byte strings of \<open>summary_parts\<close>, the measurement digest over \<open>measurement_parts\<close>.
\<close>

section \<open>Requests and results\<close>

record summary_request =
  rq_series :: series_id
  rq_path :: path_id
  rq_generation :: generation_id
  rq_generation_ordinal :: counter
  rq_window :: window_policy
  rq_policy :: instability_policy
  rq_metrics :: "metric_key list"
  rq_now_utc_ns :: i64
  rq_current_generation :: bool

record summary_input =
  si_request :: summary_request
  si_selection :: window_selection
  si_assessments :: "sample_assessment list"
  si_retained :: u64
  si_evicted_by_capacity :: u64
  si_out_of_order_accepted :: u64
  si_duplicate_ignored :: u64

record series_summary =
  sy_id :: summary_id
  sy_series :: series_id
  sy_path :: path_id
  sy_generation :: generation_id
  sy_generation_ordinal :: counter
  sy_window :: window_policy_id
  sy_policy :: instability_policy_id
  sy_freshness_policy :: freshness_policy_id
  sy_current_generation :: bool
  sy_retained :: u64
  sy_selected :: u64
  sy_excluded_by_policy :: u64
  sy_evicted_by_capacity :: u64
  sy_out_of_order_accepted :: u64
  sy_duplicate_ignored :: u64
  sy_fresh_samples :: nat
  sy_first_observation_ticks :: "i64 option"
  sy_last_observation_ticks :: "i64 option"
  sy_first_received_utc_ns :: "i64 option"
  sy_last_received_utc_ns :: "i64 option"
  sy_selection_reason :: string
  sy_dominant_origin :: evidence_origin
  sy_evidence :: evidence_summary
  sy_metrics :: "metric_value list"
  sy_unavailable_metrics :: "string list"
  sy_classification :: classification
  sy_reasons :: "string list"
  sy_digest :: digest
  sy_measurement_digest :: digest

definition sy_find :: "metric_id \<Rightarrow> series_summary \<Rightarrow> metric_value option" where
  "sy_find i s = find (\<lambda>v. mv_id v = i) (sy_metrics s)"

definition sy_find_key :: "metric_key \<Rightarrow> series_summary \<Rightarrow> metric_value option" where
  "sy_find_key k s = find (\<lambda>v. mv_key v = k) (sy_metrics s)"

section \<open>The observed range\<close>

definition widen_low :: "i64 option \<Rightarrow> i64 \<Rightarrow> i64 option" where
  "widen_low bound x = (case bound of None \<Rightarrow> Some x | Some b \<Rightarrow> if x < b then Some x else Some b)"

definition widen_high :: "i64 option \<Rightarrow> i64 \<Rightarrow> i64 option" where
  "widen_high bound x = (case bound of None \<Rightarrow> Some x | Some b \<Rightarrow> if x > b then Some x else Some b)"

definition count_origin :: "evidence_origin \<Rightarrow> evidence_summary \<Rightarrow> evidence_summary" where
  "count_origin origin e =
     (if origin = Origin_Real then e\<lparr>es_real_origin := Suc (es_real_origin e)\<rparr>
      else if origin = Origin_Synthetic then e\<lparr>es_synthetic_origin := Suc (es_synthetic_origin e)\<rparr>
      else e)"

text \<open>One turn of the loop over the selection: the evidence counters and the four bounds.\<close>

record selection_account =
  sc_evidence :: evidence_summary
  sc_first_observation_ticks :: "i64 option"
  sc_last_observation_ticks :: "i64 option"
  sc_first_received_utc_ns :: "i64 option"
  sc_last_received_utc_ns :: "i64 option"

definition account_sample :: "latency_sample \<Rightarrow> selection_account \<Rightarrow> selection_account" where
  "account_sample s y =
     (let seen = tp_ticks (ls_observed_at s); received = tp_ticks (ls_received_at s)
      in \<lparr>sc_evidence = count_origin (pv_origin (ls_provenance s)) (sc_evidence y),
          sc_first_observation_ticks = widen_low (sc_first_observation_ticks y) seen,
          sc_last_observation_ticks = widen_high (sc_last_observation_ticks y) seen,
          sc_first_received_utc_ns = widen_low (sc_first_received_utc_ns y) received,
          sc_last_received_utc_ns = widen_high (sc_last_received_utc_ns y) received\<rparr>)"

definition account_selection :: "latency_sample list \<Rightarrow> sample_assessment list \<Rightarrow> selection_account" where
  "account_selection ss as =
     fold account_sample ss
       \<lparr>sc_evidence = summarize_evidence as, sc_first_observation_ticks = None,
        sc_last_observation_ticks = None, sc_first_received_utc_ns = None,
        sc_last_received_utc_ns = None\<rparr>"

definition mixed_origin :: "evidence_summary \<Rightarrow> bool" where
  "mixed_origin e \<longleftrightarrow> es_real_origin e > 0 \<and> es_synthetic_origin e > 0"

definition origin_of_evidence :: "evidence_summary \<Rightarrow> evidence_origin" where
  "origin_of_evidence e =
     (if mixed_origin e then Origin_Unknown
      else if es_synthetic_origin e > 0 then Origin_Synthetic
      else if es_real_origin e > 0 then Origin_Real
      else Origin_Unknown)"

definition fresh_latencies :: "latency_sample list \<Rightarrow> sample_assessment list \<Rightarrow> i64 list" where
  "fresh_latencies ss as =
     map (\<lambda>sa. ls_latency_ns (fst sa)) (filter (\<lambda>sa. sa_state (snd sa) = Ev_Fresh) (zip ss as))"

fun ticks_in_order :: "latency_sample list \<Rightarrow> bool" where
  "ticks_in_order (s # t # ss) \<longleftrightarrow>
     \<not> tp_ticks (ls_observed_at t) < tp_ticks (ls_observed_at s) \<and> ticks_in_order (t # ss)"
| "ticks_in_order _ \<longleftrightarrow> True"

section \<open>Digests\<close>

definition metric_value_parts :: "metric_value \<Rightarrow> bytes list" where
  "metric_value_parts v =
     [enc_id (mv_id v), enc_u32 (mv_version v), enc_f64 (mv_value v),
      enc_u64 (word_of_nat (mv_sample_count v)), enc_u64 (word_of_nat (mv_term_count v))]"

definition evidence_parts :: "evidence_summary \<Rightarrow> bytes list" where
  "evidence_parts e =
     map (\<lambda>n. enc_u64 (word_of_nat n))
       [es_total e, es_fresh e, es_stale e, es_expired e, es_conflicting e, es_unsupported e,
        es_unknown e, es_real_origin e, es_synthetic_origin e]"

definition summary_scope_parts :: "series_summary \<Rightarrow> bytes list" where
  "summary_scope_parts y =
     [enc_id (sy_series y), enc_id (sy_path y), enc_id (sy_generation y),
      enc_u64 (sy_generation_ordinal y), enc_id (sy_window y), enc_id (sy_policy y),
      enc_id (sy_freshness_policy y), enc_bool (sy_current_generation y)]"

definition summary_parts :: "series_summary \<Rightarrow> bytes list" where
  "summary_parts y =
     [enc_str kDomainSummary] @ summary_scope_parts y
     @ [enc_u64 (sy_retained y), enc_u64 (sy_selected y), enc_u64 (sy_excluded_by_policy y),
        enc_u64 (sy_evicted_by_capacity y), enc_u64 (sy_out_of_order_accepted y),
        enc_u64 (sy_duplicate_ignored y), fld_optional_i64 (sy_first_observation_ticks y),
        fld_optional_i64 (sy_last_observation_ticks y), fld_optional_i64 (sy_first_received_utc_ns y),
        fld_optional_i64 (sy_last_received_utc_ns y), enc_str (sy_selection_reason y),
        enc_u8 (evidence_origin_code (sy_dominant_origin y))]
     @ evidence_parts (sy_evidence y)
     @ [enc_u32 (word_of_nat (length (sy_metrics y)))]
     @ concat (map metric_value_parts (sy_metrics y))
     @ map enc_str (sy_reasons y)"

definition measurement_parts :: "series_summary \<Rightarrow> bytes list" where
  "measurement_parts y =
     [enc_str ''jitter.summary.measurement.v1''] @ summary_scope_parts y
     @ [enc_u64 (sy_selected y), enc_u64 (sy_excluded_by_policy y),
        fld_optional_i64 (sy_first_observation_ticks y), fld_optional_i64 (sy_last_observation_ticks y)]
     @ evidence_parts (sy_evidence y)
     @ [enc_u8 (evidence_state_code (es_dominant (sy_evidence y))),
        enc_u8 (instability_level_code (cf_level (sy_classification y))),
        enc_u32 (word_of_nat (length (sy_metrics y)))]
     @ concat (map metric_value_parts (sy_metrics y))"

section \<open>Summarising\<close>

definition classification_input_of ::
  "summary_request \<Rightarrow> evidence_summary \<Rightarrow> metric_set \<times> string list \<Rightarrow> classification_input" where
  "classification_input_of q e computed =
     \<lparr>ci_series = rq_series q, ci_path = rq_path q, ci_generation = rq_generation q,
      ci_generation_ordinal = rq_generation_ordinal q, ci_policy = rq_policy q,
      ci_window = make_window_policy_id (rq_window q), ci_evidence = e, ci_metrics = fst computed,
      ci_metric_diagnostics = snd computed, ci_current_generation = rq_current_generation q\<rparr>"

definition summary_reasons ::
  "evidence_summary \<Rightarrow> latency_sample list \<Rightarrow> string list \<Rightarrow> classification \<Rightarrow> string list" where
  "summary_reasons e ss unavailable c =
     finalize_reasons (add_reasons []
       ((if mixed_origin e then [''mixed_evidence_origin''] else [])
        @ (if ticks_in_order ss then [] else [''selection_order_was_repaired''])
        @ map (\<lambda>u. ''metric_unavailable:'' @ u) unavailable
        @ map (\<lambda>r. ''evidence:'' @ r) (es_reasons e)
        @ map (\<lambda>r. ''classification:'' @ r) (cf_reasons c)
        @ [''level:'' @ instability_level_text (cf_level c)]))"

text \<open>Everything up to the three identities of the result.\<close>

definition summary_body :: "summary_input \<Rightarrow> series_summary" where
  "summary_body i =
     (let q = si_request i; sel = si_selection i; ss = sel_samples sel; as = si_assessments i;
          acct = account_selection ss as; e = sc_evidence acct;
          computed = compute_all (rq_metrics q) (fresh_latencies ss as);
          c = classify (classification_input_of q e computed)
      in \<lparr>sy_id = nil_id, sy_series = rq_series q, sy_path = rq_path q,
          sy_generation = rq_generation q, sy_generation_ordinal = rq_generation_ordinal q,
          sy_window = make_window_policy_id (rq_window q),
          sy_policy = make_instability_policy_id (rq_policy q),
          sy_freshness_policy = make_freshness_policy_id (ip_freshness (rq_policy q)),
          sy_current_generation = rq_current_generation q,
          sy_retained = (if si_retained i = 0 then sel_retained sel else si_retained i),
          sy_selected = word_of_nat (length ss),
          sy_excluded_by_policy = sel_excluded_by_policy sel,
          sy_evicted_by_capacity = si_evicted_by_capacity i,
          sy_out_of_order_accepted = si_out_of_order_accepted i,
          sy_duplicate_ignored = si_duplicate_ignored i, sy_fresh_samples = es_fresh e,
          sy_first_observation_ticks = sc_first_observation_ticks acct,
          sy_last_observation_ticks = sc_last_observation_ticks acct,
          sy_first_received_utc_ns = sc_first_received_utc_ns acct,
          sy_last_received_utc_ns = sc_last_received_utc_ns acct,
          sy_selection_reason = sel_reason sel, sy_dominant_origin = origin_of_evidence e,
          sy_evidence = e, sy_metrics = metrics_ordered (fst computed),
          sy_unavailable_metrics = snd computed, sy_classification = c,
          sy_reasons = summary_reasons e ss (snd computed) c, sy_digest = zero_digest,
          sy_measurement_digest = zero_digest\<rparr>)"

definition summarize :: "summary_input \<Rightarrow> series_summary result" where
  "summarize i =
     (if length (si_assessments i) \<noteq> length (sel_samples (si_selection i))
      then fail Ec_InvalidArgument
             ''summary requires exactly one evidence assessment per selected observation''
      else let y = summary_body i; d = builder_digest (summary_parts y)
           in Inr (y\<lparr>sy_digest := d, sy_id := id_from_digest d,
                     sy_measurement_digest := builder_digest (measurement_parts y)\<rparr>))"

section \<open>Only fresh observations count\<close>

text \<open>Replacing the readings of the observations that are not fresh.\<close>

definition redact :: "(latency_sample \<Rightarrow> i64) \<Rightarrow> latency_sample list \<Rightarrow> sample_assessment list \<Rightarrow> latency_sample list" where
  "redact f ss as =
     map2 (\<lambda>s a. if sa_state a = Ev_Fresh then s else s\<lparr>ls_latency_ns := f s\<rparr>) ss as"

lemma length_redact [simp]: "length (redact f ss as) = min (length ss) (length as)"
  by (simp add: redact_def)

lemma fresh_latencies_redact: "fresh_latencies (redact f ss as) as = fresh_latencies ss as"
proof (induction ss arbitrary: as)
  case (Cons s ss)
  then show ?case by (cases as) (simp_all add: fresh_latencies_def redact_def)
qed (simp add: fresh_latencies_def redact_def)

lemma account_sample_redact [simp]: "account_sample (s\<lparr>ls_latency_ns := x\<rparr>) y = account_sample s y"
  by (simp add: account_sample_def)

lemma fold_account_redact:
  "length ss = length as \<Longrightarrow> fold account_sample (redact f ss as) y = fold account_sample ss y"
proof (induction ss arbitrary: as y)
  case (Cons s ss)
  then show ?case by (cases as) (simp_all add: redact_def)
qed (simp add: redact_def)

lemma ticks_in_order_ticks: "map (\<lambda>s. tp_ticks (ls_observed_at s)) ss = map (\<lambda>s. tp_ticks (ls_observed_at s)) ts
    \<Longrightarrow> ticks_in_order ss = ticks_in_order ts"
proof (induction ss arbitrary: ts rule: ticks_in_order.induct)
  case (1 s t ss)
  then obtain s' t' ts' where ts: "ts = s' # t' # ts'" by (auto simp: Cons_eq_map_conv)
  have "ticks_in_order (t # ss) = ticks_in_order (t' # ts')"
    by (rule 1(1)) (use 1(2) ts in simp)
  with 1(2) ts show ?case by simp
qed (auto simp: Cons_eq_map_conv)

lemma ticks_redact:
  "length ss = length as \<Longrightarrow>
     map (\<lambda>s. tp_ticks (ls_observed_at s)) (redact f ss as) = map (\<lambda>s. tp_ticks (ls_observed_at s)) ss"
proof (induction ss arbitrary: as)
  case (Cons s ss)
  then show ?case by (cases as) (simp_all add: redact_def)
qed (simp add: redact_def)

lemma summary_body_redact:
  assumes "length (si_assessments i) = length (sel_samples (si_selection i))"
  shows "summary_body (i\<lparr>si_selection := (si_selection i)
      \<lparr>sel_samples := redact f (sel_samples (si_selection i)) (si_assessments i)\<rparr>\<rparr>) = summary_body i"
proof -
  let ?ss = "sel_samples (si_selection i)" and ?as = "si_assessments i"
  have l: "length ?ss = length ?as" using assms by simp
  then have "account_selection (redact f ?ss ?as) ?as = account_selection ?ss ?as"
    by (simp add: account_selection_def fold_account_redact)
  moreover have "ticks_in_order (redact f ?ss ?as) = ticks_in_order ?ss"
    by (rule ticks_in_order_ticks, rule ticks_redact [OF l])
  ultimately show ?thesis
    using l by (simp add: summary_body_def Let_def summary_reasons_def fresh_latencies_redact)
qed

text \<open>The canonical form of a selection leaves nothing for the order repair to report.\<close>

lemma ticks_in_order_sorted: "sorted (map sample_key ss) \<Longrightarrow> ticks_in_order ss"
  by (induction ss rule: ticks_in_order.induct) (auto simp: sample_key_def less_eq_prod_simp)

lemma ticks_in_order_select: "ticks_in_order (sel_samples (window_select w))"
  by (rule ticks_in_order_sorted) (rule sorted_window_select)

section \<open>What the counters say\<close>

lemma fold_account_sample:
  "es_fresh (sc_evidence (fold account_sample ss y)) = es_fresh (sc_evidence y)"
  "es_total (sc_evidence (fold account_sample ss y)) = es_total (sc_evidence y)"
  "es_conflicting (sc_evidence (fold account_sample ss y)) = es_conflicting (sc_evidence y)"
  "es_dominant (sc_evidence (fold account_sample ss y)) = es_dominant (sc_evidence y)"
  by (induction ss arbitrary: y) (auto simp: account_sample_def count_origin_def Let_def)

lemma account_selection_fresh:
  "es_fresh (sc_evidence (account_selection ss as)) = state_count Ev_Fresh as"
  "es_total (sc_evidence (account_selection ss as)) = length as"
  "es_conflicting (sc_evidence (account_selection ss as)) = state_count Ev_Conflicting as"
  by (simp_all add: account_selection_def fold_account_sample summarize_evidence_def Let_def
      recompute_dominant_def account_fold evidence_summary_init_def)

lemma summarize_InrD:
  assumes "summarize i = Inr y"
  shows "length (si_assessments i) = length (sel_samples (si_selection i))"
    and "sy_evidence y = sy_evidence (summary_body i)"
    and "sy_classification y = sy_classification (summary_body i)"
    and "sy_metrics y = sy_metrics (summary_body i)"
    and "sy_measurement_digest y = builder_digest (measurement_parts (summary_body i))"
    and "sy_id y = id_from_digest (sy_digest y)"
  using assms by (auto simp: summarize_def Let_def split: if_splits)

lemma summary_body_evidence:
  "sy_evidence (summary_body i)
     = sc_evidence (account_selection (sel_samples (si_selection i)) (si_assessments i))"
  "sy_classification (summary_body i)
     = classify (classification_input_of (si_request i) (sy_evidence (summary_body i))
         (compute_all (rq_metrics (si_request i))
            (fresh_latencies (sel_samples (si_selection i)) (si_assessments i))))"
  by (simp_all add: summary_body_def Let_def)

lemma summary_positive:
  assumes "summarize i = Inr y" "makes_positive_assertion (cf_level (sy_classification y))"
  shows "0 < state_count Ev_Fresh (si_assessments i)"
    and "ip_min_fresh_samples (rq_policy (si_request i)) \<le> state_count Ev_Fresh (si_assessments i)"
    and "state_count Ev_Conflicting (si_assessments i) \<le> ip_max_conflicts_tolerated (rq_policy (si_request i))"
    and "rq_current_generation (si_request i)"
  using assms(2) unfolding summarize_InrD(3) [OF assms(1)] summary_body_evidence classify_positive_iff
  by (simp_all add: positive_conditions_def classification_input_of_def account_selection_fresh)

lemma summary_fresh_terms: "length (fresh_latencies ss as) \<le> length ss"
  by (simp add: fresh_latencies_def) (metis length_filter_le length_zip min.cobounded1 order_trans)

text \<open>The counters of how the evidence arrived leave the measurement alone.\<close>

lemma measurement_parts_counters:
  "measurement_parts (summary_body (i\<lparr>si_retained := a, si_evicted_by_capacity := b,
      si_out_of_order_accepted := c, si_duplicate_ignored := d\<rparr>)) = measurement_parts (summary_body i)"
  by (simp add: measurement_parts_def summary_body_def Let_def summary_scope_parts_def)

section \<open>Properties\<close>

text \<open>
  C35: Only fresh evidence reaches a number: replacing the readings of all observations that are
  not assessed fresh by arbitrary values leaves the whole summary unchanged, metrics,
  classification, reasons, identity and both digests included.
\<close>

lemma summary_ignores_unfresh_readings:
  assumes "length (si_assessments i) = length (sel_samples (si_selection i))"
  shows "summarize (i\<lparr>si_selection := (si_selection i)
           \<lparr>sel_samples := redact f (sel_samples (si_selection i)) (si_assessments i)\<rparr>\<rparr>) = summarize i"
  using summary_body_redact [OF assms, of f] assms by (simp add: summarize_def)

definition assessed :: "measurement_id \<Rightarrow> evidence_state \<Rightarrow> sample_assessment" where
  "assessed m s =
     \<lparr>sa_sample = m, sa_state = s, sa_reason = ''r'',
      sa_ages = \<lparr>ag_ingest_age_ns = None, ag_observation_age_ns = None, ag_in_domain_span_ns = None,
                 ag_comparability = Verdict_Incomparable, ag_reason = ''''\<rparr>\<rparr>"

definition request_for :: "metric_key list \<Rightarrow> summary_request" where
  "request_for keys =
     \<lparr>rq_series = StrongId 1, rq_path = StrongId 2, rq_generation = StrongId 3, rq_generation_ordinal = 1,
      rq_window = default_window_policy, rq_policy = default_instability_policy, rq_metrics = keys,
      rq_now_utc_ns = 0, rq_current_generation = True\<rparr>"

definition input_on :: "latency_sample list \<Rightarrow> evidence_state list \<Rightarrow> summary_input" where
  "input_on ss states =
     \<lparr>si_request = request_for [Metric_LatencyMean],
      si_selection = \<lparr>sel_samples = ss, sel_retained = 2, sel_excluded_by_policy = 0, sel_reason = ''r''\<rparr>,
      si_assessments = map (assessed (StrongId 1)) states, si_retained = 2, si_evicted_by_capacity = 0,
      si_out_of_order_accepted = 0, si_duplicate_ignored = 0\<rparr>"

lemma summary_ignores_unfresh_readings_witness:
  "summarize (input_on [sample_at 1 10 7, sample_at 2 20 9] [Ev_Fresh, Ev_Stale])
     = summarize (input_on [sample_at 1 10 7, sample_at 2 20 5000] [Ev_Fresh, Ev_Stale])"
  using summary_ignores_unfresh_readings
    [of "input_on [sample_at 1 10 7, sample_at 2 20 9] [Ev_Fresh, Ev_Stale]" "\<lambda>_. 5000"]
  by (simp add: input_on_def redact_def assessed_def sample_at_def)

text \<open>
  A summary asserts stability or instability exactly when its generation is current, enough
  of its observations are fresh, no more are contradicted than the policy tolerates, and some rule
  of the policy can be evaluated on metrics computed from the fresh readings alone; a missing
  assessment is an error, never a guess.
\<close>

lemma summary_asserts_exactly:
  "(case summarize i of
      Inl e \<Rightarrow> length (si_assessments i) \<noteq> length (sel_samples (si_selection i)) \<and> err_code e = Ec_InvalidArgument
    | Inr y \<Rightarrow>
        (makes_positive_assertion (cf_level (sy_classification y)) \<longleftrightarrow>
           rq_current_generation (si_request i) \<and>
           0 < state_count Ev_Fresh (si_assessments i) \<and>
           ip_min_fresh_samples (rq_policy (si_request i)) \<le> state_count Ev_Fresh (si_assessments i) \<and>
           state_count Ev_Conflicting (si_assessments i) \<le> ip_max_conflicts_tolerated (rq_policy (si_request i)) \<and>
           list_ex (rule_evaluable (rq_policy (si_request i))
               (fst (compute_all (rq_metrics (si_request i))
                  (fresh_latencies (sel_samples (si_selection i)) (si_assessments i)))))
             (ip_rules (rq_policy (si_request i)))))"
proof (cases "summarize i")
  case (Inl e)
  then show ?thesis by (auto simp: summarize_def Let_def split: if_splits)
next
  case (Inr y)
  have "state_count Ev_Fresh as \<le> length as" for as by (simp add: state_count_def)
  then have "0 < state_count Ev_Fresh as \<Longrightarrow> as \<noteq> []" for as by (auto simp: state_count_def)
  with Inr show ?thesis
    unfolding summarize_InrD(3) [OF Inr] summary_body_evidence classify_positive_iff
    by (auto simp: positive_conditions_def classification_input_of_def account_selection_fresh list_ex_iff
        summarize_InrD(3) [OF Inr] summary_body_evidence classify_positive_iff)
qed

end
