(* ===== verification/Baseline.thy ===== *)
theory Baseline
  imports Summary
begin

text \<open>
  Frozen baselines and their comparison with a current window:
  \<^verbatim>\<open>include/jitter/baseline.hpp\<close> and \<^verbatim>\<open>src/baseline.cpp\<close>. The three floating point operations
  of a comparison work on bit patterns: finite operands are computed exactly and rounded once,
  infinities and signed zeros follow IEEE 754, and a NaN result is one fixed quiet pattern (the
  source fixes no payload).
\<close>

section \<open>Double arithmetic on bit patterns\<close>

definition f64_negative :: "f64_bits \<Rightarrow> bool" where
  "f64_negative w \<longleftrightarrow> unat w div 2 ^ 63 = 1"

definition f64_nan :: f64_bits where "f64_nan = 0x7FF8000000000000"

definition f64_inf :: "bool \<Rightarrow> f64_bits" where
  "f64_inf negative = (if negative then 0xFFF0000000000000 else 0x7FF0000000000000)"

definition f64_signed_zero :: "bool \<Rightarrow> f64_bits" where
  "f64_signed_zero negative = (if negative then 0x8000000000000000 else 0)"

text \<open>The rounded value of an exact result, with the sign a zero result takes.\<close>

definition f64_round :: "bool \<Rightarrow> rat \<Rightarrow> f64_bits" where
  "f64_round negative x = (if rnd x = 0 then f64_signed_zero negative else f64_of_rat (rnd x))"

definition f64_sub :: "f64_bits \<Rightarrow> f64_bits \<Rightarrow> f64_bits" where
  "f64_sub a b =
     (case (f64_val a, f64_val b) of
        (Fin x, Fin y) \<Rightarrow> f64_round (x = 0 \<and> y = 0 \<and> f64_negative a \<and> \<not> f64_negative b) (x - y)
      | (Inf s, Inf t) \<Rightarrow> if s = t then f64_nan else f64_inf s
      | (Inf s, Fin _) \<Rightarrow> f64_inf s
      | (Fin _, Inf t) \<Rightarrow> f64_inf (\<not> t)
      | _ \<Rightarrow> f64_nan)"

definition f64_div :: "f64_bits \<Rightarrow> f64_bits \<Rightarrow> f64_bits" where
  "f64_div a b =
     (let negative = (f64_negative a \<noteq> f64_negative b)
      in case (f64_val a, f64_val b) of
           (Fin x, Fin y) \<Rightarrow>
             if y = 0 then (if x = 0 then f64_nan else f64_inf negative) else f64_round negative (x / y)
         | (Inf _, Fin _) \<Rightarrow> f64_inf negative
         | (Fin _, Inf _) \<Rightarrow> f64_signed_zero negative
         | _ \<Rightarrow> f64_nan)"

definition f64_abs :: "f64_bits \<Rightarrow> f64_bits" where
  "f64_abs a = a AND 0x7FFFFFFFFFFFFFFF"

section \<open>Baselines\<close>

record baseline =
  bl_id :: baseline_id
  bl_name :: string
  bl_series :: series_id
  bl_path :: path_id
  bl_generation :: generation_id
  bl_generation_ordinal :: counter
  bl_window :: window_policy_id
  bl_policy :: instability_policy_id
  bl_sample_count :: u64
  bl_fresh_sample_count :: u64
  bl_first_observation_utc_ns :: "i64 option"
  bl_last_observation_utc_ns :: "i64 option"
  bl_evidence :: evidence_state
  bl_origin :: evidence_origin
  bl_created_at_utc_ns :: i64
  bl_metrics :: "metric_value list"
  bl_digest :: digest
  bl_note :: string

definition bl_find :: "metric_id \<Rightarrow> baseline \<Rightarrow> metric_value option" where
  "bl_find i b = find (\<lambda>v. mv_id v = i) (bl_metrics b)"

definition bl_find_key :: "metric_key \<Rightarrow> baseline \<Rightarrow> metric_value option" where
  "bl_find_key k b = find (\<lambda>v. mv_key v = k) (bl_metrics b)"

definition bl_span_ns :: "baseline \<Rightarrow> i64 option" where
  "bl_span_ns b =
     (case (bl_first_observation_utc_ns b, bl_last_observation_utc_ns b) of
        (Some t0, Some t1) \<Rightarrow> Some (wrap_i64 (t1 - t0))
      | _ \<Rightarrow> None)"

definition metric_order :: "metric_value \<Rightarrow> string \<times> metric_id" where
  "metric_order v = (mv_name v, mv_id v)"

fun neighbours_repeat :: "metric_value list \<Rightarrow> bool" where
  "neighbours_repeat (v # w # vs) \<longleftrightarrow> mv_id w = mv_id v \<or> neighbours_repeat (w # vs)"
| "neighbours_repeat _ \<longleftrightarrow> False"

definition baseline_parts :: "baseline \<Rightarrow> bytes list" where
  "baseline_parts b =
     [enc_str kDomainBaseline, enc_str (bl_name b), enc_id (bl_series b), enc_id (bl_path b),
      enc_id (bl_generation b), enc_u64 (bl_generation_ordinal b), enc_id (bl_window b),
      enc_id (bl_policy b), enc_u64 (bl_sample_count b), enc_u64 (bl_fresh_sample_count b),
      fld_optional_i64 (bl_first_observation_utc_ns b), fld_optional_i64 (bl_last_observation_utc_ns b),
      enc_u8 (evidence_state_code (bl_evidence b)), enc_u8 (evidence_origin_code (bl_origin b)),
      enc_str (bl_note b), enc_u32 (word_of_nat (length (bl_metrics b)))]
     @ concat (map metric_value_parts (bl_metrics b))"

definition make_baseline :: "baseline \<Rightarrow> baseline result" where
  "make_baseline baseline =
     (if id_is_nil (bl_series baseline) then fail Ec_InvalidArgument ''baseline requires a series identity''
      else if id_is_nil (bl_generation baseline)
      then fail Ec_InvalidArgument ''baseline requires a generation identity''
      else if bl_name baseline = '''' then fail Ec_InvalidArgument ''baseline requires a name''
      else let b = baseline\<lparr>bl_metrics := sort_key metric_order (bl_metrics baseline)\<rparr>
           in if neighbours_repeat (bl_metrics b)
              then fail Ec_Duplicate ''baseline holds two values for the same metric identity''
              else let d = builder_digest (baseline_parts b)
                   in Inr (b\<lparr>bl_digest := d, bl_id := id_from_digest d\<rparr>))"

section \<open>Comparing\<close>

record current_snapshot =
  cs_series :: series_id
  cs_path :: path_id
  cs_generation :: generation_id
  cs_generation_ordinal :: counter
  cs_window :: window_policy_id
  cs_policy :: instability_policy_id
  cs_sample_count :: u64
  cs_evidence :: evidence_summary
  cs_metrics :: metric_set

datatype comparison_verdict =
    Cmp_Comparable
  | Cmp_Incomparable
  | Cmp_Missing
  | Cmp_Insufficient
  | Cmp_Stale
  | Cmp_Expired
  | Cmp_Conflicting
  | Cmp_Unsupported

fun comparison_verdict_code :: "comparison_verdict \<Rightarrow> u8" where
  "comparison_verdict_code Cmp_Comparable = 0"
| "comparison_verdict_code Cmp_Incomparable = 1"
| "comparison_verdict_code Cmp_Missing = 2"
| "comparison_verdict_code Cmp_Insufficient = 3"
| "comparison_verdict_code Cmp_Stale = 4"
| "comparison_verdict_code Cmp_Expired = 5"
| "comparison_verdict_code Cmp_Conflicting = 6"
| "comparison_verdict_code Cmp_Unsupported = 7"

fun comparison_verdict_text :: "comparison_verdict \<Rightarrow> string" where
  "comparison_verdict_text Cmp_Comparable = ''comparable''"
| "comparison_verdict_text Cmp_Incomparable = ''incomparable''"
| "comparison_verdict_text Cmp_Missing = ''missing''"
| "comparison_verdict_text Cmp_Insufficient = ''insufficient''"
| "comparison_verdict_text Cmp_Stale = ''stale''"
| "comparison_verdict_text Cmp_Expired = ''expired''"
| "comparison_verdict_text Cmp_Conflicting = ''conflicting''"
| "comparison_verdict_text Cmp_Unsupported = ''unsupported''"

record metric_comparison =
  mc_metric :: metric_id
  mc_key :: metric_key
  mc_name :: string
  mc_unit :: metric_unit
  mc_baseline_value :: "f64_bits option"
  mc_current_value :: "f64_bits option"
  mc_delta :: "f64_bits option"
  mc_ratio :: "f64_bits option"
  mc_relative_change :: "f64_bits option"
  mc_baseline_terms :: nat
  mc_current_terms :: nat
  mc_verdict :: comparison_verdict
  mc_reason :: string

record comparison_report =
  br_baseline :: baseline_id
  br_baseline_name :: string
  br_series :: series_id
  br_path :: path_id
  br_baseline_generation :: generation_id
  br_current_generation :: generation_id
  br_baseline_generation_ordinal :: counter
  br_current_generation_ordinal :: counter
  br_generation_changed :: bool
  br_window_changed :: bool
  br_policy_changed :: bool
  br_current_evidence :: evidence_state
  br_overall :: comparison_verdict
  br_comparisons :: "metric_comparison list"
  br_reasons :: "string list"
  br_digest :: digest

fun verdict_for :: "evidence_state \<Rightarrow> comparison_verdict" where
  "verdict_for Ev_Fresh = Cmp_Comparable"
| "verdict_for Ev_Stale = Cmp_Stale"
| "verdict_for Ev_Expired = Cmp_Expired"
| "verdict_for Ev_Conflicting = Cmp_Conflicting"
| "verdict_for Ev_Incomplete = Cmp_Insufficient"
| "verdict_for Ev_Unsupported = Cmp_Unsupported"
| "verdict_for Ev_Unknown = Cmp_Insufficient"
| "verdict_for Ev_Missing = Cmp_Missing"

definition evidence_reason :: "evidence_state \<Rightarrow> string" where
  "evidence_reason s = ''evidence:'' @ evidence_state_text s"

text \<open>One turn of the loop over the baseline's values.\<close>

definition compare_metric :: "baseline \<Rightarrow> current_snapshot \<Rightarrow> metric_value \<Rightarrow> metric_comparison" where
  "compare_metric b current v =
     (let found = metric_find (mv_id v) (cs_metrics current);
          dominant = es_dominant (cs_evidence current);
          c = \<lparr>mc_metric = mv_id v, mc_key = mv_key v, mc_name = mv_name v, mc_unit = mv_unit v,
               mc_baseline_value = Some (mv_value v), mc_current_value = map_option mv_value found,
               mc_delta = None, mc_ratio = None, mc_relative_change = None,
               mc_baseline_terms = mv_term_count v,
               mc_current_terms = (case found of None \<Rightarrow> 0 | Some w \<Rightarrow> mv_term_count w),
               mc_verdict = Cmp_Comparable, mc_reason = ''''\<rparr>
      in if bl_generation b \<noteq> cs_generation current
         then c\<lparr>mc_verdict := Cmp_Incomparable, mc_reason := ''generation_changed''\<rparr>
         else if bl_window b \<noteq> cs_window current
         then c\<lparr>mc_verdict := Cmp_Incomparable, mc_reason := ''window_policy_changed''\<rparr>
         else case found of
                None \<Rightarrow> c\<lparr>mc_verdict := Cmp_Missing, mc_reason := ''metric_absent_from_current_window''\<rparr>
              | Some w \<Rightarrow>
                  if \<not> admits_positive_assertion (cs_evidence current)
                  then c\<lparr>mc_verdict := verdict_for dominant, mc_reason := evidence_reason dominant\<rparr>
                  else let c1 = c\<lparr>mc_verdict := Cmp_Comparable, mc_reason := ''comparable'',
                                 mc_delta := Some (f64_sub (mv_value w) (mv_value v))\<rparr>
                       in if \<not> f64_eq (mv_value v) f64_zero
                          then c1\<lparr>mc_ratio := Some (f64_div (mv_value w) (mv_value v)),
                                  mc_relative_change :=
                                    Some (f64_div (f64_sub (mv_value w) (mv_value v)) (f64_abs (mv_value v)))\<rparr>
                          else c1\<lparr>mc_reason := ''comparable_zero_baseline_ratio_undefined''\<rparr>)"

definition fld_optional_f64 :: "f64_bits option \<Rightarrow> bytes" where
  "fld_optional_f64 v = (case v of Some x \<Rightarrow> enc_bool True @ enc_f64 x | None \<Rightarrow> enc_bool False)"

definition comparison_parts :: "metric_comparison \<Rightarrow> bytes list" where
  "comparison_parts c =
     [enc_id (mc_metric c), enc_u8 (comparison_verdict_code (mc_verdict c)),
      fld_optional_f64 (mc_delta c), fld_optional_f64 (mc_ratio c)]"

definition report_parts :: "comparison_report \<Rightarrow> bytes list" where
  "report_parts r =
     [enc_str ''jitter.comparison.v1'', enc_id (br_baseline r), enc_id (br_series r),
      enc_id (br_path r), enc_id (br_baseline_generation r), enc_id (br_current_generation r),
      enc_u8 (comparison_verdict_code (br_overall r)), enc_u32 (word_of_nat (length (br_comparisons r)))]
     @ concat (map comparison_parts (br_comparisons r))"

definition comparison_reasons :: "bool \<Rightarrow> bool \<Rightarrow> bool \<Rightarrow> bool \<Rightarrow> evidence_state \<Rightarrow> string list" where
  "comparison_reasons generation_changed window_changed policy_changed evidence_ok dominant =
     finalize_reasons (add_reasons []
       ((if generation_changed then [''generation_changed''] else [])
        @ (if window_changed then [''window_policy_changed''] else [])
        @ (if policy_changed then [''instability_policy_changed''] else [])
        @ (if evidence_ok then [] else [evidence_reason dominant])))"

definition compare_to_baseline :: "baseline \<Rightarrow> current_snapshot \<Rightarrow> comparison_report" where
  "compare_to_baseline b current =
     (let generation_changed = (bl_generation b \<noteq> cs_generation current);
          window_changed = (bl_window b \<noteq> cs_window current);
          policy_changed = (bl_policy b \<noteq> cs_policy current);
          scope_ok = (\<not> generation_changed \<and> \<not> window_changed);
          evidence_ok = admits_positive_assertion (cs_evidence current);
          dominant = es_dominant (cs_evidence current);
          r = \<lparr>br_baseline = bl_id b, br_baseline_name = bl_name b, br_series = bl_series b,
               br_path = bl_path b, br_baseline_generation = bl_generation b,
               br_current_generation = cs_generation current,
               br_baseline_generation_ordinal = bl_generation_ordinal b,
               br_current_generation_ordinal = cs_generation_ordinal current,
               br_generation_changed = generation_changed, br_window_changed = window_changed,
               br_policy_changed = policy_changed, br_current_evidence = dominant,
               br_overall = (if \<not> scope_ok then Cmp_Incomparable
                             else if \<not> evidence_ok then verdict_for dominant else Cmp_Comparable),
               br_comparisons = sort_key (\<lambda>c. (mc_name c, mc_metric c))
                                  (map (compare_metric b current) (bl_metrics b)),
               br_reasons = comparison_reasons generation_changed window_changed policy_changed
                              evidence_ok dominant,
               br_digest = zero_digest\<rparr>
      in r\<lparr>br_digest := builder_digest (report_parts r)\<rparr>)"

section \<open>When a number is produced\<close>

definition comparison_allowed :: "baseline \<Rightarrow> current_snapshot \<Rightarrow> bool" where
  "comparison_allowed b s \<longleftrightarrow> bl_generation b = cs_generation s \<and> bl_window b = cs_window s \<and>
     admits_positive_assertion (cs_evidence s)"

lemma compare_metric_delta:
  "mc_delta (compare_metric b s v) =
     (if comparison_allowed b s
      then map_option (\<lambda>w. f64_sub (mv_value w) (mv_value v)) (metric_find (mv_id v) (cs_metrics s))
      else None)"
  by (simp add: compare_metric_def comparison_allowed_def Let_def split: option.split)

lemma compare_metric_ratio:
  "mc_ratio (compare_metric b s v) \<noteq> None \<longleftrightarrow>
     mc_delta (compare_metric b s v) \<noteq> None \<and> \<not> f64_eq (mv_value v) f64_zero"
  by (simp add: compare_metric_def Let_def split: option.split)

lemma compare_metric_relative:
  "mc_relative_change (compare_metric b s v) \<noteq> None \<longleftrightarrow> mc_ratio (compare_metric b s v) \<noteq> None"
  by (simp add: compare_metric_def Let_def split: option.split)

lemma compare_metric_verdict:
  "mc_delta (compare_metric b s v) \<noteq> None \<Longrightarrow> mc_verdict (compare_metric b s v) = Cmp_Comparable"
  by (simp add: compare_metric_def Let_def split: option.splits if_splits)

lemma compare_metric_frame [simp]:
  "mc_metric (compare_metric b s v) = mv_id v" "mc_name (compare_metric b s v) = mv_name v"
  by (simp_all add: compare_metric_def Let_def split: option.split)

lemma report_comparisons:
  "br_comparisons (compare_to_baseline b s)
     = sort_key (\<lambda>c. (mc_name c, mc_metric c)) (map (compare_metric b s) (bl_metrics b))"
  by (simp add: compare_to_baseline_def Let_def)

lemma compare_metric_series [simp]:
  "compare_metric b (s\<lparr>cs_series := x, cs_path := p\<rparr>) v = compare_metric b s v"
  by (simp add: compare_metric_def Let_def split: option.split)

lemma compare_ignores_series:
  "compare_to_baseline b (s\<lparr>cs_series := x, cs_path := p\<rparr>) = compare_to_baseline b s"
  by (simp add: compare_to_baseline_def compare_metric_series [abs_def])

section \<open>Made baselines\<close>

lemma make_baseline_InrD:
  assumes "make_baseline b = Inr c"
  shows "bl_series c = bl_series b" "bl_generation c = bl_generation b" "bl_name c = bl_name b"
    "sorted (map metric_order (bl_metrics c))" "mset (bl_metrics c) = mset (bl_metrics b)"
    "bl_id c = id_from_digest (builder_digest (baseline_parts c))"
  using assms
  by (auto simp: make_baseline_def Let_def baseline_parts_def split: if_splits)

lemma make_baseline_fixed: "make_baseline b = Inr c \<Longrightarrow> make_baseline c = Inr c"
  by (auto simp: make_baseline_def Let_def baseline_parts_def sort_key_id_if_sorted split: if_splits)

section \<open>Properties\<close>

text \<open>
  A comparison forms a delta exactly for the metrics the current window also has, and only
  when the route generation and the window policy are the baseline's and the evidence admits a
  positive statement; the delta is then current minus baseline, a ratio and a relative change
  are formed exactly when the baseline value is not zero, and in every other case no number is
  given. Nothing else is required: replacing the series and the path of the current snapshot by
  any others leaves the whole report unchanged.
\<close>

lemma comparison_delta_exactly:
  "br_comparisons (compare_to_baseline b s)
     = sort_key (\<lambda>c. (mc_name c, mc_metric c)) (map (compare_metric b s) (bl_metrics b)) \<and>
   mc_delta (compare_metric b s v) =
     (if bl_generation b = cs_generation s \<and> bl_window b = cs_window s \<and>
         admits_positive_assertion (cs_evidence s)
      then map_option (\<lambda>w. f64_sub (mv_value w) (mv_value v)) (metric_find (mv_id v) (cs_metrics s))
      else None) \<and>
   (mc_ratio (compare_metric b s v) \<noteq> None \<longleftrightarrow>
      mc_delta (compare_metric b s v) \<noteq> None \<and> \<not> f64_eq (mv_value v) f64_zero) \<and>
   (mc_relative_change (compare_metric b s v) \<noteq> None \<longleftrightarrow> mc_ratio (compare_metric b s v) \<noteq> None) \<and>
   compare_to_baseline b (s\<lparr>cs_series := x, cs_path := p\<rparr>) = compare_to_baseline b s"
  using report_comparisons compare_metric_delta [unfolded comparison_allowed_def] compare_metric_ratio
    compare_metric_relative compare_ignores_series by blast

end
