(* ===== verification/Attribution.thy ===== *)
theory Attribution
  imports Baseline
begin

text \<open>
  Per-hop timing attribution: \<^verbatim>\<open>include/jitter/attribution.hpp\<close> and
  \<^verbatim>\<open>src/attribution.cpp\<close>. The two pointers of a request are options. One turn of the loop over
  the hops returns the hop's result together with the reason it adds to the report.
\<close>

section \<open>Requests and reports\<close>

datatype attribution_state =
    Attr_Attributed
  | Attr_Unsupported
  | Attr_Insufficient
  | Attr_Absent

fun attribution_state_code :: "attribution_state \<Rightarrow> u8" where
  "attribution_state_code Attr_Attributed = 0"
| "attribution_state_code Attr_Unsupported = 1"
| "attribution_state_code Attr_Insufficient = 2"
| "attribution_state_code Attr_Absent = 3"

fun attribution_state_text :: "attribution_state \<Rightarrow> string" where
  "attribution_state_text Attr_Attributed = ''attributed''"
| "attribution_state_text Attr_Unsupported = ''unsupported''"
| "attribution_state_text Attr_Insufficient = ''insufficient''"
| "attribution_state_text Attr_Absent = ''absent''"

record hop_attribution =
  ha_hop :: hop_id
  ha_index :: u16
  ha_name :: string
  ha_clock :: clock_domain_id
  ha_clock_comparable :: bool
  ha_clock_max_offset_ns :: i64
  ha_state :: attribution_state
  ha_arrivals :: nat
  ha_terms :: nat
  ha_value_present :: bool
  ha_value :: f64_bits
  ha_metric :: metric_id
  ha_reason :: string

record attribution_request =
  ar_series :: series_id
  ar_path :: path_id
  ar_generation :: generation_id
  ar_generation_ordinal :: counter
  ar_series_clock :: clock_domain_id
  ar_metric :: metric_key
  ar_min_arrivals :: nat
  ar_current_generation :: bool
  ar_clocks :: "clock_model option"
  ar_path_descriptor :: "path_descriptor option"
  ar_now_utc_ns :: i64
  ar_arrivals_by_hop :: "(hop_id, time_point list) omap"

record attribution_report =
  at_series :: series_id
  at_path :: path_id
  at_generation :: generation_id
  at_generation_ordinal :: counter
  at_metric :: metric_key
  at_metric_id :: metric_id
  at_current_generation :: bool
  at_complete :: bool
  at_total_hops :: nat
  at_attributed_hops :: nat
  at_hops :: "hop_attribution list"
  at_reasons :: "string list"
  at_digest :: digest
  at_limitation_note :: string

definition kLimitationNote :: string where
  "kLimitationNote =
     ''hop local timing observations only; not a causal decomposition of end to end latency and '' @
     ''never a fault classification''"

section \<open>One hop\<close>

fun scale_readings :: "i64 \<Rightarrow> time_point list \<Rightarrow> i64 list result" where
  "scale_readings scale [] = Inr []"
| "scale_readings scale (r # rs) =
     (case checked_mul_i64 (tp_ticks r) scale of
        None \<Rightarrow> fail Ec_Overflow ''hop timing conversion overflowed''
      | Some scaled \<Rightarrow> res_bind (scale_readings scale rs) (\<lambda>out. Inr (scaled # out)))"

definition to_nanos :: "time_point list \<Rightarrow> clock_domain \<Rightarrow> i64 list result" where
  "to_nanos readings d =
     (case nanos_per_unit (cd_unit d) of
        None \<Rightarrow> fail Ec_Unsupported ''hop clock unit has no declared rate and cannot be converted to time''
      | Some scale \<Rightarrow> scale_readings scale readings)"

text \<open>A hop that was refused, with the reason of the hop and the reason of the report.\<close>

definition refuse_hop ::
  "attribution_state \<Rightarrow> string \<Rightarrow> string \<Rightarrow> hop_attribution \<Rightarrow> hop_attribution \<times> string" where
  "refuse_hop state reason note h = (h\<lparr>ha_state := state, ha_reason := reason\<rparr>, note)"

definition mixes_domains :: "time_point list \<Rightarrow> bool" where
  "mixes_domains arrivals \<longleftrightarrow> (\<exists>r \<in> set arrivals. tp_domain r \<noteq> tp_domain (hd arrivals))"

definition attribute_arrivals ::
  "attribution_request \<Rightarrow> clock_model \<Rightarrow> hop_descriptor \<Rightarrow> hop_attribution \<Rightarrow> time_point list
     \<Rightarrow> hop_attribution \<times> string" where
  "attribute_arrivals q clocks hop h arrivals =
     (let front = tp_domain (hd arrivals); name = hd_name hop;
          h1 = h\<lparr>ha_arrivals := length arrivals, ha_clock := front\<rparr>
      in if id_is_nil front
         then refuse_hop Attr_Unsupported ''hop_timing_has_no_clock_domain''
                (''hop_timing_has_no_clock_domain:'' @ name) h1
         else if mixes_domains arrivals
         then refuse_hop Attr_Unsupported ''hop_timing_mixes_clock_domains''
                (''hop_timing_mixes_clock_domains:'' @ name) h1
         else let ca = assess_domains clocks front (ar_series_clock q) (ar_now_utc_ns q);
                  h2 = h1\<lparr>ha_clock_comparable := comparable ca, ha_clock_max_offset_ns := ca_max_offset_ns ca\<rparr>
              in if \<not> comparable ca
                 then refuse_hop Attr_Unsupported (''hop_clock_incomparable:'' @ ca_reason ca)
                        (''hop_clock_incomparable:'' @ name @ '':'' @ ca_reason ca) h2
                 else if length arrivals < ar_min_arrivals q
                 then refuse_hop Attr_Insufficient ''fewer_arrivals_than_required''
                        (''fewer_arrivals_than_required:'' @ name) h2
                 else case find_domain front clocks of
                        None \<Rightarrow> refuse_hop Attr_Unsupported ''hop_clock_domain_unknown''
                                  (''hop_clock_domain_unknown:'' @ name) h2
                      | Some d \<Rightarrow>
                          (case to_nanos arrivals d of
                             Inl e \<Rightarrow> refuse_hop Attr_Unsupported
                                        (''hop_timing_not_convertible:'' @ error_code_text (err_code e))
                                        (''hop_timing_not_convertible:'' @ name) h2
                           | Inr nanos \<Rightarrow>
                               (case compute_metric (ar_metric q) nanos of
                                  Inl e \<Rightarrow> refuse_hop
                                     (if err_code e = Ec_InsufficientEvidence then Attr_Insufficient
                                      else Attr_Unsupported)
                                     (''metric_unavailable:'' @ error_code_text (err_code e))
                                     (''hop_metric_unavailable:'' @ name @ '':'' @ error_code_text (err_code e)) h2
                                | Inr v \<Rightarrow>
                                    (h2\<lparr>ha_state := Attr_Attributed, ha_value_present := True,
                                        ha_value := mv_value v, ha_terms := mv_term_count v,
                                        ha_reason := ''attributed''\<rparr>, ''''))))"

definition attribute_hop ::
  "attribution_request \<Rightarrow> clock_model \<Rightarrow> hop_descriptor \<Rightarrow> hop_attribution \<times> string" where
  "attribute_hop q clocks hop =
     (let h = \<lparr>ha_hop = hd_id hop, ha_index = hd_index hop, ha_name = hd_name hop, ha_clock = nil_id,
               ha_clock_comparable = False, ha_clock_max_offset_ns = 0, ha_state = Attr_Absent,
               ha_arrivals = 0, ha_terms = 0, ha_value_present = False, ha_value = f64_zero,
               ha_metric = md_id (metric_definition_of (ar_metric q)), ha_reason = ''''\<rparr>
      in case om_find (hd_id hop) (ar_arrivals_by_hop q) of
           None \<Rightarrow> refuse_hop Attr_Absent ''hop_timing_absent'' (''hop_timing_absent:'' @ hd_name hop) h
         | Some arrivals \<Rightarrow>
             if arrivals = []
             then refuse_hop Attr_Absent ''hop_timing_absent'' (''hop_timing_absent:'' @ hd_name hop) h
             else attribute_arrivals q clocks hop h arrivals)"

section \<open>The report\<close>

definition hop_result_parts :: "hop_attribution \<Rightarrow> bytes list" where
  "hop_result_parts h =
     [enc_id (ha_hop h), enc_u16 (ha_index h), enc_u8 (attribution_state_code (ha_state h)),
      enc_bool (ha_value_present h), enc_f64 (ha_value h), enc_u64 (word_of_nat (ha_terms h)),
      enc_str (ha_reason h)]"

definition attribution_parts :: "attribution_report \<Rightarrow> bytes list" where
  "attribution_parts r =
     [enc_str kDomainAttribution, enc_id (at_series r), enc_id (at_path r), enc_id (at_generation r),
      enc_u64 (at_generation_ordinal r), enc_id (at_metric_id r), enc_bool (at_complete r),
      enc_bool (at_current_generation r), enc_u32 (word_of_nat (length (at_hops r)))]
     @ concat (map hop_result_parts (at_hops r))"

definition attribution_base :: "attribution_request \<Rightarrow> attribution_report" where
  "attribution_base q =
     \<lparr>at_series = ar_series q, at_path = ar_path q, at_generation = ar_generation q,
      at_generation_ordinal = ar_generation_ordinal q, at_metric = ar_metric q,
      at_metric_id = md_id (metric_definition_of (ar_metric q)),
      at_current_generation = ar_current_generation q, at_complete = False, at_total_hops = 0,
      at_attributed_hops = 0, at_hops = [], at_reasons = [], at_digest = zero_digest,
      at_limitation_note = kLimitationNote\<rparr>"

definition attribute_hops :: "attribution_request \<Rightarrow> attribution_report" where
  "attribute_hops q =
     (case (ar_clocks q, ar_path_descriptor q) of
        (Some clocks, Some path) \<Rightarrow>
          let results = map (attribute_hop q clocks) (pd_hops path);
              attributed = length (filter (\<lambda>r. ha_state (fst r) = Attr_Attributed) results);
              all_attributed = (pd_hops path \<noteq> [] \<and> attributed = length (pd_hops path));
              reasons =
                (if ar_current_generation q then [] else [''generation_is_not_current''])
                @ (if find_domain (ar_series_clock q) clocks = None
                   then [''series_clock_domain_unknown''] else [])
                @ map snd results
                @ (if pd_hops path = [] then [''path_declares_no_hops''] else [])
                @ (if \<not> all_attributed \<and> pd_hops path \<noteq> [] then [''attribution_incomplete''] else []);
              r = (attribution_base q)\<lparr>at_total_hops := length (pd_hops path),
                     at_attributed_hops := attributed, at_hops := map fst results,
                     at_complete := all_attributed \<and> ar_current_generation q,
                     at_reasons := finalize_reasons (add_reasons [] reasons)\<rparr>
          in r\<lparr>at_digest := builder_digest (attribution_parts r)\<rparr>
      | _ \<Rightarrow> (attribution_base q)
              \<lparr>at_reasons := [''attribution_requires_clock_model_and_path''],
               at_digest := digest_of (enc_text ''attribution:missing_inputs'')\<rparr>)"

section \<open>Building a request\<close>

definition gather_timing :: "hop_timing \<Rightarrow> (hop_id, time_point list) omap \<Rightarrow> (hop_id, time_point list) omap" where
  "gather_timing t m = om_put (ht_hop t) (om_get [] (ht_hop t) m @ [ht_arrived t]) m"

fun gather_samples ::
  "series_id \<Rightarrow> path_id \<Rightarrow> latency_sample list \<Rightarrow> (hop_id, time_point list) omap
     \<Rightarrow> (hop_id, time_point list) omap result" where
  "gather_samples series path [] m = Inr m"
| "gather_samples series path (s # ss) m =
     (if ls_series s \<noteq> series then fail Ec_Conflict ''attribution input mixes series''
      else if ls_path s \<noteq> path then fail Ec_Conflict ''attribution input mixes paths''
      else gather_samples series path ss (fold gather_timing (ls_hop_timings s) m))"

definition build_attribution_request ::
  "window_selection \<Rightarrow> series_descriptor \<Rightarrow> path_descriptor \<Rightarrow> clock_model \<Rightarrow> metric_key \<Rightarrow> nat
     \<Rightarrow> bool \<Rightarrow> i64 \<Rightarrow> attribution_request result" where
  "build_attribution_request sel series path clocks metric min_arrivals current now =
     (if sel_samples sel = []
      then fail Ec_NoEvidence ''cannot attribute hops without observations''
      else res_bind (gather_samples (se_id series) (pd_id path) (sel_samples sel) []) (\<lambda>arrivals.
        Inr \<lparr>ar_series = se_id series, ar_path = pd_id path,
             ar_generation = ls_generation (hd (sel_samples sel)),
             ar_generation_ordinal = ls_generation_ordinal (hd (sel_samples sel)),
             ar_series_clock = se_clock_domain series, ar_metric = metric, ar_min_arrivals = min_arrivals,
             ar_current_generation = current, ar_clocks = Some clocks, ar_path_descriptor = Some path,
             ar_now_utc_ns = now, ar_arrivals_by_hop = arrivals\<rparr>))"

section \<open>When a hop gets a value\<close>

text \<open>The declarative condition, and the value it justifies.\<close>

definition attributable ::
  "attribution_request \<Rightarrow> clock_model \<Rightarrow> time_point list \<Rightarrow> metric_value \<Rightarrow> bool" where
  "attributable q clocks arrivals v \<longleftrightarrow>
     arrivals \<noteq> [] \<and> \<not> id_is_nil (tp_domain (hd arrivals)) \<and>
     \<not> mixes_domains arrivals \<and>
     comparable (assess_domains clocks (tp_domain (hd arrivals)) (ar_series_clock q) (ar_now_utc_ns q)) \<and>
     ar_min_arrivals q \<le> length arrivals \<and>
     (\<exists>d nanos. find_domain (tp_domain (hd arrivals)) clocks = Some d \<and> to_nanos arrivals d = Inr nanos \<and>
        compute_metric (ar_metric q) nanos = Inr v)"

lemma refuse_hop_simps [simp]:
  "ha_state (fst (refuse_hop s r n h)) = s" "snd (refuse_hop s r n h) = n"
  "ha_value_present (fst (refuse_hop s r n h)) = ha_value_present h"
  "ha_value (fst (refuse_hop s r n h)) = ha_value h" "ha_hop (fst (refuse_hop s r n h)) = ha_hop h"
  by (simp_all add: refuse_hop_def)

text \<open>Either the hop is attributable and gets its value, or it is refused as it was.\<close>

definition attributed_with :: "metric_value \<Rightarrow> hop_attribution \<Rightarrow> bool" where
  "attributed_with v r \<longleftrightarrow> ha_state r = Attr_Attributed \<and> ha_value_present r \<and> ha_value r = mv_value v \<and>
     ha_terms r = mv_term_count v"

definition refused_hop :: "hop_attribution \<Rightarrow> hop_attribution \<Rightarrow> bool" where
  "refused_hop h r \<longleftrightarrow> (ha_state r = Attr_Unsupported \<or> ha_state r = Attr_Insufficient) \<and>
     ha_value_present r = ha_value_present h"

lemma attribute_arrivals_cases:
  fixes q clocks hop h
  assumes ne: "arrivals \<noteq> []"
  defines "r \<equiv> fst (attribute_arrivals q clocks hop h arrivals)"
  shows "(\<exists>v. attributable q clocks arrivals v \<and> attributed_with v r) \<or>
         (\<forall>v. \<not> attributable q clocks arrivals v) \<and> refused_hop h r"
proof -
  let ?D = "tp_domain (hd arrivals)"
  let ?ca = "assess_domains clocks ?D (ar_series_clock q) (ar_now_utc_ns q)"
  consider "id_is_nil ?D" | "mixes_domains arrivals" "\<not> id_is_nil ?D"
    | "\<not> comparable ?ca" "\<not> mixes_domains arrivals" "\<not> id_is_nil ?D"
    | "length arrivals < ar_min_arrivals q" "comparable ?ca"
      "\<not> mixes_domains arrivals" "\<not> id_is_nil ?D"
    | "\<not> length arrivals < ar_min_arrivals q" "comparable ?ca"
      "\<not> mixes_domains arrivals" "\<not> id_is_nil ?D" by blast
  then show ?thesis
  proof cases
    case 5
    show ?thesis
    proof (cases "find_domain ?D clocks")
      case None
      with 5 show ?thesis
        by (simp add: r_def attribute_arrivals_def Let_def attributable_def refused_hop_def)
    next
      case (Some d)
      then have fin: "attributable q clocks arrivals v \<longleftrightarrow>
          (\<exists>nanos. to_nanos arrivals d = Inr nanos \<and> compute_metric (ar_metric q) nanos = Inr v)" for v
        using 5 ne by (simp add: attributable_def)
      show ?thesis
      proof (cases "to_nanos arrivals d")
        case (Inl e)
        with 5 Some show ?thesis unfolding fin
          by (simp add: r_def attribute_arrivals_def Let_def refused_hop_def)
      next
        case (Inr nanos)
        with 5 Some show ?thesis unfolding fin
          by (cases "compute_metric (ar_metric q) nanos")
             (simp_all add: r_def attribute_arrivals_def Let_def refused_hop_def attributed_with_def)
      qed
    qed
  qed (simp_all add: r_def attribute_arrivals_def Let_def attributable_def refused_hop_def)
qed

lemma attribute_arrivals_attributed:
  assumes "arrivals \<noteq> []"
  shows "ha_state (fst (attribute_arrivals q clocks hop h arrivals)) = Attr_Attributed \<longleftrightarrow>
           (\<exists>v. attributable q clocks arrivals v)"
    and "attributable q clocks arrivals v \<Longrightarrow>
           ha_value (fst (attribute_arrivals q clocks hop h arrivals)) = mv_value v \<and>
           ha_terms (fst (attribute_arrivals q clocks hop h arrivals)) = mv_term_count v"
    and "\<not> ha_value_present h \<Longrightarrow>
           ha_value_present (fst (attribute_arrivals q clocks hop h arrivals)) \<longleftrightarrow>
           ha_state (fst (attribute_arrivals q clocks hop h arrivals)) = Attr_Attributed"
    and "ha_state (fst (attribute_arrivals q clocks hop h arrivals)) \<noteq> Attr_Absent"
  using attribute_arrivals_cases [OF assms, of q clocks hop h]
  by (auto simp: attributed_with_def refused_hop_def attributable_def)

lemma attribute_hop_attributed:
  "ha_state (fst (attribute_hop q clocks hop)) = Attr_Attributed \<longleftrightarrow>
     (\<exists>arrivals v. om_find (hd_id hop) (ar_arrivals_by_hop q) = Some arrivals \<and>
        attributable q clocks arrivals v)"
  by (auto simp: attribute_hop_def Let_def attribute_arrivals_attributed(1) attributable_def
      split: option.split)

lemma attribute_hop_value:
  "om_find (hd_id hop) (ar_arrivals_by_hop q) = Some arrivals \<Longrightarrow> attributable q clocks arrivals v \<Longrightarrow>
     ha_value (fst (attribute_hop q clocks hop)) = mv_value v \<and>
     ha_terms (fst (attribute_hop q clocks hop)) = mv_term_count v"
  by (auto simp: attribute_hop_def Let_def attribute_arrivals_attributed(2) attributable_def)

lemma attribute_hop_present:
  "ha_value_present (fst (attribute_hop q clocks hop)) \<longleftrightarrow>
     ha_state (fst (attribute_hop q clocks hop)) = Attr_Attributed"
  by (simp add: attribute_hop_def Let_def attribute_arrivals_attributed(3) split: option.split)

lemma attribute_hop_absent:
  "ha_state (fst (attribute_hop q clocks hop)) = Attr_Absent \<longleftrightarrow>
     om_get [] (hd_id hop) (ar_arrivals_by_hop q) = []"
  by (auto simp: attribute_hop_def Let_def attribute_arrivals_attributed(4) om_get_def split: option.split)

lemma scale_readings_exact:
  "scale_readings scale rs = Inr ns \<Longrightarrow> list_all (\<lambda>r. i64_ok (tp_ticks r)) rs \<Longrightarrow> i64_ok scale \<Longrightarrow>
     ns = map (\<lambda>r. tp_ticks r * scale) rs"
  by (induction rs arbitrary: ns) (auto simp: res_bind_eq_Inr checked_mul_i64_eq split: option.splits if_splits)

text \<open>The arrivals of a hop are the ones its samples carry, in the order of the selection.\<close>

definition timings_of :: "hop_id \<Rightarrow> hop_timing list \<Rightarrow> time_point list" where
  "timings_of hop ts = map ht_arrived (filter (\<lambda>t. ht_hop t = hop) ts)"

lemma gather_timing_get:
  "om_get [] hop (fold gather_timing ts m) = om_get [] hop m @ timings_of hop ts"
  by (induction ts arbitrary: m) (auto simp: gather_timing_def timings_of_def om_get_def)

lemma gather_samples_get:
  "gather_samples series path ss m = Inr m' \<Longrightarrow>
     om_get [] hop m' = om_get [] hop m @ timings_of hop (concat (map ls_hop_timings ss))"
  by (induction ss arbitrary: m) (auto simp: gather_timing_get timings_of_def split: if_splits)

lemma gather_samples_ok:
  "(\<exists>m'. gather_samples series path ss m = Inr m') \<longleftrightarrow>
     list_all (\<lambda>s. ls_series s = series \<and> ls_path s = path) ss"
  by (induction ss arbitrary: m) auto

lemma attribute_hops_complete:
  assumes "ar_clocks q = Some clocks" "ar_path_descriptor q = Some path"
  shows "at_complete (attribute_hops q) \<longleftrightarrow>
     ar_current_generation q \<and> pd_hops path \<noteq> [] \<and>
     list_all (\<lambda>hop. ha_state (fst (attribute_hop q clocks hop)) = Attr_Attributed) (pd_hops path)"
proof -
  have "length (filter P (map f xs)) = length xs \<longleftrightarrow> list_all (\<lambda>x. P (f x)) xs" for P :: "'b \<Rightarrow> bool" and f :: "'a \<Rightarrow> 'b" and xs
    by (simp add: length_filter_map filter_map list_all_iff)
       (metis (mono_tags, lifting) comp_apply filter_id_conv length_filter_less less_irrefl)
  then show ?thesis using assms by (auto simp: attribute_hops_def Let_def)
qed

section \<open>Properties\<close>

text \<open>
  A hop gets a value exactly when its observed arrivals lie on one non-nil clock that is
  comparable with the clock of the series, there are enough of them, the clock is registered and
  convertible, and the metric can be computed from the converted readings; an unattributed hop
  carries no value, a hop without timing is reported absent, and a report is complete exactly when
  the generation is current and every one of at least one hop got its value.
\<close>

lemma attribution_exactly:
  "(ha_state (fst (attribute_hop q clocks hop)) = Attr_Attributed \<longleftrightarrow>
      (\<exists>arrivals v. om_find (hd_id hop) (ar_arrivals_by_hop q) = Some arrivals \<and>
         attributable q clocks arrivals v)) \<and>
   (ha_value_present (fst (attribute_hop q clocks hop)) \<longleftrightarrow>
      ha_state (fst (attribute_hop q clocks hop)) = Attr_Attributed) \<and>
   (ha_state (fst (attribute_hop q clocks hop)) = Attr_Absent \<longleftrightarrow>
      om_get [] (hd_id hop) (ar_arrivals_by_hop q) = []) \<and>
   (at_complete (attribute_hops (q\<lparr>ar_clocks := Some clocks, ar_path_descriptor := Some path\<rparr>)) \<longleftrightarrow>
      ar_current_generation q \<and> pd_hops path \<noteq> [] \<and>
      list_all (\<lambda>h. ha_state (fst (attribute_hop
           (q\<lparr>ar_clocks := Some clocks, ar_path_descriptor := Some path\<rparr>) clocks h)) = Attr_Attributed)
        (pd_hops path))"
  using attribute_hop_attributed attribute_hop_present attribute_hop_absent
    attribute_hops_complete [of "q\<lparr>ar_clocks := Some clocks, ar_path_descriptor := Some path\<rparr>" clocks path]
  by simp

end
