(* ===== verification/Codec.thy ===== *)
theory Codec
  imports Attribution
begin

text \<open>
  Canonical record encodings, first half: \<^verbatim>\<open>include/jitter/codec.hpp\<close> and the descriptor and
  topology records of \<^verbatim>\<open>src/codec.cpp\<close>. A writer is a function to the bytes it appends, a
  reader a decoder; every pair is an interpretation of the \<open>codec\<close> contract on the values the
  runtime can hold. Identities are not transmitted: the reader derives them again.
\<close>

lemmas enum_codec_simps [codec_simps] =
  clock_kind_enum.dec_enum_enc time_unit_enum.dec_enum_enc source_authority_enum.dec_enum_enc
  evidence_origin_enum.dec_enum_enc measurement_kind_enum.dec_enum_enc evidence_state_enum.dec_enum_enc
  instability_level_enum.dec_enum_enc episode_close_reason_enum.dec_enum_enc
  conflict_outcome_enum.dec_enum_enc

lemma dthen_bool [codec_simps]: "dthen dec_bool f (enc_bool b @ rest) = f b rest"
  by (simp add: dthen_def dec_bool_enc)

section \<open>Optional fields\<close>

definition enc_optional_u64 :: "u64 option \<Rightarrow> bytes" where
  "enc_optional_u64 v = (case v of Some x \<Rightarrow> enc_bool True @ enc_u64 x | None \<Rightarrow> enc_bool False)"

definition dec_optional_u64 :: "u64 option decoder" where
  "dec_optional_u64 = dthen dec_bool (\<lambda>present.
     if \<not> present then dreturn None else dthen dec_u64 (\<lambda>v. dreturn (Some v)))"

definition enc_optional_i64 :: "i64 option \<Rightarrow> bytes" where
  "enc_optional_i64 v = (case v of Some x \<Rightarrow> enc_bool True @ enc_i64 x | None \<Rightarrow> enc_bool False)"

definition dec_optional_i64 :: "i64 option decoder" where
  "dec_optional_i64 = dthen dec_bool (\<lambda>present.
     if \<not> present then dreturn None else dthen dec_i64 (\<lambda>v. dreturn (Some v)))"

definition enc_optional_id :: "'tag strong_id \<Rightarrow> bytes" where
  "enc_optional_id v = (if id_is_nil v then enc_bool False else enc_bool True @ enc_id v)"

definition dec_optional_id :: "'tag strong_id option decoder" where
  "dec_optional_id = dthen dec_bool (\<lambda>present.
     if \<not> present then dreturn None else dthen dec_id (\<lambda>v. dreturn (Some v)))"

interpretation optional_u64c: codec enc_optional_u64 dec_optional_u64 "\<lambda>_. True"
proof
  show "dec_optional_u64 (enc_optional_u64 x @ rest) = Inr (x, rest)" for x rest
    by (cases x) (simp_all add: enc_optional_u64_def dec_optional_u64_def codec_simps)
  show "extensible dec_optional_u64" unfolding dec_optional_u64_def by (intro extensible_intros)
qed

interpretation optional_i64c: codec enc_optional_i64 dec_optional_i64 "pred_option i64_ok"
proof
  show "pred_option i64_ok x \<Longrightarrow> dec_optional_i64 (enc_optional_i64 x @ rest) = Inr (x, rest)" for x rest
    by (cases x) (simp_all add: enc_optional_i64_def dec_optional_i64_def codec_simps)
  show "extensible dec_optional_i64" unfolding dec_optional_i64_def by (intro extensible_intros)
qed

text \<open>A nil identity is written as absent, so an optional identity must not be \<open>Some\<close> nil.\<close>

definition optional_id_of :: "'tag strong_id option \<Rightarrow> 'tag strong_id" where
  "optional_id_of v = (case v of None \<Rightarrow> nil_id | Some x \<Rightarrow> x)"

lemma dec_optional_id_enc [codec_simps]:
  "v \<noteq> Some nil_id \<Longrightarrow> dec_optional_id (enc_optional_id (optional_id_of v) @ rest) = Inr (v, rest)"
  by (cases v) (auto simp: dec_optional_id_def enc_optional_id_def optional_id_of_def id_is_nil_iff codec_simps)

lemma extensible_optional_id [extensible_intros]: "extensible dec_optional_id"
  unfolding dec_optional_id_def by (intro extensible_intros)

lemmas optional_codec_simps [codec_simps] = optional_u64c.dec_enc optional_i64c.dec_enc
lemmas optional_extensible [extensible_intros] = optional_u64c.dec_ext optional_i64c.dec_ext

section \<open>Clock domains and equivalences\<close>

definition enc_time_point :: "time_point \<Rightarrow> bytes" where
  "enc_time_point t = enc_id (tp_domain t) @ enc_i64 (tp_ticks t)"

definition dec_time_point :: "time_point decoder" where
  "dec_time_point = dthen dec_id (\<lambda>d. dthen dec_i64 (\<lambda>t. dreturn \<lparr>tp_domain = d, tp_ticks = t\<rparr>))"

definition time_point_wf :: "time_point \<Rightarrow> bool" where
  "time_point_wf t \<longleftrightarrow> i64_ok (tp_ticks t)"

interpretation time_point_codec: codec enc_time_point dec_time_point time_point_wf
proof
  show "time_point_wf x \<Longrightarrow> dec_time_point (enc_time_point x @ rest) = Inr (x, rest)" for x rest
    by (simp add: enc_time_point_def dec_time_point_def time_point_wf_def codec_simps)
  show "extensible dec_time_point" unfolding dec_time_point_def by (intro extensible_intros)
qed

definition enc_clock_domain :: "clock_domain \<Rightarrow> bytes" where
  "enc_clock_domain d =
     enc_str (cd_name d) @ enc_u8 (clock_kind_code (cd_kind d)) @ enc_u8 (time_unit_code (cd_unit d))
     @ enc_str (cd_epoch_note d) @ enc_i64 (cd_declared_accuracy_ns d)
     @ enc_bool (cd_declared_utc_aligned d) @ enc_id (cd_owner d)"

definition identified_clock_domain :: "clock_domain \<Rightarrow> clock_domain" where
  "identified_clock_domain d = d\<lparr>cd_id := make_clock_domain_id d\<rparr>"

definition dec_clock_domain :: "clock_domain decoder" where
  "dec_clock_domain =
     dthen dec_str (\<lambda>name.
     dthen (dec_enum clock_kind_of_code ''unknown clock kind in encoding'') (\<lambda>kind.
     dthen (dec_enum time_unit_of_code ''unknown time unit in encoding'') (\<lambda>u.
     dthen dec_str (\<lambda>epoch_note.
     dthen dec_i64 (\<lambda>accuracy.
     dthen dec_bool (\<lambda>aligned.
     dthen dec_id (\<lambda>owner.
       dreturn (identified_clock_domain
         \<lparr>cd_id = nil_id, cd_name = name, cd_kind = kind, cd_unit = u, cd_epoch_note = epoch_note,
          cd_declared_accuracy_ns = accuracy, cd_declared_utc_aligned = aligned,
          cd_owner = owner\<rparr>))))))))"

definition clock_domain_wf :: "clock_domain \<Rightarrow> bool" where
  "clock_domain_wf d \<longleftrightarrow> str_ok (cd_name d) \<and> str_ok (cd_epoch_note d) \<and>
     i64_ok (cd_declared_accuracy_ns d) \<and> cd_id d = make_clock_domain_id d"

lemma make_clock_domain_id_frame [simp]: "make_clock_domain_id (d\<lparr>cd_id := i\<rparr>) = make_clock_domain_id d"
  by (simp add: make_clock_domain_id_def clock_domain_fields_def)

lemma identified_clock_domain_eq:
  "cd_id d = make_clock_domain_id d \<Longrightarrow> identified_clock_domain (d\<lparr>cd_id := i\<rparr>) = d"
  by (simp add: identified_clock_domain_def)

interpretation clock_domain_codec: codec enc_clock_domain dec_clock_domain clock_domain_wf
proof
  fix x rest
  assume wf: "clock_domain_wf x"
  then have "dec_clock_domain (enc_clock_domain x @ rest)
      = Inr (identified_clock_domain (x\<lparr>cd_id := nil_id\<rparr>), rest)"
    by (cases x) (simp add: enc_clock_domain_def dec_clock_domain_def clock_domain_wf_def codec_simps)
  also have "identified_clock_domain (x\<lparr>cd_id := nil_id\<rparr>) = x"
    using wf by (intro identified_clock_domain_eq) (simp add: clock_domain_wf_def)
  finally show "dec_clock_domain (enc_clock_domain x @ rest) = Inr (x, rest)" .
next
  show "extensible dec_clock_domain" unfolding dec_clock_domain_def by (intro extensible_intros)
qed

definition enc_equivalence :: "clock_equivalence \<Rightarrow> bytes" where
  "enc_equivalence e =
     enc_id (ce_a e) @ enc_id (ce_b e) @ enc_i64 (ce_max_offset_ns e)
     @ enc_u8 (source_authority_code (ce_authority e)) @ enc_str (ce_justification e)
     @ enc_optional_i64 (ce_valid_until_utc_ns e)"

definition dec_equivalence :: "clock_equivalence decoder" where
  "dec_equivalence =
     dthen dec_id (\<lambda>a.
     dthen dec_id (\<lambda>b.
     dthen dec_i64 (\<lambda>off.
     dthen (dec_enum source_authority_of_code ''unknown source authority in encoding'') (\<lambda>authority.
     dthen dec_str (\<lambda>justification.
     dthen dec_optional_i64 (\<lambda>until.
       dreturn \<lparr>ce_a = a, ce_b = b, ce_max_offset_ns = off, ce_authority = authority,
                ce_justification = justification, ce_valid_until_utc_ns = until\<rparr>))))))"

definition equivalence_wf :: "clock_equivalence \<Rightarrow> bool" where
  "equivalence_wf e \<longleftrightarrow> i64_ok (ce_max_offset_ns e) \<and> str_ok (ce_justification e) \<and>
     pred_option i64_ok (ce_valid_until_utc_ns e)"

interpretation equivalence_codec: codec enc_equivalence dec_equivalence equivalence_wf
proof
  show "equivalence_wf x \<Longrightarrow> dec_equivalence (enc_equivalence x @ rest) = Inr (x, rest)" for x rest
    by (simp add: enc_equivalence_def dec_equivalence_def equivalence_wf_def codec_simps)
  show "extensible dec_equivalence" unfolding dec_equivalence_def by (intro extensible_intros)
qed

section \<open>Sources and series\<close>

definition enc_source :: "source_descriptor \<Rightarrow> bytes" where
  "enc_source d =
     enc_str (sd_name d) @ enc_u8 (source_authority_code (sd_authority d))
     @ enc_u8 (evidence_origin_code (sd_origin d)) @ enc_id (sd_clock_domain d)
     @ enc_str (sd_description d) @ enc_u32 (sd_protocol_revision d)"

definition identified_source :: "source_descriptor \<Rightarrow> source_descriptor" where
  "identified_source d = d\<lparr>sd_id := make_source_id d\<rparr>"

definition dec_source :: "source_descriptor decoder" where
  "dec_source =
     dthen dec_str (\<lambda>name.
     dthen (dec_enum source_authority_of_code ''unknown source authority in encoding'') (\<lambda>authority.
     dthen (dec_enum evidence_origin_of_code ''unknown evidence origin in encoding'') (\<lambda>origin.
     dthen dec_id (\<lambda>clock.
     dthen dec_str (\<lambda>description.
     dthen dec_u32 (\<lambda>revision.
       dreturn (identified_source
         \<lparr>sd_id = nil_id, sd_name = name, sd_authority = authority, sd_origin = origin,
          sd_clock_domain = clock, sd_description = description,
          sd_protocol_revision = revision\<rparr>)))))))"

definition source_wf :: "source_descriptor \<Rightarrow> bool" where
  "source_wf d \<longleftrightarrow> str_ok (sd_name d) \<and> str_ok (sd_description d) \<and> sd_id d = make_source_id d"

lemma make_source_id_frame [simp]: "make_source_id (d\<lparr>sd_id := i\<rparr>) = make_source_id d"
  by (simp add: make_source_id_def source_parts_def)

lemma identified_source_eq: "sd_id d = make_source_id d \<Longrightarrow> identified_source (d\<lparr>sd_id := i\<rparr>) = d"
  by (simp add: identified_source_def)

interpretation source_codec: codec enc_source dec_source source_wf
proof
  fix x rest
  assume wf: "source_wf x"
  then have "dec_source (enc_source x @ rest) = Inr (identified_source (x\<lparr>sd_id := nil_id\<rparr>), rest)"
    by (cases x) (simp add: enc_source_def dec_source_def source_wf_def codec_simps)
  also have "identified_source (x\<lparr>sd_id := nil_id\<rparr>) = x"
    using wf by (intro identified_source_eq) (simp add: source_wf_def)
  finally show "dec_source (enc_source x @ rest) = Inr (x, rest)" .
next
  show "extensible dec_source" unfolding dec_source_def by (intro extensible_intros)
qed

definition enc_series :: "series_descriptor \<Rightarrow> bytes" where
  "enc_series d =
     enc_str (se_name d) @ enc_u8 (measurement_kind_code (se_kind d))
     @ enc_u8 (time_unit_code (se_unit d)) @ enc_id (se_path d) @ enc_id (se_clock_domain d)
     @ enc_u8 (evidence_origin_code (se_origin d)) @ enc_str (se_description d)"

definition identified_series :: "series_descriptor \<Rightarrow> series_descriptor" where
  "identified_series d = d\<lparr>se_id := make_series_id d\<rparr>"

definition dec_series :: "series_descriptor decoder" where
  "dec_series =
     dthen dec_str (\<lambda>name.
     dthen (dec_enum measurement_kind_of_code ''unknown measurement kind in encoding'') (\<lambda>kind.
     dthen (dec_enum time_unit_of_code ''unknown time unit in encoding'') (\<lambda>u.
     dthen dec_id (\<lambda>path.
     dthen dec_id (\<lambda>clock.
     dthen (dec_enum evidence_origin_of_code ''unknown evidence origin in encoding'') (\<lambda>origin.
     dthen dec_str (\<lambda>description.
       dreturn (identified_series
         \<lparr>se_id = nil_id, se_name = name, se_kind = kind, se_unit = u, se_path = path,
          se_clock_domain = clock, se_origin = origin, se_description = description\<rparr>))))))))"

definition series_wf :: "series_descriptor \<Rightarrow> bool" where
  "series_wf d \<longleftrightarrow> str_ok (se_name d) \<and> str_ok (se_description d) \<and> se_id d = make_series_id d"

lemma make_series_id_frame [simp]: "make_series_id (d\<lparr>se_id := i\<rparr>) = make_series_id d"
  by (simp add: make_series_id_def series_parts_def)

lemma identified_series_eq: "se_id d = make_series_id d \<Longrightarrow> identified_series (d\<lparr>se_id := i\<rparr>) = d"
  by (simp add: identified_series_def)

interpretation series_codec: codec enc_series dec_series series_wf
proof
  fix x rest
  assume wf: "series_wf x"
  then have "dec_series (enc_series x @ rest) = Inr (identified_series (x\<lparr>se_id := nil_id\<rparr>), rest)"
    by (cases x) (simp add: enc_series_def dec_series_def series_wf_def codec_simps)
  also have "identified_series (x\<lparr>se_id := nil_id\<rparr>) = x"
    using wf by (intro identified_series_eq) (simp add: series_wf_def)
  finally show "dec_series (enc_series x @ rest) = Inr (x, rest)" .
next
  show "extensible dec_series" unfolding dec_series_def by (intro extensible_intros)
qed

section \<open>Paths, hops and generations\<close>

definition enc_hop :: "hop_descriptor \<Rightarrow> bytes" where
  "enc_hop h =
     enc_u16 (hd_index h) @ enc_str (hd_name h) @ enc_optional_id (optional_id_of (hd_timing_clock h))
     @ enc_u8 (evidence_origin_code (hd_origin h)) @ enc_str (hd_device_note h)"

definition dec_hop :: "hop_descriptor decoder" where
  "dec_hop =
     dthen dec_u16 (\<lambda>index.
     dthen dec_str (\<lambda>name.
     dthen dec_optional_id (\<lambda>clock.
     dthen (dec_enum evidence_origin_of_code ''unknown evidence origin in encoding'') (\<lambda>origin.
     dthen dec_str (\<lambda>note.
       dreturn \<lparr>hd_id = nil_id, hd_index = index, hd_name = name, hd_timing_clock = clock,
                hd_origin = origin, hd_device_note = note\<rparr>)))))"

definition hop_wf :: "hop_descriptor \<Rightarrow> bool" where
  "hop_wf h \<longleftrightarrow> str_ok (hd_name h) \<and> str_ok (hd_device_note h) \<and> hd_timing_clock h \<noteq> Some nil_id"

lemma dec_hop_enc: "hop_wf h \<Longrightarrow> dec_hop (enc_hop h @ rest) = Inr (h\<lparr>hd_id := nil_id\<rparr>, rest)"
  by (cases h) (simp add: enc_hop_def dec_hop_def hop_wf_def codec_simps)

lemma extensible_hop [extensible_intros]: "extensible dec_hop"
  unfolding dec_hop_def by (intro extensible_intros)

definition enc_path :: "path_descriptor \<Rightarrow> bytes" where
  "enc_path d =
     enc_str (pd_name d) @ enc_u8 (evidence_origin_code (pd_origin d)) @ enc_str (pd_description d)
     @ enc_u32 (word_of_nat (length (pd_hops d))) @ concat (map enc_hop (pd_hops d))"

text \<open>The identities of the path and of all its hops, derived from the content read.\<close>

definition identified_path :: "path_descriptor \<Rightarrow> path_descriptor" where
  "identified_path d =
     (let i = make_path_id d
      in d\<lparr>pd_id := i, pd_hops := map (\<lambda>hop. hop\<lparr>hd_id := make_hop_id hop i\<rparr>) (pd_hops d)\<rparr>)"

definition dec_path :: "path_descriptor decoder" where
  "dec_path =
     dthen dec_str (\<lambda>name.
     dthen (dec_enum evidence_origin_of_code ''unknown evidence origin in encoding'') (\<lambda>origin.
     dthen dec_str (\<lambda>description.
     dthen dec_u32 (\<lambda>hop_count.
       if unat hop_count > kMaxHopsPerPath
       then dfail Ec_LimitExceeded ''encoded path declares too many hops''
       else dthen (dec_times (unat hop_count) dec_hop) (\<lambda>hops.
         dreturn (identified_path
           \<lparr>pd_id = nil_id, pd_name = name, pd_hops = hops, pd_origin = origin,
            pd_description = description\<rparr>))))))"

definition path_wf :: "path_descriptor \<Rightarrow> bool" where
  "path_wf d \<longleftrightarrow> str_ok (pd_name d) \<and> str_ok (pd_description d) \<and>
     length (pd_hops d) \<le> kMaxHopsPerPath \<and> pd_id d = make_path_id d \<and>
     list_all (\<lambda>h. hop_wf h \<and> hd_id h = make_hop_id h (pd_id d)) (pd_hops d)"

lemma make_hop_id_frame [simp]: "make_hop_id (h\<lparr>hd_id := i\<rparr>) path = make_hop_id h path"
  by (simp add: make_hop_id_def hop_parts_def)

lemma make_path_id_frame [simp]:
  "make_path_id (d\<lparr>pd_id := i\<rparr>) = make_path_id d" "make_path_id (d\<lparr>pd_hops := hs\<rparr>) = make_path_id d"
  by (simp_all add: make_path_id_def path_parts_def)

lemma dec_times_hops:
  "list_all hop_wf hs \<Longrightarrow>
     dec_times (length hs) dec_hop (concat (map enc_hop hs) @ rest)
       = Inr (map (\<lambda>h. h\<lparr>hd_id := nil_id\<rparr>) hs, rest)"
  by (induction hs) (simp_all add: codec_simps dec_hop_enc)

lemma unat_count_small: "n < 2 ^ 32 \<Longrightarrow> unat (word_of_nat n :: u32) = n"
  by (simp add: unat_of_nat take_bit_nat_eq_self)

lemma identified_path_eq:
  assumes "path_wf d"
  shows "identified_path (d\<lparr>pd_id := nil_id, pd_hops := map (\<lambda>h. h\<lparr>hd_id := nil_id\<rparr>) (pd_hops d)\<rparr>) = d"
proof -
  have "map (\<lambda>h. h\<lparr>hd_id := make_hop_id h (make_path_id d)\<rparr>) (pd_hops d) = pd_hops d"
    using assms by (intro map_idI) (auto simp: path_wf_def list_all_iff)
  then show ?thesis using assms by (simp add: identified_path_def Let_def path_wf_def comp_def)
qed

interpretation path_codec: codec enc_path dec_path path_wf
proof
  fix x rest
  assume wf: "path_wf x"
  then have count: "unat (word_of_nat (length (pd_hops x)) :: u32) = length (pd_hops x)"
    by (intro unat_count_small) (simp add: path_wf_def kMaxHopsPerPath_def)
  have hops: "list_all hop_wf (pd_hops x)" using wf by (auto simp: path_wf_def list_all_iff)
  have "dec_path (enc_path x @ rest)
      = Inr (identified_path (x\<lparr>pd_id := nil_id, pd_hops := map (\<lambda>h. h\<lparr>hd_id := nil_id\<rparr>) (pd_hops x)\<rparr>), rest)"
    using wf count hops
    by (cases x) (simp add: enc_path_def dec_path_def path_wf_def codec_simps dec_times_hops not_less)
  with identified_path_eq [OF wf] show "dec_path (enc_path x @ rest) = Inr (x, rest)" by simp
next
  show "extensible dec_path" unfolding dec_path_def by (intro extensible_intros)
qed

definition enc_generation :: "path_generation \<Rightarrow> bytes" where
  "enc_generation g =
     enc_id (pg_path g) @ enc_u64 (pg_ordinal g) @ enc_digest (pg_topology g) @ enc_u64 (pg_revision g)
     @ enc_i64 (pg_opened_at_utc_ns g) @ enc_optional_i64 (pg_closed_at_utc_ns g)
     @ enc_u32 (pg_hop_count g) @ enc_str (pg_cause g) @ enc_str (pg_close_reason g)"

definition dec_generation :: "path_generation decoder" where
  "dec_generation =
     dthen dec_id (\<lambda>path.
     dthen dec_u64 (\<lambda>ordinal.
       if ordinal = 0 then dfail Ec_ProtocolViolation ''generation ordinal must be non zero''
       else dthen dec_digest (\<lambda>topology.
     dthen dec_u64 (\<lambda>revision.
     dthen dec_i64 (\<lambda>opened.
     dthen dec_optional_i64 (\<lambda>closed_at.
     dthen dec_u32 (\<lambda>hop_count.
     dthen dec_str (\<lambda>cause.
     dthen dec_str (\<lambda>close_reason.
       dreturn \<lparr>pg_id = make_generation_id path ordinal topology, pg_path = path, pg_ordinal = ordinal,
                pg_topology = topology, pg_revision = revision, pg_opened_at_utc_ns = opened,
                pg_closed_at_utc_ns = closed_at, pg_hop_count = hop_count, pg_cause = cause,
                pg_close_reason = close_reason\<rparr>)))))))))"

definition generation_wf :: "path_generation \<Rightarrow> bool" where
  "generation_wf g \<longleftrightarrow> pg_ordinal g \<noteq> 0 \<and> i64_ok (pg_opened_at_utc_ns g) \<and>
     pred_option i64_ok (pg_closed_at_utc_ns g) \<and> str_ok (pg_cause g) \<and> str_ok (pg_close_reason g) \<and>
     pg_id g = make_generation_id (pg_path g) (pg_ordinal g) (pg_topology g)"

interpretation generation_codec: codec enc_generation dec_generation generation_wf
proof
  show "generation_wf x \<Longrightarrow> dec_generation (enc_generation x @ rest) = Inr (x, rest)" for x rest
    by (cases x) (simp add: enc_generation_def dec_generation_def generation_wf_def codec_simps)
  show "extensible dec_generation" unfolding dec_generation_def by (intro extensible_intros)
qed

lemmas descriptor_codec_simps [codec_simps] =
  time_point_codec.dec_enc clock_domain_codec.dec_enc equivalence_codec.dec_enc source_codec.dec_enc
  series_codec.dec_enc path_codec.dec_enc generation_codec.dec_enc

lemmas descriptor_extensible [extensible_intros] =
  time_point_codec.dec_ext clock_domain_codec.dec_ext equivalence_codec.dec_ext source_codec.dec_ext
  series_codec.dec_ext path_codec.dec_ext generation_codec.dec_ext

end
