(* ===== verification/Record_Codec.thy ===== *)
theory Record_Codec
  imports Codec
begin

text \<open>
  Canonical record encodings, second half: observations, batches, metric values, baselines,
  episodes, source guards and conflicts of \<^verbatim>\<open>src/codec.cpp\<close>. The readers of samples, batches
  and baselines end in the constructors that validate and address the content again, so what
  round trips is exactly what those constructors made.
\<close>

section \<open>Observations\<close>

definition enc_timing :: "hop_timing \<Rightarrow> bytes" where
  "enc_timing t = enc_id (ht_hop t) @ enc_time_point (ht_arrived t)"

definition dec_timing :: "hop_timing decoder" where
  "dec_timing = dthen dec_id (\<lambda>hop. dthen dec_time_point (\<lambda>arrived.
     dreturn \<lparr>ht_hop = hop, ht_arrived = arrived\<rparr>))"

definition enc_entry :: "string \<times> string \<Rightarrow> bytes" where
  "enc_entry kv = enc_str (fst kv) @ enc_str (snd kv)"

definition dec_entry :: "(string \<times> string) decoder" where
  "dec_entry = dthen dec_str (\<lambda>key. dthen dec_str (\<lambda>item. dreturn (key, item)))"

interpretation timing_codec: codec enc_timing dec_timing "\<lambda>t. time_point_wf (ht_arrived t)"
proof
  show "time_point_wf (ht_arrived x) \<Longrightarrow> dec_timing (enc_timing x @ rest) = Inr (x, rest)" for x rest
    by (simp add: enc_timing_def dec_timing_def codec_simps)
  show "extensible dec_timing" unfolding dec_timing_def by (intro extensible_intros)
qed

interpretation entry_codec: codec enc_entry dec_entry "\<lambda>kv. str_ok (fst kv) \<and> str_ok (snd kv)"
proof
  show "str_ok (fst x) \<and> str_ok (snd x) \<Longrightarrow> dec_entry (enc_entry x @ rest) = Inr (x, rest)" for x rest
    by (simp add: enc_entry_def dec_entry_def codec_simps)
  show "extensible dec_entry" unfolding dec_entry_def by (intro extensible_intros)
qed

definition metadata_of_entries :: "(string \<times> string) list \<Rightarrow> (string, string) omap" where
  "metadata_of_entries kvs = fold (\<lambda>kv m. om_emplace (fst kv) (snd kv) m) kvs []"

definition enc_sample :: "latency_sample \<Rightarrow> bytes" where
  "enc_sample s =
     enc_id (ls_series s) @ enc_id (ls_path s) @ enc_id (ls_generation s)
     @ enc_u64 (ls_generation_ordinal s) @ enc_id (pv_source (ls_provenance s))
     @ enc_u64 (pv_incarnation (ls_provenance s)) @ enc_u64 (pv_epoch (ls_provenance s))
     @ enc_u64 (pv_sequence (ls_provenance s))
     @ enc_u8 (source_authority_code (pv_authority (ls_provenance s)))
     @ enc_u8 (evidence_origin_code (pv_origin (ls_provenance s)))
     @ enc_str (pv_ingest_path (ls_provenance s)) @ enc_i64 (ls_latency_ns s)
     @ enc_time_point (ls_observed_at s) @ enc_time_point (ls_received_at s)
     @ enc_u32 (word_of_nat (length (ls_hop_timings s))) @ concat (map enc_timing (ls_hop_timings s))
     @ enc_u32 (word_of_nat (length (ls_metadata s)))
     @ concat (map enc_entry (om_entries (ls_metadata s)))"

definition dec_provenance :: "provenance decoder" where
  "dec_provenance =
     dthen dec_id (\<lambda>source.
     dthen dec_u64 (\<lambda>incarnation.
     dthen dec_u64 (\<lambda>epoch.
     dthen dec_u64 (\<lambda>sequence.
     dthen (dec_enum source_authority_of_code ''unknown source authority in sample encoding'') (\<lambda>authority.
     dthen (dec_enum evidence_origin_of_code ''unknown evidence origin in sample encoding'') (\<lambda>origin.
     dthen dec_str (\<lambda>ingest_path.
       dreturn \<lparr>pv_source = source, pv_incarnation = incarnation, pv_epoch = epoch,
                pv_sequence = sequence, pv_authority = authority, pv_origin = origin,
                pv_ingest_path = ingest_path\<rparr>)))))))"

definition dec_sample :: "latency_sample decoder" where
  "dec_sample =
     dthen dec_id (\<lambda>series.
     dthen dec_id (\<lambda>path.
     dthen dec_id (\<lambda>generation.
     dthen dec_u64 (\<lambda>ordinal.
     dthen dec_provenance (\<lambda>prov.
     dthen dec_i64 (\<lambda>latency.
     dthen dec_time_point (\<lambda>observed.
     dthen dec_time_point (\<lambda>received.
     dthen dec_u32 (\<lambda>hop_count.
       if unat hop_count > kMaxHopsPerPath
       then dfail Ec_LimitExceeded ''encoded sample carries too many hop timings''
       else dthen (dec_times (unat hop_count) dec_timing) (\<lambda>timings.
     dthen dec_u32 (\<lambda>metadata_count.
       if unat metadata_count > kMaxMetadataEntries
       then dfail Ec_LimitExceeded ''encoded sample carries too many metadata entries''
       else dthen (dec_times (unat metadata_count) dec_entry) (\<lambda>kvs.
         dlift (make_sample
           \<lparr>ls_id = nil_id, ls_series = series, ls_path = path, ls_generation = generation,
            ls_generation_ordinal = ordinal, ls_provenance = prov, ls_latency_ns = latency,
            ls_observed_at = observed, ls_received_at = received, ls_hop_timings = timings,
            ls_metadata = metadata_of_entries kvs, ls_content = zero_digest\<rparr>)))))))))))))"

text \<open>What the encoding can carry, before any validation.\<close>

definition sample_fields_ok :: "latency_sample \<Rightarrow> bool" where
  "sample_fields_ok s \<longleftrightarrow> om_invar (ls_metadata s) \<and> str_ok (pv_ingest_path (ls_provenance s)) \<and>
     i64_ok (ls_latency_ns s) \<and> time_point_wf (ls_observed_at s) \<and> time_point_wf (ls_received_at s) \<and>
     length (ls_hop_timings s) \<le> kMaxHopsPerPath \<and> length (ls_metadata s) \<le> kMaxMetadataEntries \<and>
     list_all (\<lambda>t. time_point_wf (ht_arrived t)) (ls_hop_timings s) \<and>
     list_all (\<lambda>kv. str_ok (fst kv) \<and> str_ok (snd kv)) (ls_metadata s)"

definition sample_wf :: "latency_sample \<Rightarrow> bool" where
  "sample_wf s \<longleftrightarrow> sample_made s \<and> sample_fields_ok s"

lemma dec_provenance_enc [codec_simps]:
  "str_ok (pv_ingest_path p) \<Longrightarrow>
     dec_provenance (enc_id (pv_source p) @ enc_u64 (pv_incarnation p) @ enc_u64 (pv_epoch p)
       @ enc_u64 (pv_sequence p) @ enc_u8 (source_authority_code (pv_authority p))
       @ enc_u8 (evidence_origin_code (pv_origin p)) @ enc_str (pv_ingest_path p) @ rest) = Inr (p, rest)"
  by (cases p) (simp add: dec_provenance_def codec_simps)

lemma extensible_provenance [extensible_intros]: "extensible dec_provenance"
  unfolding dec_provenance_def by (intro extensible_intros)

text \<open>Reading the entries of an ordered map back gives the map.\<close>

lemma om_put_last: "list_all (\<lambda>e. fst e < k) m \<Longrightarrow> om_put k v m = m @ [(k, v)]"
  by (induction m) auto

lemma om_find_none_less: "list_all (\<lambda>e. fst e < k) m \<Longrightarrow> om_find k m = None"
  by (induction m) auto

lemma fold_emplace:
  "sorted_wrt (<) (map fst (m @ kvs)) \<Longrightarrow> fold (\<lambda>kv m. om_emplace (fst kv) (snd kv) m) kvs m = m @ kvs"
proof (induction kvs arbitrary: m)
  case (Cons kv kvs)
  then have "list_all (\<lambda>e. fst e < fst kv) m"
    by (auto simp: sorted_wrt_append list_all_iff)
  then have "om_emplace (fst kv) (snd kv) m = m @ [kv]"
    by (simp add: om_emplace_def om_find_none_less om_put_last)
  with Cons show ?case by simp
qed simp

lemma metadata_of_entries_id: "om_invar m \<Longrightarrow> metadata_of_entries m = m"
  using fold_emplace [of "[]" m] by (simp add: metadata_of_entries_def om_invar_def)

lemma make_sample_blank:
  "sample_made s \<Longrightarrow> make_sample (s\<lparr>ls_id := nil_id, ls_content := zero_digest\<rparr>) = Inr s"
  by (auto simp: sample_made_def make_sample_def validate_sample_iff [THEN iffD2] Let_def
      sample_content_digest_def id_is_nil_iff)

text \<open>The limits of a valid observation keep it encodable.\<close>

lemma sample_made_fields:
  assumes "sample_made s" "om_invar (ls_metadata s)" "str_ok (pv_ingest_path (ls_provenance s))"
    "time_point_wf (ls_observed_at s)" "time_point_wf (ls_received_at s)"
    "list_all (\<lambda>t. time_point_wf (ht_arrived t)) (ls_hop_timings s)"
  shows "sample_fields_ok s"
  using assms
  by (auto simp: sample_made_def sample_ok_def sample_fields_ok_def metadata_ok_def list_all_iff str_ok_def
      limit_defs i64_bounds)

text \<open>Reading back what was written is the validating constructor on the written content.\<close>

lemma dec_sample_enc:
  assumes ok: "sample_fields_ok x"
  shows "dec_sample (enc_sample x @ rest)
           = dlift (make_sample (x\<lparr>ls_id := nil_id, ls_content := zero_digest\<rparr>)) rest"
proof -
  have t: "list_all (\<lambda>t. time_point_wf (ht_arrived t)) (ls_hop_timings x)"
    and m: "list_all (\<lambda>kv. str_ok (fst kv) \<and> str_ok (snd kv)) (ls_metadata x)"
    using ok by (simp_all add: sample_fields_ok_def)
  have "unat (word_of_nat (length (ls_hop_timings x)) :: u32) = length (ls_hop_timings x)"
    "unat (word_of_nat (length (ls_metadata x)) :: u32) = length (ls_metadata x)"
    using ok by (auto simp: sample_fields_ok_def limit_defs intro!: unat_count_small)
  then show ?thesis
    using ok metadata_of_entries_id [of "ls_metadata x"] timing_codec.dec_times_enc [OF t]
      entry_codec.dec_times_enc [OF m]
    by (cases x) (simp add: enc_sample_def dec_sample_def sample_fields_ok_def om_entries_def codec_simps not_less)
qed

interpretation sample_codec: codec enc_sample dec_sample sample_wf
proof
  show "sample_wf x \<Longrightarrow> dec_sample (enc_sample x @ rest) = Inr (x, rest)" for x rest
    by (simp add: sample_wf_def dec_sample_enc make_sample_blank dlift_app)
  show "extensible dec_sample"
    unfolding dec_sample_def by (intro extensible_intros timing_codec.dec_ext entry_codec.dec_ext)
qed

section \<open>Batches\<close>

definition enc_batch_header :: "batch_header \<Rightarrow> bytes" where
  "enc_batch_header h =
     enc_id (bh_source h) @ enc_u64 (bh_incarnation h) @ enc_u64 (bh_epoch h) @ enc_u64 (bh_sequence h)
     @ enc_u8 (source_authority_code (bh_authority h)) @ enc_u8 (evidence_origin_code (bh_origin h))
     @ enc_str (bh_ingest_path h) @ enc_id (bh_series h) @ enc_id (bh_path h) @ enc_id (bh_generation h)
     @ enc_u64 (bh_generation_ordinal h) @ enc_id (bh_observation_clock h)
     @ enc_u32 (bh_protocol_revision h)"

definition dec_batch_header :: "batch_header decoder" where
  "dec_batch_header =
     dthen dec_id (\<lambda>source.
     dthen dec_u64 (\<lambda>incarnation.
     dthen dec_u64 (\<lambda>epoch.
     dthen dec_u64 (\<lambda>sequence.
     dthen (dec_enum source_authority_of_code ''unknown source authority in batch header'') (\<lambda>authority.
     dthen (dec_enum evidence_origin_of_code ''unknown evidence origin in batch header'') (\<lambda>origin.
     dthen dec_str (\<lambda>ingest_path.
     dthen dec_id (\<lambda>series.
     dthen dec_id (\<lambda>path.
     dthen dec_id (\<lambda>generation.
     dthen dec_u64 (\<lambda>ordinal.
     dthen dec_id (\<lambda>clock.
     dthen dec_u32 (\<lambda>revision.
       dreturn \<lparr>bh_source = source, bh_incarnation = incarnation, bh_epoch = epoch,
                bh_sequence = sequence, bh_authority = authority, bh_origin = origin,
                bh_ingest_path = ingest_path, bh_series = series, bh_path = path,
                bh_generation = generation, bh_generation_ordinal = ordinal,
                bh_observation_clock = clock, bh_protocol_revision = revision\<rparr>)))))))))))))"

interpretation batch_header_codec: codec enc_batch_header dec_batch_header "\<lambda>h. str_ok (bh_ingest_path h)"
proof
  show "str_ok (bh_ingest_path x) \<Longrightarrow> dec_batch_header (enc_batch_header x @ rest) = Inr (x, rest)" for x rest
    by (simp add: enc_batch_header_def dec_batch_header_def codec_simps)
  show "extensible dec_batch_header" unfolding dec_batch_header_def by (intro extensible_intros)
qed

definition enc_batch :: "latency_batch \<Rightarrow> bytes" where
  "enc_batch b =
     enc_batch_header (lb_header b) @ enc_u32 (word_of_nat (length (lb_samples b)))
     @ concat (map enc_sample (lb_samples b))"

definition dec_batch :: "latency_batch decoder" where
  "dec_batch =
     dthen dec_batch_header (\<lambda>header.
     dthen dec_u32 (\<lambda>count.
       if count = 0 \<or> unat count > kMaxSamplesPerBatch
       then dfail Ec_LimitExceeded ''encoded batch declares an unsupported sample count''
       else dthen (dec_times (unat count) dec_sample) (\<lambda>samples.
         dlift (make_batch
           \<lparr>lb_id = nil_id, lb_header = header, lb_samples = samples, lb_content = zero_digest\<rparr>))))"

definition batch_made :: "latency_batch \<Rightarrow> bool" where
  "batch_made b \<longleftrightarrow> validate_batch b = success \<and> lb_content b = batch_content_digest b \<and>
     lb_id b = id_from_digest (lb_content b)"

definition batch_wf :: "latency_batch \<Rightarrow> bool" where
  "batch_wf b \<longleftrightarrow> batch_made b \<and> str_ok (bh_ingest_path (lb_header b)) \<and> list_all sample_wf (lb_samples b)"

lemma batch_parts_frame [simp]:
  "batch_parts (b\<lparr>lb_id := i\<rparr>) = batch_parts b" "batch_parts (b\<lparr>lb_content := c\<rparr>) = batch_parts b"
  by (simp_all add: batch_parts_def)

lemma validate_batch_frame [simp]:
  "validate_batch (b\<lparr>lb_id := i\<rparr>) = validate_batch b" "validate_batch (b\<lparr>lb_content := c\<rparr>) = validate_batch b"
  by (simp_all add: validate_batch_def Let_def)

lemma make_batch_blank:
  "batch_made b \<Longrightarrow> make_batch (b\<lparr>lb_id := nil_id, lb_content := zero_digest\<rparr>) = Inr b"
  by (simp add: batch_made_def make_batch_def batch_content_digest_def)

lemma make_batch_made: "make_batch b = Inr c \<Longrightarrow> batch_made c"
  by (auto simp: make_batch_def batch_made_def res_bind_eq_Inr Let_def batch_content_digest_def)

interpretation batch_codec: codec enc_batch dec_batch batch_wf
proof
  fix x rest
  assume wf: "batch_wf x"
  then have made: "batch_made x" and ss: "list_all sample_wf (lb_samples x)" by (simp_all add: batch_wf_def)
  have len: "0 < length (lb_samples x)" "length (lb_samples x) \<le> kMaxSamplesPerBatch"
    using validate_batch_uniform [of x] made by (auto simp: batch_made_def batch_uniform_def)
  then have count: "unat (word_of_nat (length (lb_samples x)) :: u32) = length (lb_samples x)"
    by (intro unat_count_small) (simp add: kMaxSamplesPerBatch_def)
  with len have "(word_of_nat (length (lb_samples x)) :: u32) \<noteq> 0" by (metis not_less_zero unat_0)
  then have "dec_batch (enc_batch x @ rest)
      = dlift (make_batch (x\<lparr>lb_id := nil_id, lb_content := zero_digest\<rparr>)) rest"
    using wf count len sample_codec.dec_times_enc [OF ss]
    by (cases x) (simp add: enc_batch_def dec_batch_def batch_wf_def codec_simps batch_header_codec.dec_enc not_less)
  then show "dec_batch (enc_batch x @ rest) = Inr (x, rest)"
    by (simp add: make_batch_blank [OF made] dlift_app)
next
  show "extensible dec_batch"
    unfolding dec_batch_def by (intro extensible_intros batch_header_codec.dec_ext sample_codec.dec_ext)
qed

section \<open>Metric values and baselines\<close>

definition enc_metric_value :: "metric_value \<Rightarrow> bytes" where
  "enc_metric_value v =
     enc_id (mv_id v) @ enc_u32 (mv_version v) @ enc_f64 (mv_value v)
     @ enc_u64 (word_of_nat (mv_sample_count v)) @ enc_u64 (word_of_nat (mv_term_count v))"

definition dec_metric_value :: "metric_value decoder" where
  "dec_metric_value =
     dthen dec_id (\<lambda>i.
       case find_metric i of
         None \<Rightarrow> dfail Ec_NotFound ''encoded metric identity is not known to this build''
       | Some d \<Rightarrow>
           dthen dec_u32 (\<lambda>version.
             if version \<noteq> md_version d
             then dfail Ec_VersionUnsupported ''encoded metric definition version differs from this build''
             else dthen dec_f64 (\<lambda>v.
                  dthen dec_u64 (\<lambda>samples.
                  dthen dec_u64 (\<lambda>terms.
                    dreturn \<lparr>mv_id = i, mv_key = md_key d, mv_name = md_name d, mv_version = version,
                             mv_unit = md_unit d, mv_value = v, mv_sample_count = unat samples,
                             mv_term_count = unat terms\<rparr>)))))"

definition metric_value_wf :: "metric_value \<Rightarrow> bool" where
  "metric_value_wf v \<longleftrightarrow>
     (case find_metric (mv_id v) of
        None \<Rightarrow> False
      | Some d \<Rightarrow> mv_key v = md_key d \<and> mv_name v = md_name d \<and> mv_version v = md_version d \<and>
                 mv_unit v = md_unit d) \<and>
     mv_sample_count v < 2 ^ 64 \<and> mv_term_count v < 2 ^ 64"

lemma unat_word64_small: "n < 2 ^ 64 \<Longrightarrow> unat (word_of_nat n :: u64) = n"
  by (simp add: unat_of_nat take_bit_nat_eq_self)

interpretation metric_value_codec: codec enc_metric_value dec_metric_value metric_value_wf
proof
  show "metric_value_wf x \<Longrightarrow> dec_metric_value (enc_metric_value x @ rest) = Inr (x, rest)" for x rest
    by (cases x) (auto simp: enc_metric_value_def dec_metric_value_def metric_value_wf_def codec_simps
        unat_word64_small [simplified] split: option.splits)
  show "extensible dec_metric_value"
    unfolding dec_metric_value_def by (intro extensible_intros)
qed

definition enc_baseline :: "baseline \<Rightarrow> bytes" where
  "enc_baseline b =
     enc_str (bl_name b) @ enc_id (bl_series b) @ enc_id (bl_path b) @ enc_id (bl_generation b)
     @ enc_u64 (bl_generation_ordinal b) @ enc_id (bl_window b) @ enc_id (bl_policy b)
     @ enc_u64 (bl_sample_count b) @ enc_u64 (bl_fresh_sample_count b)
     @ enc_optional_i64 (bl_first_observation_utc_ns b) @ enc_optional_i64 (bl_last_observation_utc_ns b)
     @ enc_u8 (evidence_state_code (bl_evidence b)) @ enc_u8 (evidence_origin_code (bl_origin b))
     @ enc_i64 (bl_created_at_utc_ns b) @ enc_str (bl_note b)
     @ enc_u32 (word_of_nat (length (bl_metrics b))) @ concat (map enc_metric_value (bl_metrics b))"

definition dec_baseline :: "baseline decoder" where
  "dec_baseline =
     dthen dec_str (\<lambda>name.
     dthen dec_id (\<lambda>series.
     dthen dec_id (\<lambda>path.
     dthen dec_id (\<lambda>generation.
     dthen dec_u64 (\<lambda>ordinal.
     dthen dec_id (\<lambda>window.
     dthen dec_id (\<lambda>policy.
     dthen dec_u64 (\<lambda>sample_count.
     dthen dec_u64 (\<lambda>fresh_sample_count.
     dthen dec_optional_i64 (\<lambda>first_at.
     dthen dec_optional_i64 (\<lambda>last_at.
     dthen (dec_enum evidence_state_of_code ''unknown evidence state in baseline encoding'') (\<lambda>evidence.
     dthen (dec_enum evidence_origin_of_code ''unknown evidence origin in baseline encoding'') (\<lambda>origin.
     dthen dec_i64 (\<lambda>created.
     dthen dec_str (\<lambda>note.
     dthen dec_u32 (\<lambda>metric_count.
       if unat metric_count > kMaxWatchedMetrics * 4
       then dfail Ec_LimitExceeded ''encoded baseline holds too many metric values''
       else dthen (dec_times (unat metric_count) dec_metric_value) (\<lambda>metrics.
         dlift (make_baseline
           \<lparr>bl_id = nil_id, bl_name = name, bl_series = series, bl_path = path,
            bl_generation = generation, bl_generation_ordinal = ordinal, bl_window = window,
            bl_policy = policy, bl_sample_count = sample_count,
            bl_fresh_sample_count = fresh_sample_count, bl_first_observation_utc_ns = first_at,
            bl_last_observation_utc_ns = last_at, bl_evidence = evidence, bl_origin = origin,
            bl_created_at_utc_ns = created, bl_metrics = metrics, bl_digest = zero_digest,
            bl_note = note\<rparr>))))))))))))))))))"

definition baseline_wf :: "baseline \<Rightarrow> bool" where
  "baseline_wf b \<longleftrightarrow> make_baseline b = Inr b \<and> str_ok (bl_name b) \<and> str_ok (bl_note b) \<and>
     pred_option i64_ok (bl_first_observation_utc_ns b) \<and> pred_option i64_ok (bl_last_observation_utc_ns b) \<and>
     i64_ok (bl_created_at_utc_ns b) \<and> length (bl_metrics b) \<le> kMaxWatchedMetrics * 4 \<and>
     list_all metric_value_wf (bl_metrics b)"

lemma make_baseline_blank: "make_baseline (b\<lparr>bl_id := i, bl_digest := d\<rparr>) = make_baseline b"
  by (simp add: make_baseline_def baseline_parts_def Let_def)

interpretation baseline_codec: codec enc_baseline dec_baseline baseline_wf
proof
  fix x rest
  assume wf: "baseline_wf x"
  then have ms: "list_all metric_value_wf (bl_metrics x)" by (simp add: baseline_wf_def)
  have "unat (word_of_nat (length (bl_metrics x)) :: u32) = length (bl_metrics x)"
    using wf by (intro unat_count_small) (simp add: baseline_wf_def kMaxWatchedMetrics_def)
  then have "dec_baseline (enc_baseline x @ rest)
      = dlift (make_baseline (x\<lparr>bl_id := nil_id, bl_digest := zero_digest\<rparr>)) rest"
    using wf metric_value_codec.dec_times_enc [OF ms]
    by (cases x) (simp add: enc_baseline_def dec_baseline_def baseline_wf_def codec_simps not_less)
  with wf show "dec_baseline (enc_baseline x @ rest) = Inr (x, rest)"
    unfolding make_baseline_blank by (simp add: baseline_wf_def dlift_app)
next
  show "extensible dec_baseline"
    unfolding dec_baseline_def by (intro extensible_intros metric_value_codec.dec_ext)
qed

section \<open>Episodes\<close>

definition enc_episode :: "episode \<Rightarrow> bytes" where
  "enc_episode e =
     enc_id (ep_series e) @ enc_id (ep_path e) @ enc_id (ep_generation e)
     @ enc_u64 (ep_generation_ordinal e) @ enc_id (ep_policy e) @ enc_id (ep_window e)
     @ enc_u8 (instability_level_code (ep_peak_level e)) @ enc_u8 (metric_key_code (ep_driver_key e))
     @ enc_id (ep_driver_id e) @ enc_f64 (ep_opening_value e) @ enc_f64 (ep_peak_value e)
     @ enc_i64 (ep_opened_at_utc_ns e) @ enc_optional_i64 (ep_closed_at_utc_ns e)
     @ enc_u64 (ep_observations e) @ enc_u64 (ep_breach_observations e)
     @ enc_u64 (ep_recovery_observations e) @ enc_u32 (word_of_nat (ep_close_windows_required e))
     @ enc_u8 (episode_close_reason_code (ep_close_reason e)) @ enc_str (ep_close_detail e)
     @ enc_u32 (word_of_nat (length (ep_reasons e))) @ concat (map enc_str (ep_reasons e))"

definition driver_key_of_code :: "u8 \<Rightarrow> metric_key option" where
  "driver_key_of_code raw =
     (if raw > metric_key_code Metric_LatencyP99 then None else metric_key_of_code raw)"

definition identified_episode :: "episode \<Rightarrow> episode" where
  "identified_episode e = e\<lparr>ep_id := make_episode_id e\<rparr>"

definition dec_episode :: "episode decoder" where
  "dec_episode =
     dthen dec_id (\<lambda>series.
     dthen dec_id (\<lambda>path.
     dthen dec_id (\<lambda>generation.
     dthen dec_u64 (\<lambda>ordinal.
     dthen dec_id (\<lambda>policy.
     dthen dec_id (\<lambda>window.
     dthen (dec_enum instability_level_of_code ''unknown instability level in episode encoding'') (\<lambda>level.
     dthen (dec_enum driver_key_of_code ''unknown metric key in episode encoding'') (\<lambda>driver.
     dthen dec_id (\<lambda>driver_id.
     dthen dec_f64 (\<lambda>opening.
     dthen dec_f64 (\<lambda>peak.
     dthen dec_i64 (\<lambda>opened.
     dthen dec_optional_i64 (\<lambda>closed_at.
     dthen dec_u64 (\<lambda>observations.
     dthen dec_u64 (\<lambda>breaches.
     dthen dec_u64 (\<lambda>recoveries.
     dthen dec_u32 (\<lambda>required.
     dthen (dec_enum episode_close_reason_of_code ''unknown episode close reason in encoding'') (\<lambda>reason.
     dthen dec_str (\<lambda>detail.
     dthen dec_u32 (\<lambda>reason_count.
       if unat reason_count > kMaxExplanationLines
       then dfail Ec_LimitExceeded ''encoded episode carries too many reasons''
       else dthen (dec_times (unat reason_count) dec_str) (\<lambda>reasons.
         dreturn (identified_episode
           \<lparr>ep_id = nil_id, ep_series = series, ep_path = path, ep_generation = generation,
            ep_generation_ordinal = ordinal, ep_policy = policy, ep_window = window,
            ep_peak_level = level, ep_driver_key = driver, ep_driver_id = driver_id,
            ep_opening_value = opening, ep_peak_value = peak, ep_opened_at_utc_ns = opened,
            ep_closed_at_utc_ns = closed_at, ep_observations = observations,
            ep_breach_observations = breaches, ep_recovery_observations = recoveries,
            ep_close_windows_required = unat required, ep_close_reason = reason,
            ep_close_detail = detail, ep_reasons = reasons\<rparr>))))))))))))))))))))))"

text \<open>What the encoding can carry, the identity apart.\<close>

definition episode_fields_ok :: "episode \<Rightarrow> bool" where
  "episode_fields_ok e \<longleftrightarrow> ep_driver_key e \<noteq> Metric_Count \<and> i64_ok (ep_opened_at_utc_ns e) \<and>
     pred_option i64_ok (ep_closed_at_utc_ns e) \<and> ep_close_windows_required e < 2 ^ 32 \<and>
     str_ok (ep_close_detail e) \<and> length (ep_reasons e) \<le> kMaxExplanationLines \<and>
     list_all str_ok (ep_reasons e)"

definition episode_wf :: "episode \<Rightarrow> bool" where
  "episode_wf e \<longleftrightarrow> episode_fields_ok e \<and> ep_id e = make_episode_id e"

lemma driver_key_of_code_code: "k \<noteq> Metric_Count \<Longrightarrow> driver_key_of_code (metric_key_code k) = Some k"
  by (cases k) (simp_all add: driver_key_of_code_def metric_key_of_code_def)

lemma dec_driver_enc [codec_simps]:
  "k \<noteq> Metric_Count \<Longrightarrow>
     dec_enum driver_key_of_code message (enc_u8 (metric_key_code k) @ rest) = Inr (k, rest)"
  by (simp add: dec_enum_def codec_simps driver_key_of_code_code)

lemma make_episode_id_frame [simp]: "make_episode_id (e\<lparr>ep_id := i\<rparr>) = make_episode_id e"
  by (simp add: make_episode_id_def episode_parts_def)

text \<open>
  Whatever identity an episode carries, the reader derives it again from the fields: an episode
  whose driver changed after it was opened comes back under another identity.
\<close>

lemma dec_episode_enc:
  assumes ok: "episode_fields_ok x"
  shows "dec_episode (enc_episode x @ rest) = Inr (identified_episode x, rest)"
proof -
  have rs: "list_all str_ok (ep_reasons x)" using ok by (simp add: episode_fields_ok_def)
  have "unat (word_of_nat (length (ep_reasons x)) :: u32) = length (ep_reasons x)"
    using ok by (intro unat_count_small) (simp add: episode_fields_ok_def kMaxExplanationLines_def)
  moreover have "unat (word_of_nat (ep_close_windows_required x) :: u32) = ep_close_windows_required x"
    using ok by (intro unat_count_small) (simp add: episode_fields_ok_def)
  ultimately have "dec_episode (enc_episode x @ rest) = Inr (identified_episode (x\<lparr>ep_id := nil_id\<rparr>), rest)"
    using ok strc.dec_times_enc [OF rs]
    by (cases x) (simp add: enc_episode_def dec_episode_def episode_fields_ok_def codec_simps not_less)
  then show ?thesis by (simp add: identified_episode_def)
qed

interpretation episode_codec: codec enc_episode dec_episode episode_wf
proof
  show "episode_wf x \<Longrightarrow> dec_episode (enc_episode x @ rest) = Inr (x, rest)" for x rest
    by (simp add: episode_wf_def dec_episode_enc identified_episode_def)
  show "extensible dec_episode" unfolding dec_episode_def by (intro extensible_intros)
qed

section \<open>Source guards and conflicts\<close>

definition enc_source_guard :: "source_id \<times> source_guard \<Rightarrow> bytes" where
  "enc_source_guard sg = (case sg of (source, g) \<Rightarrow>
     enc_id source @ enc_u64 (sg_incarnation g) @ enc_u64 (sg_epoch g) @ enc_u64 (sg_last_sequence g)
     @ enc_digest (sg_last_content g) @ enc_bool (sg_initialized g))"

definition dec_source_guard :: "(source_id \<times> source_guard) decoder" where
  "dec_source_guard =
     dthen dec_id (\<lambda>source.
     dthen dec_u64 (\<lambda>incarnation.
     dthen dec_u64 (\<lambda>epoch.
     dthen dec_u64 (\<lambda>sequence.
     dthen dec_digest (\<lambda>content.
     dthen dec_bool (\<lambda>initialized.
       dreturn (source, \<lparr>sg_incarnation = incarnation, sg_epoch = epoch, sg_last_sequence = sequence,
                        sg_last_content = content, sg_initialized = initialized\<rparr>)))))))"

interpretation source_guard_codec: codec enc_source_guard dec_source_guard "\<lambda>_. True"
proof
  show "dec_source_guard (enc_source_guard x @ rest) = Inr (x, rest)" for x rest
    by (cases x) (simp add: enc_source_guard_def dec_source_guard_def codec_simps)
  show "extensible dec_source_guard" unfolding dec_source_guard_def by (intro extensible_intros)
qed

definition enc_conflict :: "conflict_record \<Rightarrow> bytes" where
  "enc_conflict r =
     enc_id (cr_series r) @ enc_id (cr_path r) @ enc_id (cr_generation r) @ enc_u64 (cr_sequence r)
     @ enc_id (cr_source_a r) @ enc_id (cr_source_b r) @ enc_digest (cr_content_a r)
     @ enc_digest (cr_content_b r) @ enc_u8 (source_authority_code (cr_authority_a r))
     @ enc_u8 (source_authority_code (cr_authority_b r)) @ enc_i64 (cr_detected_at_utc_ns r)
     @ enc_u8 (conflict_outcome_code (cr_outcome r)) @ enc_bool (cr_winner r \<noteq> None)
     @ (case cr_winner r of None \<Rightarrow> [] | Some w \<Rightarrow> enc_id w) @ enc_str (cr_reason r)"

text \<open>Both authority bytes are read before either is checked.\<close>

definition dec_authorities :: "(source_authority \<times> source_authority) decoder" where
  "dec_authorities =
     dthen dec_u8 (\<lambda>a. dthen dec_u8 (\<lambda>b.
       case (source_authority_of_code a, source_authority_of_code b) of
         (Some x, Some y) \<Rightarrow> dreturn (x, y)
       | _ \<Rightarrow> dfail Ec_ProtocolViolation ''unknown source authority in conflict encoding''))"

definition dec_conflict :: "conflict_record decoder" where
  "dec_conflict =
     dthen dec_id (\<lambda>series.
     dthen dec_id (\<lambda>path.
     dthen dec_id (\<lambda>generation.
     dthen dec_u64 (\<lambda>sequence.
     dthen dec_id (\<lambda>source_a.
     dthen dec_id (\<lambda>source_b.
     dthen dec_digest (\<lambda>content_a.
     dthen dec_digest (\<lambda>content_b.
     dthen dec_authorities (\<lambda>authorities.
     dthen dec_i64 (\<lambda>detected.
     dthen (dec_enum conflict_outcome_of_code ''unknown conflict outcome in encoding'') (\<lambda>outcome.
     dthen dec_bool (\<lambda>has_winner.
     dthen (if has_winner then dthen dec_id (\<lambda>w. dreturn (Some w)) else dreturn None) (\<lambda>winner.
     dthen dec_str (\<lambda>reason.
       dreturn (make_conflict_record
         \<lparr>cr_series = series, cr_path = path, cr_generation = generation, cr_sequence = sequence,
          cr_source_a = source_a, cr_source_b = source_b, cr_content_a = content_a,
          cr_content_b = content_b, cr_authority_a = fst authorities, cr_authority_b = snd authorities,
          cr_detected_at_utc_ns = detected, cr_outcome = outcome, cr_winner = winner,
          cr_reason = reason, cr_identity = zero_digest\<rparr>)))))))))))))))"

definition conflict_wf :: "conflict_record \<Rightarrow> bool" where
  "conflict_wf r \<longleftrightarrow> make_conflict_record r = r \<and> i64_ok (cr_detected_at_utc_ns r) \<and> str_ok (cr_reason r)"

lemma dec_authorities_enc [codec_simps]:
  "dec_authorities (enc_u8 (source_authority_code a) @ enc_u8 (source_authority_code b) @ rest)
     = Inr ((a, b), rest)"
  by (simp add: dec_authorities_def codec_simps source_authority_enum.of_code_code)

lemma extensible_authorities [extensible_intros]: "extensible dec_authorities"
  unfolding dec_authorities_def by (intro extensible_intros)

lemma make_conflict_blank:
  "make_conflict_record (r\<lparr>cr_identity := i\<rparr>) = make_conflict_record r"
  by (simp add: make_conflict_record_def conflict_parts_def split: prod.split)

interpretation conflict_codec: codec enc_conflict dec_conflict conflict_wf
proof
  fix x rest
  assume wf: "conflict_wf x"
  then have "dec_conflict (enc_conflict x @ rest) = Inr (make_conflict_record (x\<lparr>cr_identity := zero_digest\<rparr>), rest)"
    by (cases x; cases "cr_winner x")
       (simp_all add: enc_conflict_def dec_conflict_def conflict_wf_def codec_simps)
  with wf show "dec_conflict (enc_conflict x @ rest) = Inr (x, rest)"
    unfolding make_conflict_blank by (simp add: conflict_wf_def)
next
  show "extensible dec_conflict" unfolding dec_conflict_def by (intro extensible_intros)
qed

section \<open>Properties\<close>

text \<open>
  Reading the encoding of an observation, whatever bytes follow it, is the validating
  constructor applied to the written content: an observation that is not valid comes back as the
  constructor's error, and a made one as itself, identity and content address derived anew.
\<close>

lemma sample_encoding_faithful:
  assumes "sample_fields_ok s"
  shows "dec_sample (enc_sample s @ rest)
           = dlift (make_sample (s\<lparr>ls_id := nil_id, ls_content := zero_digest\<rparr>)) rest \<and>
         (sample_made s \<longrightarrow> dec_sample (enc_sample s @ rest) = Inr (s, rest))"
  using dec_sample_enc [OF assms] assms by (simp add: make_sample_blank dlift_app)

lemma sample_encoding_faithful_witness:
  "dec_sample (enc_sample ((sample_at 1 10 7)\<lparr>ls_series := nil_id\<rparr>))
     = fail Ec_InvalidArgument ''sample requires a series identity''"
  using sample_encoding_faithful [of "(sample_at 1 10 7)\<lparr>ls_series := nil_id\<rparr>" "[]"]
  by (simp add: sample_fields_ok_def sample_at_def om_invar_def str_ok_def time_point_wf_def i64_bounds
      make_sample_def validate_sample_def id_is_nil_iff dlift_def)

text \<open>
  C37: Descriptors, conflicts and guards read back as written, whatever follows them, once their
  identities are the derived ones; an episode always reads back with the identity its present
  fields derive, so one whose driver changed after it was opened changes identity when it is
  stored.
\<close>

lemma record_round_trips:
  assumes "path_wf p" "series_wf s" "source_wf d" "generation_wf g" "conflict_wf c" "episode_fields_ok e"
  shows "dec_path (enc_path p @ r) = Inr (p, r) \<and> dec_series (enc_series s @ r) = Inr (s, r) \<and>
         dec_source (enc_source d @ r) = Inr (d, r) \<and> dec_generation (enc_generation g @ r) = Inr (g, r) \<and>
         dec_conflict (enc_conflict c @ r) = Inr (c, r) \<and>
         dec_source_guard (enc_source_guard sg @ r) = Inr (sg, r) \<and>
         dec_episode (enc_episode e @ r) = Inr (e\<lparr>ep_id := make_episode_id e\<rparr>, r)"
  using assms
  by (simp add: path_codec.dec_enc series_codec.dec_enc source_codec.dec_enc generation_codec.dec_enc
      conflict_codec.dec_enc source_guard_codec.dec_enc dec_episode_enc identified_episode_def)

definition stored_path :: path_descriptor where
  "stored_path = identified_path
     \<lparr>pd_id = nil_id, pd_name = ''p'',
      pd_hops = [\<lparr>hd_id = nil_id, hd_index = 0, hd_name = ''h'', hd_timing_clock = None,
                  hd_origin = Origin_Real, hd_device_note = ''''\<rparr>],
      pd_origin = Origin_Real, pd_description = ''''\<rparr>"

definition stored_source :: source_descriptor where
  "stored_source = identified_source
     \<lparr>sd_id = nil_id, sd_name = ''s'', sd_authority = Authority_Authoritative, sd_origin = Origin_Real,
      sd_clock_domain = StrongId 3, sd_description = '''', sd_protocol_revision = 1\<rparr>"

definition stored_generation :: path_generation where
  "stored_generation =
     \<lparr>pg_id = make_generation_id (StrongId 2) 1 zero_digest, pg_path = StrongId 2, pg_ordinal = 1,
      pg_topology = zero_digest, pg_revision = 0, pg_opened_at_utc_ns = 5, pg_closed_at_utc_ns = Some 9,
      pg_hop_count = 1, pg_cause = ''c'', pg_close_reason = ''r''\<rparr>"

definition stored_conflict :: conflict_record where
  "stored_conflict = make_conflict_record
     \<lparr>cr_series = StrongId 1, cr_path = StrongId 2, cr_generation = StrongId 3, cr_sequence = 4,
      cr_source_a = StrongId 4, cr_source_b = StrongId 5, cr_content_a = zero_digest,
      cr_content_b = Digest 1, cr_authority_a = Authority_Authoritative,
      cr_authority_b = Authority_Authoritative, cr_detected_at_utc_ns = 5,
      cr_outcome = Outcome_UnresolvedEqualAuthority, cr_winner = None, cr_reason = '''',
      cr_identity = zero_digest\<rparr>"

definition stored_episode :: episode where
  "stored_episode =
     \<lparr>ep_id = StrongId 77, ep_series = StrongId 1, ep_path = StrongId 2, ep_generation = StrongId 3,
      ep_generation_ordinal = 1, ep_policy = StrongId 4, ep_window = StrongId 5,
      ep_peak_level = Level_Elevated, ep_driver_key = Metric_LatencyMean, ep_driver_id = StrongId 6,
      ep_opening_value = 0, ep_peak_value = 0, ep_opened_at_utc_ns = 5, ep_closed_at_utc_ns = Some 6,
      ep_observations = 1, ep_breach_observations = 1, ep_recovery_observations = 0,
      ep_close_windows_required = 2, ep_close_reason = Close_Recovered, ep_close_detail = ''d'',
      ep_reasons = [''r'']\<rparr>"

lemma stored_records_wf:
  "path_wf stored_path" "series_wf (identified_series (series_named ''a''))" "source_wf stored_source"
  "generation_wf stored_generation" "conflict_wf stored_conflict" "episode_fields_ok stored_episode"
  by (simp_all add: path_wf_def stored_path_def identified_path_def Let_def hop_wf_def str_ok_def
      kMaxHopsPerPath_def series_wf_def identified_series_def series_named_def source_wf_def
      stored_source_def identified_source_def generation_wf_def stored_generation_def i64_bounds
      conflict_wf_def stored_conflict_def make_conflict_record_def conflict_parts_def resolve_conflict_def
      episode_fields_ok_def stored_episode_def kMaxExplanationLines_def make_path_id_def path_parts_def
      make_hop_id_def hop_parts_def make_series_id_def series_parts_def make_source_id_def source_parts_def)

lemma record_round_trips_witness:
  "dec_path (enc_path stored_path @ [1]) = Inr (stored_path, [1]) \<and>
   dec_conflict (enc_conflict stored_conflict @ [1]) = Inr (stored_conflict, [1])"
  using record_round_trips [OF stored_records_wf, of "[1]"] by simp

end
