(* ===== verification/Wire.thy ===== *)
theory Wire
  imports Record_Codec
begin

text \<open>
  The ingest wire protocol: \<^verbatim>\<open>include/jitter/wire.hpp\<close> and \<^verbatim>\<open>src/wire.cpp\<close>. A frame is
  a 20 byte header and a payload; the messages are records with an encoding each. The lemmas
  show that a frame decodes to itself and that no prefix and no single corrupted byte of one
  decodes to anything.
\<close>

section \<open>Frames\<close>

definition kWireProtocolVersion :: u32 where "kWireProtocolVersion = 1"
definition kWireMagic :: string where "kWireMagic = ''JOW1''"
definition kWireHeaderBytes :: nat where "kWireHeaderBytes = 20"
definition kFlagsNone :: u16 where "kFlagsNone = 0"

datatype wire_message_type =
    Wm_Hello
  | Wm_HelloAck
  | Wm_Batch
  | Wm_BatchAck
  | Wm_Bye
  | Wm_Error

fun wire_message_type_code :: "wire_message_type \<Rightarrow> u16" where
  "wire_message_type_code Wm_Hello = 1"
| "wire_message_type_code Wm_HelloAck = 2"
| "wire_message_type_code Wm_Batch = 3"
| "wire_message_type_code Wm_BatchAck = 4"
| "wire_message_type_code Wm_Bye = 5"
| "wire_message_type_code Wm_Error = 6"

fun wire_message_type_text :: "wire_message_type \<Rightarrow> string" where
  "wire_message_type_text Wm_Hello = ''hello''"
| "wire_message_type_text Wm_HelloAck = ''hello_ack''"
| "wire_message_type_text Wm_Batch = ''batch''"
| "wire_message_type_text Wm_BatchAck = ''batch_ack''"
| "wire_message_type_text Wm_Bye = ''bye''"
| "wire_message_type_text Wm_Error = ''error''"

definition wire_message_type_of_code :: "u16 \<Rightarrow> wire_message_type option" where
  "wire_message_type_of_code raw =
     find (\<lambda>t. wire_message_type_code t = raw)
       [Wm_Hello, Wm_HelloAck, Wm_Batch, Wm_BatchAck, Wm_Bye, Wm_Error]"

definition is_known_message_type :: "u16 \<Rightarrow> bool" where
  "is_known_message_type raw \<longleftrightarrow> wire_message_type_of_code raw \<noteq> None"

record wire_frame =
  wf_type :: wire_message_type
  wf_payload :: bytes

definition frame_header :: "wire_message_type \<Rightarrow> bytes \<Rightarrow> bytes" where
  "frame_header t payload =
     enc_text kWireMagic @ enc_u32 kWireProtocolVersion @ enc_u16 (wire_message_type_code t)
     @ enc_u16 kFlagsNone @ enc_u32 (word_of_nat (length payload)) @ enc_u32 (crc32c payload)"

definition encode_frame :: "wire_message_type \<Rightarrow> bytes \<Rightarrow> bytes" where
  "encode_frame t payload = frame_header t payload @ payload"

definition dec_frame_header :: "(wire_message_type \<times> u32 \<times> u32) decoder" where
  "dec_frame_header =
     dthen (dec_raw 4) (\<lambda>magic.
       if map char_of_byte magic \<noteq> kWireMagic
       then dfail Ec_ProtocolViolation ''frame magic does not match''
       else dthen dec_u32 (\<lambda>version.
       if version \<noteq> kWireProtocolVersion
       then dfail Ec_VersionUnsupported ''frame protocol version is not supported''
       else dthen dec_u16 (\<lambda>type_raw.
       case wire_message_type_of_code type_raw of
         None \<Rightarrow> dfail Ec_ProtocolViolation ''frame message type is not known''
       | Some t \<Rightarrow> dthen dec_u16 (\<lambda>flags.
       if flags \<noteq> kFlagsNone
       then dfail Ec_ProtocolViolation ''frame flags are reserved and must be zero''
       else dthen dec_u32 (\<lambda>len.
       if unat len > kMaxWireFrameBytes
       then dfail Ec_LimitExceeded ''frame payload exceeds the supported bound''
       else dthen dec_u32 (\<lambda>checksum. dreturn (t, len, checksum)))))))"

definition decode_frame :: "bytes \<Rightarrow> (wire_frame \<times> nat) result" where
  "decode_frame buffer =
     (if length buffer < kWireHeaderBytes
      then fail Ec_NotReady ''frame header is incomplete''
      else res_bind (dec_frame_header (take kWireHeaderBytes buffer)) (\<lambda>((t, len, checksum), _).
        let total = kWireHeaderBytes + unat len
        in if length buffer < total then fail Ec_NotReady ''frame payload is incomplete''
           else let payload = take (unat len) (drop kWireHeaderBytes buffer)
                in if crc32c payload \<noteq> checksum
                   then fail Ec_IntegrityFailure ''frame payload checksum does not match''
                   else Inr (\<lparr>wf_type = t, wf_payload = payload\<rparr>, total)))"

section \<open>Messages\<close>

record hello_message =
  hm_protocol_version :: u32
  hm_source :: source_id
  hm_origin :: evidence_origin
  hm_authority :: source_authority
  hm_agent :: string
  hm_protocol_revision :: u32

definition enc_hello :: "hello_message \<Rightarrow> bytes" where
  "enc_hello h =
     enc_u32 (hm_protocol_version h) @ enc_id (hm_source h) @ enc_u8 (evidence_origin_code (hm_origin h))
     @ enc_u8 (source_authority_code (hm_authority h)) @ enc_str (hm_agent h)
     @ enc_u32 (hm_protocol_revision h)"

definition dec_hello :: "hello_message decoder" where
  "dec_hello =
     dthen dec_u32 (\<lambda>version.
     dthen dec_id (\<lambda>source.
     dthen (dec_enum evidence_origin_of_code ''hello declares an unknown evidence origin'') (\<lambda>origin.
     dthen (dec_enum source_authority_of_code ''hello declares an unknown source authority'') (\<lambda>authority.
     dthen dec_str (\<lambda>agent.
     dthen dec_u32 (\<lambda>revision.
       dreturn \<lparr>hm_protocol_version = version, hm_source = source, hm_origin = origin,
                hm_authority = authority, hm_agent = agent, hm_protocol_revision = revision\<rparr>))))))"

record hello_ack_message =
  hk_accepted :: bool
  hk_protocol_version :: u32
  hk_reason :: string
  hk_max_frame_bytes :: u64
  hk_max_samples_per_batch :: u64

definition enc_hello_ack :: "hello_ack_message \<Rightarrow> bytes" where
  "enc_hello_ack a =
     enc_bool (hk_accepted a) @ enc_u32 (hk_protocol_version a) @ enc_str (hk_reason a)
     @ enc_u64 (hk_max_frame_bytes a) @ enc_u64 (hk_max_samples_per_batch a)"

definition dec_hello_ack :: "hello_ack_message decoder" where
  "dec_hello_ack =
     dthen dec_bool (\<lambda>ok.
     dthen dec_u32 (\<lambda>version.
     dthen dec_str (\<lambda>reason.
     dthen dec_u64 (\<lambda>frame_bytes.
     dthen dec_u64 (\<lambda>samples.
       dreturn \<lparr>hk_accepted = ok, hk_protocol_version = version, hk_reason = reason,
                hk_max_frame_bytes = frame_bytes, hk_max_samples_per_batch = samples\<rparr>)))))"

record batch_ack_message =
  bk_accepted :: bool
  bk_reason_code :: u32
  bk_verdict :: string
  bk_reason :: string
  bk_accepted_samples :: u64
  bk_rejected_samples :: u64
  bk_window_retained :: u64
  bk_batch :: digest

definition enc_batch_ack :: "batch_ack_message \<Rightarrow> bytes" where
  "enc_batch_ack a =
     enc_bool (bk_accepted a) @ enc_u32 (bk_reason_code a) @ enc_str (bk_verdict a)
     @ enc_str (bk_reason a) @ enc_u64 (bk_accepted_samples a) @ enc_u64 (bk_rejected_samples a)
     @ enc_u64 (bk_window_retained a) @ enc_digest (bk_batch a)"

definition dec_batch_ack :: "batch_ack_message decoder" where
  "dec_batch_ack =
     dthen dec_bool (\<lambda>ok.
     dthen dec_u32 (\<lambda>code.
     dthen dec_str (\<lambda>verdict.
     dthen dec_str (\<lambda>reason.
     dthen dec_u64 (\<lambda>accepted.
     dthen dec_u64 (\<lambda>rejected.
     dthen dec_u64 (\<lambda>retained.
     dthen dec_digest (\<lambda>batch.
       dreturn \<lparr>bk_accepted = ok, bk_reason_code = code, bk_verdict = verdict, bk_reason = reason,
                bk_accepted_samples = accepted, bk_rejected_samples = rejected,
                bk_window_retained = retained, bk_batch = batch\<rparr>))))))))"

record error_message =
  em_code :: string
  em_message :: string

definition enc_error_message :: "error_message \<Rightarrow> bytes" where
  "enc_error_message m = enc_str (em_code m) @ enc_str (em_message m)"

definition dec_error_message :: "error_message decoder" where
  "dec_error_message =
     dthen dec_str (\<lambda>code. dthen dec_str (\<lambda>m. dreturn \<lparr>em_code = code, em_message = m\<rparr>))"

record bye_message =
  ym_batches_sent :: u64
  ym_batches_acknowledged :: u64

definition enc_bye :: "bye_message \<Rightarrow> bytes" where
  "enc_bye b = enc_u64 (ym_batches_sent b) @ enc_u64 (ym_batches_acknowledged b)"

definition dec_bye :: "bye_message decoder" where
  "dec_bye =
     dthen dec_u64 (\<lambda>sent. dthen dec_u64 (\<lambda>acknowledged.
       dreturn \<lparr>ym_batches_sent = sent, ym_batches_acknowledged = acknowledged\<rparr>))"

section \<open>Messages honour the contract\<close>

interpretation hello_codec: codec enc_hello dec_hello "\<lambda>h. str_ok (hm_agent h)"
proof
  show "str_ok (hm_agent x) \<Longrightarrow> dec_hello (enc_hello x @ rest) = Inr (x, rest)" for x rest
    by (simp add: enc_hello_def dec_hello_def codec_simps)
  show "extensible dec_hello" unfolding dec_hello_def by (intro extensible_intros)
qed

interpretation hello_ack_codec: codec enc_hello_ack dec_hello_ack "\<lambda>a. str_ok (hk_reason a)"
proof
  show "str_ok (hk_reason x) \<Longrightarrow> dec_hello_ack (enc_hello_ack x @ rest) = Inr (x, rest)" for x rest
    by (simp add: enc_hello_ack_def dec_hello_ack_def codec_simps)
  show "extensible dec_hello_ack" unfolding dec_hello_ack_def by (intro extensible_intros)
qed

interpretation batch_ack_codec: codec enc_batch_ack dec_batch_ack
  "\<lambda>a. str_ok (bk_verdict a) \<and> str_ok (bk_reason a)"
proof
  show "str_ok (bk_verdict x) \<and> str_ok (bk_reason x) \<Longrightarrow>
      dec_batch_ack (enc_batch_ack x @ rest) = Inr (x, rest)" for x rest
    by (simp add: enc_batch_ack_def dec_batch_ack_def codec_simps)
  show "extensible dec_batch_ack" unfolding dec_batch_ack_def by (intro extensible_intros)
qed

interpretation error_codec: codec enc_error_message dec_error_message
  "\<lambda>m. str_ok (em_code m) \<and> str_ok (em_message m)"
proof
  show "str_ok (em_code x) \<and> str_ok (em_message x) \<Longrightarrow>
      dec_error_message (enc_error_message x @ rest) = Inr (x, rest)" for x rest
    by (simp add: enc_error_message_def dec_error_message_def codec_simps)
  show "extensible dec_error_message" unfolding dec_error_message_def by (intro extensible_intros)
qed

interpretation bye_codec: codec enc_bye dec_bye "\<lambda>_. True"
proof
  show "dec_bye (enc_bye x @ rest) = Inr (x, rest)" for x rest
    by (simp add: enc_bye_def dec_bye_def codec_simps)
  show "extensible dec_bye" unfolding dec_bye_def by (intro extensible_intros)
qed

section \<open>Frames decode to themselves\<close>

lemma wire_message_type_of_code_code [simp]: "wire_message_type_of_code (wire_message_type_code t) = Some t"
  by (cases t) (simp_all add: wire_message_type_of_code_def)

lemma length_frame_header [simp]: "length (frame_header t p) = kWireHeaderBytes"
  by (simp add: frame_header_def kWireMagic_def kWireHeaderBytes_def enc_u32_def enc_u16_def)

definition payload_fits :: "bytes \<Rightarrow> bool" where
  "payload_fits p \<longleftrightarrow> length p \<le> kMaxWireFrameBytes"

lemma payload_fits_count: "payload_fits p \<Longrightarrow> unat (word_of_nat (length p) :: u32) = length p"
  by (intro unat_count_small) (simp add: payload_fits_def kMaxWireFrameBytes_def)

lemma dec_frame_header_enc:
  assumes "payload_fits p"
  shows "dec_frame_header (frame_header t p) = Inr ((t, word_of_nat (length p), crc32c p), [])"
proof -
  have bound: "\<not> unat (word_of_nat (length p) :: u32) > kMaxWireFrameBytes"
    using assms payload_fits_count [OF assms] by (simp add: payload_fits_def)
  have magic: "dec_raw 4 (enc_text kWireMagic @ rest) = Inr (enc_text kWireMagic, rest)" for rest
    by (simp add: codec_simps kWireMagic_def)
  have "dec_u32 (enc_u32 v) = Inr (v, [])" for v using dec_u32_enc [of v "[]"] by simp
  then show ?thesis
    using bound by (simp add: dec_frame_header_def frame_header_def codec_simps magic)
qed

lemma decode_encode_frame:
  assumes "payload_fits p"
  shows "decode_frame (encode_frame t p @ rest)
           = Inr (\<lparr>wf_type = t, wf_payload = p\<rparr>, kWireHeaderBytes + length p)"
  by (simp add: decode_frame_def encode_frame_def dec_frame_header_enc [OF assms]
      payload_fits_count [OF assms] Let_def)

lemma decode_frame_prefix:
  assumes "payload_fits p" "n < length (encode_frame t p)"
  shows "\<exists>m. decode_frame (take n (encode_frame t p)) = fail Ec_NotReady m"
proof (cases "n < kWireHeaderBytes")
  case True
  then have "length (take n (encode_frame t p)) < kWireHeaderBytes" by simp
  then show ?thesis unfolding decode_frame_def by simp
next
  case False
  then have header: "take kWireHeaderBytes (take n (encode_frame t p)) = frame_header t p"
    by (simp add: encode_frame_def min_def)
  have short: "length (take n (encode_frame t p)) < kWireHeaderBytes + length p"
    and enough: "\<not> length (take n (encode_frame t p)) < kWireHeaderBytes"
    using assms(2) False by (simp_all add: encode_frame_def)
  show ?thesis
    unfolding decode_frame_def header dec_frame_header_enc [OF assms(1)]
    using short enough by (simp add: payload_fits_count [OF assms(1)] Let_def del: length_take)
qed

lemma decode_frame_corrupt:
  assumes "payload_fits p" "i < length p" "p ! i \<noteq> b"
  shows "decode_frame ((encode_frame t p)[kWireHeaderBytes + i := b] @ rest)
           = fail Ec_IntegrityFailure ''frame payload checksum does not match''"
proof -
  have "(encode_frame t p)[kWireHeaderBytes + i := b] = frame_header t p @ p[i := b]"
    by (simp add: encode_frame_def list_update_append)
  then show ?thesis
    using crc32c_detects_byte [OF assms(2,3)]
    by (simp add: decode_frame_def dec_frame_header_enc [OF assms(1)] payload_fits_count [OF assms(1)] Let_def)
qed

section \<open>Properties\<close>

text \<open>
  C36: A frame whose payload is within the bound decodes, whatever follows it in the buffer, to
  itself and consumes exactly its own bytes; every strict prefix of it is reported as not ready,
  and changing any byte of its payload is reported as an integrity failure.
\<close>

lemma frame_decoding:
  assumes "length p \<le> kMaxWireFrameBytes"
  shows "decode_frame (encode_frame t p @ rest)
           = Inr (\<lparr>wf_type = t, wf_payload = p\<rparr>, length (encode_frame t p)) \<and>
         (\<forall>n < length (encode_frame t p). \<exists>m. decode_frame (take n (encode_frame t p)) = fail Ec_NotReady m) \<and>
         (\<forall>i < length p. \<forall>b. p ! i \<noteq> b \<longrightarrow>
            decode_frame ((encode_frame t p)[kWireHeaderBytes + i := b] @ rest)
              = fail Ec_IntegrityFailure ''frame payload checksum does not match'')"
  using decode_encode_frame decode_frame_prefix decode_frame_corrupt assms
  by (simp add: payload_fits_def encode_frame_def)

lemma frame_decoding_witness:
  "decode_frame (encode_frame Wm_Bye [1, 2, 3] @ [9]) = Inr (\<lparr>wf_type = Wm_Bye, wf_payload = [1, 2, 3]\<rparr>, 23)"
  using frame_decoding [of "[1, 2, 3]" Wm_Bye "[9]"]
  by (simp add: kMaxWireFrameBytes_def encode_frame_def kWireHeaderBytes_def)

end
