(* ===== verification/Persistence.thy ===== *)
theory Persistence
  imports Wire
begin

text \<open>
  The append-only store: \<^verbatim>\<open>include/jitter/persistence.hpp\<close> and \<^verbatim>\<open>src/persistence.cpp\<close>.
  The file system is a map from paths to contents and its primitive operations succeed; the
  branches left out are the failures of an opened stream (\<^verbatim>\<open>IoFailure\<close> while reading, writing or
  truncating) and the creation of parent directories. Loading is a scan over the bytes behind the
  header; each turn either takes one record or stops with the deviation it found.
\<close>

section \<open>Records\<close>

definition kStoreFormatVersion :: u32 where "kStoreFormatVersion = 1"
definition kStoreMagic :: string where "kStoreMagic = ''JITTEROB''"
definition kStoreHeaderBytes :: nat where "kStoreHeaderBytes = 80"
definition kMagicBytes :: nat where "kMagicBytes = 8"
definition kRecordPrefixBytes :: nat where "kRecordPrefixBytes = 12"
definition kRecordSuffixBytes :: nat where "kRecordSuffixBytes = 36"
definition kRecordFlagNone :: u16 where "kRecordFlagNone = 0"
definition kMaxRecordPayloadBytes :: nat where "kMaxRecordPayloadBytes = 1024 * 1024"
definition kMaxStoreRecords :: nat where "kMaxStoreRecords = 4194304"
definition kMaxStoreBytes :: nat where "kMaxStoreBytes = 16 * 1024 * 1024 * 1024"

lemmas store_sizes = kStoreHeaderBytes_def kMagicBytes_def kRecordPrefixBytes_def kRecordSuffixBytes_def
  kMaxRecordPayloadBytes_def

datatype store_record_type =
    Rec_ClockDomain
  | Rec_Equivalence
  | Rec_Source
  | Rec_Series
  | Rec_Path
  | Rec_Generation
  | Rec_Sample
  | Rec_Baseline
  | Rec_Episode
  | Rec_Conflict
  | Rec_Marker
  | Rec_Trailer
  | Rec_SourceGuard

fun store_record_type_code :: "store_record_type \<Rightarrow> u16" where
  "store_record_type_code Rec_ClockDomain = 1"
| "store_record_type_code Rec_Equivalence = 2"
| "store_record_type_code Rec_Source = 3"
| "store_record_type_code Rec_Series = 4"
| "store_record_type_code Rec_Path = 5"
| "store_record_type_code Rec_Generation = 6"
| "store_record_type_code Rec_Sample = 7"
| "store_record_type_code Rec_Baseline = 8"
| "store_record_type_code Rec_Episode = 9"
| "store_record_type_code Rec_Conflict = 10"
| "store_record_type_code Rec_Marker = 11"
| "store_record_type_code Rec_Trailer = 12"
| "store_record_type_code Rec_SourceGuard = 13"

fun store_record_type_text :: "store_record_type \<Rightarrow> string" where
  "store_record_type_text Rec_ClockDomain = ''clock_domain''"
| "store_record_type_text Rec_Equivalence = ''equivalence''"
| "store_record_type_text Rec_Source = ''source''"
| "store_record_type_text Rec_Series = ''series''"
| "store_record_type_text Rec_Path = ''path''"
| "store_record_type_text Rec_Generation = ''generation''"
| "store_record_type_text Rec_Sample = ''sample''"
| "store_record_type_text Rec_Baseline = ''baseline''"
| "store_record_type_text Rec_Episode = ''episode''"
| "store_record_type_text Rec_Conflict = ''conflict''"
| "store_record_type_text Rec_Marker = ''marker''"
| "store_record_type_text Rec_Trailer = ''trailer''"
| "store_record_type_text Rec_SourceGuard = ''source_guard''"

definition store_record_type_of_code :: "u16 \<Rightarrow> store_record_type option" where
  "store_record_type_of_code raw =
     find (\<lambda>t. store_record_type_code t = raw)
       [Rec_ClockDomain, Rec_Equivalence, Rec_Source, Rec_Series, Rec_Path, Rec_Generation, Rec_Sample,
        Rec_Baseline, Rec_Episode, Rec_Conflict, Rec_Marker, Rec_Trailer, Rec_SourceGuard]"

definition is_known_record_type :: "u16 \<Rightarrow> bool" where
  "is_known_record_type raw \<longleftrightarrow> store_record_type_of_code raw \<noteq> None"

record store_header =
  sh_format_version :: u32
  sh_store_epoch :: u64
  sh_created_at_utc_ns :: i64
  sh_boot_id :: u64
  sh_store_id :: digest

record stored_record =
  sr_type :: store_record_type
  sr_offset :: nat
  sr_payload_bytes :: u32
  sr_chain :: digest
  sr_payload :: bytes

record store_recovery =
  rv_clean :: bool
  rv_truncated_tail :: bool
  rv_corrupt_tail_record :: bool
  rv_mid_file_corruption :: bool
  rv_trailer_present :: bool
  rv_trailer_mismatch :: bool
  rv_records_recovered :: nat
  rv_bytes_discarded :: nat
  rv_valid_bytes :: nat
  rv_file_bytes :: nat
  rv_detail :: string

record loaded_store =
  ld_header :: store_header
  ld_records :: "stored_record list"
  ld_recovery :: store_recovery
  ld_trailer_record_count :: u64
  ld_trailer_chain_root :: digest

definition recovery_init :: store_recovery where
  "recovery_init =
     \<lparr>rv_clean = True, rv_truncated_tail = False, rv_corrupt_tail_record = False,
      rv_mid_file_corruption = False, rv_trailer_present = False, rv_trailer_mismatch = False,
      rv_records_recovered = 0, rv_bytes_discarded = 0, rv_valid_bytes = 0, rv_file_bytes = 0,
      rv_detail = ''''\<rparr>"

definition describe_recovery :: "store_recovery \<Rightarrow> string" where
  "describe_recovery r =
     (if rv_clean r then ''clean'' else ''recovered'') @ '' records='' @ nat_text (rv_records_recovered r)
     @ '' valid_bytes='' @ nat_text (rv_valid_bytes r) @ '' file_bytes='' @ nat_text (rv_file_bytes r)
     @ (if rv_truncated_tail r then '' truncated_tail'' else '''')
     @ (if rv_corrupt_tail_record r then '' corrupt_tail_record'' else '''')
     @ (if rv_mid_file_corruption r then '' mid_file_corruption'' else '''')
     @ (if rv_trailer_present r then '' trailer_present'' else '''')
     @ (if rv_trailer_mismatch r then '' trailer_mismatch'' else '''')
     @ (if rv_bytes_discarded r > 0 then '' discarded='' @ nat_text (rv_bytes_discarded r) else '''')
     @ (if rv_detail r \<noteq> '''' then '' detail='' @ rv_detail r else '''')"

section \<open>The header\<close>

definition header_prefix :: "store_header \<Rightarrow> bytes" where
  "header_prefix h =
     enc_text kStoreMagic @ enc_u32 (sh_format_version h) @ enc_u32 (word_of_nat kStoreHeaderBytes)
     @ enc_u64 (sh_store_epoch h) @ enc_i64 (sh_created_at_utc_ns h) @ enc_u64 (sh_boot_id h)
     @ enc_digest (sh_store_id h) @ enc_u32 0"

definition encode_header :: "store_header \<Rightarrow> bytes" where
  "encode_header h = header_prefix h @ enc_u32 (crc32c (header_prefix h))"

definition dec_header_fields :: "store_header decoder" where
  "dec_header_fields =
     dthen dec_u32 (\<lambda>version.
       if version \<noteq> kStoreFormatVersion
       then dfail Ec_VersionUnsupported ''store format version is not supported by this build''
       else dthen dec_u32 (\<lambda>header_size.
       if header_size \<noteq> word_of_nat kStoreHeaderBytes
       then dfail Ec_Corrupt ''store header size is not supported''
       else dthen dec_u64 (\<lambda>epoch.
     dthen dec_i64 (\<lambda>created.
     dthen dec_u64 (\<lambda>boot.
     dthen dec_digest (\<lambda>i.
     dthen dec_u32 (\<lambda>reserved.
       if reserved \<noteq> 0 then dfail Ec_Corrupt ''store header reserved field is not zero''
       else dreturn \<lparr>sh_format_version = version, sh_store_epoch = epoch,
                     sh_created_at_utc_ns = created, sh_boot_id = boot, sh_store_id = i\<rparr>)))))))"

definition decode_header :: "bytes \<Rightarrow> store_header result" where
  "decode_header bs =
     (if length bs < kStoreHeaderBytes then fail Ec_Corrupt ''store header is truncated''
      else let body = take (kStoreHeaderBytes - 4) bs
           in res_bind (dec_raw kMagicBytes body) (\<lambda>(magic, r).
                if map char_of_byte magic \<noteq> kStoreMagic then fail Ec_Corrupt ''store magic does not match''
                else res_bind (dec_u32 (take 4 (drop (kStoreHeaderBytes - 4) bs))) (\<lambda>(stored, _).
                  if stored \<noteq> crc32c body
                  then fail Ec_IntegrityFailure ''store header checksum does not match''
                  else res_bind (dec_header_fields r) (\<lambda>(h, _). Inr h))))"

definition chain_step :: "digest \<Rightarrow> bytes \<Rightarrow> digest" where
  "chain_step previous record_bytes = builder_digest [digest_bytes previous, record_bytes]"

section \<open>Reading one record\<close>

datatype record_step =
    Stop "store_recovery \<Rightarrow> store_recovery"
  | Taken stored_record nat

definition dec_record_prefix :: "(u32 \<times> u16 \<times> u16 \<times> u32) decoder" where
  "dec_record_prefix =
     dthen dec_u32 (\<lambda>len. dthen dec_u16 (\<lambda>ty. dthen dec_u16 (\<lambda>flags. dthen dec_u32 (\<lambda>crc.
       dreturn (len, ty, flags, crc)))))"

definition dec_record_suffix :: "(u32 \<times> digest) decoder" where
  "dec_record_suffix = dthen dec_u32 (\<lambda>crc. dthen dec_digest (\<lambda>chain. dreturn (crc, chain)))"

text \<open>A record that fails a check is a damaged tail when it ends the file, corruption otherwise.\<close>

definition damaged :: "bool \<Rightarrow> nat \<Rightarrow> string \<Rightarrow> store_recovery \<Rightarrow> store_recovery" where
  "damaged follows left detail r =
     (if follows then r\<lparr>rv_mid_file_corruption := True, rv_bytes_discarded := left, rv_detail := detail\<rparr>
      else r\<lparr>rv_corrupt_tail_record := True, rv_bytes_discarded := left, rv_detail := detail\<rparr>)"

definition truncated_at :: "nat \<Rightarrow> string \<Rightarrow> store_recovery \<Rightarrow> store_recovery" where
  "truncated_at left detail r =
     r\<lparr>rv_truncated_tail := True, rv_bytes_discarded := left, rv_detail := detail\<rparr>"

definition check_record ::
  "digest \<Rightarrow> nat \<Rightarrow> bytes \<Rightarrow> nat \<Rightarrow> u32 \<Rightarrow> u16 \<Rightarrow> u32 \<Rightarrow> record_step" where
  "check_record chain offset rest needed len ty payload_crc =
     (let n = unat len; left = length rest; payload = take n (drop kRecordPrefixBytes rest);
          checked = take (kRecordPrefixBytes + n) rest
      in case dec_record_suffix (take kRecordSuffixBytes (drop (kRecordPrefixBytes + n) rest)) of
           Inl _ \<Rightarrow> Stop (\<lambda>r. r\<lparr>rv_corrupt_tail_record := True,
                                rv_detail := ''record suffix could not be decoded''\<rparr>)
         | Inr ((record_crc, stored_chain), _) \<Rightarrow>
             let payload_ok = (crc32c payload = payload_crc); record_ok = (crc32c checked = record_crc);
                 chain_ok = (chain_step chain checked = stored_chain)
             in if \<not> payload_ok \<or> \<not> record_ok \<or> \<not> chain_ok
                then Stop (damaged (left > needed) left
                       (if left > needed then ''record failed its integrity check and data follows it''
                        else if \<not> payload_ok then ''payload checksum mismatch''
                        else if \<not> record_ok then ''record checksum mismatch''
                        else ''integrity chain mismatch''))
                else case store_record_type_of_code ty of
                       None \<Rightarrow> Stop (damaged (left > needed) left ''record type is not known to this build'')
                     | Some t \<Rightarrow>
                         Taken \<lparr>sr_type = t, sr_offset = offset, sr_payload_bytes = len,
                                sr_chain = stored_chain, sr_payload = payload\<rparr> needed)"

definition read_record :: "digest \<Rightarrow> nat \<Rightarrow> bytes \<Rightarrow> record_step" where
  "read_record chain offset rest =
     (let left = length rest
      in if left < kRecordPrefixBytes
         then Stop (truncated_at left ''incomplete record prefix at the end of the file'')
         else case dec_record_prefix (take kRecordPrefixBytes rest) of
                Inl _ \<Rightarrow> Stop (\<lambda>r. r\<lparr>rv_corrupt_tail_record := True,
                                     rv_detail := ''record prefix could not be decoded''\<rparr>)
              | Inr ((len, ty, flags, payload_crc), _) \<Rightarrow>
                  let needed = kRecordPrefixBytes + unat len + kRecordSuffixBytes
                  in if unat len > kMaxRecordPayloadBytes
                     then Stop (damaged (left > needed) left
                            ''record declares a payload beyond the supported bound'')
                     else if left < needed
                     then Stop (truncated_at left ''record body is incomplete at the end of the file'')
                     else check_record chain offset rest needed len ty payload_crc)"

section \<open>Loading\<close>

definition dec_trailer :: "(u64 \<times> digest) decoder" where
  "dec_trailer = dthen dec_u64 (\<lambda>declared. dthen dec_digest (\<lambda>chain_root. dreturn (declared, chain_root)))"

definition last_chain :: "digest \<Rightarrow> stored_record list \<Rightarrow> digest" where
  "last_chain chain rs = (if rs = [] then chain else sr_chain (last rs))"

text \<open>The trailer is compared with the records read before it, then joins them.\<close>

definition accept_trailer :: "digest \<Rightarrow> stored_record \<Rightarrow> loaded_store \<Rightarrow> loaded_store" where
  "accept_trailer header_chain t l =
     (let rec = (ld_recovery l)\<lparr>rv_trailer_present := True\<rparr>
      in case dec_trailer (sr_payload t) of
           Inr ((declared, chain_root), []) \<Rightarrow>
             l\<lparr>ld_trailer_record_count := declared, ld_trailer_chain_root := chain_root,
               ld_recovery :=
                 (if unat declared \<noteq> length (ld_records l) \<or> chain_root \<noteq> last_chain header_chain (ld_records l)
                  then rec\<lparr>rv_trailer_mismatch := True,
                           rv_detail := ''trailer record count or chain root does not match the records read''\<rparr>
                  else rec),
               ld_records := ld_records l @ [t]\<rparr>
         | _ \<Rightarrow> l\<lparr>ld_recovery := rec\<lparr>rv_trailer_mismatch := True,
                                     rv_detail := ''trailer record could not be decoded''\<rparr>,
                  ld_records := ld_records l @ [t]\<rparr>)"

definition count_record :: "nat \<Rightarrow> loaded_store \<Rightarrow> loaded_store" where
  "count_record offset l =
     l\<lparr>ld_recovery := (ld_recovery l)
        \<lparr>rv_records_recovered := Suc (rv_records_recovered (ld_recovery l)), rv_valid_bytes := offset\<rparr>\<rparr>"

lemma check_record_needed: "check_record chain offset rest needed len ty crc = Taken r n \<Longrightarrow> n = needed"
  by (auto simp: check_record_def Let_def split: sum.splits if_splits option.splits)

lemma read_record_needed:
  assumes "read_record chain offset rest = Taken r n"
  shows "0 < n"
proof (cases "dec_record_prefix (take kRecordPrefixBytes rest)")
  case (Inl e)
  with assms show ?thesis by (simp add: read_record_def Let_def split: if_splits)
next
  case (Inr p)
  obtain len ty flags crc more where "p = ((len, ty, flags, crc), more)" by (cases p) auto
  with assms Inr have "check_record chain offset rest (kRecordPrefixBytes + unat len + kRecordSuffixBytes)
      len ty crc = Taken r n"
    by (simp add: read_record_def Let_def split: if_splits)
  from check_record_needed [OF this] show ?thesis by (simp add: kRecordPrefixBytes_def)
qed

text \<open>The loop of \<^verbatim>\<open>load_store\<close>; the measure is the number of unread bytes.\<close>

function scan :: "digest \<Rightarrow> nat \<Rightarrow> bytes \<Rightarrow> digest \<Rightarrow> loaded_store \<Rightarrow> loaded_store" where
  "scan header_chain offset rest chain l =
     (if rest = [] then l
      else case read_record chain offset rest of
             Stop f \<Rightarrow> l\<lparr>ld_recovery := f (ld_recovery l)\<rparr>
           | Taken r needed \<Rightarrow>
               let l1 = count_record (offset + needed) l
               in if sr_type r = Rec_Trailer then accept_trailer header_chain r l1
                  else scan header_chain (offset + needed) (drop needed rest) (sr_chain r)
                         (l1\<lparr>ld_records := ld_records l1 @ [r]\<rparr>))"
  by pat_completeness auto
termination
  by (relation "measure (\<lambda>(_, _, rest, _, _). length rest)") (auto dest: read_record_needed)

declare scan.simps [simp del]

definition finish_recovery :: "store_recovery \<Rightarrow> store_recovery" where
  "finish_recovery r =
     (let r1 = (if rv_valid_bytes r = 0 then r\<lparr>rv_valid_bytes := kStoreHeaderBytes\<rparr> else r);
          clean = (\<not> rv_truncated_tail r1 \<and> \<not> rv_corrupt_tail_record r1 \<and>
                   \<not> rv_mid_file_corruption r1 \<and> \<not> rv_trailer_mismatch r1)
      in if clean \<and> rv_detail r1 = ''''
         then r1\<lparr>rv_clean := clean, rv_detail := ''no integrity deviation detected''\<rparr>
         else r1\<lparr>rv_clean := clean\<rparr>)"

definition load_image :: "bytes \<Rightarrow> loaded_store result" where
  "load_image contents =
     (if length contents < kStoreHeaderBytes
      then fail Ec_Corrupt ''store file is smaller than its header''
      else let header_bytes = take kStoreHeaderBytes contents
           in res_bind (decode_header header_bytes) (\<lambda>h.
                let chain = digest_of header_bytes;
                    l = scan chain kStoreHeaderBytes (drop kStoreHeaderBytes contents) chain
                          \<lparr>ld_header = h, ld_records = [],
                           ld_recovery = recovery_init\<lparr>rv_file_bytes := length contents\<rparr>,
                           ld_trailer_record_count = 0, ld_trailer_chain_root = zero_digest\<rparr>
                in Inr (l\<lparr>ld_recovery := finish_recovery (ld_recovery l)\<rparr>)))"

type_synonym files = "string \<Rightarrow> bytes option"

definition load_store :: "files \<Rightarrow> string \<Rightarrow> loaded_store result" where
  "load_store fs path =
     (case fs path of
        None \<Rightarrow> fail Ec_IoFailure ''store file could not be opened''
      | Some contents \<Rightarrow> load_image contents)"

section \<open>Writing\<close>

record store_writer =
  wr_path :: string
  wr_open :: bool
  wr_header :: store_header
  wr_chain :: digest
  wr_record_count :: u64
  wr_byte_size :: u64
  wr_repair_bytes :: nat
  wr_recovery :: store_recovery

definition create_store ::
  "string \<Rightarrow> store_header \<Rightarrow> bool \<Rightarrow> files \<Rightarrow> store_writer result \<times> files" where
  "create_store path header truncate_existing fs =
     (if fs path \<noteq> None \<and> \<not> truncate_existing
      then (fail Ec_Duplicate ''store already exists and truncation was not requested'', fs)
      else if sh_format_version header \<noteq> kStoreFormatVersion
      then (fail Ec_VersionUnsupported ''refusing to write an unsupported store format version'', fs)
      else if digest_is_zero (sh_store_id header)
      then (fail Ec_InvalidArgument ''store header requires a non zero store identity'', fs)
      else (Inr \<lparr>wr_path = path, wr_open = True, wr_header = header,
                 wr_chain = digest_of (encode_header header), wr_record_count = 0,
                 wr_byte_size = word_of_nat kStoreHeaderBytes, wr_repair_bytes = 0,
                 wr_recovery = recovery_init\<lparr>rv_valid_bytes := kStoreHeaderBytes,
                                             rv_detail := ''created''\<rparr>\<rparr>,
            fs(path := Some (encode_header header))))"

definition record_prefix :: "store_record_type \<Rightarrow> bytes \<Rightarrow> bytes" where
  "record_prefix t payload =
     enc_u32 (word_of_nat (length payload)) @ enc_u16 (store_record_type_code t)
     @ enc_u16 kRecordFlagNone @ enc_u32 (crc32c payload)"

definition record_checked :: "store_record_type \<Rightarrow> bytes \<Rightarrow> bytes" where
  "record_checked t payload = record_prefix t payload @ payload"

definition record_body :: "digest \<Rightarrow> store_record_type \<Rightarrow> bytes \<Rightarrow> bytes" where
  "record_body chain t payload =
     (let checked = record_checked t payload
      in checked @ enc_u32 (crc32c checked) @ enc_digest (chain_step chain checked))"

definition file_append :: "string \<Rightarrow> bytes \<Rightarrow> files \<Rightarrow> files" where
  "file_append path bs fs = fs(path := Some ((case fs path of None \<Rightarrow> [] | Some old \<Rightarrow> old) @ bs))"

text \<open>The size the file grows to, or the limit that refuses it.\<close>

definition next_store_size :: "store_writer \<Rightarrow> bytes \<Rightarrow> string \<Rightarrow> u64 result" where
  "next_store_size w payload what =
     res_bind (add_u64 (word_of_nat kRecordPrefixBytes) (word_of_nat (length payload)) what) (\<lambda>n1.
     res_bind (add_u64 n1 (word_of_nat kRecordSuffixBytes) what) (\<lambda>n2.
     res_bind (add_u64 (wr_byte_size w) n2 ''store size'') (\<lambda>next_size.
     res_bind (require_within next_size (word_of_nat kMaxStoreBytes) ''store byte size'') (\<lambda>_.
       Inr next_size))))"

definition append_record ::
  "store_record_type \<Rightarrow> bytes \<Rightarrow> store_writer \<Rightarrow> files \<Rightarrow> status \<times> store_writer \<times> files" where
  "append_record t payload w fs =
     (if \<not> wr_open w then (fail Ec_NotReady ''store writer is not open'', w, fs)
      else if t = Rec_Trailer
      then (fail Ec_InvalidArgument ''the trailer record is written by append_trailer'', w, fs)
      else case res_bind (require_within (word_of_nat (length payload)) (word_of_nat kMaxRecordPayloadBytes)
                            ''store record payload'') (\<lambda>_.
                res_bind (require_within (wr_record_count w + 1) (word_of_nat kMaxStoreRecords)
                            ''store record count'') (\<lambda>_.
                  next_store_size w payload ''store record'')) of
             Inl e \<Rightarrow> (Inl e, w, fs)
           | Inr next_size \<Rightarrow>
               (success,
                w\<lparr>wr_chain := chain_step (wr_chain w) (record_checked t payload),
                  wr_record_count := wr_record_count w + 1, wr_byte_size := next_size\<rparr>,
                file_append (wr_path w) (record_body (wr_chain w) t payload) fs))"

definition trailer_payload :: "store_writer \<Rightarrow> bytes" where
  "trailer_payload w = enc_u64 (wr_record_count w) @ enc_digest (wr_chain w)"

definition append_trailer :: "store_writer \<Rightarrow> files \<Rightarrow> status \<times> store_writer \<times> files" where
  "append_trailer w fs =
     (if \<not> wr_open w then (fail Ec_NotReady ''store writer is not open'', w, fs)
      else let payload = trailer_payload w
           in case next_store_size w payload ''store trailer'' of
                Inl e \<Rightarrow> (Inl e, w, fs)
              | Inr next_size \<Rightarrow>
                  (success,
                   w\<lparr>wr_chain := chain_step (wr_chain w) (record_checked Rec_Trailer payload),
                     wr_byte_size := next_size\<rparr>,
                   file_append (wr_path w) (record_body (wr_chain w) Rec_Trailer payload) fs))"

definition flush_store :: "store_writer \<Rightarrow> status" where
  "flush_store w = (if wr_open w then success else fail Ec_NotReady ''store writer is not open'')"

definition close_store :: "store_writer \<Rightarrow> store_writer" where
  "close_store w = w\<lparr>wr_open := False\<rparr>"

text \<open>Reopening drops a trailer and, with authority, a damaged tail.\<close>

definition reopen_target :: "loaded_store \<Rightarrow> nat" where
  "reopen_target l =
     (let valid = rv_valid_bytes (ld_recovery l);
          trailers = filter (\<lambda>r. sr_type r = Rec_Trailer) (ld_records l)
      in if trailers \<noteq> [] \<and> sr_offset (last trailers) < valid then sr_offset (last trailers) else valid)"

definition reopen_store ::
  "string \<Rightarrow> bool \<Rightarrow> files \<Rightarrow> store_writer result \<times> files" where
  "reopen_store path repair_truncated_tail fs =
     (case load_store fs path of
        Inl e \<Rightarrow> (Inl e, fs)
      | Inr l \<Rightarrow>
          let rec = ld_recovery l; total = rv_file_bytes rec; target = reopen_target l;
              kept = filter (\<lambda>r. sr_type r \<noteq> Rec_Trailer) (ld_records l);
              w = \<lparr>wr_path = path, wr_open = True, wr_header = ld_header l,
                   wr_chain = last_chain (digest_of (encode_header (ld_header l))) kept,
                   wr_record_count = word_of_nat (length kept), wr_byte_size = word_of_nat target,
                   wr_repair_bytes = 0, wr_recovery = rec\<rparr>
          in if rv_mid_file_corruption rec
             then (fail Ec_Corrupt
                     ''store has corruption before the end of the file and will not be modified'', fs)
             else if rv_valid_bytes rec < total \<and> \<not> repair_truncated_tail
             then (fail Ec_IntegrityFailure
                     ''store tail is damaged; reopen without repair authority was refused'', fs)
             else if target < total
             then (Inr (w\<lparr>wr_repair_bytes := total - target,
                          wr_recovery := rec\<lparr>rv_detail := rv_detail rec @ '' ; replaced_on_reopen='' @
                                               nat_text (total - target)\<rparr>\<rparr>),
                   fs(path := map_option (take target) (fs path)))
             else (Inr w, fs))"

end
