(* ===== verification/Store_Image.thy ===== *)
theory Store_Image
  imports Persistence
begin

text \<open>
  What a sequence of records looks like on disk, what the scan of \<^verbatim>\<open>src/persistence.cpp\<close> makes of
  such bytes, whole or cut off, and that the writer writes exactly them.
\<close>

section \<open>What a sequence of records looks like\<close>

text \<open>The bytes, the chain and the stored records of a sequence of types and payloads.\<close>

type_synonym plain_record = "store_record_type \<times> bytes"

fun render :: "digest \<Rightarrow> plain_record list \<Rightarrow> bytes" where
  "render chain [] = []"
| "render chain ((t, p) # rs) =
     record_body chain t p @ render (chain_step chain (record_checked t p)) rs"

fun chain_after :: "digest \<Rightarrow> plain_record list \<Rightarrow> digest" where
  "chain_after chain [] = chain"
| "chain_after chain ((t, p) # rs) = chain_after (chain_step chain (record_checked t p)) rs"

definition stored_record_of :: "digest \<Rightarrow> nat \<Rightarrow> plain_record \<Rightarrow> stored_record" where
  "stored_record_of chain offset tp =
     \<lparr>sr_type = fst tp, sr_offset = offset, sr_payload_bytes = word_of_nat (length (snd tp)),
      sr_chain = chain_step chain (record_checked (fst tp) (snd tp)), sr_payload = snd tp\<rparr>"

definition plain :: "stored_record \<Rightarrow> plain_record" where
  "plain r = (sr_type r, sr_payload r)"

definition storable :: "plain_record \<Rightarrow> bool" where
  "storable tp \<longleftrightarrow> length (snd tp) \<le> kMaxRecordPayloadBytes"

definition body_length :: "plain_record \<Rightarrow> nat" where
  "body_length tp = kRecordPrefixBytes + length (snd tp) + kRecordSuffixBytes"

lemma store_record_type_of_code_code [simp]: "store_record_type_of_code (store_record_type_code t) = Some t"
  by (cases t) (simp_all add: store_record_type_of_code_def)

lemma length_record_prefix [simp]: "length (record_prefix t p) = kRecordPrefixBytes"
  by (simp add: record_prefix_def kRecordPrefixBytes_def enc_u32_def enc_u16_def)

lemma length_enc_digest [simp]: "length (enc_digest d) = 32"
  by (simp add: enc_digest_def)

lemma length_enc_u32 [simp]: "length (enc_u32 v) = 4"
  by (simp add: enc_u32_def)

lemma length_record_body [simp]: "length (record_body chain t p) = body_length (t, p)"
  by (simp add: record_body_def Let_def record_checked_def body_length_def kRecordSuffixBytes_def)

lemma body_length_pos: "0 < body_length tp"
  by (simp add: body_length_def kRecordPrefixBytes_def)

lemma payload_count: "storable (t, p) \<Longrightarrow> unat (word_of_nat (length p) :: u32) = length p"
  by (intro unat_count_small) (simp add: storable_def kMaxRecordPayloadBytes_def)

lemma dec_record_prefix_enc:
  "dec_record_prefix (record_prefix t p)
     = Inr ((word_of_nat (length p), store_record_type_code t, kRecordFlagNone, crc32c p), [])"
proof -
  have "dec_u32 (enc_u32 v) = Inr (v, [])" for v using dec_u32_enc [of v "[]"] by simp
  then show ?thesis by (simp add: dec_record_prefix_def record_prefix_def codec_simps)
qed

lemma dec_record_suffix_enc: "dec_record_suffix (enc_u32 v @ enc_digest d) = Inr ((v, d), [])"
proof -
  have "dec_digest (enc_digest d) = Inr (d, [])" using dec_digest_enc [of d "[]"] by simp
  then show ?thesis by (simp add: dec_record_suffix_def codec_simps)
qed

lemma read_record_body:
  assumes "storable (t, p)"
  shows "read_record chain offset (record_body chain t p @ rest)
           = Taken (stored_record_of chain offset (t, p)) (body_length (t, p))"
proof -
  let ?suffix = "enc_u32 (crc32c (record_checked t p)) @ enc_digest (chain_step chain (record_checked t p))"
  let ?bytes = "record_prefix t p @ p @ ?suffix @ rest"
  have bytes: "record_body chain t p @ rest = ?bytes"
    by (simp add: record_body_def Let_def record_checked_def)
  have suffix: "length ?suffix = kRecordSuffixBytes" by (simp add: kRecordSuffixBytes_def)
  have n: "unat (word_of_nat (length p) :: u32) = length p" by (rule payload_count [OF assms])
  have small: "\<not> length p > kMaxRecordPayloadBytes" using assms by (simp add: storable_def)
  have len: "length ?bytes = body_length (t, p) + length rest" using suffix by (simp add: body_length_def)
  have pre: "take kRecordPrefixBytes ?bytes = record_prefix t p" by simp
  have check: "take (kRecordPrefixBytes + length p) ?bytes = record_checked t p"
    by (simp add: record_checked_def)
  have pay: "take (length p) (drop kRecordPrefixBytes ?bytes) = p" by simp
  have suf: "take kRecordSuffixBytes (drop (kRecordPrefixBytes + length p) ?bytes) = ?suffix"
    using suffix by simp
  have chk: "check_record chain offset ?bytes (body_length (t, p)) (word_of_nat (length p))
      (store_record_type_code t) (crc32c p)
      = Taken (stored_record_of chain offset (t, p)) (body_length (t, p))"
    unfolding check_record_def Let_def n pay check suf dec_record_suffix_enc
    by (simp add: stored_record_of_def)
  show ?thesis
    unfolding bytes read_record_def Let_def pre dec_record_prefix_enc len
    using small chk by (simp add: n body_length_def)
qed

text \<open>A record that is cut off is reported as a truncated tail, whatever of it is left.\<close>

lemma read_record_cut:
  assumes "storable (t, p)" "m < body_length (t, p)"
  shows "\<exists>detail. read_record chain offset (take m (record_body chain t p)) = Stop (truncated_at m detail)"
proof (cases "m < kRecordPrefixBytes")
  case True
  have "length (take m (record_body chain t p)) = m" using assms(2) by simp
  with True show ?thesis unfolding read_record_def Let_def by auto
next
  case False
  have len: "length (take m (record_body chain t p)) = m" using assms(2) by simp
  have pre: "take kRecordPrefixBytes (take m (record_body chain t p)) = record_prefix t p"
    using False by (simp add: record_body_def Let_def record_checked_def min_def)
  have n: "unat (word_of_nat (length p) :: u32) = length p" by (rule payload_count [OF assms(1)])
  have small: "\<not> length p > kMaxRecordPayloadBytes" using assms(1) by (simp add: storable_def)
  have "m < kRecordPrefixBytes + length p + kRecordSuffixBytes" using assms(2) by (simp add: body_length_def)
  then show ?thesis
    unfolding read_record_def Let_def len pre dec_record_prefix_enc
    using False small by (auto simp: n)
qed

section \<open>Scanning a rendered sequence\<close>

fun absorb :: "digest \<Rightarrow> nat \<Rightarrow> plain_record list \<Rightarrow> loaded_store \<Rightarrow> loaded_store" where
  "absorb chain offset [] l = l"
| "absorb chain offset (tp # rs) l =
     (let next_offset = offset + body_length tp; l1 = count_record next_offset l
      in absorb (chain_step chain (record_checked (fst tp) (snd tp))) next_offset rs
           (l1\<lparr>ld_records := ld_records l1 @ [stored_record_of chain offset tp]\<rparr>))"

lemma scan_render:
  assumes "list_all (\<lambda>tp. storable tp \<and> fst tp \<noteq> Rec_Trailer) rs"
  shows "scan hc offset (render chain rs @ rest) chain l
           = scan hc (offset + length (render chain rs)) rest (chain_after chain rs) (absorb chain offset rs l)"
  using assms
proof (induction rs arbitrary: chain offset l)
  case (Cons tp rs)
  obtain t p where tp: "tp = (t, p)" by (cases tp)
  have ok: "storable (t, p)" "t \<noteq> Rec_Trailer" using Cons.prems by (simp_all add: tp)
  let ?chain = "chain_step chain (record_checked t p)"
  let ?rest = "render ?chain rs @ rest"
  have ne: "record_body chain t p @ ?rest \<noteq> []"
    by (metis append_is_Nil_conv body_length_pos length_record_body less_irrefl list.size(3))
  have sc: "sr_chain (stored_record_of chain offset (t, p)) = ?chain"
    "sr_type (stored_record_of chain offset (t, p)) = t" by (simp_all add: stored_record_of_def)
  have dr: "drop (body_length (t, p)) (record_body chain t p @ ?rest) = ?rest" by simp
  have "scan hc offset (record_body chain t p @ ?rest) chain l
      = scan hc (offset + body_length (t, p)) ?rest ?chain
          ((count_record (offset + body_length (t, p)) l)
             \<lparr>ld_records := ld_records (count_record (offset + body_length (t, p)) l)
                @ [stored_record_of chain offset (t, p)]\<rparr>)"
    by (subst scan.simps) (simp add: ne read_record_body [OF ok(1)] sc ok(2) dr Let_def del: append_is_Nil_conv)
  also have "\<dots> = scan hc (offset + body_length (t, p) + length (render ?chain rs)) rest (chain_after ?chain rs)
      (absorb ?chain (offset + body_length (t, p)) rs
         ((count_record (offset + body_length (t, p)) l)
             \<lparr>ld_records := ld_records (count_record (offset + body_length (t, p)) l)
                @ [stored_record_of chain offset (t, p)]\<rparr>))"
    using Cons.prems by (intro Cons.IH) simp
  finally show ?case by (simp add: tp Let_def add.assoc)
qed simp

lemma absorb_frame:
  "ld_header (absorb chain offset rs l) = ld_header l"
  "ld_trailer_record_count (absorb chain offset rs l) = ld_trailer_record_count l"
  by (induction rs arbitrary: chain offset l) (simp_all add: Let_def count_record_def)

lemma absorb_records:
  "map plain (ld_records (absorb chain offset rs l)) = map plain (ld_records l) @ rs"
  by (induction rs arbitrary: chain offset l)
     (simp_all add: Let_def count_record_def plain_def stored_record_of_def)

lemma absorb_last_chain:
  "last_chain hc (ld_records l) = chain \<Longrightarrow>
     last_chain hc (ld_records (absorb chain offset rs l)) = chain_after chain rs"
  by (induction rs arbitrary: chain offset l)
     (auto simp: Let_def count_record_def last_chain_def stored_record_of_def)

text \<open>The flags, the note and the bytes to discard are left to the end of the scan.\<close>

definition untouched :: "store_recovery \<Rightarrow> store_recovery \<Rightarrow> bool" where
  "untouched r r' \<longleftrightarrow>
     rv_truncated_tail r' = rv_truncated_tail r \<and> rv_corrupt_tail_record r' = rv_corrupt_tail_record r \<and>
     rv_mid_file_corruption r' = rv_mid_file_corruption r \<and> rv_trailer_present r' = rv_trailer_present r \<and>
     rv_trailer_mismatch r' = rv_trailer_mismatch r \<and> rv_bytes_discarded r' = rv_bytes_discarded r \<and>
     rv_detail r' = rv_detail r \<and> rv_file_bytes r' = rv_file_bytes r"

lemma absorb_recovery:
  "untouched (ld_recovery l) (ld_recovery (absorb chain offset rs l)) \<and>
   rv_records_recovered (ld_recovery (absorb chain offset rs l))
     = rv_records_recovered (ld_recovery l) + length rs"
  by (induction rs arbitrary: chain offset l) (auto simp: Let_def count_record_def untouched_def)

section \<open>Loading a written store\<close>

definition header_wf :: "store_header \<Rightarrow> bool" where
  "header_wf h \<longleftrightarrow> sh_format_version h = kStoreFormatVersion \<and> i64_ok (sh_created_at_utc_ns h)"

lemma length_header_prefix: "length (header_prefix h) = 76"
  by (simp add: header_prefix_def kStoreMagic_def enc_u64_def enc_i64_def)

lemma length_encode_header [simp]: "length (encode_header h) = kStoreHeaderBytes"
  by (simp add: encode_header_def length_header_prefix kStoreHeaderBytes_def)

lemma decode_encode_header:
  assumes "header_wf h"
  shows "decode_header (encode_header h) = Inr h"
proof -
  have body: "take (kStoreHeaderBytes - 4) (encode_header h) = header_prefix h"
    "drop (kStoreHeaderBytes - 4) (encode_header h) = enc_u32 (crc32c (header_prefix h))"
    by (simp_all add: encode_header_def length_header_prefix kStoreHeaderBytes_def)
  have u32: "dec_u32 (enc_u32 v) = Inr (v, [])" for v using dec_u32_enc [of v "[]"] by simp
  have magic: "dec_raw kMagicBytes (enc_text kStoreMagic @ rest) = Inr (enc_text kStoreMagic, rest)" for rest
    by (simp add: codec_simps kStoreMagic_def kMagicBytes_def)
  show ?thesis
    using assms unfolding decode_header_def Let_def body
    by (cases h) (simp add: header_prefix_def magic u32 dec_header_fields_def codec_simps header_wf_def)
qed

definition store_start :: "store_header \<Rightarrow> digest" where
  "store_start h = digest_of (encode_header h)"

definition empty_load :: "store_header \<Rightarrow> nat \<Rightarrow> loaded_store" where
  "empty_load h n =
     \<lparr>ld_header = h, ld_records = [], ld_recovery = recovery_init\<lparr>rv_file_bytes := n\<rparr>,
      ld_trailer_record_count = 0, ld_trailer_chain_root = zero_digest\<rparr>"

definition finish_load :: "loaded_store \<Rightarrow> loaded_store" where
  "finish_load l = l\<lparr>ld_recovery := finish_recovery (ld_recovery l)\<rparr>"

lemma load_image_header:
  assumes "header_wf h"
  shows "load_image (encode_header h @ rest)
           = Inr (finish_load (scan (store_start h) kStoreHeaderBytes rest (store_start h)
                                 (empty_load h (kStoreHeaderBytes + length rest))))"
  by (simp add: load_image_def decode_encode_header [OF assms] Let_def store_start_def empty_load_def
      finish_load_def)

definition plain_records_ok :: "plain_record list \<Rightarrow> bool" where
  "plain_records_ok rs \<longleftrightarrow> list_all (\<lambda>tp. storable tp \<and> fst tp \<noteq> Rec_Trailer) rs"

lemma load_image_render:
  assumes "header_wf h" "plain_records_ok rs"
  shows "load_image (encode_header h @ render (store_start h) rs @ rest)
           = Inr (finish_load (scan (store_start h) (kStoreHeaderBytes + length (render (store_start h) rs)) rest
               (chain_after (store_start h) rs)
               (absorb (store_start h) kStoreHeaderBytes rs
                  (empty_load h (kStoreHeaderBytes + length (render (store_start h) rs) + length rest)))))"
  using scan_render [OF assms(2) [unfolded plain_records_ok_def]]
  by (simp add: load_image_header [OF assms(1)] add.assoc)

definition trailer_record :: "store_header \<Rightarrow> plain_record list \<Rightarrow> plain_record" where
  "trailer_record h rs =
     (Rec_Trailer, enc_u64 (word_of_nat (length rs)) @ enc_digest (chain_after (store_start h) rs))"

text \<open>The contents of a store that was closed properly.\<close>

definition store_image :: "store_header \<Rightarrow> plain_record list \<Rightarrow> bytes" where
  "store_image h rs = encode_header h @ render (store_start h) (rs @ [trailer_record h rs])"

lemma render_append: "render chain (rs @ qs) = render chain rs @ render (chain_after chain rs) qs"
  by (induction rs arbitrary: chain) auto

lemma length_render_single: "length (render chain [tp]) = body_length tp"
  by (cases tp) simp

lemma length_store_image:
  "length (store_image h rs)
     = kStoreHeaderBytes + length (render (store_start h) rs) + body_length (trailer_record h rs)"
  by (simp add: store_image_def render_append length_render_single)

lemma storable_trailer: "storable (trailer_record h rs)"
  by (simp add: storable_def trailer_record_def kMaxRecordPayloadBytes_def enc_u64_def)

lemma dec_trailer_enc: "dec_trailer (enc_u64 n @ enc_digest d) = Inr ((n, d), [])"
proof -
  have "dec_digest (enc_digest d) = Inr (d, [])" using dec_digest_enc [of d "[]"] by simp
  then show ?thesis by (simp add: dec_trailer_def codec_simps)
qed

lemma load_complete:
  assumes h: "header_wf h" and rs: "plain_records_ok rs" and n: "length rs < 2 ^ 64"
  obtains l kept r where "load_image (store_image h rs @ junk) = Inr l" "ld_header l = h"
    "ld_records l = kept @ [r]" "map plain kept = rs" "plain r = trailer_record h rs"
    "last_chain (store_start h) kept = chain_after (store_start h) rs"
    "sr_offset r = kStoreHeaderBytes + length (render (store_start h) rs)"
    "rv_clean (ld_recovery l)" "\<not> rv_mid_file_corruption (ld_recovery l)"
    "rv_trailer_present (ld_recovery l)" "rv_bytes_discarded (ld_recovery l) = 0"
    "rv_valid_bytes (ld_recovery l) = length (store_image h rs)"
    "rv_file_bytes (ld_recovery l) = length (store_image h rs) + length junk"
    "unat (ld_trailer_record_count l) = length rs"
proof -
  let ?c = "store_start h" let ?ca = "chain_after ?c rs"
  let ?off = "kStoreHeaderBytes + length (render ?c rs)"
  let ?total = "?off + length (record_body ?ca Rec_Trailer (snd (trailer_record h rs)) @ junk)"
  define a where "a = absorb ?c kStoreHeaderBytes rs (empty_load h ?total)"
  let ?r = "stored_record_of ?ca ?off (trailer_record h rs)"
  have tr: "trailer_record h rs = (Rec_Trailer, snd (trailer_record h rs))" by (simp add: trailer_record_def)
  have "record_body ?ca Rec_Trailer (snd (trailer_record h rs)) \<noteq> []"
    by (metis body_length_pos length_record_body less_irrefl list.size(3))
  then have sc: "scan ?c ?off (record_body ?ca Rec_Trailer (snd (trailer_record h rs)) @ junk) ?ca a
      = accept_trailer ?c ?r (count_record (?off + body_length (trailer_record h rs)) a)"
    using read_record_body [OF storable_trailer [of h rs, unfolded trailer_record_def]]
    by (subst scan.simps) (simp add: Let_def stored_record_of_def trailer_record_def)
  have img: "store_image h rs @ junk = encode_header h @ render ?c rs
      @ record_body ?ca Rec_Trailer (snd (trailer_record h rs)) @ junk"
    using tr by (simp add: store_image_def render_append) (metis append.right_neutral render.simps)
  have last: "last_chain ?c (ld_records a) = ?ca"
    unfolding a_def by (rule absorb_last_chain) (simp add: empty_load_def last_chain_def)
  have recs: "map plain (ld_records a) = rs" by (simp add: a_def absorb_records empty_load_def)
  then have len: "length (ld_records a) = length rs" by (metis length_map)
  have w: "unat (word_of_nat (length rs) :: u64) = length rs" using n by (rule unat_word64_small)
  have rec: "untouched (recovery_init\<lparr>rv_file_bytes := ?total\<rparr>) (ld_recovery a)"
    using absorb_recovery [of "empty_load h ?total" ?c kStoreHeaderBytes rs] by (simp add: a_def empty_load_def)
  let ?l = "finish_load (accept_trailer ?c ?r (count_record (?off + body_length (trailer_record h rs)) a))"
  have acc: "accept_trailer ?c ?r (count_record (?off + body_length (trailer_record h rs)) a)
      = a\<lparr>ld_recovery := (ld_recovery (count_record (?off + body_length (trailer_record h rs)) a))
                 \<lparr>rv_trailer_present := True\<rparr>,
           ld_trailer_record_count := word_of_nat (length rs), ld_trailer_chain_root := ?ca,
           ld_records := ld_records a @ [?r]\<rparr>"
    using last len w
    by (simp add: accept_trailer_def Let_def stored_record_of_def trailer_record_def dec_trailer_enc count_record_def)
  show ?thesis
  proof (rule that [of ?l "ld_records a" ?r])
    show "load_image (store_image h rs @ junk) = Inr ?l"
      unfolding img load_image_render [OF h rs] sc [symmetric] by (simp add: a_def add.assoc)
    show "ld_header ?l = h" unfolding finish_load_def acc by (simp add: a_def absorb_frame empty_load_def)
    show "ld_records ?l = ld_records a @ [?r]" unfolding finish_load_def acc by simp
    show "map plain (ld_records a) = rs" by (rule recs)
    show "plain ?r = trailer_record h rs" by (simp add: plain_def stored_record_of_def)
    show "last_chain ?c (ld_records a) = ?ca" by (rule last)
    show "sr_offset ?r = ?off" by (simp add: stored_record_of_def)
    show "rv_clean (ld_recovery ?l)" "\<not> rv_mid_file_corruption (ld_recovery ?l)"
      "rv_trailer_present (ld_recovery ?l)" "rv_bytes_discarded (ld_recovery ?l) = 0"
      using rec unfolding finish_load_def acc
      by (simp_all add: finish_recovery_def Let_def untouched_def count_record_def recovery_init_def)
    show "rv_valid_bytes (ld_recovery ?l) = length (store_image h rs)"
      using body_length_pos [of "trailer_record h rs"] unfolding finish_load_def acc length_store_image
      by (simp add: finish_recovery_def Let_def count_record_def)
    show "rv_file_bytes (ld_recovery ?l) = length (store_image h rs) + length junk"
      using rec tr unfolding finish_load_def acc length_store_image
      by (simp add: finish_recovery_def Let_def count_record_def untouched_def)
    show "unat (ld_trailer_record_count ?l) = length rs" using w unfolding finish_load_def acc by simp
  qed
qed

lemma image_loads:
  assumes "header_wf h" "plain_records_ok rs" "length rs \<le> kMaxStoreRecords"
  shows "\<exists>l. load_image (store_image h rs @ junk) = Inr l \<and> ld_header l = h \<and>
     map plain (ld_records l) = rs @ [trailer_record h rs] \<and> unat (ld_trailer_record_count l) = length rs \<and>
     rv_clean (ld_recovery l) \<and> rv_trailer_present (ld_recovery l) \<and> rv_bytes_discarded (ld_recovery l) = 0"
proof -
  have "length rs < 2 ^ 64" using assms(3) by (simp add: kMaxStoreRecords_def)
  then obtain l kept r where "load_image (store_image h rs @ junk) = Inr l" "ld_header l = h"
    "ld_records l = kept @ [r]" "map plain kept = rs" "plain r = trailer_record h rs"
    "rv_clean (ld_recovery l)" "rv_trailer_present (ld_recovery l)" "rv_bytes_discarded (ld_recovery l) = 0"
    "unat (ld_trailer_record_count l) = length rs"
    using load_complete [OF assms(1,2)] by metis
  then show ?thesis by (intro exI [of _ l]) simp
qed

section \<open>Loading a store that was cut off\<close>

lemma render_cut:
  assumes "n < length (render chain rs)"
  shows "\<exists>k t p m. k < length rs \<and> rs ! k = (t, p) \<and> m < body_length (t, p) \<and>
     take n (render chain rs)
       = render chain (take k rs) @ take m (record_body (chain_after chain (take k rs)) t p)"
  using assms
proof (induction rs arbitrary: chain n)
  case (Cons tp rs)
  obtain t p where tp: "tp = (t, p)" by (cases tp)
  let ?chain = "chain_step chain (record_checked t p)"
  show ?case
  proof (cases "n < body_length (t, p)")
    case True
    then have "take n (render chain (tp # rs))
      = render chain (take 0 (tp # rs)) @ take n (record_body (chain_after chain (take 0 (tp # rs))) t p)"
      by (simp add: tp)
    with True show ?thesis by (metis tp length_Cons nth_Cons_0 zero_less_Suc)
  next
    case False
    with Cons.prems have "n - body_length (t, p) < length (render ?chain rs)" by (simp add: tp)
    from Cons.IH [OF this] obtain k s q m where IH: "k < length rs" "rs ! k = (s, q)" "m < body_length (s, q)"
      "take (n - body_length (t, p)) (render ?chain rs)
        = render ?chain (take k rs) @ take m (record_body (chain_after ?chain (take k rs)) s q)" by blast
    with False have "take n (render chain (tp # rs))
      = render chain (take (Suc k) (tp # rs)) @ take m (record_body (chain_after chain (take (Suc k) (tp # rs))) s q)"
      by (simp add: tp)
    with IH(1-3) show ?thesis by (metis length_Cons nth_Cons_Suc Suc_less_eq)
  qed
qed simp

lemma load_cut:
  assumes h: "header_wf h" and rs: "plain_records_ok rs"
    and n: "kStoreHeaderBytes \<le> n" "n < length (store_image h rs)"
  obtains l k where "load_image (take n (store_image h rs)) = Inr l" "ld_header l = h"
    "map plain (ld_records l) = take k rs" "\<not> rv_mid_file_corruption (ld_recovery l)"
    "\<not> rv_corrupt_tail_record (ld_recovery l)" "\<not> rv_trailer_present (ld_recovery l)"
    "rv_clean (ld_recovery l) \<longleftrightarrow> n = length (encode_header h @ render (store_start h) (take k rs))"
proof -
  let ?c = "store_start h" let ?rs = "rs @ [trailer_record h rs]"
  have "n - kStoreHeaderBytes < length (render ?c ?rs)" using n by (simp add: store_image_def)
  from render_cut [OF this] obtain k t p m where k: "k < length ?rs" "?rs ! k = (t, p)" "m < body_length (t, p)"
    and cut: "take (n - kStoreHeaderBytes) (render ?c ?rs)
      = render ?c (take k ?rs) @ take m (record_body (chain_after ?c (take k ?rs)) t p)" by blast
  have kr: "take k ?rs = take k rs" using k(1) by simp
  have tk: "plain_records_ok (take k rs)"
    using rs by (auto simp: plain_records_ok_def list_all_iff dest: in_set_takeD)
  have st: "storable (t, p)"
  proof (cases "k < length rs")
    case True
    then have "(t, p) \<in> set rs" using k(2) by (metis nth_append nth_mem)
    then show ?thesis using rs by (auto simp: plain_records_ok_def list_all_iff)
  next
    case False
    then have "(t, p) = trailer_record h rs" using k by (simp add: nth_append split: if_splits)
    then show ?thesis using storable_trailer [of h rs] by simp
  qed
  let ?cut = "take m (record_body (chain_after ?c (take k rs)) t p)"
  have "take n (store_image h rs) = encode_header h @ take (n - kStoreHeaderBytes) (render ?c ?rs)"
    using n(1) by (simp add: store_image_def)
  then have img: "take n (store_image h rs) = encode_header h @ render ?c (take k rs) @ ?cut"
    unfolding cut [unfolded kr] .
  have lcut: "length ?cut = m" using k(3) by simp
  have nm: "n = kStoreHeaderBytes + length (render ?c (take k rs)) + m"
  proof -
    have "length (take n (store_image h rs)) = n" using n(2) by simp
    with arg_cong [OF img, of length] lcut show ?thesis by (simp del: length_take)
  qed
  let ?off = "kStoreHeaderBytes + length (render ?c (take k rs))"
  let ?a = "absorb ?c kStoreHeaderBytes (take k rs) (empty_load h (?off + length ?cut))"
  let ?s = "scan ?c ?off ?cut (chain_after ?c (take k rs)) ?a"
  have rec: "untouched (recovery_init\<lparr>rv_file_bytes := ?off + length ?cut\<rparr>) (ld_recovery ?a)"
    using absorb_recovery [of "empty_load h (?off + length ?cut)" ?c kStoreHeaderBytes "take k rs"]
    by (simp add: empty_load_def)
  have recs: "map plain (ld_records ?a) = take k rs" by (simp add: absorb_records empty_load_def)
  have s: "ld_header ?s = h \<and> ld_records ?s = ld_records ?a \<and>
      (m = 0 \<and> ld_recovery ?s = ld_recovery ?a \<or>
       m > 0 \<and> (\<exists>detail. ld_recovery ?s = truncated_at m detail (ld_recovery ?a)))"
  proof (cases "m = 0")
    case True
    then show ?thesis by (simp add: scan.simps [of _ _ "[]"] absorb_frame empty_load_def)
  next
    case False
    with lcut have "?cut \<noteq> []" by (metis list.size(3))
    moreover obtain detail where
      "read_record (chain_after ?c (take k rs)) ?off ?cut = Stop (truncated_at m detail)"
      using read_record_cut [OF st k(3)] by blast
    ultimately have "?s = ?a\<lparr>ld_recovery := truncated_at m detail (ld_recovery ?a)\<rparr>"
      by (subst scan.simps) simp
    with False show ?thesis by (auto simp: absorb_frame empty_load_def)
  qed
  have clean: "rv_clean (finish_recovery r) \<longleftrightarrow> \<not> rv_truncated_tail r \<and> \<not> rv_corrupt_tail_record r \<and>
      \<not> rv_mid_file_corruption r \<and> \<not> rv_trailer_mismatch r"
    "rv_mid_file_corruption (finish_recovery r) = rv_mid_file_corruption r"
    "rv_corrupt_tail_record (finish_recovery r) = rv_corrupt_tail_record r"
    "rv_trailer_present (finish_recovery r) = rv_trailer_present r" for r
    by (simp_all add: finish_recovery_def Let_def)
  show ?thesis
  proof (rule that [of "finish_load ?s" k])
    show "load_image (take n (store_image h rs)) = Inr (finish_load ?s)"
      unfolding img load_image_render [OF h tk] by simp
    show "ld_header (finish_load ?s) = h" "map plain (ld_records (finish_load ?s)) = take k rs"
      using s recs by (simp_all add: finish_load_def)
    show "\<not> rv_mid_file_corruption (ld_recovery (finish_load ?s))"
      "\<not> rv_corrupt_tail_record (ld_recovery (finish_load ?s))"
      "\<not> rv_trailer_present (ld_recovery (finish_load ?s))"
      using s rec by (auto simp: finish_load_def clean untouched_def truncated_at_def recovery_init_def)
    show "rv_clean (ld_recovery (finish_load ?s)) \<longleftrightarrow>
        n = length (encode_header h @ render ?c (take k rs))"
      using s rec nm by (auto simp: finish_load_def clean untouched_def truncated_at_def recovery_init_def)
  qed
qed

section \<open>The writer writes that image\<close>

fun append_all :: "plain_record list \<Rightarrow> store_writer \<Rightarrow> files \<Rightarrow> status \<times> store_writer \<times> files" where
  "append_all [] w fs = (success, w, fs)"
| "append_all ((t, p) # rs) w fs =
     (case append_record t p w fs of
        (Inl e, w', fs') \<Rightarrow> (Inl e, w', fs')
      | (Inr _, w', fs') \<Rightarrow> append_all rs w' fs')"

text \<open>What a writer knows about its file.\<close>

definition writer_at :: "store_header \<Rightarrow> plain_record list \<Rightarrow> string \<Rightarrow> store_writer \<Rightarrow> files \<Rightarrow> bool" where
  "writer_at h rs path w fs \<longleftrightarrow>
     wr_open w \<and> wr_path w = path \<and> wr_chain w = chain_after (store_start h) rs \<and>
     wr_record_count w = word_of_nat (length rs) \<and> plain_records_ok rs \<and>
     length rs \<le> kMaxStoreRecords \<and> header_wf h \<and> fs path = Some (encode_header h @ render (store_start h) rs)"

lemma chain_after_append: "chain_after chain (rs @ qs) = chain_after (chain_after chain rs) qs"
  by (induction rs arbitrary: chain) auto

lemma create_store_at:
  "create_store path h b fs = (Inr w, fs') \<Longrightarrow> i64_ok (sh_created_at_utc_ns h) \<Longrightarrow> writer_at h [] path w fs'"
  by (auto simp: create_store_def writer_at_def store_start_def plain_records_ok_def header_wf_def
      split: if_splits)

lemma require_within_payload:
  "n < 2 ^ 64 \<Longrightarrow> require_within (word_of_nat n) (word_of_nat kMaxRecordPayloadBytes) what = success \<longleftrightarrow>
     n \<le> kMaxRecordPayloadBytes"
  by (auto simp: require_within_def word_less_nat_alt unat_word64_small [simplified] kMaxRecordPayloadBytes_def
      not_less)

lemma require_within_count:
  assumes "n \<le> kMaxStoreRecords"
  shows "require_within (word_of_nat n + 1) (word_of_nat kMaxStoreRecords) what = success \<longleftrightarrow>
     n + 1 \<le> kMaxStoreRecords"
proof -
  have "unat (word_of_nat (n + 1) :: u64) = n + 1"
    by (rule unat_word64_small) (use assms in \<open>simp add: kMaxStoreRecords_def\<close>)
  moreover have "unat (word_of_nat kMaxStoreRecords :: u64) = kMaxStoreRecords"
    by (rule unat_word64_small) (simp add: kMaxStoreRecords_def)
  ultimately show ?thesis
    by (auto simp: require_within_def word_less_nat_alt not_less add.commute)
qed

lemma append_record_at:
  assumes "writer_at h rs path w fs" "append_record t p w fs = (success, w', fs')" "length p < 2 ^ 64"
  shows "writer_at h (rs @ [(t, p)]) path w' fs'"
proof -
  have w: "wr_open w" "wr_path w = path" "wr_chain w = chain_after (store_start h) rs"
    "wr_record_count w = word_of_nat (length rs)" "plain_records_ok rs"
    "fs path = Some (encode_header h @ render (store_start h) rs)" "header_wf h" "length rs \<le> kMaxStoreRecords"
    using assms(1) by (simp_all add: writer_at_def)
  have t: "t \<noteq> Rec_Trailer" using assms(2) w(1) by (auto simp: append_record_def split: if_splits)
  have "require_within (word_of_nat (length p)) (word_of_nat kMaxRecordPayloadBytes) ''store record payload'' = success"
    using assms(2) w(1) t
    by (cases "require_within (word_of_nat (length p)) (word_of_nat kMaxRecordPayloadBytes) ''store record payload''")
       (auto simp: append_record_def)
  then have p: "length p \<le> kMaxRecordPayloadBytes" using require_within_payload [OF assms(3)] by blast
  have "require_within (wr_record_count w + 1) (word_of_nat kMaxStoreRecords) ''store record count'' = success"
    using assms(2) w(1) t
    by (cases "require_within (wr_record_count w + 1) (word_of_nat kMaxStoreRecords) ''store record count''")
       (auto simp: append_record_def simp: res_bind_eq_Inr split: sum.splits)
  then have n: "length rs + 1 \<le> kMaxStoreRecords" using require_within_count [OF w(8)] w(4) by simp
  have "wr_open w' \<and> wr_path w' = wr_path w \<and>
      wr_chain w' = chain_step (wr_chain w) (record_checked t p) \<and> wr_record_count w' = wr_record_count w + 1 \<and>
      fs' = file_append (wr_path w) (record_body (wr_chain w) t p) fs"
    using assms(2) w(1) t by (auto simp: append_record_def split: sum.splits)
  with w t p n show ?thesis
    by (simp add: writer_at_def chain_after_append render_append file_append_def plain_records_ok_def storable_def
        add.commute)
qed

lemma append_all_at:
  "writer_at h rs path w fs \<Longrightarrow> append_all qs w fs = (success, w', fs') \<Longrightarrow>
     list_all (\<lambda>tp. length (snd tp) < 2 ^ 64) qs \<Longrightarrow> writer_at h (rs @ qs) path w' fs'"
proof (induction qs arbitrary: rs w fs)
  case (Cons tp qs)
  obtain t p where tp: "tp = (t, p)" by (cases tp)
  obtain st w1 fs1 where step: "append_record t p w fs = (st, w1, fs1)" by (cases "append_record t p w fs")
  with Cons.prems(2) have "st = success" "append_all qs w1 fs1 = (success, w', fs')"
    by (auto simp: tp split: sum.splits)
  with append_record_at [OF Cons.prems(1)] step Cons.prems(3) Cons.IH [of "rs @ [(t, p)]" w1 fs1]
  show ?case by (simp add: tp)
qed simp

lemma append_trailer_at:
  assumes "writer_at h rs path w fs" "append_trailer w fs = (success, w', fs')"
  shows "fs' path = Some (store_image h rs)"
proof -
  have "fs' = file_append (wr_path w) (record_body (wr_chain w) Rec_Trailer (trailer_payload w)) fs"
    using assms by (auto simp: append_trailer_def writer_at_def Let_def split: sum.splits)
  with assms(1) show ?thesis
    by (simp add: writer_at_def file_append_def store_image_def render_append trailer_record_def trailer_payload_def)
qed


section \<open>Writing, closing and reopening a store\<close>

text \<open>A store that is created, filled and closed.\<close>

definition write_store ::
  "string \<Rightarrow> store_header \<Rightarrow> bool \<Rightarrow> plain_record list \<Rightarrow> files \<Rightarrow> status \<times> files" where
  "write_store path h replace rs fs =
     (case create_store path h replace fs of
        (Inl e, fs1) \<Rightarrow> (Inl e, fs1)
      | (Inr w, fs1) \<Rightarrow>
          (case append_all rs w fs1 of
             (Inl e, w2, fs2) \<Rightarrow> (Inl e, fs2)
           | (Inr _, w2, fs2) \<Rightarrow> (case append_trailer w2 fs2 of (st, w3, fs3) \<Rightarrow> (st, fs3))))"

text \<open>A store that is reopened, extended and closed.\<close>

definition extend_store ::
  "string \<Rightarrow> bool \<Rightarrow> plain_record list \<Rightarrow> files \<Rightarrow> status \<times> files" where
  "extend_store path repair rs fs =
     (case reopen_store path repair fs of
        (Inl e, fs1) \<Rightarrow> (Inl e, fs1)
      | (Inr w, fs1) \<Rightarrow>
          (case append_all rs w fs1 of
             (Inl e, w2, fs2) \<Rightarrow> (Inl e, fs2)
           | (Inr _, w2, fs2) \<Rightarrow> (case append_trailer w2 fs2 of (st, w3, fs3) \<Rightarrow> (st, fs3))))"

definition payloads_ok :: "plain_record list \<Rightarrow> bool" where
  "payloads_ok rs \<longleftrightarrow> list_all (\<lambda>tp. length (snd tp) < 2 ^ 64) rs"

lemma write_store_image:
  assumes "write_store path h b rs fs = (success, fs')" "i64_ok (sh_created_at_utc_ns h)" "payloads_ok rs"
  shows "fs' path = Some (store_image h rs)" "header_wf h" "plain_records_ok rs" "length rs \<le> kMaxStoreRecords"
proof -
  obtain w fs1 w2 fs2 w3 where steps: "create_store path h b fs = (Inr w, fs1)"
    "append_all rs w fs1 = (success, w2, fs2)" "append_trailer w2 fs2 = (success, w3, fs')"
    using assms(1) by (auto simp: write_store_def split: prod.splits sum.splits)
  have at: "writer_at h rs path w2 fs2"
    using append_all_at [OF create_store_at [OF steps(1) assms(2)] steps(2)] assms(3) by (simp add: payloads_ok_def)
  show "fs' path = Some (store_image h rs)" by (rule append_trailer_at [OF at steps(3)])
  show "header_wf h" "plain_records_ok rs" "length rs \<le> kMaxStoreRecords" using at by (simp_all add: writer_at_def)
qed

lemma trailers_of_kept:
  assumes "plain_records_ok rs" "map plain kept = rs" "plain r = trailer_record h rs"
  shows "filter (\<lambda>r. sr_type r = Rec_Trailer) (kept @ [r]) = [r]"
    "filter (\<lambda>r. sr_type r \<noteq> Rec_Trailer) (kept @ [r]) = kept"
proof -
  have "sr_type r = Rec_Trailer" using assms(3) by (simp add: plain_def trailer_record_def)
  moreover have "sr_type x \<noteq> Rec_Trailer" if "x \<in> set kept" for x
    using assms(1) that by (auto simp: plain_records_ok_def list_all_iff plain_def assms(2) [symmetric])
  ultimately show "filter (\<lambda>r. sr_type r = Rec_Trailer) (kept @ [r]) = [r]"
    "filter (\<lambda>r. sr_type r \<noteq> Rec_Trailer) (kept @ [r]) = kept"
    by (auto simp: filter_id_conv)
qed

lemma reopen_at:
  assumes h: "header_wf h" and rs: "plain_records_ok rs" "length rs \<le> kMaxStoreRecords"
    and f: "fs path = Some (store_image h rs @ junk)"
    and re: "reopen_store path repair fs = (Inr w, fs')"
  shows "writer_at h rs path w fs'"
proof -
  have n: "length rs < 2 ^ 64" using rs(2) by (simp add: kMaxStoreRecords_def)
  obtain l kept r where l: "load_image (store_image h rs @ junk) = Inr l" "ld_header l = h"
    "ld_records l = kept @ [r]" "map plain kept = rs" "plain r = trailer_record h rs"
    "last_chain (store_start h) kept = chain_after (store_start h) rs"
    "sr_offset r = kStoreHeaderBytes + length (render (store_start h) rs)"
    "rv_valid_bytes (ld_recovery l) = length (store_image h rs)"
    "rv_file_bytes (ld_recovery l) = length (store_image h rs) + length junk"
    using load_complete [OF h rs(1) n] by metis
  have size: "sr_offset r < length (store_image h rs)"
    using body_length_pos [of "trailer_record h rs"] l(7) by (simp add: length_store_image)
  have target: "reopen_target l = sr_offset r"
    unfolding reopen_target_def Let_def l(3) trailers_of_kept [OF rs(1) l(4,5)] using size l(8) by simp
  have cut: "take (sr_offset r) (store_image h rs @ junk) = encode_header h @ render (store_start h) rs"
    using l(7) by (simp add: store_image_def render_append)
  have len: "length kept = length rs" using l(4) by auto
  have fk: "filter (\<lambda>r. sr_type r \<noteq> Rec_Trailer) (ld_records l) = kept"
    unfolding l(3) by (rule trailers_of_kept [OF rs(1) l(4,5)])
  have "sr_offset r < rv_file_bytes (ld_recovery l)" using size l(9) by simp
  with re f l(1) have w: "wr_open w" "wr_path w = path" "wr_record_count w = word_of_nat (length kept)"
    "wr_chain w = last_chain (digest_of (encode_header (ld_header l))) kept"
    "fs' path = map_option (take (sr_offset r)) (fs path)"
    by (auto simp: reopen_store_def load_store_def target Let_def fk split: if_splits)
  then show ?thesis
    using h rs f l(2,6) cut len by (simp add: writer_at_def store_start_def)
qed

section \<open>Properties\<close>

text \<open>
  C10: A store that was created, filled and closed without an error loads with its header, its records
  in order and the trailer, and the load is clean; bytes that were appended behind the trailer by
  somebody else change nothing of that, they are neither reported nor counted as discarded.
\<close>

lemma written_store_loads:
  assumes "write_store path h replace rs fs = (success, fs')" "i64_ok (sh_created_at_utc_ns h)" "payloads_ok rs"
  shows "\<exists>l. load_store (file_append path junk fs') path = Inr l \<and> ld_header l = h \<and>
     map plain (ld_records l) = rs @ [trailer_record h rs] \<and> unat (ld_trailer_record_count l) = length rs \<and>
     rv_clean (ld_recovery l) \<and> rv_trailer_present (ld_recovery l) \<and> rv_bytes_discarded (ld_recovery l) = 0"
proof -
  note w = write_store_image [OF assms]
  from image_loads [OF w(2-4), of junk] show ?thesis by (simp add: load_store_def file_append_def w(1))
qed

definition sample_store_header :: store_header where
  "sample_store_header =
     \<lparr>sh_format_version = 1, sh_store_epoch = 3, sh_created_at_utc_ns = 5, sh_boot_id = 0,
      sh_store_id = Digest 1\<rparr>"

lemma sample_id_not_zero: "\<not> digest_is_zero (Digest 1)"
  by (auto simp: digest_is_zero_def digest_bytes_def be_bytes_def list_all_iff intro!: bexI [where x = 31])

lemma sample_store_written:
  "fst (write_store ''s'' sample_store_header False [(Rec_Marker, [7])] (\<lambda>_. None)) = success"
  by (simp add: write_store_def create_store_def sample_store_header_def kStoreFormatVersion_def
      append_record_def append_trailer_def next_store_size_def require_within_def add_u64_def
      checked_add_u64_def u64_max_def sample_id_not_zero kMaxRecordPayloadBytes_def kMaxStoreRecords_def kMaxStoreBytes_def
      store_sizes trailer_payload_def enc_u64_def Let_def)

lemma sample_store_ok: "i64_ok (sh_created_at_utc_ns sample_store_header)" "payloads_ok [(Rec_Marker, [7])]"
  by (simp_all add: sample_store_header_def payloads_ok_def i64_bounds)

lemma written_store_loads_witness:
  "\<exists>l. load_store (file_append ''s'' [1, 2]
       (snd (write_store ''s'' sample_store_header False [(Rec_Marker, [7])] (\<lambda>_. None)))) ''s'' = Inr l \<and>
     rv_clean (ld_recovery l) \<and> rv_bytes_discarded (ld_recovery l) = 0"
  using written_store_loads [OF _ sample_store_ok, of "''s''" False "\<lambda>_. None"
      "snd (write_store ''s'' sample_store_header False [(Rec_Marker, [7])] (\<lambda>_. None))" "[1, 2]"]
    sample_store_written
  by (metis prod.collapse)



text \<open>
  C16: Reopening a written store for appending drops its trailer, and any bytes behind the trailer,
  which needs the authority to repair; without it a store with such bytes is refused and left as it
  is. Otherwise the writer continues the chain where it stopped: records appended then, and a new
  trailer, give byte for byte the store that would have been written in one go.
\<close>

lemma reopened_store_continues:
  assumes "header_wf h" "plain_records_ok rs" "length rs \<le> kMaxStoreRecords"
    and "fs path = Some (store_image h rs @ junk)"
  shows "case reopen_store path repair fs of
       (Inl e, fs') \<Rightarrow> junk \<noteq> [] \<and> \<not> repair \<and> fs' = fs
     | (Inr w, fs') \<Rightarrow> (junk = [] \<or> repair) \<and> wr_record_count w = word_of_nat (length rs) \<and>
         (\<forall>qs w1 fs1 w2 fs2. payloads_ok qs \<longrightarrow> append_all qs w fs' = (success, w1, fs1) \<longrightarrow>
            append_trailer w1 fs1 = (success, w2, fs2) \<longrightarrow> fs2 path = Some (store_image h (rs @ qs)))"
proof -
  obtain st fs' where re: "reopen_store path repair fs = (st, fs')" by (cases "reopen_store path repair fs")
  have n: "length rs < 2 ^ 64" using assms(3) by (simp add: kMaxStoreRecords_def)
  obtain l where l: "load_image (store_image h rs @ junk) = Inr l" "\<not> rv_mid_file_corruption (ld_recovery l)"
    "rv_valid_bytes (ld_recovery l) = length (store_image h rs)"
    "rv_file_bytes (ld_recovery l) = length (store_image h rs) + length junk"
    using load_complete [OF assms(1,2) n] by metis
  show ?thesis
  proof (cases st)
    case (Inl e)
    with re show ?thesis using l assms(4)
      by (auto simp: reopen_store_def load_store_def Let_def split: if_splits)
  next
    case (Inr w)
    have at: "writer_at h rs path w fs'" by (rule reopen_at [where fs = fs and junk = junk and repair = repair, OF assms]) (simp add: re Inr)
    have "junk = [] \<or> repair" using re Inr l assms(4)
      by (auto simp: reopen_store_def load_store_def Let_def split: if_splits)
    moreover have "fs2 path = Some (store_image h (rs @ qs))"
      if "payloads_ok qs" "append_all qs w fs' = (success, w1, fs1)" "append_trailer w1 fs1 = (success, w2, fs2)"
      for qs w1 fs1 w2 fs2
      using append_trailer_at [OF append_all_at [OF at that(2)] that(3)] that(1) by (simp add: payloads_ok_def)
    ultimately show ?thesis using re Inr at by (auto simp: writer_at_def)
  qed
qed

lemma reopened_store_continues_witness:
  "\<exists>e. reopen_store ''s'' False [''s'' \<mapsto> store_image sample_store_header [(Rec_Marker, [7])] @ [9]]
     = (Inl e, [''s'' \<mapsto> store_image sample_store_header [(Rec_Marker, [7])] @ [9]])"
  using reopened_store_continues [of sample_store_header "[(Rec_Marker, [7])]"
      "[''s'' \<mapsto> store_image sample_store_header [(Rec_Marker, [7])] @ [9]]" "''s''" "[9]" False]
  by (auto simp: header_wf_def i64_bounds sample_store_header_def plain_records_ok_def storable_def
      kStoreFormatVersion_def kMaxRecordPayloadBytes_def kMaxStoreRecords_def split: prod.splits sum.splits)

end
