(* ===== verification/Engine.thy ===== *)
theory Engine
  imports Store_Image
begin

text \<open>
  The observation engine: \<^verbatim>\<open>include/jitter/engine.hpp\<close> and \<^verbatim>\<open>src/engine.cpp\<close>. An operation takes
  the observatory and returns its result with the observatory it leaves behind, also on an error:
  what was changed before the error stays changed. The engine's lock is not part of the state; the
  public entry points are these operations run one at a time. Error details that only quote
  identities are left out.
\<close>

section \<open>State\<close>

record engine_config =
  ec_comparability :: comparability_policy
  ec_freshness :: freshness_policy
  ec_window :: window_policy
  ec_policy :: instability_policy
  ec_metrics :: "metric_key list"
  ec_boot_id :: u64
  ec_admit_persisted_evidence :: bool
  ec_accept_synthetic :: bool
  ec_max_windows :: u64
  ec_max_baselines :: u64

record ingest_context =
  ic_now_utc_ns :: i64
  ic_historical :: bool

record ingest_outcome =
  io_batch :: batch_id
  io_verdict :: sequence_verdict
  io_accepted :: u64
  io_duplicates :: u64
  io_historical :: u64
  io_rejected :: u64
  io_window_retained :: u64
  io_window_created :: bool
  io_conflict_recorded :: bool
  io_reason :: string
  io_notes :: "string list"

definition io_admitted :: "ingest_outcome \<Rightarrow> bool" where
  "io_admitted out \<longleftrightarrow> io_verdict out = Seq_Accept \<and> io_accepted out > 0"

record engine_counters =
  ct_batches_accepted :: u64
  ct_batches_rejected :: u64
  ct_batches_duplicate :: u64
  ct_batches_historical :: u64
  ct_samples_stored :: u64
  ct_samples_duplicate :: u64
  ct_conflicts_recorded :: u64
  ct_windows_created :: u64
  ct_generations_opened :: u64
  ct_summaries_computed :: u64
  ct_episodes_opened :: u64
  ct_episodes_closed :: u64
  ct_restores :: u64
  ct_saves :: u64

definition counters_init :: engine_counters where
  "counters_init =
     \<lparr>ct_batches_accepted = 0, ct_batches_rejected = 0, ct_batches_duplicate = 0,
      ct_batches_historical = 0, ct_samples_stored = 0, ct_samples_duplicate = 0,
      ct_conflicts_recorded = 0, ct_windows_created = 0, ct_generations_opened = 0,
      ct_summaries_computed = 0, ct_episodes_opened = 0, ct_episodes_closed = 0, ct_restores = 0,
      ct_saves = 0\<rparr>"

text \<open>A window belongs to a series on a route generation.\<close>

type_synonym window_key = "series_id \<times> generation_id"

record observatory =
  ob_config :: engine_config
  ob_initialized :: bool
  ob_clocks :: clock_model
  ob_sources :: source_registry
  ob_series :: series_catalog
  ob_paths :: path_catalog
  ob_windows :: "(window_key, sample_window) omap"
  ob_guards :: "(source_id, source_guard) omap"
  ob_baselines :: "(series_id, baseline list) omap"
  ob_restored :: "measurement_id set"
  ob_conflicts :: conflict_log
  ob_episodes :: episode_log
  ob_counters :: engine_counters
  ob_has_clock_equivalence :: bool

definition default_metric_set :: "metric_key list" where
  "default_metric_set =
     [Metric_AbsoluteDeltaMean, Metric_AbsoluteDeltaP95, Metric_AbsoluteDeltaMax,
      Metric_AbsoluteDeltaMedian, Metric_AbsoluteDeltaEwma16, Metric_IpdvMean, Metric_IpdvStdDev,
      Metric_SampleStdDev, Metric_SampleVariance, Metric_CoefficientOfVariation,
      Metric_MeanAbsoluteDeviation, Metric_MedianAbsoluteDeviation, Metric_PeakToPeak,
      Metric_InterquartileRange, Metric_LatencyMean, Metric_LatencyP95]"

definition default_engine_config :: engine_config where
  "default_engine_config =
     \<lparr>ec_comparability = default_comparability_policy, ec_freshness = default_freshness_policy,
      ec_window = default_window_policy, ec_policy = default_instability_policy, ec_metrics = [],
      ec_boot_id = 0, ec_admit_persisted_evidence = False, ec_accept_synthetic = True,
      ec_max_windows = 4096, ec_max_baselines = 4096\<rparr>"

definition make_observatory :: "engine_config \<Rightarrow> observatory" where
  "make_observatory cfg =
     \<lparr>ob_config = (if ec_metrics cfg = [] then cfg\<lparr>ec_metrics := default_metric_set\<rparr> else cfg),
      ob_initialized = False, ob_clocks = clock_model_init (ec_comparability cfg), ob_sources = [],
      ob_series = [], ob_paths = path_catalog_init, ob_windows = [], ob_guards = [],
      ob_baselines = [], ob_restored = {}, ob_conflicts = conflict_log_init,
      ob_episodes = episode_log_init, ob_counters = counters_init, ob_has_clock_equivalence = False\<rparr>"

definition validate_engine_config :: "engine_config \<Rightarrow> status" where
  "validate_engine_config cfg =
     res_bind verify_metric_table (\<lambda>_.
     res_bind (validate_window_policy (ec_window cfg)) (\<lambda>_.
     res_bind (validate_freshness_policy (ec_freshness cfg)) (\<lambda>_.
     res_bind (validate_instability_policy (ec_policy cfg)) (\<lambda>_.
       if length (ec_metrics cfg) > kMaxWatchedMetrics
       then fail Ec_LimitExceeded ''configured metric list exceeds the supported bound''
       else if Metric_Count \<in> set (ec_metrics cfg)
       then fail Ec_InvalidArgument ''configured metric list names an invalid key''
       else if ec_max_windows cfg = 0 \<or> ec_max_baselines cfg = 0
       then fail Ec_InvalidArgument ''engine requires non zero window and baseline bounds''
       else success))))"

definition initialize :: "observatory \<Rightarrow> status \<times> observatory" where
  "initialize ob =
     (case validate_engine_config (ob_config ob) of
        Inl e \<Rightarrow> (Inl e, ob)
      | Inr _ \<Rightarrow>
          (case register_domain local_clock_descriptor (ob_clocks ob) of
             (Inl e, _, m) \<Rightarrow> (Inl e, ob\<lparr>ob_clocks := m\<rparr>)
           | (Inr _, _, m) \<Rightarrow> (success, ob\<lparr>ob_clocks := m, ob_initialized := True\<rparr>)))"

section \<open>Registration\<close>

text \<open>Each operation also returns the descriptor with the identity it was given.\<close>

definition engine_register_clock_domain ::
  "clock_domain \<Rightarrow> observatory \<Rightarrow> status \<times> clock_domain \<times> observatory" where
  "engine_register_clock_domain d ob =
     (case register_domain d (ob_clocks ob) of (st, d', m) \<Rightarrow> (st, d', ob\<lparr>ob_clocks := m\<rparr>))"

definition engine_register_source ::
  "source_descriptor \<Rightarrow> observatory \<Rightarrow> status \<times> source_descriptor \<times> observatory" where
  "engine_register_source descriptor ob =
     (let d = complete_source descriptor
      in if \<not> id_is_nil (sd_clock_domain d) \<and> \<not> has_domain (sd_clock_domain d) (ob_clocks ob)
         then (fail Ec_NotFound ''source references an unregistered clock domain'', d, ob)
         else if sd_origin d = Origin_Synthetic \<and> \<not> ec_accept_synthetic (ob_config ob)
         then (fail Ec_PolicyViolation ''this configuration does not accept synthetic sources'', d, ob)
         else case register_source d (ob_sources ob) of (st, d', m) \<Rightarrow> (st, d', ob\<lparr>ob_sources := m\<rparr>))"

definition engine_register_series ::
  "series_descriptor \<Rightarrow> observatory \<Rightarrow> status \<times> series_descriptor \<times> observatory" where
  "engine_register_series descriptor ob =
     (let d = complete_series descriptor
      in if find_path (se_path d) (ob_paths ob) = None
         then (fail Ec_NotFound ''series references an unregistered path'', d, ob)
         else if \<not> has_domain (se_clock_domain d) (ob_clocks ob)
         then (fail Ec_NotFound ''series references an unregistered clock domain'', d, ob)
         else case register_series d (ob_series ob) of (st, d', m) \<Rightarrow> (st, d', ob\<lparr>ob_series := m\<rparr>))"

definition hop_clock_known :: "clock_model \<Rightarrow> hop_descriptor \<Rightarrow> bool" where
  "hop_clock_known clocks hop \<longleftrightarrow>
     (case hd_timing_clock hop of None \<Rightarrow> True | Some c \<Rightarrow> has_domain c clocks)"

definition engine_register_path ::
  "path_descriptor \<Rightarrow> observatory \<Rightarrow> status \<times> path_descriptor \<times> observatory" where
  "engine_register_path descriptor ob =
     (let d = (if id_is_nil (pd_id descriptor) then descriptor\<lparr>pd_id := make_path_id descriptor\<rparr>
               else descriptor)
      in if \<not> list_all (hop_clock_known (ob_clocks ob)) (pd_hops d)
         then (fail Ec_NotFound ''hop declares an unregistered timing clock domain'', d, ob)
         else case register_path d (ob_paths ob) of (st, d', m) \<Rightarrow> (st, d', ob\<lparr>ob_paths := m\<rparr>))"

definition engine_declare_equivalence :: "clock_equivalence \<Rightarrow> observatory \<Rightarrow> status \<times> observatory" where
  "engine_declare_equivalence e ob =
     (case declare_equivalence e (ob_clocks ob) of
        (Inl err, m) \<Rightarrow> (Inl err, ob\<lparr>ob_clocks := m\<rparr>)
      | (Inr _, m) \<Rightarrow> (success, ob\<lparr>ob_clocks := m, ob_has_clock_equivalence := True\<rparr>))"

section \<open>Topology\<close>

abbreviation tally :: "(engine_counters \<Rightarrow> engine_counters) \<Rightarrow> observatory \<Rightarrow> observatory" where
  "tally f ob \<equiv> ob\<lparr>ob_counters := f (ob_counters ob)\<rparr>"

text \<open>The episodes of one series that a new generation ends.\<close>

definition retire_series ::
  "path_id \<Rightarrow> generation_id \<Rightarrow> i64 \<Rightarrow> series_descriptor \<Rightarrow> observatory \<Rightarrow> observatory" where
  "retire_series path generation now d ob =
     (if se_path d \<noteq> path then ob
      else case retire (se_id d) generation (make_instability_policy_id (ec_policy (ob_config ob)))
                  (make_window_policy_id (ec_window (ob_config ob))) now (ob_episodes ob) of
             (closed_now, logged) \<Rightarrow>
               tally (\<lambda>c. c\<lparr>ct_episodes_closed := ct_episodes_closed c + word_of_nat (length closed_now)\<rparr>)
                 (ob\<lparr>ob_episodes := logged\<rparr>))"

definition engine_observe_topology ::
  "path_id \<Rightarrow> path_topology \<Rightarrow> i64 \<Rightarrow> string \<Rightarrow> observatory \<Rightarrow> generation_outcome result \<times> observatory" where
  "engine_observe_topology path topology now cause ob =
     (case observe_topology path topology now cause (ob_paths ob) of
        (Inl e, m) \<Rightarrow> (Inl e, ob\<lparr>ob_paths := m\<rparr>)
      | (Inr out, m) \<Rightarrow>
          let ob1 = ob\<lparr>ob_paths := m\<rparr>
          in if \<not> go_created_new out then (Inr out, ob1)
             else (Inr out,
                   fold (retire_series path (pg_id (go_generation out)) now) (sorted_series (ob_series ob1))
                     (tally (\<lambda>c. c\<lparr>ct_generations_opened := ct_generations_opened c + 1\<rparr>) ob1)))"

definition engine_bump_revision :: "path_id \<Rightarrow> string \<Rightarrow> observatory \<Rightarrow> status \<times> observatory" where
  "engine_bump_revision path cause ob =
     (case bump_revision path cause (ob_paths ob) of (st, m) \<Rightarrow> (st, ob\<lparr>ob_paths := m\<rparr>))"

section \<open>Windows\<close>

definition newest_received_utc_ns :: "observatory \<Rightarrow> i64 option" where
  "newest_received_utc_ns ob =
     fold (\<lambda>s newest. widen_high newest (tp_ticks (ls_received_at s)))
       (concat (map (\<lambda>kw. window_snapshot (snd kw)) (om_entries (ob_windows ob)))) None"

definition engine_newest_observation_ticks ::
  "series_id \<Rightarrow> generation_id \<Rightarrow> observatory \<Rightarrow> i64 option" where
  "engine_newest_observation_ticks series generation ob =
     (case om_find (series, generation) (ob_windows ob) of
        None \<Rightarrow> None | Some w \<Rightarrow> newest_observation_ticks w)"

definition window_for ::
  "series_id \<Rightarrow> generation_id \<Rightarrow> bool \<Rightarrow> observatory \<Rightarrow> sample_window result \<times> observatory" where
  "window_for series generation create ob =
     (case om_find (series, generation) (ob_windows ob) of
        Some w \<Rightarrow> (Inr w, ob)
      | None \<Rightarrow>
          if \<not> create then (fail Ec_NotFound ''no window exists for this series and generation'', ob)
          else if length (ob_windows ob) \<ge> unat (ec_max_windows (ob_config ob))
          then (fail Ec_CapacityExceeded ''engine holds as many windows as its bound allows'', ob)
          else let w = window_init (ec_window (ob_config ob))
               in (Inr w, tally (\<lambda>c. c\<lparr>ct_windows_created := ct_windows_created c + 1\<rparr>)
                            (ob\<lparr>ob_windows := om_put (series, generation) w (ob_windows ob)\<rparr>)))"

definition find_window :: "series_id \<Rightarrow> generation_id \<Rightarrow> observatory \<Rightarrow> sample_window result" where
  "find_window series generation ob =
     (case om_find (series, generation) (ob_windows ob) of
        None \<Rightarrow> fail Ec_NotFound ''no window exists for this series and generation''
      | Some w \<Rightarrow> Inr w)"

text \<open>The window is changed in place; the first refusal ends the loop.\<close>

fun store_samples :: "latency_sample list \<Rightarrow> sample_window \<Rightarrow> status \<times> sample_window" where
  "store_samples [] w = (success, w)"
| "store_samples (s # ss) w =
     (case window_add s w of
        (Inl e, w') \<Rightarrow> (Inl e, w')
      | (Inr _, w') \<Rightarrow> store_samples ss w')"

section \<open>Ingest\<close>

definition check_origin_consistency :: "evidence_origin \<Rightarrow> evidence_origin \<Rightarrow> status" where
  "check_origin_consistency declared claimed =
     (if claimed = Origin_Unknown
      then fail Ec_InvalidArgument ''a batch must declare whether its evidence is real or synthetic''
      else if claimed = Origin_Unsupported
      then fail Ec_Unsupported ''batch declares an evidence origin this runtime cannot support''
      else if declared = Origin_Unknown
      then fail Ec_PolicyViolation ''the registered source does not declare an evidence origin''
      else if declared = Origin_Unsupported
      then fail Ec_Unsupported ''the registered source declares an unsupported evidence origin''
      else if declared = Origin_Synthetic \<and> claimed = Origin_Real
      then fail Ec_PolicyViolation ''a synthetic source may not claim real evidence''
      else success)"

definition check_batch_source :: "batch_header \<Rightarrow> observatory \<Rightarrow> status" where
  "check_batch_source h ob =
     (case find_source (bh_source h) (ob_sources ob) of
        None \<Rightarrow> fail Ec_NotFound ''batch arrives from an unknown source''
      | Some source \<Rightarrow>
          if bh_protocol_revision h \<noteq> sd_protocol_revision source
          then fail Ec_VersionUnsupported ''batch protocol revision does not match the registered source''
          else if bh_authority h \<noteq> sd_authority source
          then fail Ec_PolicyViolation ''batch claims an authority that is not registered for its source''
          else res_bind (check_origin_consistency (sd_origin source) (bh_origin h)) (\<lambda>_.
            if bh_origin h = Origin_Synthetic \<and> \<not> ec_accept_synthetic (ob_config ob)
            then fail Ec_PolicyViolation ''this configuration does not accept synthetic evidence''
            else success))"

definition check_batch_series :: "batch_header \<Rightarrow> observatory \<Rightarrow> status" where
  "check_batch_series h ob =
     (case find_series (bh_series h) (ob_series ob) of
        None \<Rightarrow> fail Ec_NotFound ''batch names an unknown series''
      | Some series \<Rightarrow>
          if se_path series \<noteq> bh_path h
          then fail Ec_Conflict ''batch series does not belong to the batch path''
          else if se_clock_domain series \<noteq> bh_observation_clock h
          then fail Ec_Conflict ''batch observation clock does not match the series clock domain''
          else success)"

definition check_batch_generation :: "batch_header \<Rightarrow> observatory \<Rightarrow> status" where
  "check_batch_generation h ob =
     (if find_path (bh_path h) (ob_paths ob) = None
      then fail Ec_NotFound ''batch names an unknown path''
      else case find_generation (bh_generation h) (ob_paths ob) of
             None \<Rightarrow> fail Ec_StaleGeneration ''batch names a generation this runtime never opened''
           | Some g \<Rightarrow>
               if pg_ordinal g \<noteq> bh_generation_ordinal h
               then fail Ec_StaleGeneration ''batch generation ordinal does not match the generation''
               else if \<not> pg_is_open g
               then fail Ec_StaleGeneration ''batch targets a closed generation and cannot be current evidence''
               else success)"

definition check_sample_origins :: "latency_batch \<Rightarrow> status" where
  "check_sample_origins b =
     (if list_all (\<lambda>s. pv_origin (ls_provenance s) = bh_origin (lb_header b) \<and>
                      pv_authority (ls_provenance s) = bh_authority (lb_header b)) (lb_samples b)
      then success
      else fail Ec_InvalidArgument ''a sample's declared origin or authority differs from its batch header'')"

text \<open>Every check before the source guard is consulted, in the order of the code.\<close>

definition admit_batch :: "latency_batch \<Rightarrow> observatory \<Rightarrow> status" where
  "admit_batch b ob =
     res_bind (validate_batch b) (\<lambda>_.
     res_bind (check_batch_source (lb_header b) ob) (\<lambda>_.
     res_bind (check_batch_series (lb_header b) ob) (\<lambda>_.
     res_bind (check_batch_generation (lb_header b) ob) (\<lambda>_.
       check_sample_origins b))))"

definition batch_provenance :: "batch_header \<Rightarrow> provenance" where
  "batch_provenance h =
     \<lparr>pv_source = bh_source h, pv_incarnation = bh_incarnation h, pv_epoch = bh_epoch h,
      pv_sequence = bh_sequence h, pv_authority = bh_authority h, pv_origin = bh_origin h,
      pv_ingest_path = bh_ingest_path h\<rparr>"

definition blank_outcome :: "batch_id \<Rightarrow> sequence_decision \<Rightarrow> ingest_outcome" where
  "blank_outcome batch d =
     \<lparr>io_batch = batch, io_verdict = qd_verdict d, io_accepted = 0, io_duplicates = 0,
      io_historical = 0, io_rejected = 0, io_window_retained = 0, io_window_created = False,
      io_conflict_recorded = False, io_reason = qd_reason d, io_notes = []\<rparr>"

definition add_note :: "string list \<Rightarrow> string \<Rightarrow> string list" where
  "add_note notes note = (if note = '''' \<or> note \<in> set notes then notes else notes @ [note])"

definition guard_of :: "source_id \<Rightarrow> observatory \<Rightarrow> source_guard" where
  "guard_of i ob = om_get guard_init i (ob_guards ob)"

text \<open>The same position with different content: recorded, never resolved by picking one.\<close>

definition batch_conflict :: "latency_batch \<Rightarrow> source_guard \<Rightarrow> i64 \<Rightarrow> conflict_record" where
  "batch_conflict b g now =
     (let h = lb_header b
      in make_conflict_record
           \<lparr>cr_series = bh_series h, cr_path = bh_path h, cr_generation = bh_generation h,
            cr_sequence = bh_sequence h, cr_source_a = bh_source h, cr_source_b = bh_source h,
            cr_content_a = sg_last_content g, cr_content_b = lb_content b,
            cr_authority_a = bh_authority h, cr_authority_b = bh_authority h,
            cr_detected_at_utc_ns = now, cr_outcome = Outcome_UnresolvedEqualAuthority,
            cr_winner = None, cr_reason = '''', cr_identity = zero_digest\<rparr>)"

definition record_batch_conflict ::
  "latency_batch \<Rightarrow> source_guard \<Rightarrow> i64 \<Rightarrow> ingest_outcome \<Rightarrow> observatory \<Rightarrow> ingest_outcome \<times> observatory" where
  "record_batch_conflict b g now out ob =
     (case conflict_append (batch_conflict b g now) (ob_conflicts ob) of
        (added, logged) \<Rightarrow>
          let ob1 = ob\<lparr>ob_conflicts := logged\<rparr>;
              ob2 = (if added
                     then tally (\<lambda>c. c\<lparr>ct_conflicts_recorded := ct_conflicts_recorded c + 1\<rparr>) ob1
                     else ob1)
          in (out\<lparr>io_conflict_recorded := added,
                  io_notes := add_note (io_notes out) ''contradiction_recorded_without_resolution'',
                  io_rejected := word_of_nat (length (lb_samples b))\<rparr>,
              tally (\<lambda>c. c\<lparr>ct_batches_rejected := ct_batches_rejected c + 1\<rparr>) ob2))"

definition put_window :: "window_key \<Rightarrow> sample_window \<Rightarrow> observatory \<Rightarrow> observatory" where
  "put_window k w ob = ob\<lparr>ob_windows := om_put k w (ob_windows ob)\<rparr>"

definition put_guard :: "source_id \<Rightarrow> source_guard \<Rightarrow> observatory \<Rightarrow> observatory" where
  "put_guard i g ob = ob\<lparr>ob_guards := om_put i g (ob_guards ob)\<rparr>"

text \<open>Storing, once the guard has let the batch through.\<close>

definition store_batch ::
  "latency_batch \<Rightarrow> source_guard \<Rightarrow> ingest_outcome \<Rightarrow> observatory \<Rightarrow> ingest_outcome result \<times> observatory" where
  "store_batch b g out ob =
     (let h = lb_header b; n = word_of_nat (length (lb_samples b)); k = (bh_series h, bh_generation h)
      in case window_for (bh_series h) (bh_generation h) True ob of
           (Inl e, ob1) \<Rightarrow> (Inl e, ob1)
         | (Inr w, ob1) \<Rightarrow>
             let out1 = out\<lparr>io_window_created := retained w = 0 \<and> io_verdict out = Seq_Accept\<rparr>
             in case store_samples (lb_samples b) w of
                  (Inl e, w') \<Rightarrow> (Inl e, put_window k w' ob1)
                | (Inr _, w') \<Rightarrow>
                    let ob2 = put_window k w' ob1;
                        out2 = out1\<lparr>io_window_retained := word_of_nat (retained w')\<rparr>;
                        (out3, ob3) =
                          (if io_verdict out = Seq_Historical
                           then (out2\<lparr>io_historical := n,
                                      io_notes := add_note (io_notes out2)
                                        ''historical_ingest_does_not_advance_the_source_guard''\<rparr>,
                                 tally (\<lambda>c. c\<lparr>ct_batches_historical := ct_batches_historical c + 1\<rparr>) ob2)
                           else (out2\<lparr>io_accepted := n\<rparr>,
                                 tally (\<lambda>c. c\<lparr>ct_batches_accepted := ct_batches_accepted c + 1\<rparr>)
                                   (put_guard (bh_source h)
                                      (apply_sequence g (batch_provenance h) (lb_content b)) ob2)))
                    in (Inr out3, tally (\<lambda>c. c\<lparr>ct_samples_stored := ct_samples_stored c + n\<rparr>) ob3))"

definition ingest :: "latency_batch \<Rightarrow> ingest_context \<Rightarrow> observatory \<Rightarrow> ingest_outcome result \<times> observatory" where
  "ingest b ctx ob0 =
     (if \<not> ob_initialized ob0 then (fail Ec_NotReady ''engine must be initialized before ingest'', ob0)
      else case admit_batch b ob0 of
             Inl e \<Rightarrow> (Inl e, ob0)
           | Inr _ \<Rightarrow>
               let h = lb_header b; n = word_of_nat (length (lb_samples b));
                   g = guard_of (bh_source h) ob0; ob = put_guard (bh_source h) g ob0;
                   d = evaluate_sequence g (batch_provenance h) (lb_content b) (ic_historical ctx);
                   out = blank_outcome (lb_id b) d
               in case qd_verdict d of
                    Seq_DuplicateIdempotent \<Rightarrow>
                      (Inr (out\<lparr>io_duplicates := n\<rparr>),
                       tally (\<lambda>c. c\<lparr>ct_batches_duplicate := ct_batches_duplicate c + 1,
                                    ct_samples_duplicate := ct_samples_duplicate c + n\<rparr>) ob)
                  | Seq_SequenceConflict \<Rightarrow>
                      (case record_batch_conflict b g (ic_now_utc_ns ctx) out ob of
                         (out', ob') \<Rightarrow> (Inr out', ob'))
                  | Seq_Historical \<Rightarrow> store_batch b g out ob
                  | Seq_Accept \<Rightarrow> store_batch b g out ob
                  | _ \<Rightarrow>
                      (Inr (out\<lparr>io_rejected := n, io_notes := [''replay_fenced:'' @ qd_reason d]\<rparr>),
                       tally (\<lambda>c. c\<lparr>ct_batches_rejected := ct_batches_rejected c + 1\<rparr>) ob))"

section \<open>Summaries\<close>

definition assess :: "latency_sample \<Rightarrow> i64 \<Rightarrow> observatory \<Rightarrow> sample_assessment" where
  "assess s now ob =
     (let a = assess_sample s (ob_clocks ob) now (ec_freshness (ob_config ob))
      in if \<not> ec_admit_persisted_evidence (ob_config ob) \<and> ls_id s \<in> ob_restored ob
         then a\<lparr>sa_state := Ev_Stale, sa_reason := ''restored_evidence_is_not_admitted_as_current''\<rparr>
         else a)"

record summary_outcome =
  so_summary :: series_summary
  so_episodes :: episode_update

definition summary_input_for :: "summary_request \<Rightarrow> sample_window \<Rightarrow> i64 \<Rightarrow> observatory \<Rightarrow> summary_input" where
  "summary_input_for q w now ob =
     (let sel = window_select w
      in \<lparr>si_request =
            q\<lparr>rq_window := sw_policy w,
              rq_metrics := (if rq_metrics q = [] then ec_metrics (ob_config ob) else rq_metrics q),
              rq_current_generation := is_current (rq_generation q) (ob_paths ob)\<rparr>,
          si_selection = sel, si_assessments = map (\<lambda>s. assess s now ob) (sel_samples sel),
          si_retained = word_of_nat (retained w), si_evicted_by_capacity = sw_evicted_by_capacity w,
          si_out_of_order_accepted = sw_out_of_order_accepted w,
          si_duplicate_ignored = sw_duplicate_ignored w\<rparr>)"

definition track_episode :: "classification \<Rightarrow> i64 \<Rightarrow> observatory \<Rightarrow> episode_update \<times> observatory" where
  "track_episode c now ob =
     (case observe c now (ob_episodes ob) of
        (u, logged) \<Rightarrow>
          (u, tally (\<lambda>ct. ct\<lparr>ct_episodes_opened := ct_episodes_opened ct + (if eu_opened u \<noteq> None then 1 else 0),
                            ct_episodes_closed := ct_episodes_closed ct + (if eu_closed u \<noteq> None then 1 else 0)\<rparr>)
                (ob\<lparr>ob_episodes := logged\<rparr>)))"

definition engine_summarize ::
  "summary_request \<Rightarrow> ingest_context \<Rightarrow> bool \<Rightarrow> observatory \<Rightarrow> summary_outcome result \<times> observatory" where
  "engine_summarize q ctx track ob =
     (if \<not> ob_initialized ob then (fail Ec_NotReady ''engine must be initialized before summarize'', ob)
      else case find_window (rq_series q) (rq_generation q) ob of
             Inl e \<Rightarrow> (Inl e, ob)
           | Inr w \<Rightarrow>
               (case summarize (summary_input_for q w (ic_now_utc_ns ctx) ob) of
                  Inl e \<Rightarrow> (Inl e, ob)
                | Inr y \<Rightarrow>
                    let ob1 = tally (\<lambda>c. c\<lparr>ct_summaries_computed := ct_summaries_computed c + 1\<rparr>) ob
                    in if \<not> track then (Inr \<lparr>so_summary = y, so_episodes = no_update\<rparr>, ob1)
                       else case track_episode (sy_classification y) (ic_now_utc_ns ctx) ob1 of
                              (u, ob2) \<Rightarrow> (Inr \<lparr>so_summary = y, so_episodes = u\<rparr>, ob2)))"

section \<open>Baselines, comparisons and attribution\<close>

definition find_baseline :: "baseline_id \<Rightarrow> observatory \<Rightarrow> baseline option" where
  "find_baseline i ob = find (\<lambda>b. bl_id b = i) (concat (map snd (om_entries (ob_baselines ob))))"

definition baselines_of :: "series_id \<Rightarrow> observatory \<Rightarrow> baseline list" where
  "baselines_of s ob = om_get [] s (ob_baselines ob)"

definition snapshot_of :: "series_summary \<Rightarrow> current_snapshot" where
  "snapshot_of y =
     \<lparr>cs_series = sy_series y, cs_path = sy_path y, cs_generation = sy_generation y,
      cs_generation_ordinal = sy_generation_ordinal y, cs_window = sy_window y,
      cs_policy = sy_policy y, cs_sample_count = sy_selected y, cs_evidence = sy_evidence y,
      cs_metrics = fold metric_insert (sy_metrics y) []\<rparr>"

definition engine_compare ::
  "summary_request \<Rightarrow> baseline_id \<Rightarrow> ingest_context \<Rightarrow> observatory \<Rightarrow> comparison_report result \<times> observatory" where
  "engine_compare q i ctx ob =
     (case engine_summarize q ctx False ob of
        (Inl e, ob1) \<Rightarrow> (Inl e, ob1)
      | (Inr out, ob1) \<Rightarrow>
          (case find_baseline i ob1 of
             None \<Rightarrow> (fail Ec_NotFound ''unknown baseline identity'', ob1)
           | Some b \<Rightarrow> (Inr (compare_to_baseline b (snapshot_of (so_summary out))), ob1)))"

definition engine_attribute ::
  "series_id \<Rightarrow> metric_key \<Rightarrow> nat \<Rightarrow> ingest_context \<Rightarrow> observatory \<Rightarrow> attribution_report result" where
  "engine_attribute i metric min_arrivals ctx ob =
     (case find_series i (ob_series ob) of
        None \<Rightarrow> fail Ec_NotFound ''unknown series identity''
      | Some series \<Rightarrow>
          (case find_path (se_path series) (ob_paths ob) of
             None \<Rightarrow> fail Ec_NotFound ''series path is not registered''
           | Some path \<Rightarrow>
               (case current_generation (se_path series) (ob_paths ob) of
                  None \<Rightarrow> fail Ec_NotReady ''path has no generation to attribute''
                | Some g \<Rightarrow>
                    res_bind (find_window i (pg_id g) ob) (\<lambda>w.
                    res_bind (build_attribution_request (window_select w) series path (ob_clocks ob)
                                metric min_arrivals (pg_is_open g) (ic_now_utc_ns ctx)) (\<lambda>q.
                      Inr (attribute_hops q))))))"

definition baseline_of_summary :: "string \<Rightarrow> string \<Rightarrow> i64 \<Rightarrow> series_summary \<Rightarrow> baseline" where
  "baseline_of_summary name note now y =
     \<lparr>bl_id = nil_id, bl_name = name, bl_series = sy_series y, bl_path = sy_path y,
      bl_generation = sy_generation y, bl_generation_ordinal = sy_generation_ordinal y,
      bl_window = sy_window y, bl_policy = sy_policy y, bl_sample_count = sy_selected y,
      bl_fresh_sample_count = word_of_nat (sy_fresh_samples y),
      bl_first_observation_utc_ns = sy_first_received_utc_ns y,
      bl_last_observation_utc_ns = sy_last_received_utc_ns y,
      bl_evidence = es_dominant (sy_evidence y), bl_origin = sy_dominant_origin y,
      bl_created_at_utc_ns = now, bl_metrics = sy_metrics y, bl_digest = zero_digest,
      bl_note = note\<rparr>"

definition baseline_total :: "observatory \<Rightarrow> nat" where
  "baseline_total ob = sum_list (map (length \<circ> snd) (om_entries (ob_baselines ob)))"

definition push_baseline :: "baseline \<Rightarrow> observatory \<Rightarrow> observatory" where
  "push_baseline b ob =
     ob\<lparr>ob_baselines := om_put (bl_series b) (baselines_of (bl_series b) ob @ [b]) (ob_baselines ob)\<rparr>"

definition capture_baseline ::
  "string \<Rightarrow> summary_request \<Rightarrow> ingest_context \<Rightarrow> string \<Rightarrow> observatory \<Rightarrow> baseline result \<times> observatory" where
  "capture_baseline name q ctx note ob =
     (case engine_summarize q ctx False ob of
        (Inl e, ob1) \<Rightarrow> (Inl e, ob1)
      | (Inr out, ob1) \<Rightarrow>
          if baseline_total ob1 \<ge> unat (ec_max_baselines (ob_config ob1))
          then (fail Ec_CapacityExceeded ''engine holds as many baselines as its bound allows'', ob1)
          else case make_baseline (baseline_of_summary name note (ic_now_utc_ns ctx) (so_summary out)) of
                 Inl e \<Rightarrow> (Inl e, ob1)
               | Inr b \<Rightarrow> (Inr b, push_baseline b ob1))"

end
