(* ===== verification/Engine_Store.thy ===== *)
theory Engine_Store
  imports Engine
begin

text \<open>
  Saving and restoring an observatory: \<^verbatim>\<open>save_locked\<close> and \<^verbatim>\<open>restore_locked\<close> of
  \<^verbatim>\<open>src/engine.cpp\<close>. A restore changes the observatory record by record; an error in the middle
  leaves what was restored before it.
\<close>

section \<open>Saving\<close>

definition save_header :: "string \<Rightarrow> i64 \<Rightarrow> engine_config \<Rightarrow> store_header" where
  "save_header path now cfg =
     \<lparr>sh_format_version = kStoreFormatVersion, sh_store_epoch = 1, sh_created_at_utc_ns = now,
      sh_boot_id = ec_boot_id cfg,
      sh_store_id = builder_digest [enc_str ''jitter.store.v1'', enc_str path, enc_i64 now,
                                    enc_u64 (ec_boot_id cfg)]\<rparr>"

text \<open>Everything that is written, in the order it is written.\<close>

definition save_records :: "observatory \<Rightarrow> plain_record list" where
  "save_records ob =
     map (\<lambda>d. (Rec_ClockDomain, enc_clock_domain d)) (sorted_domains (ob_clocks ob))
     @ map (\<lambda>e. (Rec_Equivalence, enc_equivalence e)) (cm_equivalences (ob_clocks ob))
     @ map (\<lambda>d. (Rec_Source, enc_source d)) (sorted_sources (ob_sources ob))
     @ map (\<lambda>d. (Rec_Series, enc_series d)) (sorted_series (ob_series ob))
     @ map (\<lambda>d. (Rec_Path, enc_path d)) (all_paths (ob_paths ob))
     @ map (\<lambda>g. (Rec_Generation, enc_generation g)) (all_generations (ob_paths ob))
     @ map (\<lambda>s. (Rec_Sample, enc_sample s))
         (concat (map (\<lambda>kw. window_snapshot (snd kw)) (om_entries (ob_windows ob))))
     @ map (\<lambda>b. (Rec_Baseline, enc_baseline b)) (concat (map snd (om_entries (ob_baselines ob))))
     @ map (\<lambda>e. (Rec_Episode, enc_episode e)) (all_episodes (ob_episodes ob))
     @ map (\<lambda>r. (Rec_Conflict, enc_conflict r)) (cl_records (ob_conflicts ob))
     @ map (\<lambda>ig. (Rec_SourceGuard, enc_source_guard ig)) (om_entries (ob_guards ob))"

text \<open>
  \<^verbatim>\<open>flush\<close> and \<^verbatim>\<open>close\<close> follow the trailer; the writer is open there, so neither fails.
\<close>

definition save :: "string \<Rightarrow> bool \<Rightarrow> ingest_context \<Rightarrow> observatory \<Rightarrow> files \<Rightarrow> status \<times> observatory \<times> files" where
  "save path replace ctx ob fs =
     (if \<not> ob_initialized ob then (fail Ec_NotReady ''engine must be initialized before save'', ob, fs)
      else case write_store path (save_header path (ic_now_utc_ns ctx) (ob_config ob)) replace
                  (save_records ob) fs of
             (Inl e, fs') \<Rightarrow> (Inl e, ob, fs')
           | (Inr _, fs') \<Rightarrow> (success, tally (\<lambda>c. c\<lparr>ct_saves := ct_saves c + 1\<rparr>) ob, fs'))"

section \<open>Restoring\<close>

record restore_options =
  op_repair_truncated_tail :: bool
  op_admit_persisted_evidence :: bool

record restore_outcome =
  ro_clock_domains :: u64
  ro_equivalences :: u64
  ro_sources :: u64
  ro_series :: u64
  ro_paths :: u64
  ro_generations :: u64
  ro_samples :: u64
  ro_baselines :: u64
  ro_episodes :: u64
  ro_open_episodes_closed :: u64
  ro_conflicts :: u64
  ro_source_guards :: u64
  ro_samples_admitted_as_current :: u64
  ro_samples_withheld_from_current :: u64
  ro_foreign_incarnation :: bool
  ro_foreign_store_epoch :: bool
  ro_recovery :: store_recovery
  ro_notes :: "string list"

definition blank_restore :: "store_recovery \<Rightarrow> restore_outcome" where
  "blank_restore r =
     \<lparr>ro_clock_domains = 0, ro_equivalences = 0, ro_sources = 0, ro_series = 0, ro_paths = 0,
      ro_generations = 0, ro_samples = 0, ro_baselines = 0, ro_episodes = 0,
      ro_open_episodes_closed = 0, ro_conflicts = 0, ro_source_guards = 0,
      ro_samples_admitted_as_current = 0, ro_samples_withheld_from_current = 0,
      ro_foreign_incarnation = False, ro_foreign_store_epoch = False, ro_recovery = r,
      ro_notes = []\<rparr>"

text \<open>The observatory and the local variables of the function.\<close>

record restore_progress =
  rp_engine :: observatory
  rp_outcome :: restore_outcome
  rp_samples :: "latency_sample list"
  rp_guards :: "(source_id \<times> source_guard) list"

abbreviation on_engine :: "(observatory \<Rightarrow> observatory) \<Rightarrow> restore_progress \<Rightarrow> restore_progress" where
  "on_engine f p \<equiv> p\<lparr>rp_engine := f (rp_engine p)\<rparr>"

abbreviation on_outcome :: "(restore_outcome \<Rightarrow> restore_outcome) \<Rightarrow> restore_progress \<Rightarrow> restore_progress" where
  "on_outcome f p \<equiv> p\<lparr>rp_outcome := f (rp_outcome p)\<rparr>"

definition note_restore :: "string \<Rightarrow> restore_progress \<Rightarrow> restore_progress" where
  "note_restore note p = on_outcome (\<lambda>r. r\<lparr>ro_notes := add_note (ro_notes r) note\<rparr>) p"

text \<open>
  A record's payload is read from its start; bytes left over are not looked at. The continuation
  registers the value; when it fails the changes made by the attempt stay.
\<close>

definition restore_with ::
  "'a decoder \<Rightarrow> bytes \<Rightarrow> ('a \<Rightarrow> restore_progress \<Rightarrow> status \<times> restore_progress)
     \<Rightarrow> restore_progress \<Rightarrow> status \<times> restore_progress" where
  "restore_with dec payload f p =
     (case dec payload of Inl e \<Rightarrow> (Inl e, p) | Inr (v, _) \<Rightarrow> f v p)"

definition counted ::
  "(restore_outcome \<Rightarrow> restore_outcome) \<Rightarrow> status \<times> restore_progress \<Rightarrow> status \<times> restore_progress" where
  "counted f r = (case r of (Inl e, p) \<Rightarrow> (Inl e, p) | (Inr _, p) \<Rightarrow> (success, on_outcome f p))"

definition restore_clock_domain :: "clock_domain \<Rightarrow> restore_progress \<Rightarrow> status \<times> restore_progress" where
  "restore_clock_domain d p =
     (case register_domain d (ob_clocks (rp_engine p)) of
        (st, _, m) \<Rightarrow> counted (\<lambda>r. r\<lparr>ro_clock_domains := ro_clock_domains r + 1\<rparr>)
                         (st, on_engine (\<lambda>ob. ob\<lparr>ob_clocks := m\<rparr>) p))"

definition restore_equivalence :: "clock_equivalence \<Rightarrow> restore_progress \<Rightarrow> status \<times> restore_progress" where
  "restore_equivalence e p =
     (case declare_equivalence e (ob_clocks (rp_engine p)) of
        (st, m) \<Rightarrow> counted (\<lambda>r. r\<lparr>ro_equivalences := ro_equivalences r + 1\<rparr>)
                      (st, on_engine (\<lambda>ob. ob\<lparr>ob_clocks := m\<rparr>) p))"

definition restore_source :: "source_descriptor \<Rightarrow> restore_progress \<Rightarrow> status \<times> restore_progress" where
  "restore_source d p =
     (case register_source d (ob_sources (rp_engine p)) of
        (st, _, m) \<Rightarrow> counted (\<lambda>r. r\<lparr>ro_sources := ro_sources r + 1\<rparr>)
                         (st, on_engine (\<lambda>ob. ob\<lparr>ob_sources := m\<rparr>) p))"

definition restore_series :: "series_descriptor \<Rightarrow> restore_progress \<Rightarrow> status \<times> restore_progress" where
  "restore_series d p =
     (case register_series d (ob_series (rp_engine p)) of
        (st, _, m) \<Rightarrow> counted (\<lambda>r. r\<lparr>ro_series := ro_series r + 1\<rparr>)
                         (st, on_engine (\<lambda>ob. ob\<lparr>ob_series := m\<rparr>) p))"

definition restore_path :: "path_descriptor \<Rightarrow> restore_progress \<Rightarrow> status \<times> restore_progress" where
  "restore_path d p =
     counted (\<lambda>r. r\<lparr>ro_paths := ro_paths r + 1\<rparr>)
       (if find_path (pd_id d) (ob_paths (rp_engine p)) = None
        then case register_path_only d (ob_paths (rp_engine p)) of
               (st, _, m) \<Rightarrow> (st, on_engine (\<lambda>ob. ob\<lparr>ob_paths := m\<rparr>) p)
        else (success, p))"

definition restore_generation :: "path_generation \<Rightarrow> restore_progress \<Rightarrow> status \<times> restore_progress" where
  "restore_generation g p =
     (case import_generation g (ob_paths (rp_engine p)) of
        (st, m) \<Rightarrow> counted (\<lambda>r. r\<lparr>ro_generations := ro_generations r + 1\<rparr>)
                      (st, on_engine (\<lambda>ob. ob\<lparr>ob_paths := m\<rparr>) p))"

definition restore_baseline :: "baseline \<Rightarrow> restore_progress \<Rightarrow> status \<times> restore_progress" where
  "restore_baseline b p =
     (let ob = rp_engine p; bucket = baselines_of (bl_series b) ob
      in if length bucket < unat (ec_max_baselines (ob_config ob))
         then (success, on_outcome (\<lambda>r. r\<lparr>ro_baselines := ro_baselines r + 1\<rparr>)
                          (on_engine (push_baseline b) p))
         else (success, note_restore ''baseline_dropped_at_restore_bound''
                          (on_engine (\<lambda>ob. ob\<lparr>ob_baselines := om_put (bl_series b) bucket (ob_baselines ob)\<rparr>) p)))"

definition restore_episode :: "i64 \<Rightarrow> episode \<Rightarrow> restore_progress \<Rightarrow> status \<times> restore_progress" where
  "restore_episode created e p =
     (let p1 = (if ep_is_open e
                then on_outcome (\<lambda>r. r\<lparr>ro_open_episodes_closed := ro_open_episodes_closed r + 1\<rparr>) p
                else p)
      in case import_episode e created (ob_episodes (rp_engine p1)) of
           (st, l) \<Rightarrow> counted (\<lambda>r. r\<lparr>ro_episodes := ro_episodes r + 1\<rparr>)
                         (st, on_engine (\<lambda>ob. ob\<lparr>ob_episodes := l\<rparr>) p1))"

definition restore_conflict :: "conflict_record \<Rightarrow> restore_progress \<Rightarrow> status \<times> restore_progress" where
  "restore_conflict c p =
     (case conflict_append c (ob_conflicts (rp_engine p)) of
        (added, l) \<Rightarrow>
          let p1 = on_engine (\<lambda>ob. ob\<lparr>ob_conflicts := l\<rparr>) p
          in (success, if added then on_outcome (\<lambda>r. r\<lparr>ro_conflicts := ro_conflicts r + 1\<rparr>) p1 else p1))"

definition restore_guard :: "source_id \<times> source_guard \<Rightarrow> restore_progress \<Rightarrow> status \<times> restore_progress" where
  "restore_guard ig p =
     (success, on_outcome (\<lambda>r. r\<lparr>ro_source_guards := ro_source_guards r + 1\<rparr>)
                 (p\<lparr>rp_guards := rp_guards p @ [ig]\<rparr>))"

definition collect_sample :: "latency_sample \<Rightarrow> restore_progress \<Rightarrow> status \<times> restore_progress" where
  "collect_sample s p = (success, p\<lparr>rp_samples := rp_samples p @ [s]\<rparr>)"

fun restore_payload ::
  "i64 \<Rightarrow> store_record_type \<Rightarrow> bytes \<Rightarrow> restore_progress \<Rightarrow> status \<times> restore_progress" where
  "restore_payload created Rec_ClockDomain payload p = restore_with dec_clock_domain payload restore_clock_domain p"
| "restore_payload created Rec_Equivalence payload p = restore_with dec_equivalence payload restore_equivalence p"
| "restore_payload created Rec_Source payload p = restore_with dec_source payload restore_source p"
| "restore_payload created Rec_Series payload p = restore_with dec_series payload restore_series p"
| "restore_payload created Rec_Path payload p = restore_with dec_path payload restore_path p"
| "restore_payload created Rec_Generation payload p = restore_with dec_generation payload restore_generation p"
| "restore_payload created Rec_Sample payload p = restore_with dec_sample payload collect_sample p"
| "restore_payload created Rec_Baseline payload p = restore_with dec_baseline payload restore_baseline p"
| "restore_payload created Rec_Episode payload p = restore_with dec_episode payload (restore_episode created) p"
| "restore_payload created Rec_Conflict payload p = restore_with dec_conflict payload restore_conflict p"
| "restore_payload created Rec_SourceGuard payload p = restore_with dec_source_guard payload restore_guard p"
| "restore_payload created Rec_Marker payload p = (success, p)"
| "restore_payload created Rec_Trailer payload p = (success, p)"

fun restore_records :: "i64 \<Rightarrow> plain_record list \<Rightarrow> restore_progress \<Rightarrow> status \<times> restore_progress" where
  "restore_records created [] p = (success, p)"
| "restore_records created ((t, payload) # rs) p =
     (case restore_payload created t payload p of
        (Inl e, p') \<Rightarrow> (Inl e, p')
      | (Inr _, p') \<Rightarrow> restore_records created rs p')"

section \<open>Windows and guards from restored samples\<close>

definition group_samples :: "latency_sample list \<Rightarrow> (window_key, latency_sample list) omap" where
  "group_samples ss =
     fold (\<lambda>s m. let k = (ls_series s, ls_generation s) in om_put k (om_get [] k m @ [s]) m) ss []"

definition restore_order :: "latency_sample \<Rightarrow> i64 \<times> measurement_id" where
  "restore_order s = (tp_ticks (ls_observed_at s), ls_id s)"

definition rebuild_guard :: "latency_sample \<Rightarrow> source_guard \<Rightarrow> source_guard" where
  "rebuild_guard s g =
     (let v = ls_provenance s
      in if \<not> sg_initialized g
         then \<lparr>sg_incarnation = pv_incarnation v, sg_epoch = pv_epoch v, sg_last_sequence = pv_sequence v,
               sg_last_content = ls_content s, sg_initialized = True\<rparr>
         else apply_sequence g v (ls_content s))"

definition account_restored :: "bool \<Rightarrow> latency_sample \<Rightarrow> restore_progress \<Rightarrow> restore_progress" where
  "account_restored withhold s p =
     (let i = pv_source (ls_provenance s);
          p1 = on_outcome (\<lambda>r. r\<lparr>ro_samples := ro_samples r + 1\<rparr>) p;
          p2 = (if withhold
                then on_outcome (\<lambda>r. r\<lparr>ro_samples_withheld_from_current :=
                                         ro_samples_withheld_from_current r + 1\<rparr>)
                       (on_engine (\<lambda>ob. ob\<lparr>ob_restored := insert (ls_id s) (ob_restored ob)\<rparr>) p1)
                else on_outcome (\<lambda>r. r\<lparr>ro_samples_admitted_as_current :=
                                         ro_samples_admitted_as_current r + 1\<rparr>) p1)
      in on_engine (\<lambda>ob. put_guard i (rebuild_guard s (guard_of i ob)) ob) p2)"

fun restore_samples ::
  "bool \<Rightarrow> window_key \<Rightarrow> latency_sample list \<Rightarrow> sample_window \<Rightarrow> restore_progress \<Rightarrow> status \<times> restore_progress" where
  "restore_samples withhold k [] w p = (success, on_engine (put_window k w) p)"
| "restore_samples withhold k (s # ss) w p =
     (case window_add s w of
        (Inl e, w') \<Rightarrow> (Inl e, on_engine (put_window k w') p)
      | (Inr _, w') \<Rightarrow> restore_samples withhold k ss w' (account_restored withhold s p))"

fun restore_windows ::
  "bool \<Rightarrow> (window_key \<times> latency_sample list) list \<Rightarrow> restore_progress \<Rightarrow> status \<times> restore_progress" where
  "restore_windows withhold [] p = (success, p)"
| "restore_windows withhold ((k, ss) # rest) p =
     (case window_for (fst k) (snd k) True (rp_engine p) of
        (Inl e, ob) \<Rightarrow>
          (success, note_restore ''window_bound_reached_during_restore'' (p\<lparr>rp_engine := ob\<rparr>))
      | (Inr w, ob) \<Rightarrow>
          (case restore_samples withhold k (sort_key restore_order ss) w (p\<lparr>rp_engine := ob\<rparr>) of
             (Inl e, p') \<Rightarrow> (Inl e, p')
           | (Inr _, p') \<Rightarrow> restore_windows withhold rest p'))"

definition adopt_guard :: "source_id \<times> source_guard \<Rightarrow> observatory \<Rightarrow> observatory" where
  "adopt_guard ig ob =
     (if \<not> sg_initialized (snd ig) then ob
      else let target = guard_of (fst ig) ob
           in put_guard (fst ig)
                (if \<not> sg_initialized target \<or> sg_last_sequence (snd ig) \<ge> sg_last_sequence target
                 then snd ig else target) ob)"

definition finish_restore :: "restore_progress \<Rightarrow> restore_outcome \<times> observatory" where
  "finish_restore p =
     (let ob = fold adopt_guard (rp_guards p) (rp_engine p);
          out = rp_outcome p
      in (if ro_samples_withheld_from_current out > 0
          then out\<lparr>ro_notes := add_note (ro_notes out)
                 ''persisted_evidence_is_retained_for_history_but_is_not_current_evidence''\<rparr>
          else out,
          tally (\<lambda>c. c\<lparr>ct_restores := ct_restores c + 1\<rparr>) ob))"

definition withholds :: "restore_options \<Rightarrow> engine_config \<Rightarrow> bool" where
  "withholds opts cfg \<longleftrightarrow> \<not> (op_admit_persisted_evidence opts \<and> ec_admit_persisted_evidence cfg)"

text \<open>What a loaded store must satisfy before anything of it is used.\<close>

definition check_loaded :: "restore_options \<Rightarrow> loaded_store \<Rightarrow> status" where
  "check_loaded opts l =
     (let r = ld_recovery l
      in if rv_mid_file_corruption r
         then fail Ec_Corrupt ''store has corruption before the end of the file''
         else if \<not> rv_clean r \<and> \<not> op_repair_truncated_tail opts
         then fail Ec_IntegrityFailure ''store is not clean; recovering it requires explicit authorisation''
         else if rv_trailer_present r \<and>
                 ld_trailer_record_count l \<noteq> word_of_nat (rv_records_recovered r) - 1
         then fail Ec_IntegrityFailure ''store trailer record count does not match the file''
         else success)"

definition restore_notes :: "loaded_store \<Rightarrow> engine_config \<Rightarrow> restore_outcome" where
  "restore_notes l cfg =
     (let r = ld_recovery l; foreign = sh_boot_id (ld_header l) \<noteq> ec_boot_id cfg;
          n1 = (if rv_clean r then [] else add_note [] (''recovered_from_damaged_tail:'' @ describe_recovery r));
          n2 = (if foreign then add_note n1 ''store_was_written_by_a_different_process_incarnation'' else n1)
      in (blank_restore r)\<lparr>ro_foreign_incarnation := foreign, ro_notes := n2\<rparr>)"

definition restore_loaded ::
  "restore_options \<Rightarrow> loaded_store \<Rightarrow> observatory \<Rightarrow> restore_outcome result \<times> observatory" where
  "restore_loaded opts l ob =
     (case check_loaded opts l of
        Inl e \<Rightarrow> (Inl e, ob)
      | Inr _ \<Rightarrow>
          (case restore_records (sh_created_at_utc_ns (ld_header l)) (map plain (ld_records l))
                  \<lparr>rp_engine = ob, rp_outcome = restore_notes l (ob_config ob), rp_samples = [],
                   rp_guards = []\<rparr> of
             (Inl e, p) \<Rightarrow> (Inl e, rp_engine p)
           | (Inr _, p) \<Rightarrow>
               (case restore_windows (withholds opts (ob_config ob)) (om_entries (group_samples (rp_samples p))) p of
                  (Inl e, p') \<Rightarrow> (Inl e, rp_engine p')
                | (Inr _, p') \<Rightarrow> (case finish_restore p' of (out, ob') \<Rightarrow> (Inr out, ob')))))"

definition restore :: "string \<Rightarrow> restore_options \<Rightarrow> files \<Rightarrow> observatory \<Rightarrow> restore_outcome result \<times> observatory" where
  "restore path opts fs ob =
     (case load_store fs path of Inl e \<Rightarrow> (Inl e, ob) | Inr l \<Rightarrow> restore_loaded opts l ob)"

end
