(* ===== verification/Engine_Facts.thy ===== *)
theory Engine_Facts
  imports Engine_Store
begin

text \<open>
  What the engine keeps true of its state, over every operation, and what ingesting, summarising
  and restoring do to it.
\<close>

section \<open>The window of a key\<close>

definition belongs :: "window_key \<Rightarrow> latency_sample \<Rightarrow> bool" where
  "belongs k s \<longleftrightarrow> ls_series s = fst k \<and> ls_generation s = snd k"

definition slot_ok :: "engine_config \<Rightarrow> window_key \<Rightarrow> sample_window \<Rightarrow> bool" where
  "slot_ok cfg k w \<longleftrightarrow> window_inv w \<and> sw_policy w = ec_window cfg \<and>
     (sw_series w = None \<or> sw_series w = Some (fst k) \<and> sw_generation w = Some (snd k))"

lemma slot_ok_init: "slot_ok cfg k (window_init (ec_window cfg))"
  unfolding slot_ok_def by (simp add: window_init_def [of "ec_window cfg"]) (simp flip: window_init_def)

lemma slot_samples: "slot_ok cfg k w \<Longrightarrow> s \<in> set (sw_samples w) \<Longrightarrow> belongs k s"
  by (auto simp: slot_ok_def belongs_def window_inv_def)

lemma window_add_slot:
  assumes "slot_ok cfg k w" "belongs k s"
  obtains w' where "window_add s w = (success, w')" "slot_ok cfg k w'"
proof -
  have "fst (window_add s w) = success \<and>
      sw_series (snd (window_add s w)) = Some (fst k) \<and> sw_generation (snd (window_add s w)) = Some (snd k)"
    using assms by (auto simp: slot_ok_def belongs_def window_add_def bind_window_def Let_def)
  moreover have "window_inv (snd (window_add s w))" "sw_policy (snd (window_add s w)) = ec_window cfg"
    using assms(1) window_add_inv by (auto simp: slot_ok_def)
  ultimately show ?thesis using that [of "snd (window_add s w)"] by (cases "window_add s w") (simp add: slot_ok_def)
qed

lemma store_samples_slot:
  assumes "slot_ok cfg k w" "list_all (belongs k) ss"
  obtains w' where "store_samples ss w = (success, w')" "slot_ok cfg k w'"
  using assms
proof (induction ss arbitrary: w thesis)
  case (Cons s ss)
  from Cons.prems(2,3) obtain w1 where "window_add s w = (success, w1)" "slot_ok cfg k w1"
    by (auto elim: window_add_slot)
  with Cons.IH [of w1] Cons.prems(1,3) show ?case by auto
qed simp

section \<open>The invariant\<close>

definition windows_inv :: "observatory \<Rightarrow> bool" where
  "windows_inv ob \<longleftrightarrow> om_invar (ob_windows ob) \<and>
     length (ob_windows ob) \<le> unat (ec_max_windows (ob_config ob)) \<and>
     (\<forall>k w. om_find k (ob_windows ob) = Some w \<longrightarrow> slot_ok (ob_config ob) k w)"

definition registries_inv :: "observatory \<Rightarrow> bool" where
  "registries_inv ob \<longleftrightarrow> clock_model_inv (ob_clocks ob) \<and>
     registry_inv sd_id validate_source kMaxSources (ob_sources ob) \<and>
     registry_inv se_id validate_series kMaxSeries (ob_series ob) \<and> catalog_inv (ob_paths ob)"

definition logs_inv :: "bool \<Rightarrow> observatory \<Rightarrow> bool" where
  "logs_inv trusted ob \<longleftrightarrow> conflict_log_inv (ob_conflicts ob) \<and> episode_log_inv trusted (ob_episodes ob) \<and>
     (trusted \<longrightarrow> catalog_segmented (ob_paths ob))"

definition engine_inv :: "bool \<Rightarrow> observatory \<Rightarrow> bool" where
  "engine_inv trusted ob \<longleftrightarrow> windows_inv ob \<and> registries_inv ob \<and> logs_inv trusted ob \<and>
     om_invar (ob_guards ob) \<and> om_invar (ob_baselines ob)"

lemmas engine_inv_defs = engine_inv_def windows_inv_def registries_inv_def logs_inv_def

lemma length_om_put:
  "om_invar m \<Longrightarrow> length (om_put k v m) = (if om_find k m = None then Suc (length m) else length m)"
proof -
  assume inv: "om_invar m"
  have len: "length m' = card (fst ` set m')" if "om_invar m'" for m' :: "('a, 'b) omap"
  proof -
    have "distinct (map fst m')" using that by (auto simp: om_invar_def strict_sorted_iff)
    then show ?thesis by (metis distinct_card length_map list.set_map)
  qed
  have "om_find k m = None \<longleftrightarrow> k \<notin> fst ` set m" using om_find_keys [of k m] by blast
  then show ?thesis
    using len [OF inv] len [OF om_invar_put [OF inv, of k v]] by (simp add: set_om_put_keys insert_absorb)
qed

lemma put_window_inv:
  assumes "engine_inv trusted ob" "om_find k (ob_windows ob) \<noteq> None" "slot_ok (ob_config ob) k w"
  shows "engine_inv trusted (put_window k w ob)"
  using assms by (auto simp: engine_inv_defs put_window_def length_om_put)

lemma put_guard_inv [intro]: "engine_inv trusted ob \<Longrightarrow> engine_inv trusted (put_guard i g ob)"
  by (auto simp: engine_inv_defs put_guard_def)

lemma tally_inv [simp]: "engine_inv trusted (ob\<lparr>ob_counters := c\<rparr>) \<longleftrightarrow> engine_inv trusted ob"
  by (simp add: engine_inv_defs)

lemma restored_inv [simp]: "engine_inv trusted (ob\<lparr>ob_restored := c\<rparr>) \<longleftrightarrow> engine_inv trusted ob"
  by (simp add: engine_inv_defs)

lemma window_for_slot:
  assumes "engine_inv trusted ob"
  shows "engine_inv trusted (snd (window_for s g True ob))"
    and "fst (window_for s g True ob) = Inr w \<Longrightarrow>
       slot_ok (ob_config ob) (s, g) w \<and> om_find (s, g) (ob_windows (snd (window_for s g True ob))) = Some w"
    and "ob_config (snd (window_for s g True ob)) = ob_config ob"
  using assms slot_ok_init [of "ob_config ob" "(s, g)"]
  by (auto simp: window_for_def Let_def engine_inv_defs length_om_put split: option.splits if_splits)

section \<open>Ingest keeps it\<close>

lemma admit_batch_belongs:
  "admit_batch b ob = success \<Longrightarrow>
     list_all (belongs (bh_series (lb_header b), bh_generation (lb_header b))) (lb_samples b)"
  by (auto simp: admit_batch_def res_bind_eq_Inr belongs_def list_all_iff batch_uniform_def
      dest!: validate_batch_uniform)

text \<open>Storing fails only for want of a window.\<close>

lemma store_batch_cases:
  assumes "engine_inv trusted ob" "list_all (belongs (bh_series (lb_header b), bh_generation (lb_header b))) (lb_samples b)"
  obtains (full) e where "store_batch b g out ob = (Inl e, ob)"
      "window_for (bh_series (lb_header b)) (bh_generation (lb_header b)) True ob = (Inl e, ob)"
  | (stored) w ob1 w' where
      "window_for (bh_series (lb_header b)) (bh_generation (lb_header b)) True ob = (Inr w, ob1)"
      "store_samples (lb_samples b) w = (success, w')"
      "slot_ok (ob_config ob) (bh_series (lb_header b), bh_generation (lb_header b)) w'"
      "engine_inv trusted (put_window (bh_series (lb_header b), bh_generation (lb_header b)) w' ob1)"
proof (cases "window_for (bh_series (lb_header b)) (bh_generation (lb_header b)) True ob")
  case (Pair r ob1)
  show ?thesis
  proof (cases r)
    case (Inl e)
    with Pair have "ob1 = ob" by (auto simp: window_for_def Let_def split: option.splits if_splits)
    with Inl Pair full show ?thesis by (simp add: store_batch_def Let_def)
  next
    case (Inr w)
    let ?k = "(bh_series (lb_header b), bh_generation (lb_header b))"
    note slot = window_for_slot [OF assms(1), of "bh_series (lb_header b)" "bh_generation (lb_header b)"]
    have w: "slot_ok (ob_config ob) ?k w" "om_find ?k (ob_windows ob1) = Some w" "engine_inv trusted ob1"
      "ob_config ob1 = ob_config ob"
      using slot Pair Inr by auto
    obtain w' where w': "store_samples (lb_samples b) w = (success, w')" "slot_ok (ob_config ob) ?k w'"
      using store_samples_slot [OF w(1) assms(2)] .
    have "engine_inv trusted (put_window ?k w' ob1)" by (rule put_window_inv) (use w w' in auto)
    with stored Pair Inr w' show ?thesis by blast
  qed
qed

lemma store_batch_inv:
  assumes "engine_inv trusted ob" "list_all (belongs (bh_series (lb_header b), bh_generation (lb_header b))) (lb_samples b)"
  shows "engine_inv trusted (snd (store_batch b g out ob))"
proof (rule store_batch_cases [OF assms, of g out])
  fix e
  assume "store_batch b g out ob = (Inl e, ob)"
  with assms(1) show ?thesis by simp
next
  let ?k = "(bh_series (lb_header b), bh_generation (lb_header b))"
  fix w ob1 w'
  assume "window_for (bh_series (lb_header b)) (bh_generation (lb_header b)) True ob = (Inr w, ob1)" "store_samples (lb_samples b) w = (success, w')"
    "engine_inv trusted (put_window ?k w' ob1)"
  then show ?thesis by (auto simp: store_batch_def Let_def)
qed

lemma record_batch_conflict_inv:
  "engine_inv trusted ob \<Longrightarrow> engine_inv trusted (snd (record_batch_conflict b g now out ob))"
  using conflict_append_inv [of "ob_conflicts ob" "batch_conflict b g now"]
  by (auto simp: record_batch_conflict_def Let_def engine_inv_defs split: prod.splits)

lemma ingest_inv:
  assumes "engine_inv trusted ob"
  shows "engine_inv trusted (snd (ingest b ctx ob))"
proof (cases "ob_initialized ob \<and> admit_batch b ob = success")
  case True
  let ?g = "guard_of (bh_source (lb_header b)) ob"
  note keep = put_guard_inv [OF assms, of "bh_source (lb_header b)" ?g]
  show ?thesis
    using True keep store_batch_inv [OF keep admit_batch_belongs, of b] record_batch_conflict_inv [OF keep]
    by (auto simp: ingest_def Let_def split: sequence_verdict.split prod.splits) (metis snd_conv)+
next
  case False
  with assms show ?thesis by (auto simp: ingest_def split: sum.splits)
qed

section \<open>The other operations keep it\<close>

lemma initialize_inv:
  assumes "engine_inv trusted ob"
  shows "engine_inv trusted (snd (initialize ob))"
  using assms register_domain_inv [of "ob_clocks ob" local_clock_descriptor]
  by (auto simp: initialize_def engine_inv_defs split: sum.split prod.split)

lemma register_clock_inv:
  assumes "engine_inv trusted ob"
  shows "engine_inv trusted (snd (snd (engine_register_clock_domain d ob)))"
  using assms register_domain_inv [of "ob_clocks ob" d]
  by (auto simp: engine_register_clock_domain_def engine_inv_defs split: prod.split)

lemma register_source_inv:
  assumes "engine_inv trusted ob"
  shows "engine_inv trusted (snd (snd (engine_register_source d ob)))"
  using assms srcs.reg_inv_step [of "ob_sources ob" "complete_source d"]
  by (auto simp: engine_register_source_def Let_def engine_inv_defs split: prod.split)

lemma register_series_inv:
  assumes "engine_inv trusted ob"
  shows "engine_inv trusted (snd (snd (engine_register_series d ob)))"
  using assms sers.reg_inv_step [of "ob_series ob" "complete_series d"]
  by (auto simp: engine_register_series_def Let_def engine_inv_defs split: prod.split)

lemma register_path_inv:
  assumes "engine_inv trusted ob"
  shows "engine_inv trusted (snd (snd (engine_register_path d ob)))"
proof -
  have "catalog_inv (snd (snd (register_path e (ob_paths ob))))" for e
    unfolding register_path_def using assms by (intro register_path_impl_inv) (simp add: engine_inv_defs)
  moreover have "trusted \<Longrightarrow> catalog_segmented (snd (snd (register_path e (ob_paths ob))))" for e
    unfolding register_path_def using assms by (intro register_segmented) (simp add: engine_inv_defs)
  ultimately show ?thesis
    using assms unfolding engine_register_path_def Let_def engine_inv_defs
    by (simp split: prod.split) (metis snd_conv)
qed

lemma declare_inv:
  assumes "engine_inv trusted ob"
  shows "engine_inv trusted (snd (engine_declare_equivalence e ob))"
  using assms declare_equivalence_inv [of "ob_clocks ob" e]
  by (auto simp: engine_declare_equivalence_def engine_inv_defs split: sum.split prod.split)

lemma retire_series_inv:
  assumes "engine_inv trusted ob"
  shows "engine_inv trusted (retire_series path g now d ob)"
proof -
  have "episode_log_inv trusted (ob_episodes ob)" using assms by (simp add: engine_inv_defs)
  note retire_inv [OF this, of "se_id d" g "make_instability_policy_id (ec_policy (ob_config ob))"
      "make_window_policy_id (ec_window (ob_config ob))" now]
  with assms show ?thesis by (auto simp: retire_series_def engine_inv_defs split: prod.split)
qed

lemma retire_all_inv:
  "engine_inv trusted ob \<Longrightarrow> engine_inv trusted (fold (retire_series path g now) ds ob)"
  by (induction ds arbitrary: ob) (simp_all add: retire_series_inv)

lemma paths_inv:
  assumes "engine_inv trusted ob" "catalog_inv m" "trusted \<Longrightarrow> catalog_segmented m"
  shows "engine_inv trusted (ob\<lparr>ob_paths := m\<rparr>)"
  using assms by (simp add: engine_inv_defs)

lemma observe_topology_keeps:
  assumes "engine_inv trusted ob"
  shows "engine_inv trusted (snd (engine_observe_topology path topology now cause ob))"
proof -
  let ?m = "snd (observe_topology path topology now cause (ob_paths ob))"
  have "engine_inv trusted (ob\<lparr>ob_paths := ?m\<rparr>)"
    using assms observe_topology_inv observe_segmented by (intro paths_inv) (auto simp: engine_inv_defs)
  then show ?thesis
    by (cases "observe_topology path topology now cause (ob_paths ob)")
       (auto simp: engine_observe_topology_def Let_def retire_all_inv split: sum.split)
qed

lemma bump_segmented: "catalog_segmented c \<Longrightarrow> catalog_segmented (snd (bump_revision path cause c))"
  by (auto simp: bump_revision_def catalog_segmented_def segmented_update_last Let_def)

lemma bump_inv:
  assumes "engine_inv trusted ob"
  shows "engine_inv trusted (snd (engine_bump_revision path cause ob))"
proof -
  have "engine_inv trusted (ob\<lparr>ob_paths := snd (bump_revision path cause (ob_paths ob))\<rparr>)"
    using assms bump_revision_inv bump_segmented by (intro paths_inv) (auto simp: engine_inv_defs)
  then show ?thesis by (auto simp: engine_bump_revision_def split: prod.split)
qed

lemma summarize_inv:
  assumes "engine_inv trusted ob"
  shows "engine_inv trusted (snd (engine_summarize q ctx track ob))"
proof -
  have "engine_inv trusted (snd (track_episode c now ob1))" if "engine_inv trusted ob1" for c now ob1
    using that observe_inv [of trusted "ob_episodes ob1" c now]
    by (auto simp: track_episode_def engine_inv_defs split: prod.split)
  then show ?thesis using assms
    by (auto simp: engine_summarize_def Let_def split: sum.split prod.split) (metis snd_conv tally_inv)
qed

lemma compare_inv:
  assumes "engine_inv trusted ob"
  shows "engine_inv trusted (snd (engine_compare q i ctx ob))"
  using summarize_inv [OF assms, of q ctx False]
  by (auto simp: engine_compare_def split: prod.split sum.split option.split)

lemma push_baseline_inv: "engine_inv trusted ob \<Longrightarrow> engine_inv trusted (push_baseline b ob)"
  by (auto simp: push_baseline_def engine_inv_defs)

lemma capture_inv:
  assumes "engine_inv trusted ob"
  shows "engine_inv trusted (snd (capture_baseline name q ctx note ob))"
  using summarize_inv [OF assms, of q ctx False] push_baseline_inv
  by (auto simp: capture_baseline_def split: prod.split sum.split)

lemma save_inv: "engine_inv trusted ob \<Longrightarrow> engine_inv trusted (fst (snd (save path replace ctx ob fs)))"
  by (auto simp: save_def split: sum.split prod.split)

section \<open>Restoring keeps it\<close>

lemma counted_engine [simp]: "rp_engine (snd (counted f r)) = rp_engine (snd r)"
  by (auto simp: counted_def split: prod.split sum.split)

lemma note_restore_engine [simp]: "rp_engine (note_restore n p) = rp_engine p"
  by (simp add: note_restore_def)

lemma restore_with_inv:
  assumes "engine_inv False (rp_engine p)"
    and "\<And>v. engine_inv False (rp_engine (snd (f v p)))"
  shows "engine_inv False (rp_engine (snd (restore_with dec payload f p)))"
  using assms by (auto simp: restore_with_def split: sum.split prod.split)

lemma restore_payload_inv:
  assumes "engine_inv False (rp_engine p)"
  shows "engine_inv False (rp_engine (snd (restore_payload created t payload p)))"
proof (cases t)
  case Rec_ClockDomain
  have "engine_inv False (rp_engine (snd (restore_clock_domain v p)))" for v
    using assms register_domain_inv [of "ob_clocks (rp_engine p)" v]
    by (auto simp: restore_clock_domain_def engine_inv_defs split: prod.split)
  with Rec_ClockDomain assms show ?thesis by (simp add: restore_with_inv)
next
  case Rec_Equivalence
  have "engine_inv False (rp_engine (snd (restore_equivalence v p)))" for v
    using assms declare_equivalence_inv [of "ob_clocks (rp_engine p)" v]
    by (auto simp: restore_equivalence_def engine_inv_defs split: prod.split)
  with Rec_Equivalence assms show ?thesis by (simp add: restore_with_inv)
next
  case Rec_Source
  have "engine_inv False (rp_engine (snd (restore_source v p)))" for v
    using assms srcs.reg_inv_step [of "ob_sources (rp_engine p)" v]
    by (auto simp: restore_source_def engine_inv_defs split: prod.split)
  with Rec_Source assms show ?thesis by (simp add: restore_with_inv)
next
  case Rec_Series
  have "engine_inv False (rp_engine (snd (restore_series v p)))" for v
    using assms sers.reg_inv_step [of "ob_series (rp_engine p)" v]
    by (auto simp: restore_series_def engine_inv_defs split: prod.split)
  with Rec_Series assms show ?thesis by (simp add: restore_with_inv)
next
  case Rec_Path
  have "engine_inv False (rp_engine (snd (restore_path v p)))" for v
    using assms register_path_impl_inv [of "ob_paths (rp_engine p)" v False]
    by (auto simp: restore_path_def register_path_only_def engine_inv_defs split: prod.split)
  with Rec_Path assms show ?thesis by (simp add: restore_with_inv)
next
  case Rec_Generation
  have "engine_inv False (rp_engine (snd (restore_generation v p)))" for v
    using assms import_generation_inv [of "ob_paths (rp_engine p)" v]
    by (auto simp: restore_generation_def engine_inv_defs split: prod.split)
  with Rec_Generation assms show ?thesis by (simp add: restore_with_inv)
next
  case Rec_Baseline
  have "engine_inv False (rp_engine (snd (restore_baseline v p)))" for v
    using assms by (auto simp: restore_baseline_def Let_def engine_inv_defs push_baseline_def)
  with Rec_Baseline assms show ?thesis by (simp add: restore_with_inv)
next
  case Rec_Episode
  have "engine_inv False (rp_engine (snd (restore_episode created v p)))" for v
    using assms import_episode_inv [of "ob_episodes (rp_engine p)" v created]
    by (auto simp: restore_episode_def Let_def engine_inv_defs split: prod.split)
  with Rec_Episode assms show ?thesis by (simp add: restore_with_inv)
next
  case Rec_Conflict
  have "engine_inv False (rp_engine (snd (restore_conflict v p)))" for v
    using assms conflict_append_inv [of "ob_conflicts (rp_engine p)" v]
    by (auto simp: restore_conflict_def Let_def engine_inv_defs split: prod.split)
  with Rec_Conflict assms show ?thesis by (simp add: restore_with_inv)
qed (use assms in \<open>simp_all add: restore_with_inv collect_sample_def restore_guard_def\<close>)

lemma restore_records_inv:
  "engine_inv False (rp_engine p) \<Longrightarrow> engine_inv False (rp_engine (snd (restore_records created rs p)))"
proof (induction rs arbitrary: p)
  case (Cons tp rs)
  obtain t payload where "tp = (t, payload)" by (cases tp)
  with Cons restore_payload_inv [OF Cons.prems, of created t payload] show ?case
    by (auto split: sum.split prod.split)
qed simp

lemma belongs_own: "belongs (ls_series s, ls_generation s) s"
  by (simp add: belongs_def)

lemma group_samples_put:
  "om_invar m \<Longrightarrow> \<forall>k. list_all (belongs k) (om_get [] k m) \<Longrightarrow>
     om_invar (fold (\<lambda>s m. let k = (ls_series s, ls_generation s) in om_put k (om_get [] k m @ [s]) m) ss m) \<and>
     (\<forall>k. list_all (belongs k)
        (om_get [] k (fold (\<lambda>s m. let k = (ls_series s, ls_generation s) in om_put k (om_get [] k m @ [s]) m) ss m)))"
proof (induction ss arbitrary: m)
  case (Cons s ss)
  have "\<forall>k. list_all (belongs k)
      (om_get [] k (om_put (ls_series s, ls_generation s) (om_get [] (ls_series s, ls_generation s) m @ [s]) m))"
    using Cons.prems(2) belongs_own [of s] by simp
  then show ?case using Cons by (simp add: Let_def)
qed simp

lemma group_samples_belong:
  "om_invar (group_samples ss)"
  "(k, xs) \<in> set (om_entries (group_samples ss)) \<Longrightarrow> list_all (belongs k) xs"
proof -
  have g: "om_invar (group_samples ss) \<and> (\<forall>k. list_all (belongs k) (om_get [] k (group_samples ss)))"
    unfolding group_samples_def by (rule group_samples_put) (simp_all add: om_get_def)
  then show "om_invar (group_samples ss)" by blast
  assume e: "(k, xs) \<in> set (om_entries (group_samples ss))"
  have "distinct (map fst (group_samples ss))" using g by (auto simp: om_invar_def strict_sorted_iff)
  with e have "om_find k (group_samples ss) = Some xs" by (simp add: om_entries_def om_find_map_of)
  with g show "list_all (belongs k) xs" by (metis om_get_def option.simps(5))
qed

lemma account_restored_engine:
  "ob_windows (rp_engine (account_restored wh s p)) = ob_windows (rp_engine p)"
  "ob_config (rp_engine (account_restored wh s p)) = ob_config (rp_engine p)"
  by (simp_all add: account_restored_def Let_def put_guard_def)

lemma account_restored_inv:
  "engine_inv False (rp_engine p) \<Longrightarrow> engine_inv False (rp_engine (account_restored wh s p))"
  by (simp add: account_restored_def Let_def put_guard_inv)

text \<open>Every grouped sample fits its window, so this part cannot fail.\<close>

lemma restore_samples_ok:
  assumes "slot_ok (ob_config (rp_engine p)) k w" "list_all (belongs k) ss"
    and "engine_inv False (rp_engine p)" "om_find k (ob_windows (rp_engine p)) \<noteq> None"
  shows "\<exists>p'. restore_samples wh k ss w p = (success, p') \<and> engine_inv False (rp_engine p') \<and>
     ob_config (rp_engine p') = ob_config (rp_engine p)"
  using assms
proof (induction ss arbitrary: w p)
  case Nil
  then have "engine_inv False (put_window k w (rp_engine p))" by (intro put_window_inv) simp_all
  then show ?case by (simp add: put_window_def)
next
  case (Cons s ss)
  from Cons.prems(1,2) obtain w1 where w1: "window_add s w = (success, w1)" "slot_ok (ob_config (rp_engine p)) k w1"
    by (auto elim: window_add_slot)
  have "\<exists>p'. restore_samples wh k ss w1 (account_restored wh s p) = (success, p') \<and>
      engine_inv False (rp_engine p') \<and> ob_config (rp_engine p') = ob_config (rp_engine (account_restored wh s p))"
    using Cons.prems w1 by (intro Cons.IH) (auto simp: account_restored_engine account_restored_inv)
  with w1 show ?case by (simp add: account_restored_engine)
qed

lemma restore_windows_ok:
  assumes "engine_inv False (rp_engine p)" "\<forall>(k, ss) \<in> set gs. list_all (belongs k) ss"
  shows "\<exists>p'. restore_windows wh gs p = (success, p') \<and> engine_inv False (rp_engine p')"
  using assms
proof (induction gs arbitrary: p)
  case (Cons g gs)
  obtain k ss where g: "g = (k, ss)" by (cases g)
  obtain r ob where w: "window_for (fst k) (snd k) True (rp_engine p) = (r, ob)"
    by (cases "window_for (fst k) (snd k) True (rp_engine p)")
  note slot = window_for_slot [OF Cons.prems(1), of "fst k" "snd k", unfolded w]
  show ?case
  proof (cases r)
    case (Inl e)
    with slot(1) show ?thesis by (simp add: g w)
  next
    case (Inr v)
    have "\<exists>p'. restore_samples wh k (sort_key restore_order ss) v (p\<lparr>rp_engine := ob\<rparr>) = (success, p') \<and>
        engine_inv False (rp_engine p') \<and>
        ob_config (rp_engine p') = ob_config (rp_engine (p\<lparr>rp_engine := ob\<rparr>))"
      using slot Inr Cons.prems(2) by (intro restore_samples_ok) (auto simp: g list_all_iff)
    then obtain p1 where "restore_samples wh k (sort_key restore_order ss) v (p\<lparr>rp_engine := ob\<rparr>) = (success, p1)"
      "engine_inv False (rp_engine p1)" by blast
    with Inr Cons.IH [of p1] Cons.prems(2) show ?thesis by (simp add: g w)
  qed
qed simp

lemma adopt_guards_inv: "engine_inv t ob \<Longrightarrow> engine_inv t (fold adopt_guard gs ob)"
  by (induction gs arbitrary: ob) (simp_all add: adopt_guard_def Let_def put_guard_inv)

lemma restore_inv:
  assumes "engine_inv False ob"
  shows "engine_inv False (snd (restore path opts fs ob))"
proof -
  have "engine_inv False (snd (restore_loaded opts l ob))" for l
  proof (cases "check_loaded opts l")
    case (Inr u)
    let ?p0 = "\<lparr>rp_engine = ob, rp_outcome = restore_notes l (ob_config ob), rp_samples = [], rp_guards = []\<rparr>"
    obtain r p where p: "restore_records (sh_created_at_utc_ns (ld_header l)) (map plain (ld_records l)) ?p0 = (r, p)"
      by (cases "restore_records (sh_created_at_utc_ns (ld_header l)) (map plain (ld_records l)) ?p0")
    have inv: "engine_inv False (rp_engine p)"
      using restore_records_inv [of ?p0 "sh_created_at_utc_ns (ld_header l)" "map plain (ld_records l)"] p assms by simp
    obtain p' where p': "restore_windows (withholds opts (ob_config ob)) (om_entries (group_samples (rp_samples p))) p
        = (success, p')" "engine_inv False (rp_engine p')"
      using restore_windows_ok [OF inv, of "om_entries (group_samples (rp_samples p))"] group_samples_belong(2) by blast
    show ?thesis
      using Inr p p' inv adopt_guards_inv [OF p'(2)]
      by (auto simp: restore_loaded_def finish_restore_def Let_def split: sum.split)
  qed (use assms in \<open>simp add: restore_loaded_def\<close>)
  with assms show ?thesis by (auto simp: restore_def split: sum.split)
qed

section \<open>Reachable observatories\<close>

text \<open>One operation; a restore is a step only where the run may recover (\<open>recovering\<close>).\<close>

inductive engine_step :: "bool \<Rightarrow> observatory \<Rightarrow> observatory \<Rightarrow> bool" for recovering :: bool where
  step_initialize: "engine_step recovering ob (snd (initialize ob))"
| step_clock: "engine_step recovering ob (snd (snd (engine_register_clock_domain d ob)))"
| step_source: "engine_step recovering ob (snd (snd (engine_register_source sd ob)))"
| step_series: "engine_step recovering ob (snd (snd (engine_register_series se ob)))"
| step_path: "engine_step recovering ob (snd (snd (engine_register_path pd ob)))"
| step_declare: "engine_step recovering ob (snd (engine_declare_equivalence e ob))"
| step_observe: "engine_step recovering ob (snd (engine_observe_topology path topology now cause ob))"
| step_bump: "engine_step recovering ob (snd (engine_bump_revision path cause ob))"
| step_ingest: "engine_step recovering ob (snd (ingest b ctx ob))"
| step_summarize: "engine_step recovering ob (snd (engine_summarize q ctx track ob))"
| step_compare: "engine_step recovering ob (snd (engine_compare q i ctx ob))"
| step_capture: "engine_step recovering ob (snd (capture_baseline name q ctx note ob))"
| step_save: "engine_step recovering ob (fst (snd (save path replace ctx ob fs)))"
| step_restore: "recovering \<Longrightarrow> engine_step recovering ob (snd (restore path opts fs ob))"

inductive engine_reach :: "bool \<Rightarrow> engine_config \<Rightarrow> observatory \<Rightarrow> bool"
  for recovering :: bool and cfg :: engine_config where
  reach_start: "engine_reach recovering cfg (make_observatory cfg)"
| reach_step: "engine_reach recovering cfg ob \<Longrightarrow> engine_step recovering ob ob' \<Longrightarrow>
    engine_reach recovering cfg ob'"

lemma engine_step_inv:
  "engine_step recovering ob ob' \<Longrightarrow> engine_inv (\<not> recovering) ob \<Longrightarrow> engine_inv (\<not> recovering) ob'"
proof (induction rule: engine_step.induct)
  case (step_restore ob path opts fs)
  then show ?case using restore_inv by simp
qed (simp_all add: initialize_inv register_clock_inv register_source_inv register_series_inv
      register_path_inv declare_inv observe_topology_keeps bump_inv ingest_inv summarize_inv compare_inv
      capture_inv save_inv)

lemma make_observatory_inv: "engine_inv trusted (make_observatory cfg)"
  by (simp add: make_observatory_def engine_inv_defs registry_inv_def conflict_log_inv_def conflict_log_init_def
      episode_log_inv_init)
     (simp add: catalog_segmented_def path_catalog_init_def history_def om_get_def segmented_def)

lemma engine_reach_inv: "engine_reach recovering cfg ob \<Longrightarrow> engine_inv (\<not> recovering) ob"
  by (induction rule: engine_reach.induct) (simp_all add: make_observatory_inv engine_step_inv)

end
