(* ===== verification/Engine_Guarantees.thy ===== *)
theory Engine_Guarantees
  imports Engine_Facts
begin

text \<open>
  What the engine promises its callers: what an ingest may change, that a position is accepted once,
  that a route change ends episodes, that restored evidence is not current, and that a measurement
  does not depend on the order of arrival.
\<close>

section \<open>The effect of an ingest\<close>

text \<open>The state an ingest may not touch unless it stores.\<close>

definition same_evidence :: "observatory \<Rightarrow> observatory \<Rightarrow> bool" where
  "same_evidence ob ob' \<longleftrightarrow>
     ob_windows ob' = ob_windows ob \<and> (\<forall>i. guard_of i ob' = guard_of i ob) \<and>
     ob_episodes ob' = ob_episodes ob \<and> ob_restored ob' = ob_restored ob \<and>
     ob_baselines ob' = ob_baselines ob"

text \<open>The window a batch is stored into: the one of its key, or a new one.\<close>

definition window_before :: "window_key \<Rightarrow> observatory \<Rightarrow> sample_window" where
  "window_before k ob =
     (case om_find k (ob_windows ob) of Some w \<Rightarrow> w | None \<Rightarrow> window_init (ec_window (ob_config ob)))"

text \<open>What storing a batch does to windows and guards.\<close>

definition stored_effect :: "latency_batch \<Rightarrow> source_guard \<Rightarrow> observatory \<Rightarrow> observatory \<Rightarrow> bool" where
  "stored_effect b g ob ob' \<longleftrightarrow>
     (let h = lb_header b; k = (bh_series h, bh_generation h)
      in om_find k (ob_windows ob') = Some (snd (store_samples (lb_samples b) (window_before k ob))) \<and>
         (\<forall>k'. k' \<noteq> k \<longrightarrow> om_find k' (ob_windows ob') = om_find k' (ob_windows ob)) \<and>
         guard_of (bh_source h) ob' = g \<and>
         (\<forall>i. i \<noteq> bh_source h \<longrightarrow> guard_of i ob' = guard_of i ob) \<and>
         ob_conflicts ob' = ob_conflicts ob \<and> ob_episodes ob' = ob_episodes ob \<and>
         ob_restored ob' = ob_restored ob)"

lemma guard_of_put [simp]: "guard_of j (put_guard i g ob) = (if j = i then g else guard_of j ob)"
  by (simp add: guard_of_def put_guard_def)

lemma guard_of_frames [simp]:
  "guard_of i (ob\<lparr>ob_counters := c\<rparr>) = guard_of i ob"
  "guard_of i (ob\<lparr>ob_conflicts := l\<rparr>) = guard_of i ob"
  "guard_of i (ob\<lparr>ob_windows := ws\<rparr>) = guard_of i ob"
  "guard_of i (put_window k w ob) = guard_of i ob"
  by (simp_all add: guard_of_def put_window_def)

lemma put_guard_frames [simp]:
  "ob_windows (put_guard i g ob) = ob_windows ob" "ob_episodes (put_guard i g ob) = ob_episodes ob"
  "ob_restored (put_guard i g ob) = ob_restored ob" "ob_baselines (put_guard i g ob) = ob_baselines ob"
  "ob_conflicts (put_guard i g ob) = ob_conflicts ob" "ob_config (put_guard i g ob) = ob_config ob"
  by (simp_all add: put_guard_def)

lemma put_window_frames [simp]:
  "ob_episodes (put_window k w ob) = ob_episodes ob" "ob_restored (put_window k w ob) = ob_restored ob"
  "ob_conflicts (put_window k w ob) = ob_conflicts ob"
  "om_find k' (ob_windows (put_window k w ob)) = (if k' = k then Some w else om_find k' (ob_windows ob))"
  by (simp_all add: put_window_def)

lemma same_evidence_guard: "same_evidence ob (put_guard i (guard_of i ob) ob)"
  by (simp add: same_evidence_def)

lemma same_evidence_tally [simp]: "same_evidence ob (ob'\<lparr>ob_counters := c\<rparr>) \<longleftrightarrow> same_evidence ob ob'"
  by (simp add: same_evidence_def)

lemma window_for_before:
  "window_for s g True ob = (Inr w, ob1) \<Longrightarrow>
     w = window_before (s, g) ob \<and> (\<forall>k. k \<noteq> (s, g) \<longrightarrow> om_find k (ob_windows ob1) = om_find k (ob_windows ob)) \<and>
     (\<forall>i. guard_of i ob1 = guard_of i ob) \<and> ob_conflicts ob1 = ob_conflicts ob \<and>
     ob_episodes ob1 = ob_episodes ob \<and> ob_restored ob1 = ob_restored ob"
  by (auto simp: window_for_def window_before_def Let_def split: option.splits if_splits)

lemma store_batch_effect:
  assumes "engine_inv trusted ob" "list_all (belongs (bh_series (lb_header b), bh_generation (lb_header b))) (lb_samples b)"
    and "guard_of (bh_source (lb_header b)) ob = g" "io_verdict out \<in> {Seq_Accept, Seq_Historical}"
  shows "case store_batch b g out ob of
       (Inl e, ob') \<Rightarrow> ob' = ob
     | (Inr out', ob') \<Rightarrow> io_verdict out' = io_verdict out \<and>
         stored_effect b (if io_verdict out = Seq_Historical then g
                          else apply_sequence g (batch_provenance (lb_header b)) (lb_content b)) ob ob'"
proof (rule store_batch_cases [OF assms(1,2), of g out])
  fix e
  assume "store_batch b g out ob = (Inl e, ob)"
  then show ?thesis by simp
next
  let ?k = "(bh_series (lb_header b), bh_generation (lb_header b))"
  fix w ob1 w'
  assume w: "window_for (bh_series (lb_header b)) (bh_generation (lb_header b)) True ob = (Inr w, ob1)"
    "store_samples (lb_samples b) w = (success, w')"
  note before = window_for_before [OF w(1)]
  have "om_find k (ob_windows ob1) = om_find k (ob_windows ob)" if "k \<noteq> ?k" for k using before that by blast
  with w before assms(3) show ?thesis
    by (simp add: store_batch_def Let_def stored_effect_def del: split_paired_All)
qed

section \<open>Positions only grow\<close>

definition guard_le :: "source_guard \<Rightarrow> source_guard \<Rightarrow> bool" where
  "guard_le g g' \<longleftrightarrow> \<not> sg_initialized g \<or> sg_initialized g' \<and> guard_position g \<le> guard_position g'"

lemma guard_le_refl [simp]: "guard_le g g"
  by (simp add: guard_le_def)

lemma guard_le_trans: "guard_le f g \<Longrightarrow> guard_le g h \<Longrightarrow> guard_le f h"
  by (auto simp: guard_le_def)

lemma guard_le_accept:
  assumes "qd_verdict (evaluate_sequence g p c h) = Seq_Accept"
  shows "guard_le g (apply_sequence g p c)"
  using assms apply_accepted [OF assms] by (auto simp: guard_le_def evaluate_accept_iff)

lemma blank_outcome_verdict [simp]: "io_verdict (blank_outcome i d) = qd_verdict d"
  by (simp add: blank_outcome_def)

lemma store_batch_guard_le:
  assumes "guard_of (bh_source (lb_header b)) ob = g"
    and "io_verdict out = Seq_Historical \<or>
         qd_verdict (evaluate_sequence g (batch_provenance (lb_header b)) (lb_content b) hist) = Seq_Accept"
  shows "guard_le (guard_of i ob) (guard_of i (snd (store_batch b g out ob)))"
proof (cases "window_for (bh_series (lb_header b)) (bh_generation (lb_header b)) True ob")
  case (Pair r ob1)
  have same: "guard_of i ob1 = guard_of i ob" for i
    using Pair by (auto simp: window_for_def Let_def split: option.splits if_splits)
  show ?thesis
  proof (cases r)
    case (Inl e)
    with Pair same show ?thesis by (simp add: store_batch_def Let_def)
  next
    case (Inr w)
    obtain st w' where "store_samples (lb_samples b) w = (st, w')" by (cases "store_samples (lb_samples b) w")
    with Pair Inr same assms guard_le_accept show ?thesis
      by (cases st) (auto simp: store_batch_def Let_def)
  qed
qed

lemma ingest_guard_le: "guard_le (guard_of i ob) (guard_of i (snd (ingest b ctx ob)))"
proof (cases "ob_initialized ob \<and> admit_batch b ob = success")
  case True
  let ?g = "guard_of (bh_source (lb_header b)) ob"
  let ?ob = "put_guard (bh_source (lb_header b)) ?g ob"
  let ?d = "evaluate_sequence ?g (batch_provenance (lb_header b)) (lb_content b) (ic_historical ctx)"
  have same: "guard_of i ?ob = guard_of i ob" by simp
  have store: "qd_verdict ?d = Seq_Historical \<or> qd_verdict ?d = Seq_Accept \<Longrightarrow>
      guard_le (guard_of i ob) (guard_of i (snd (store_batch b ?g (blank_outcome (lb_id b) ?d) ?ob)))"
    by (subst same [symmetric], rule store_batch_guard_le [where hist = "ic_historical ctx"]) auto
  show ?thesis
    using True store
    by (cases "qd_verdict ?d")
       (simp_all add: ingest_def Let_def record_batch_conflict_def split: prod.split)
next
  case False
  then show ?thesis by (auto simp: ingest_def split: sum.splits)
qed

lemma guards_untouched:
  "ob_guards (snd (initialize ob)) = ob_guards ob"
  "ob_guards (snd (snd (engine_register_clock_domain d ob))) = ob_guards ob"
  "ob_guards (snd (snd (engine_register_source sd ob))) = ob_guards ob"
  "ob_guards (snd (snd (engine_register_series se ob))) = ob_guards ob"
  "ob_guards (snd (snd (engine_register_path pd ob))) = ob_guards ob"
  "ob_guards (snd (engine_declare_equivalence e ob)) = ob_guards ob"
  "ob_guards (snd (engine_bump_revision path cause ob)) = ob_guards ob"
  by (auto simp: initialize_def engine_register_clock_domain_def engine_register_source_def
      engine_register_series_def engine_register_path_def engine_declare_equivalence_def
      engine_bump_revision_def Let_def split: sum.split prod.split)

lemma retire_fold_guards [simp]: "ob_guards (fold (retire_series path g now) ds ob) = ob_guards ob"
  by (induction ds arbitrary: ob) (simp_all add: retire_series_def split: prod.split)

lemma observe_guards [simp]: "ob_guards (snd (engine_observe_topology path topology now cause ob)) = ob_guards ob"
  by (auto simp: engine_observe_topology_def Let_def split: sum.split prod.split)

lemma summarize_guards [simp]: "ob_guards (snd (engine_summarize q ctx track ob)) = ob_guards ob"
  by (auto simp: engine_summarize_def track_episode_def Let_def split: sum.split prod.split)

lemma summarize_based_guards [simp]:
  "ob_guards (snd (engine_compare q i ctx ob)) = ob_guards ob"
  "ob_guards (snd (capture_baseline name q ctx note ob)) = ob_guards ob"
proof -
  obtain r ob1 where s: "engine_summarize q ctx False ob = (r, ob1)" by (cases "engine_summarize q ctx False ob")
  then have "ob_guards ob1 = ob_guards ob" using summarize_guards [of q ctx False ob] by simp
  with s show "ob_guards (snd (engine_compare q i ctx ob)) = ob_guards ob"
    "ob_guards (snd (capture_baseline name q ctx note ob)) = ob_guards ob"
    by (auto simp: engine_compare_def capture_baseline_def push_baseline_def split: sum.split option.split)
qed

lemma save_guards [simp]: "ob_guards (fst (snd (save path replace ctx ob fs))) = ob_guards ob"
  by (auto simp: save_def split: sum.split prod.split)

lemma step_guard_le: "engine_step False ob ob' \<Longrightarrow> guard_le (guard_of i ob) (guard_of i ob')"
  by (induction rule: engine_step.induct)
     (simp_all add: guard_of_def [of i "ob' :: observatory" for ob'] guards_untouched ingest_guard_le [unfolded guard_of_def])

lemma run_guard_le: "(engine_step False)\<^sup>*\<^sup>* ob ob' \<Longrightarrow> guard_le (guard_of i ob) (guard_of i ob')"
  by (induction rule: rtranclp_induct) (auto intro: guard_le_trans step_guard_le)

lemma ingest_verdict_accept:
  assumes "fst (ingest b ctx ob) = Inr out" "io_verdict out = Seq_Accept"
  shows "qd_verdict (evaluate_sequence (guard_of (bh_source (lb_header b)) ob) (batch_provenance (lb_header b))
           (lb_content b) (ic_historical ctx)) = Seq_Accept"
proof -
  let ?g = "guard_of (bh_source (lb_header b)) ob"
  let ?d = "evaluate_sequence ?g (batch_provenance (lb_header b)) (lb_content b) (ic_historical ctx)"
  have keep: "io_verdict out' = io_verdict out0"
    if "fst (store_batch b g out0 ob1) = Inr out'" for g out0 ob1 out'
    using that by (auto simp: store_batch_def Let_def split: prod.splits sum.splits if_splits)
  show ?thesis
    using assms
    by (cases "qd_verdict ?d")
       (auto simp: ingest_def Let_def record_batch_conflict_def dest: keep
         split: sum.splits prod.splits if_splits)
qed

section \<open>A route change ends episodes\<close>

lemma retire_fold_config [simp]:
  "ob_config (fold (retire_series path g now) ds ob) = ob_config ob"
  by (induction ds arbitrary: ob) (simp_all add: retire_series_def split: prod.split)

text \<open>The keys a route change ends.\<close>

definition outdated :: "path_id \<Rightarrow> generation_id \<Rightarrow> engine_config \<Rightarrow> series_descriptor list \<Rightarrow> episode_key \<Rightarrow> bool" where
  "outdated path g cfg ds k \<longleftrightarrow>
     (\<exists>d \<in> set ds. se_path d = path \<and> fst k = se_id d) \<and>
     snd k \<noteq> (g, make_instability_policy_id (ec_policy cfg), make_window_policy_id (ec_window cfg))"

lemma retire_series_open:
  "om_find k (el_open (ob_episodes (retire_series path g now d ob))) =
     (if outdated path g (ob_config ob) [d] k then None else om_find k (el_open (ob_episodes ob)))"
  using retire_open [of k "se_id d" g "make_instability_policy_id (ec_policy (ob_config ob))"
      "make_window_policy_id (ec_window (ob_config ob))" now "ob_episodes ob"]
  by (auto simp: retire_series_def outdated_def split: prod.split)

lemma retire_fold_open:
  "om_find k (el_open (ob_episodes (fold (retire_series path g now) ds ob))) =
     (if outdated path g (ob_config ob) ds k then None else om_find k (el_open (ob_episodes ob)))"
proof (induction ds arbitrary: ob)
  case (Cons d ds)
  have "ob_config (retire_series path g now d ob) = ob_config ob"
    using retire_fold_config [of path g now "[d]" ob] by simp
  with Cons [of "retire_series path g now d ob"] show ?case
    by (auto simp: retire_series_open outdated_def)
qed (simp add: outdated_def)

section \<open>Restored evidence\<close>

text \<open>Every retained sample was retained before, or is marked as restored.\<close>

definition marked :: "observatory \<Rightarrow> observatory \<Rightarrow> bool" where
  "marked ob ob' \<longleftrightarrow> ob_restored ob \<subseteq> ob_restored ob' \<and>
     (\<forall>k w s. om_find k (ob_windows ob') = Some w \<longrightarrow> s \<in> set (sw_samples w) \<longrightarrow>
        ls_id s \<in> ob_restored ob' \<or>
        (\<exists>w0. om_find k (ob_windows ob) = Some w0 \<and> s \<in> set (sw_samples w0)))"

lemma marked_refl: "marked ob ob"
  by (auto simp: marked_def)

lemma marked_trans: "marked ob ob1 \<Longrightarrow> marked ob1 ob2 \<Longrightarrow> marked ob ob2"
  unfolding marked_def by (meson subsetD subset_trans)

lemma marked_frame:
  "ob_windows ob' = ob_windows ob \<Longrightarrow> ob_restored ob \<subseteq> ob_restored ob' \<Longrightarrow> marked ob ob'"
  by (auto simp: marked_def)

lemma window_add_samples: "set (sw_samples (snd (window_add s w))) \<subseteq> insert s (set (sw_samples w))"
  by (auto simp: window_add_def Let_def bind_window_def evict_samples dest: in_set_dropD)

lemma account_restored_marks:
  "ob_restored (rp_engine (account_restored True s p)) = insert (ls_id s) (ob_restored (rp_engine p))"
  by (simp add: account_restored_def Let_def put_guard_def)

definition accounted :: "observatory \<Rightarrow> window_key \<Rightarrow> sample_window \<Rightarrow> observatory \<Rightarrow> bool" where
  "accounted base k w ob \<longleftrightarrow>
     (\<forall>s \<in> set (sw_samples w). ls_id s \<in> ob_restored ob \<or>
        (\<exists>w0. om_find k (ob_windows base) = Some w0 \<and> s \<in> set (sw_samples w0)))"

lemma put_window_marked: "marked base ob \<Longrightarrow> accounted base k w ob \<Longrightarrow> marked base (put_window k w ob)"
  by (auto simp: marked_def accounted_def)

lemma restore_samples_marked:
  assumes "marked base (rp_engine p)" "accounted base k w (rp_engine p)"
  shows "marked base (rp_engine (snd (restore_samples True k ss w p)))"
  using assms
proof (induction ss arbitrary: w p)
  case Nil
  then show ?case by (simp add: put_window_marked)
next
  case (Cons s ss)
  let ?w = "snd (window_add s w)"
  let ?p = "account_restored True s p"
  have restored: "ob_restored (rp_engine ?p) = insert (ls_id s) (ob_restored (rp_engine p))"
    by (rule account_restored_marks)
  have m: "marked base (rp_engine ?p)"
    using Cons.prems(1) by (auto simp: marked_def restored account_restored_engine)
  have a: "accounted base k ?w (rp_engine ?p)"
    using Cons.prems(2) window_add_samples [of s w] by (auto simp: accounted_def restored)
  show ?case
  proof (cases "window_add s w")
    case (Pair st w1)
    show ?thesis
    proof (cases st)
      case (Inl e)
      then have "w1 = w\<lparr>sw_rejected_mismatch := sw_rejected_mismatch w + 1\<rparr>"
        using Pair by (auto simp: window_add_def Let_def split: if_splits)
      with Cons.prems(2) have "accounted base k w1 (rp_engine p)" by (simp add: accounted_def)
      with Pair Inl Cons.prems(1) show ?thesis by (simp add: put_window_marked)
    next
      case (Inr u)
      with Pair Cons.IH [OF m a] show ?thesis by simp
    qed
  qed
qed

lemma window_for_marked:
  assumes "marked base ob" "window_for s g c ob = (r, ob1)"
  shows "marked base ob1" and "r = Inr w \<Longrightarrow> accounted base (s, g) w ob1"
proof -
  have new: "marked base (put_window (s, g) (window_init p) ob)" "accounted base (s, g) (window_init p) ob" for p
    using assms(1) by (simp_all add: put_window_marked accounted_def window_init_def)
  have same: "marked base (ob'\<lparr>ob_counters := c'\<rparr>) = marked base ob'"
    "accounted base k v (ob'\<lparr>ob_counters := c'\<rparr>) = accounted base k v ob'"
    "accounted base k v (put_window l u ob') = accounted base k v ob'" for ob' c' k v l u
    by (simp_all add: marked_def accounted_def)
  have old: "accounted base (s, g) v ob" if "om_find (s, g) (ob_windows ob) = Some v" for v
    using assms(1) that unfolding marked_def accounted_def by blast
  show "marked base ob1" and "r = Inr w \<Longrightarrow> accounted base (s, g) w ob1"
    using assms new old by (auto simp: window_for_def Let_def same put_window_def [symmetric]
        split: option.splits if_splits)
qed

lemma restore_windows_marked:
  "marked base (rp_engine p) \<Longrightarrow> marked base (rp_engine (snd (restore_windows True gs p)))"
proof (induction gs arbitrary: p)
  case (Cons g gs)
  obtain k ss where g: "g = (k, ss)" by (cases g)
  obtain r ob where w: "window_for (fst k) (snd k) True (rp_engine p) = (r, ob)"
    by (cases "window_for (fst k) (snd k) True (rp_engine p)")
  note m = window_for_marked [OF Cons.prems w]
  show ?case
  proof (cases r)
    case (Inl e)
    with m(1) show ?thesis by (simp add: g w)
  next
    case (Inr v)
    let ?p = "p\<lparr>rp_engine := ob\<rparr>"
    have a: "marked base (rp_engine (snd (restore_samples True k (sort_key restore_order ss) v ?p)))"
      using m Inr by (intro restore_samples_marked) simp_all
    show ?thesis
    proof (cases "restore_samples True k (sort_key restore_order ss) v ?p")
      case (Pair st p1)
      with a Cons.IH [of p1] Inr show ?thesis by (cases st) (simp_all add: g w)
    qed
  qed
qed simp

lemma restore_payload_frames:
  "ob_windows (rp_engine (snd (restore_payload created t payload p))) = ob_windows (rp_engine p)"
  "ob_restored (rp_engine (snd (restore_payload created t payload p))) = ob_restored (rp_engine p)"
  "ob_config (rp_engine (snd (restore_payload created t payload p))) = ob_config (rp_engine p)"
  by (cases t; simp add: restore_with_def restore_clock_domain_def restore_equivalence_def
      restore_source_def restore_series_def restore_path_def restore_generation_def
      restore_baseline_def restore_episode_def restore_conflict_def restore_guard_def
      collect_sample_def push_baseline_def Let_def split: sum.split prod.split)+

lemma restore_records_frames:
  "ob_windows (rp_engine (snd (restore_records created rs p))) = ob_windows (rp_engine p) \<and>
   ob_restored (rp_engine (snd (restore_records created rs p))) = ob_restored (rp_engine p) \<and>
   ob_config (rp_engine (snd (restore_records created rs p))) = ob_config (rp_engine p)"
proof (induction rs arbitrary: p)
  case (Cons tp rs)
  obtain t payload where tp: "tp = (t, payload)" by (cases tp)
  obtain st p1 where s: "restore_payload created t payload p = (st, p1)" by (cases "restore_payload created t payload p")
  then show ?case
    using Cons.IH [of p1] restore_payload_frames [of created t payload p] by (cases st) (simp_all add: tp)
qed simp

lemma adopt_guards_frames [simp]:
  "ob_windows (fold adopt_guard gs ob) = ob_windows ob"
  "ob_restored (fold adopt_guard gs ob) = ob_restored ob"
  "ob_config (fold adopt_guard gs ob) = ob_config ob"
  by (induction gs arbitrary: ob) (simp_all add: adopt_guard_def Let_def put_guard_def)

lemma restore_marked:
  assumes "withholds opts (ob_config ob)"
  shows "marked ob (snd (restore path opts fs ob))"
proof -
  have "marked ob (snd (restore_loaded opts l ob))" for l
  proof (cases "check_loaded opts l")
    case (Inr u)
    let ?p0 = "\<lparr>rp_engine = ob, rp_outcome = restore_notes l (ob_config ob), rp_samples = [], rp_guards = []\<rparr>"
    obtain r p where p: "restore_records (sh_created_at_utc_ns (ld_header l)) (map plain (ld_records l)) ?p0 = (r, p)"
      by (cases "restore_records (sh_created_at_utc_ns (ld_header l)) (map plain (ld_records l)) ?p0")
    have m: "marked ob (rp_engine p)"
      using restore_records_frames [of "sh_created_at_utc_ns (ld_header l)" "map plain (ld_records l)" ?p0] p
      by (intro marked_frame) simp_all
    obtain st p' where p': "restore_windows True (om_entries (group_samples (rp_samples p))) p = (st, p')"
      by (cases "restore_windows True (om_entries (group_samples (rp_samples p))) p")
    have "marked ob (rp_engine p')"
      using restore_windows_marked [OF m, of "om_entries (group_samples (rp_samples p))"] p' by simp
    then have "marked ob (fold adopt_guard (rp_guards p') (rp_engine p'))" by (simp add: marked_def)
    with \<open>marked ob (rp_engine p')\<close> show ?thesis
      using Inr p p' m assms
      by (auto simp: restore_loaded_def finish_restore_def Let_def marked_def split: sum.split)
  qed (simp add: restore_loaded_def marked_refl)
  then show ?thesis by (auto simp: restore_def marked_refl split: sum.split)
qed

lemma assess_marked:
  "assess s now ob =
     (if ls_id s \<in> ob_restored ob \<and> \<not> ec_admit_persisted_evidence (ob_config ob)
      then (assess_sample s (ob_clocks ob) now (ec_freshness (ob_config ob)))
             \<lparr>sa_state := Ev_Stale, sa_reason := ''restored_evidence_is_not_admitted_as_current''\<rparr>
      else assess_sample s (ob_clocks ob) now (ec_freshness (ob_config ob)))"
  by (simp add: assess_def Let_def)

lemma restore_samples_config:
  "ob_config (rp_engine (snd (restore_samples wh k ss w p))) = ob_config (rp_engine p)"
  by (induction ss arbitrary: w p)
     (simp_all add: put_window_def account_restored_engine split: prod.split sum.split)

lemma window_for_config: "ob_config (snd (window_for s g c ob)) = ob_config ob"
  by (simp add: window_for_def Let_def split: option.split)

lemma restore_windows_config:
  "ob_config (rp_engine (snd (restore_windows wh gs p))) = ob_config (rp_engine p)"
proof (induction gs arbitrary: p)
  case (Cons g gs)
  obtain k ss where g: "g = (k, ss)" by (cases g)
  obtain r ob where w: "window_for (fst k) (snd k) True (rp_engine p) = (r, ob)"
    by (cases "window_for (fst k) (snd k) True (rp_engine p)")
  then have c: "ob_config ob = ob_config (rp_engine p)" by (metis snd_conv window_for_config)
  show ?case
  proof (cases r)
    case (Inr v)
    obtain st p1 where s: "restore_samples wh k (sort_key restore_order ss) v (p\<lparr>rp_engine := ob\<rparr>) = (st, p1)"
      by (cases "restore_samples wh k (sort_key restore_order ss) v (p\<lparr>rp_engine := ob\<rparr>)")
    then have "ob_config (rp_engine p1) = ob_config ob"
      using restore_samples_config [of wh k "sort_key restore_order ss" v "p\<lparr>rp_engine := ob\<rparr>"] by simp
    with Inr s c Cons.IH [of p1] show ?thesis by (cases st) (simp_all add: g w)
  qed (simp add: g w c)
qed simp

lemma restore_config: "ob_config (snd (restore path opts fs ob)) = ob_config ob"
proof -
  have "ob_config (snd (restore_loaded opts l ob)) = ob_config ob" for l
  proof (cases "check_loaded opts l")
    case (Inr u)
    let ?p0 = "\<lparr>rp_engine = ob, rp_outcome = restore_notes l (ob_config ob), rp_samples = [], rp_guards = []\<rparr>"
    obtain r p where p: "restore_records (sh_created_at_utc_ns (ld_header l)) (map plain (ld_records l)) ?p0 = (r, p)"
      by (cases "restore_records (sh_created_at_utc_ns (ld_header l)) (map plain (ld_records l)) ?p0")
    obtain st p' where p': "restore_windows (withholds opts (ob_config ob)) (om_entries (group_samples (rp_samples p))) p = (st, p')"
      by (cases "restore_windows (withholds opts (ob_config ob)) (om_entries (group_samples (rp_samples p))) p")
    have "ob_config (rp_engine p) = ob_config ob"
      using restore_records_frames [of "sh_created_at_utc_ns (ld_header l)" "map plain (ld_records l)" ?p0] p by simp
    moreover from this have "ob_config (rp_engine p') = ob_config ob"
      using restore_windows_config [of "withholds opts (ob_config ob)" "om_entries (group_samples (rp_samples p))" p] p'
      by simp
    ultimately show ?thesis
      using Inr p p' by (auto simp: restore_loaded_def finish_restore_def Let_def split: sum.split)
  qed (simp add: restore_loaded_def)
  then show ?thesis by (auto simp: restore_def split: sum.split)
qed

section \<open>The measurement of a window\<close>

lemma summary_input_counters:
  assumes "mset (sw_samples w) = mset (sw_samples v)" "distinct (map ls_id (sw_samples w))" "sw_policy w = sw_policy v"
  shows "summary_input_for q w now (put_window k w ob) =
     (summary_input_for q v now (put_window k v ob))
       \<lparr>si_retained := word_of_nat (retained w), si_evicted_by_capacity := sw_evicted_by_capacity w,
        si_out_of_order_accepted := sw_out_of_order_accepted w, si_duplicate_ignored := sw_duplicate_ignored w\<rparr>"
  using window_select_perm [OF assms] assms(3)
  by (simp add: summary_input_for_def Let_def assess_def put_window_def)

lemma summary_body_counters:
  "sy_metrics (summary_body (i\<lparr>si_retained := a, si_evicted_by_capacity := b, si_out_of_order_accepted := c,
      si_duplicate_ignored := d\<rparr>)) = sy_metrics (summary_body i)"
  "sy_classification (summary_body (i\<lparr>si_retained := a, si_evicted_by_capacity := b, si_out_of_order_accepted := c,
      si_duplicate_ignored := d\<rparr>)) = sy_classification (summary_body i)"
  "sy_evidence (summary_body (i\<lparr>si_retained := a, si_evicted_by_capacity := b, si_out_of_order_accepted := c,
      si_duplicate_ignored := d\<rparr>)) = sy_evidence (summary_body i)"
  by (simp_all add: summary_body_def Let_def)

section \<open>Properties\<close>

text \<open>
  C2: Whatever sequence of operations an engine went through, its state is well formed: every window
  is within the capacity of its policy, holds only observations of its own series and route
  generation and each of them once, there are at most as many windows as configured, the registries
  have unique valid entries within their bounds, the logs are ordered and bounded, and, unless a
  store was restored, every route generation but the last of its path is closed.
\<close>

lemma engine_well_formed:
  assumes "engine_reach recovering cfg ob"
  shows "engine_inv (\<not> recovering) ob \<and>
     (\<forall>k w. om_find k (ob_windows ob) = Some w \<longrightarrow>
        retained w \<le> unat (wp_capacity (ec_window (ob_config ob))) \<and> distinct (map ls_id (sw_samples w)) \<and>
        (\<forall>s \<in> set (sw_samples w). ls_series s = fst k \<and> ls_generation s = snd k))"
proof -
  have inv: "engine_inv (\<not> recovering) ob" by (rule engine_reach_inv [OF assms])
  have "retained w \<le> unat (wp_capacity (ec_window (ob_config ob))) \<and> distinct (map ls_id (sw_samples w)) \<and>
      (\<forall>s \<in> set (sw_samples w). ls_series s = fst k \<and> ls_generation s = snd k)"
    if "om_find k (ob_windows ob) = Some w" for k w
  proof -
    have slot: "slot_ok (ob_config ob) k w" using inv that unfolding engine_inv_defs by blast
    then have "window_inv w" "sw_policy w = ec_window (ob_config ob)" by (simp_all add: slot_ok_def)
    then show ?thesis
      using slot_samples [OF slot] by (auto simp: window_inv_def retained_def belongs_def)
  qed
  with inv show ?thesis by blast
qed

lemma engine_well_formed_witness:
  "engine_inv True (snd (engine_bump_revision (StrongId 1) ''x'' (make_observatory default_engine_config)))"
  using engine_well_formed [OF reach_step [OF reach_start [of False default_engine_config] step_bump]] by simp

text \<open>
  C1: What an ingest does is decided by the batch's checks and the source guard alone. A refused batch
  (a failed check or no room for a window), a duplicate and a replay leave windows, guards, episodes
  and conflicts as they were; a contradiction of the last position adds its conflict record and
  nothing else; an accepted batch is stored whole into the window of its series and generation and
  moves only its own source's guard; a historical batch is stored into the same window in the same
  way and moves no guard.
\<close>

lemma ingest_specification:
  assumes "engine_reach recovering cfg ob"
  shows "let g = guard_of (bh_source (lb_header b)) ob; p = batch_provenance (lb_header b);
             v = qd_verdict (evaluate_sequence g p (lb_content b) (ic_historical ctx))
     in case ingest b ctx ob of
          (Inl e, ob') \<Rightarrow> same_evidence ob ob' \<and> ob_conflicts ob' = ob_conflicts ob
        | (Inr out, ob') \<Rightarrow>
            if v = Seq_Accept then stored_effect b (apply_sequence g p (lb_content b)) ob ob'
            else if v = Seq_Historical then stored_effect b g ob ob'
            else same_evidence ob ob' \<and>
              ob_conflicts ob' = (if v = Seq_SequenceConflict
                then snd (conflict_append (batch_conflict b g (ic_now_utc_ns ctx)) (ob_conflicts ob))
                else ob_conflicts ob)"
proof (cases "ob_initialized ob \<and> admit_batch b ob = success")
  case True
  let ?s = "bh_source (lb_header b)"
  let ?g = "guard_of ?s ob"
  let ?ob = "put_guard ?s ?g ob"
  let ?d = "evaluate_sequence ?g (batch_provenance (lb_header b)) (lb_content b) (ic_historical ctx)"
  have inv: "engine_inv (\<not> recovering) ?ob" by (intro put_guard_inv engine_reach_inv [OF assms])
  have store: "case store_batch b ?g (blank_outcome (lb_id b) ?d) ?ob of
       (Inl e, ob') \<Rightarrow> ob' = ?ob
     | (Inr out', ob') \<Rightarrow> io_verdict out' = qd_verdict ?d \<and>
         stored_effect b (if qd_verdict ?d = Seq_Historical then ?g
                          else apply_sequence ?g (batch_provenance (lb_header b)) (lb_content b)) ?ob ob'"
    if "qd_verdict ?d \<in> {Seq_Accept, Seq_Historical}"
    using store_batch_effect [OF inv admit_batch_belongs, of b ob ?g "blank_outcome (lb_id b) ?d"] True that
    unfolding blank_outcome_verdict by simp
  have effect: "stored_effect b h ?ob ob' = stored_effect b h ob ob'" for h ob'
    unfolding stored_effect_def window_before_def put_guard_frames by (simp add: Let_def)
  have same: "same_evidence ob ?ob" "ob_conflicts ?ob = ob_conflicts ob" by (simp_all add: same_evidence_guard)
  show ?thesis
    using True store same
    by (cases "qd_verdict ?d")
       (auto simp: ingest_def Let_def effect record_batch_conflict_def same_evidence_def
         split: prod.splits sum.splits)
next
  case False
  then show ?thesis by (auto simp: ingest_def same_evidence_def Let_def split: sum.splits)
qed

definition one_batch :: "counter \<Rightarrow> latency_batch" where
  "one_batch n =
     \<lparr>lb_id = nil_id,
      lb_header = \<lparr>bh_source = StrongId 4, bh_incarnation = 1, bh_epoch = 1, bh_sequence = n,
        bh_authority = Authority_Authoritative, bh_origin = Origin_Real, bh_ingest_path = [],
        bh_series = StrongId 1, bh_path = StrongId 2, bh_generation = StrongId 3,
        bh_generation_ordinal = 1, bh_observation_clock = StrongId 5, bh_protocol_revision = 1\<rparr>,
      lb_samples = [sample_at n 10 1000], lb_content = zero_digest\<rparr>"

definition guarded_engine :: observatory where
  "guarded_engine = (make_observatory default_engine_config)
     \<lparr>ob_initialized := True, ob_guards := [(StrongId 4, guard_at 5)]\<rparr>"

lemma ingest_specification_witness:
  "\<exists>e ob'. ingest (one_batch 5) \<lparr>ic_now_utc_ns = 0, ic_historical = False\<rparr> (make_observatory default_engine_config)
      = (Inl e, ob') \<and> ob_windows ob' = []"
  using ingest_specification [OF reach_start [of False default_engine_config], of "one_batch 5"
      "\<lparr>ic_now_utc_ns = 0, ic_historical = False\<rparr>"]
  by (simp add: Let_def ingest_def make_observatory_def same_evidence_def)



text \<open>
  C18: A batch for a route generation that is closed, that was never opened or whose ordinal is not the
  generation's is refused, historical or not, and leaves the engine exactly as it was.
\<close>

lemma closed_generation_refused:
  assumes "case find_generation (bh_generation (lb_header b)) (ob_paths ob) of
       None \<Rightarrow> True | Some g \<Rightarrow> \<not> pg_is_open g \<or> pg_ordinal g \<noteq> bh_generation_ordinal (lb_header b)"
  shows "\<exists>e. ingest b ctx ob = (Inl e, ob)"
proof -
  have "\<exists>e. admit_batch b ob = Inl e"
  proof (cases "admit_batch b ob")
    case (Inr u)
    with assms show ?thesis
      by (auto simp: admit_batch_def res_bind_eq_Inr check_batch_generation_def split: option.splits if_splits)
  qed simp
  then show ?thesis by (auto simp: ingest_def)
qed

lemma closed_generation_refused_witness:
  "\<exists>e. ingest (one_batch 5) \<lparr>ic_now_utc_ns = 0, ic_historical = True\<rparr> guarded_engine = (Inl e, guarded_engine)"
  by (rule closed_generation_refused)
     (simp add: guarded_engine_def one_batch_def make_observatory_def find_generation_def path_catalog_init_def
       om_entries_def)

text \<open>
  C19: When a path's topology changes, exactly the open episodes of the series on that path that belong
  to another generation, instability policy or window policy are ended; all other open episodes stay
  open unchanged, and a topology that did not change ends none.
\<close>

lemma topology_change_ends_episodes:
  "case engine_observe_topology path topology now cause ob of
     (Inl e, ob') \<Rightarrow> ob_episodes ob' = ob_episodes ob
   | (Inr out, ob') \<Rightarrow>
       (\<forall>k. om_find k (el_open (ob_episodes ob')) =
          (if go_created_new out \<and> outdated path (pg_id (go_generation out)) (ob_config ob) (sorted_series (ob_series ob)) k
           then None else om_find k (el_open (ob_episodes ob))))"
  by (auto simp: engine_observe_topology_def Let_def retire_fold_open simp del: split_paired_All
      split: prod.split sum.split)

text \<open>
  C4: After a restore that the caller or the configuration does not admit, every observation the
  engine holds that it did not hold before is marked as restored. Under a configuration that does not
  admit persisted evidence every such observation is assessed stale; under one that admits it, it is
  assessed by its age like any other, even though the caller did not admit it and it was counted and
  reported as withheld.
\<close>

lemma restored_evidence_withheld:
  assumes "withholds opts (ob_config ob)"
  shows "let ob' = snd (restore path opts fs ob)
     in \<forall>k w s. om_find k (ob_windows ob') = Some w \<longrightarrow> s \<in> set (sw_samples w) \<longrightarrow>
          (\<exists>w0. om_find k (ob_windows ob) = Some w0 \<and> s \<in> set (sw_samples w0)) \<or>
          ls_id s \<in> ob_restored ob' \<and>
          sa_state (assess s now ob') =
            (if ec_admit_persisted_evidence (ob_config ob)
             then sa_state (assess_sample s (ob_clocks ob') now (ec_freshness (ob_config ob))) else Ev_Stale)"
proof -
  let ?ob = "snd (restore path opts fs ob)"
  have m: "ls_id s \<in> ob_restored ?ob \<or> (\<exists>w0. om_find k (ob_windows ob) = Some w0 \<and> s \<in> set (sw_samples w0))"
    if "om_find k (ob_windows ?ob) = Some w" "s \<in> set (sw_samples w)" for k w s
    using restore_marked [OF assms, of path fs] that unfolding marked_def by blast
  have "sa_state (assess s now ?ob) =
      (if ec_admit_persisted_evidence (ob_config ob)
       then sa_state (assess_sample s (ob_clocks ?ob) now (ec_freshness (ob_config ob))) else Ev_Stale)"
    if "ls_id s \<in> ob_restored ?ob" for s
    using that by (simp add: assess_marked restore_config)
  with m show ?thesis unfolding Let_def by blast
qed

lemma restored_evidence_withheld_witness:
  "let ob' = snd (restore ''s'' \<lparr>op_repair_truncated_tail = False, op_admit_persisted_evidence = True\<rparr>
                (\<lambda>_. None) (make_observatory default_engine_config))
   in \<forall>k w s. om_find k (ob_windows ob') = Some w \<longrightarrow> s \<in> set (sw_samples w) \<longrightarrow>
        sa_state (assess s 0 ob') = Ev_Stale"
  using restored_evidence_withheld [of "\<lparr>op_repair_truncated_tail = False, op_admit_persisted_evidence = True\<rparr>"
      "make_observatory default_engine_config" "''s''" "\<lambda>_. None" 0]
  by (auto simp: withholds_def make_observatory_def default_engine_config_def Let_def simp del: split_paired_All)

text \<open>
  C5: A measurement depends on which observations a window retains and not on the order in which they
  arrived: two engines that differ only in that window's arrival order and its counters of late,
  repeated and evicted observations give the same evidence, metrics, classification and measurement
  digest.
\<close>

lemma measurement_order_independent:
  assumes "distinct (map ls_id (sw_samples w))" "mset (sw_samples w) = mset (sw_samples v)"
    and "sw_policy w = sw_policy v"
  shows "case (fst (engine_summarize q ctx track (put_window (rq_series q, rq_generation q) w ob)),
               fst (engine_summarize q ctx track (put_window (rq_series q, rq_generation q) v ob))) of
       (Inr x, Inr y) \<Rightarrow>
          sy_evidence (so_summary x) = sy_evidence (so_summary y) \<and>
          sy_metrics (so_summary x) = sy_metrics (so_summary y) \<and>
          sy_classification (so_summary x) = sy_classification (so_summary y) \<and>
          sy_measurement_digest (so_summary x) = sy_measurement_digest (so_summary y)
     | (Inl e, Inl e') \<Rightarrow> e = e'
     | _ \<Rightarrow> False"
proof -
  let ?k = "(rq_series q, rq_generation q)"
  note counters = summary_input_counters [OF assms(2,1,3), of q "ic_now_utc_ns ctx" ?k ob]
  have len: "length (si_assessments (summary_input_for q u now ob')) =
      length (sel_samples (si_selection (summary_input_for q u now ob')))" for u now ob'
    by (simp add: summary_input_for_def Let_def)
  have init: "ob_initialized (put_window ?k u ob) = ob_initialized ob" for u by (simp add: put_window_def)
  show ?thesis
    unfolding engine_summarize_def find_window_def summarize_def Let_def
    by (simp add: init len counters summary_body_counters measurement_parts_counters
        split: prod.split)
qed

lemma sample_at_ids: "ls_id (sample_at n t l) = StrongId (ucast n)"
  by (simp add: sample_at_def)

lemma measurement_order_independent_witness:
  "case (fst (engine_summarize (request_for []) \<lparr>ic_now_utc_ns = 0, ic_historical = False\<rparr> True
            (put_window (StrongId 1, StrongId 3) (window_of [sample_at 1 10 5, sample_at 2 20 7]) guarded_engine)),
          fst (engine_summarize (request_for []) \<lparr>ic_now_utc_ns = 0, ic_historical = False\<rparr> True
            (put_window (StrongId 1, StrongId 3) (window_of [sample_at 2 20 7, sample_at 1 10 5]) guarded_engine))) of
     (Inr x, Inr y) \<Rightarrow> sy_measurement_digest (so_summary x) = sy_measurement_digest (so_summary y)
   | (Inl e, Inl e') \<Rightarrow> e = e'
   | _ \<Rightarrow> False"
  using measurement_order_independent [of "window_of [sample_at 1 10 5, sample_at 2 20 7]"
      "window_of [sample_at 2 20 7, sample_at 1 10 5]" "request_for []"
      "\<lparr>ic_now_utc_ns = 0, ic_historical = False\<rparr>" True guarded_engine]
  by (simp add: window_of_def request_for_def add_mset_commute sample_at_ids split: prod.split sum.split)
     (auto split: sum.splits)

text \<open>
  C17: A save that reports success has written a store that loads cleanly, with a header naming this
  process incarnation and one record for every clock domain, equivalence, source, series, path, route
  generation, retained observation, baseline, episode, conflict and source guard, in that order; a
  save that fails leaves the engine unchanged.
\<close>

lemma saved_state_loads:
  assumes "i64_ok (ic_now_utc_ns ctx)" "payloads_ok (save_records ob)"
  shows "case save path replace ctx ob fs of
       (Inl e, ob', fs') \<Rightarrow> ob' = ob
     | (Inr _, ob', fs') \<Rightarrow> \<exists>l. load_store fs' path = Inr l \<and> rv_clean (ld_recovery l) \<and>
         sh_boot_id (ld_header l) = ec_boot_id (ob_config ob) \<and>
         map plain (ld_records l) = save_records ob @ [trailer_record (ld_header l) (save_records ob)]"
proof -
  let ?h = "save_header path (ic_now_utc_ns ctx) (ob_config ob)"
  obtain st fs' where w: "write_store path ?h replace (save_records ob) fs = (st, fs')"
    by (cases "write_store path ?h replace (save_records ob) fs")
  have header: "sh_created_at_utc_ns ?h = ic_now_utc_ns ctx" "sh_boot_id ?h = ec_boot_id (ob_config ob)"
    by (simp_all add: save_header_def)
  have "\<exists>l. load_store fs' path = Inr l \<and> ld_header l = ?h \<and> rv_clean (ld_recovery l) \<and>
      map plain (ld_records l) = save_records ob @ [trailer_record ?h (save_records ob)]" if "st = success"
  proof -
    have i: "write_store path ?h replace (save_records ob) fs = (success, fs')" using w that by simp
    note image = write_store_image [OF i _ assms(2)]
    have "header_wf ?h" "plain_records_ok (save_records ob)" "length (save_records ob) \<le> kMaxStoreRecords"
      "fs' path = Some (store_image ?h (save_records ob))"
      using image assms(1) header by simp_all
    then show ?thesis using image_loads [of ?h "save_records ob" "[]"] by (auto simp: load_store_def)
  qed
  with w header show ?thesis
    by (cases st) (auto simp: save_def)
qed

lemma saved_state_loads_witness:
  "case save ''s'' False \<lparr>ic_now_utc_ns = 7, ic_historical = False\<rparr> guarded_engine (\<lambda>_. None) of
     (Inl e, ob', fs') \<Rightarrow> ob' = guarded_engine
   | (Inr _, ob', fs') \<Rightarrow> \<exists>l. load_store fs' ''s'' = Inr l \<and> rv_clean (ld_recovery l) \<and>
       sh_boot_id (ld_header l) = ec_boot_id (ob_config guarded_engine) \<and>
       map plain (ld_records l) = save_records guarded_engine @ [trailer_record (ld_header l) (save_records guarded_engine)]"
proof (rule saved_state_loads)
  show "i64_ok (ic_now_utc_ns \<lparr>ic_now_utc_ns = 7, ic_historical = False\<rparr>)" by (simp add: i64_bounds)
  have "save_records guarded_engine = [(Rec_SourceGuard, enc_source_guard (StrongId 4, guard_at 5))]"
    by (simp add: save_records_def guarded_engine_def make_observatory_def clock_model_init_def sorted_domains_def
        sorted_sources_def sorted_series_def all_paths_def all_generations_def path_catalog_init_def om_entries_def
        all_episodes_def episode_log_init_def open_episodes_def conflict_log_init_def)
  then show "payloads_ok (save_records guarded_engine)"
    by (simp add: payloads_ok_def enc_source_guard_def enc_u64_def enc_bool_def enc_u8_def enc_id_def)
qed

end
