(* ===== verification/Lock_Audit.thy ===== *)
theory Lock_Audit
  imports Prelude
begin

text \<open>
  The lock auditor: \<^verbatim>\<open>include/jitter/lock_audit.hpp\<close> and \<^verbatim>\<open>src/lock_audit.cpp\<close>, as built with
  \<^verbatim>\<open>JITTER_LOCK_AUDIT\<close>. A thread and a mutex are numbers. The atomic counters are one record of
  words, and each thread has its own stack of the mutexes it holds, at most
  \<open>kMaxTrackedDepth\<close> of them. Whether a \<^verbatim>\<open>try_lock\<close> finds the mutex free is decided by the mutex
  below the auditor, so it is an argument of the operations here.
\<close>

type_synonym thread_id = nat
type_synonym mutex_id = nat

record lock_audit_snapshot =
  la_acquisitions :: u64
  la_contentions :: u64
  la_nested_acquisitions :: u64
  la_reentrant_acquisitions :: u64
  la_max_hold_depth :: u64
  la_uncontended_acquisitions :: u64

definition violation_free :: "lock_audit_snapshot \<Rightarrow> bool" where
  "violation_free s \<longleftrightarrow> la_nested_acquisitions s = 0 \<and> la_reentrant_acquisitions s = 0"

definition kMaxTrackedDepth :: nat where "kMaxTrackedDepth = 32"

record audit_state =
  as_acquisitions :: u64
  as_contentions :: u64
  as_nested :: u64
  as_reentrant :: u64
  as_max_depth :: u64
  as_uncontended :: u64

record lock_audit =
  au_state :: audit_state
  au_stacks :: "thread_id \<Rightarrow> mutex_id list"

definition audit_state_init :: audit_state where
  "audit_state_init =
     \<lparr>as_acquisitions = 0, as_contentions = 0, as_nested = 0, as_reentrant = 0, as_max_depth = 0,
      as_uncontended = 0\<rparr>"

definition audit_init :: lock_audit where
  "audit_init = \<lparr>au_state = audit_state_init, au_stacks = (\<lambda>_. [])\<rparr>"

section \<open>Recording\<close>

definition on_state :: "(audit_state \<Rightarrow> audit_state) \<Rightarrow> lock_audit \<Rightarrow> lock_audit" where
  "on_state f a = a\<lparr>au_state := f (au_state a)\<rparr>"

definition on_acquire :: "thread_id \<Rightarrow> mutex_id \<Rightarrow> lock_audit \<Rightarrow> lock_audit" where
  "on_acquire t m a =
     (let held = au_stacks a t
      in if m \<in> set held then on_state (\<lambda>s. s\<lparr>as_reentrant := as_reentrant s + 1\<rparr>) a
         else let a1 = (if held \<noteq> [] then on_state (\<lambda>s. s\<lparr>as_nested := as_nested s + 1\<rparr>) a else a);
                  held' = (if length held < kMaxTrackedDepth then held @ [m] else held)
              in on_state (\<lambda>s. s\<lparr>as_max_depth := max (as_max_depth s) (word_of_nat (length held')),
                                as_acquisitions := as_acquisitions s + 1\<rparr>)
                   (a1\<lparr>au_stacks := (au_stacks a1)(t := held')\<rparr>))"

text \<open>The search for the released mutex starts at the most recent acquisition.\<close>

definition remove_last :: "'a \<Rightarrow> 'a list \<Rightarrow> 'a list" where
  "remove_last x xs = rev (remove1 x (rev xs))"

definition on_release :: "thread_id \<Rightarrow> mutex_id \<Rightarrow> lock_audit \<Rightarrow> lock_audit" where
  "on_release t m a = a\<lparr>au_stacks := (au_stacks a)(t := remove_last m (au_stacks a t))\<rparr>"

definition on_contended :: "lock_audit \<Rightarrow> lock_audit" where
  "on_contended = on_state (\<lambda>s. s\<lparr>as_contentions := as_contentions s + 1\<rparr>)"

definition on_uncontended :: "lock_audit \<Rightarrow> lock_audit" where
  "on_uncontended = on_state (\<lambda>s. s\<lparr>as_uncontended := as_uncontended s + 1\<rparr>)"

definition snapshot :: "lock_audit \<Rightarrow> lock_audit_snapshot" where
  "snapshot a =
     (let s = au_state a
      in \<lparr>la_acquisitions = as_acquisitions s, la_contentions = as_contentions s,
          la_nested_acquisitions = as_nested s, la_reentrant_acquisitions = as_reentrant s,
          la_max_hold_depth = as_max_depth s, la_uncontended_acquisitions = as_uncontended s\<rparr>)"

text \<open>A reset clears the counters and leaves the per-thread stacks alone.\<close>

definition reset :: "lock_audit \<Rightarrow> lock_audit" where
  "reset = on_state (\<lambda>_. audit_state_init)"

section \<open>The audited mutex\<close>

definition audited_lock :: "bool \<Rightarrow> thread_id \<Rightarrow> mutex_id \<Rightarrow> lock_audit \<Rightarrow> lock_audit" where
  "audited_lock free t m a = on_acquire t m (if free then on_uncontended a else on_contended a)"

definition audited_unlock :: "thread_id \<Rightarrow> mutex_id \<Rightarrow> lock_audit \<Rightarrow> lock_audit" where
  "audited_unlock t m a = on_release t m a"

definition audited_try_lock :: "bool \<Rightarrow> thread_id \<Rightarrow> mutex_id \<Rightarrow> lock_audit \<Rightarrow> bool \<times> lock_audit" where
  "audited_try_lock free t m a =
     (if \<not> free then (False, on_contended a) else (True, on_acquire t m (on_uncontended a)))"

text \<open>What the threads of a program do with the audited mutexes, in the order it happens.\<close>

datatype lock_event =
    Lk_Lock thread_id mutex_id bool
  | Lk_Try thread_id mutex_id bool
  | Lk_Unlock thread_id mutex_id

fun audit_event :: "lock_event \<Rightarrow> lock_audit \<Rightarrow> lock_audit" where
  "audit_event (Lk_Lock t m free) a = audited_lock free t m a"
| "audit_event (Lk_Try t m free) a = snd (audited_try_lock free t m a)"
| "audit_event (Lk_Unlock t m) a = audited_unlock t m a"

definition audit_run :: "lock_event list \<Rightarrow> lock_audit \<Rightarrow> lock_audit" where
  "audit_run es a = fold audit_event es a"

section \<open>What a violation is\<close>

text \<open>
  Independently of the auditor: the mutexes a thread holds after a run of events, and the runs in
  which no thread acquires anything while it holds something.
\<close>

fun acquires :: "lock_event \<Rightarrow> (thread_id \<times> mutex_id) option" where
  "acquires (Lk_Lock t m _) = Some (t, m)"
| "acquires (Lk_Try t m free) = (if free then Some (t, m) else None)"
| "acquires (Lk_Unlock _ _) = None"

fun holds_after :: "lock_event \<Rightarrow> (thread_id \<Rightarrow> mutex_id list) \<Rightarrow> thread_id \<Rightarrow> mutex_id list" where
  "holds_after (Lk_Unlock t m) h = h(t := remove1 m (h t))"
| "holds_after e h = (case acquires e of None \<Rightarrow> h | Some (t, m) \<Rightarrow> h(t := m # h t))"

fun never_nested :: "(thread_id \<Rightarrow> mutex_id list) \<Rightarrow> lock_event list \<Rightarrow> bool" where
  "never_nested h [] \<longleftrightarrow> True"
| "never_nested h (e # es) \<longleftrightarrow>
     (case acquires e of None \<Rightarrow> True | Some (t, m) \<Rightarrow> h t = []) \<and> never_nested (holds_after e h) es"

lemmas audit_defs = on_acquire_def on_release_def on_contended_def on_uncontended_def on_state_def
  audited_lock_def audited_unlock_def audited_try_lock_def Let_def

definition violations :: "lock_audit \<Rightarrow> nat" where
  "violations a = unat (as_nested (au_state a)) + unat (as_reentrant (au_state a))"

lemma violation_free_violations: "violation_free (snapshot a) \<longleftrightarrow> violations a = 0"
  by (simp add: violation_free_def snapshot_def violations_def Let_def unat_eq_0)

lemma unat_inc: "unat (x :: u64) + 1 < 2 ^ 64 \<Longrightarrow> unat (x + 1) = unat x + 1"
  by (simp add: unat_word_ariths)

lemma violations_event:
  assumes "violations a + 1 < 2 ^ 64"
  shows "violations (audit_event e a) =
    violations a + (case acquires e of None \<Rightarrow> 0 | Some (t, m) \<Rightarrow> if au_stacks a t = [] then 0 else 1)"
  using assms by (cases e) (auto simp: audit_defs violations_def unat_inc)

lemma stacks_event:
  assumes "case acquires e of None \<Rightarrow> True | Some (t, m) \<Rightarrow> au_stacks a t = []"
    and "\<And>t. length (au_stacks a t) \<le> 1"
  shows "au_stacks (audit_event e a) = holds_after e (au_stacks a)"
    and "length (au_stacks (audit_event e a) t) \<le> 1"
proof -
  have rl: "remove_last m xs = remove1 m xs" if "length xs \<le> 1" for m :: nat and xs
    using that by (cases xs) (auto simp: remove_last_def)
  show "au_stacks (audit_event e a) = holds_after e (au_stacks a)"
    using assms by (cases e) (auto simp: audit_defs kMaxTrackedDepth_def rl split: if_splits)
  show "length (au_stacks (audit_event e a) t) \<le> 1"
    using assms by (cases e) (auto simp: audit_defs kMaxTrackedDepth_def rl length_remove1
        intro: order_trans [OF diff_le_self] split: if_splits)
qed

lemma violations_grow:
  "violations a + length es < 2 ^ 64 \<Longrightarrow> violations a \<le> violations (audit_run es a)"
proof (induction es arbitrary: a)
  case (Cons e es)
  have "violations a \<le> violations (audit_event e a)" "violations (audit_event e a) \<le> violations a + 1"
    using violations_event [of a e] Cons.prems by (auto split: option.splits)
  then show ?case
    using Cons.IH [of "audit_event e a"] Cons.prems by (simp add: audit_run_def)
qed (simp add: audit_run_def)

lemma audit_run_exact:
  assumes "violations a = 0" "length es < 2 ^ 64" "\<And>t. length (au_stacks a t) \<le> 1"
  shows "violations (audit_run es a) = 0 \<longleftrightarrow> never_nested (au_stacks a) es"
  using assms
proof (induction es arbitrary: a)
  case (Cons e es)
  let ?a = "audit_event e a"
  let ?clean = "case acquires e of None \<Rightarrow> True | Some (t, m) \<Rightarrow> au_stacks a t = []"
  have run: "audit_run (e # es) a = audit_run es ?a" by (simp add: audit_run_def)
  show ?case
  proof (cases ?clean)
    case True
    have "violations ?a = 0"
      using violations_event [of a e] True Cons.prems(1) by (auto split: option.splits)
    then have "violations (audit_run es ?a) = 0 \<longleftrightarrow> never_nested (au_stacks ?a) es"
      using Cons.IH [of ?a] stacks_event(2) [OF True Cons.prems(3)] Cons.prems(2) by simp
    then show ?thesis using True stacks_event(1) [OF True Cons.prems(3)] by (simp add: run)
  next
    case False
    then have "violations ?a = 1"
      using violations_event [of a e] Cons.prems(1) by (auto split: option.splits)
    then have "1 \<le> violations (audit_run es ?a)"
      using violations_grow [of ?a es] Cons.prems(2) by simp
    then show ?thesis using False by (simp add: run split: option.splits)
  qed
qed (simp add: audit_run_def)

section \<open>Threads that hold one lock at a time\<close>

fun event_thread :: "lock_event \<Rightarrow> thread_id" where
  "event_thread (Lk_Lock t _ _) = t"
| "event_thread (Lk_Try t _ _) = t"
| "event_thread (Lk_Unlock t _) = t"

text \<open>One thread's own events, each acquisition released before the next.\<close>

fun one_at_a_time :: "mutex_id list \<Rightarrow> lock_event list \<Rightarrow> bool" where
  "one_at_a_time h [] \<longleftrightarrow> True"
| "one_at_a_time h (Lk_Unlock t m # es) \<longleftrightarrow> one_at_a_time (remove1 m h) es"
| "one_at_a_time h (Lk_Lock t m free # es) \<longleftrightarrow> h = [] \<and> one_at_a_time [m] es"
| "one_at_a_time h (Lk_Try t m free # es) \<longleftrightarrow>
     (if free then h = [] \<and> one_at_a_time [m] es else one_at_a_time h es)"

definition events_of :: "thread_id \<Rightarrow> lock_event list \<Rightarrow> lock_event list" where
  "events_of t es = filter (\<lambda>e. event_thread e = t) es"

lemma events_of_simps [simp]:
  "events_of t [] = []"
  "events_of t (e # es) = (if event_thread e = t then e # events_of t es else events_of t es)"
  "events_of t (es @ fs) = events_of t es @ events_of t fs"
  by (simp_all add: events_of_def)

text \<open>Discipline is a matter of each thread alone: interleaving does not create a violation.\<close>

lemma never_nested_threads:
  "never_nested h es \<longleftrightarrow> (\<forall>t. one_at_a_time (h t) (events_of t es))"
proof (induction es arbitrary: h)
  case (Cons e es)
  show ?case
  proof (cases e)
    case (Lk_Lock t m free)
    then show ?thesis by (auto simp: Cons.IH fun_upd_def)
  next
    case (Lk_Try t m free)
    then show ?thesis by (auto simp: Cons.IH fun_upd_def)
  next
    case (Lk_Unlock t m)
    then show ?thesis by (auto simp: Cons.IH fun_upd_def)
  qed
qed simp

section \<open>Properties\<close>

text \<open>
  C30: The auditor is exact: after any run of lock, try-lock and unlock events of any threads,
  fewer than \<open>2 ^ 64\<close> of them, the snapshot is free of violations if and only if no thread ever
  acquired a mutex, the same one or another, while it held one; and that depends on each
  thread's own events only, not on how they interleave.
\<close>

lemma violation_free_exactly:
  assumes "length es < 2 ^ 64"
  shows "(violation_free (snapshot (audit_run es audit_init)) \<longleftrightarrow> never_nested (\<lambda>_. []) es) \<and>
         (never_nested (\<lambda>_. []) es \<longleftrightarrow> (\<forall>t. one_at_a_time [] (events_of t es)))"
  using audit_run_exact [of audit_init es] assms never_nested_threads [of "\<lambda>_. []" es]
  by (simp_all add: violation_free_violations violations_def audit_init_def audit_state_init_def)

definition queue_then_engine :: "lock_event list" where
  "queue_then_engine = [Lk_Lock 0 1 True, Lk_Lock 1 1 False, Lk_Unlock 0 1, Lk_Lock 0 2 True, Lk_Unlock 1 1]"

lemma violation_free_exactly_witness:
  "violation_free (snapshot (audit_run queue_then_engine audit_init)) \<and>
   \<not> violation_free (snapshot (audit_run (queue_then_engine @ [Lk_Try 0 1 True]) audit_init))"
  using violation_free_exactly [of queue_then_engine]
    violation_free_exactly [of "queue_then_engine @ [Lk_Try 0 1 True]"]
  by (simp add: queue_then_engine_def)

end
