(* ===== verification/Runtime.thy ===== *)
theory Runtime
  imports Checked Lock_Audit "HOL-Library.Multiset"
begin

text \<open>
  The worker runtime: \<^verbatim>\<open>include/jitter/runtime.hpp\<close> and \<^verbatim>\<open>src/runtime.cpp\<close>. Every critical section
  of the source is one step of a transition system; between two steps any other thread may move.
  The state holds, besides the members of the class, where each thread stands: the workers, the
  threads blocked in \<open>drain\<close>, the thread inside \<open>shutdown\<close> and the \<^verbatim>\<open>notify_one\<close> calls that \<open>submit\<close>
  still owes after it released the lock. A waiting thread is asleep until it is notified or wakes
  spuriously, and then evaluates its predicate again.

  The state of the observatory is a parameter: a job is a tree of calls on it, each of them one step
  because the observatory serialises its calls with a lock of its own, and a call sees the token as
  it is at that moment. The one unlocked access of the source, the increment of
  \<^verbatim>\<open>stats_.cancelled\<close>, is split into its load and its store. One thread at a time is inside
  \<open>shutdown\<close>; two of them would join the same threads twice, which the language leaves undefined.
\<close>

definition kMaxQueueDepth :: nat where "kMaxQueueDepth = 65536"
definition kMaxWorkerThreads :: nat where "kMaxWorkerThreads = 32"

section \<open>Configuration and state\<close>

datatype backpressure_policy = Backpressure_Reject | Backpressure_DropOldest

fun backpressure_policy_text :: "backpressure_policy \<Rightarrow> string" where
  "backpressure_policy_text Backpressure_Reject = ''reject''"
| "backpressure_policy_text Backpressure_DropOldest = ''drop_oldest''"

record runtime_config =
  rc_worker_threads :: u64
  rc_queue_capacity :: u64
  rc_backpressure :: backpressure_policy

definition default_runtime_config :: runtime_config where
  "default_runtime_config =
     \<lparr>rc_worker_threads = 4, rc_queue_capacity = 1024, rc_backpressure = Backpressure_Reject\<rparr>"

definition validate_runtime_config :: "runtime_config \<Rightarrow> status" where
  "validate_runtime_config c =
     (if rc_worker_threads c = 0
      then fail Ec_InvalidArgument ''runtime requires at least one worker thread''
      else if rc_worker_threads c > word_of_nat kMaxWorkerThreads
      then fail Ec_LimitExceeded ''runtime worker count exceeds the supported bound''
      else if rc_queue_capacity c = 0
      then fail Ec_InvalidArgument ''runtime queue capacity must be non zero''
      else if rc_queue_capacity c > word_of_nat kMaxQueueDepth
      then fail Ec_LimitExceeded ''runtime queue capacity exceeds the supported bound''
      else success)"

text \<open>A job is what \<^verbatim>\<open>std::function<Status(Observatory&, const CancellationToken&)>\<close> may do.\<close>

datatype 'o job = Job_Return status | Job_Call "'o \<Rightarrow> bool \<Rightarrow> 'o \<times> 'o job"

record 'o work_item =
  wi_job :: "'o job"
  wi_label :: string

record runtime_stats =
  rs_submitted :: u64
  rs_completed :: u64
  rs_failed :: u64
  rs_rejected_backpressure :: u64
  rs_dropped_oldest :: u64
  rs_cancelled :: u64
  rs_rejected_after_shutdown :: u64
  rs_peak_queue_depth :: u64
  rs_queued_now :: u64
  rs_in_flight :: u64
  rs_workers_started :: u64
  rs_lock_audit :: lock_audit_snapshot

definition runtime_stats_init :: runtime_stats where
  "runtime_stats_init =
     \<lparr>rs_submitted = 0, rs_completed = 0, rs_failed = 0, rs_rejected_backpressure = 0,
      rs_dropped_oldest = 0, rs_cancelled = 0, rs_rejected_after_shutdown = 0, rs_peak_queue_depth = 0,
      rs_queued_now = 0, rs_in_flight = 0, rs_workers_started = 0,
      rs_lock_audit = snapshot audit_init\<rparr>"

text \<open>Where a worker stands in \<open>worker_loop\<close>, a caller in \<open>drain\<close>, the closing thread in \<open>shutdown\<close>.\<close>

datatype 'o worker =
    Wk_Waiting
  | Wk_Asleep
  | Wk_Taken "'o work_item"
  | Wk_Cancelling u64
  | Wk_Running "'o job"
  | Wk_Failing
  | Wk_Finishing
  | Wk_Exited

datatype drainer = Dr_Waiting | Dr_Asleep | Dr_Returned

datatype closer = Cl_None | Cl_Notify | Cl_Join | Cl_Clear

record 'o runtime =
  rt_observatory :: 'o
  rt_config :: runtime_config
  rt_workers :: "'o worker list"
  rt_queue :: "'o work_item list"
  rt_token :: bool
  rt_running :: bool
  rt_stopping :: bool
  rt_in_flight :: u64
  rt_stats :: runtime_stats
  rt_signals :: nat
  rt_drainers :: "drainer list"
  rt_closer :: closer

definition make_runtime :: "'o \<Rightarrow> runtime_config \<Rightarrow> 'o runtime" where
  "make_runtime obs c =
     \<lparr>rt_observatory = obs, rt_config = c, rt_workers = [], rt_queue = [], rt_token = False,
      rt_running = False, rt_stopping = False, rt_in_flight = 0, rt_stats = runtime_stats_init,
      rt_signals = 0, rt_drainers = [], rt_closer = Cl_None\<rparr>"

definition on_stats :: "(runtime_stats \<Rightarrow> runtime_stats) \<Rightarrow> 'o runtime \<Rightarrow> 'o runtime" where
  "on_stats f rt = rt\<lparr>rt_stats := f (rt_stats rt)\<rparr>"

definition set_worker :: "nat \<Rightarrow> 'o worker \<Rightarrow> 'o runtime \<Rightarrow> 'o runtime" where
  "set_worker i w rt = rt\<lparr>rt_workers := (rt_workers rt)[i := w]\<rparr>"

section \<open>Operations of the callers\<close>

definition start :: "'o runtime \<Rightarrow> status \<times> 'o runtime" where
  "start rt =
     (case validate_runtime_config (rt_config rt) of
        Inl e \<Rightarrow> (Inl e, rt)
      | Inr _ \<Rightarrow>
          if rt_running rt then (fail Ec_Conflict ''runtime is already running'', rt)
          else (success,
                on_stats (\<lambda>s. s\<lparr>rs_workers_started := rs_workers_started s + rc_worker_threads (rt_config rt)\<rparr>)
                  (rt\<lparr>rt_stopping := False, rt_running := True,
                      rt_workers := rt_workers rt @
                        replicate (unat (rc_worker_threads (rt_config rt))) Wk_Waiting\<rparr>)))"

text \<open>The owed notification is made by the step \<open>notify_one\<close> below.\<close>

definition submit :: "'o job option \<Rightarrow> string \<Rightarrow> 'o runtime \<Rightarrow> status \<times> 'o runtime" where
  "submit job label rt =
     (case job of
        None \<Rightarrow> (fail Ec_InvalidArgument ''runtime refuses an empty job'', rt)
      | Some j \<Rightarrow>
          if \<not> rt_running rt \<or> rt_stopping rt
          then (fail Ec_ShuttingDown ''runtime is not accepting work'',
                on_stats (\<lambda>s. s\<lparr>rs_rejected_after_shutdown := rs_rejected_after_shutdown s + 1\<rparr>) rt)
          else
            let full = length (rt_queue rt) \<ge> unat (rc_queue_capacity (rt_config rt))
            in if full \<and> rc_backpressure (rt_config rt) = Backpressure_Reject
               then (fail Ec_Backpressure ''runtime queue is full'',
                     on_stats (\<lambda>s. s\<lparr>rs_rejected_backpressure := rs_rejected_backpressure s + 1\<rparr>) rt)
               else
                 let rt1 = (if full
                            then on_stats (\<lambda>s. s\<lparr>rs_dropped_oldest := rs_dropped_oldest s + 1\<rparr>)
                                   (rt\<lparr>rt_queue := tl (rt_queue rt)\<rparr>)
                            else rt);
                     q = rt_queue rt1 @ [\<lparr>wi_job = j, wi_label = label\<rparr>]
                 in (success,
                     on_stats (\<lambda>s. s\<lparr>rs_submitted := rs_submitted s + 1,
                                     rs_peak_queue_depth := max (rs_peak_queue_depth s) (word_of_nat (length q))\<rparr>)
                       (rt1\<lparr>rt_queue := q, rt_signals := rt_signals rt1 + 1\<rparr>)))"

definition idle :: "'o runtime \<Rightarrow> bool" where
  "idle rt \<longleftrightarrow> rt_queue rt = [] \<and> rt_in_flight rt = 0"

text \<open>A refused call returns at once; the others are entered in the list of drainers.\<close>

definition drain :: "'o runtime \<Rightarrow> status \<times> 'o runtime" where
  "drain rt =
     (if \<not> rt_running rt then (fail Ec_NotReady ''runtime is not running'', rt)
      else (success, rt\<lparr>rt_drainers := rt_drainers rt @ [if idle rt then Dr_Returned else Dr_Asleep]\<rparr>))"

definition cancel :: "'o runtime \<Rightarrow> 'o runtime" where
  "cancel rt = rt\<lparr>rt_token := True\<rparr>"

text \<open>The first critical section of a shutdown; the rest are the steps of the closing thread.\<close>

definition shutdown :: "bool \<Rightarrow> 'o runtime \<Rightarrow> status \<times> 'o runtime" where
  "shutdown discard_pending rt =
     (success,
      if \<not> rt_running rt then rt
      else let rt1 = rt\<lparr>rt_stopping := True, rt_closer := Cl_Notify\<rparr>
           in if discard_pending
              then (on_stats (\<lambda>s. s\<lparr>rs_cancelled := rs_cancelled s + word_of_nat (length (rt_queue rt))\<rparr>) rt1)
                     \<lparr>rt_queue := []\<rparr>
              else rt1)"

definition stats :: "lock_audit \<Rightarrow> 'o runtime \<Rightarrow> runtime_stats" where
  "stats audit rt =
     (rt_stats rt)\<lparr>rs_queued_now := word_of_nat (length (rt_queue rt)), rs_in_flight := rt_in_flight rt,
                   rs_lock_audit := snapshot audit\<rparr>"

section \<open>Steps of the threads\<close>

definition wake_drainers :: "'o runtime \<Rightarrow> 'o runtime" where
  "wake_drainers rt =
     rt\<lparr>rt_drainers := map (\<lambda>d. if d = Dr_Asleep then Dr_Waiting else d) (rt_drainers rt)\<rparr>"

definition wake_workers :: "'o runtime \<Rightarrow> 'o runtime" where
  "wake_workers rt =
     rt\<lparr>rt_workers := map (\<lambda>w. case w of Wk_Asleep \<Rightarrow> Wk_Waiting | _ \<Rightarrow> w) (rt_workers rt)\<rparr>"

definition worker_wait :: "nat \<Rightarrow> 'o runtime \<Rightarrow> 'o runtime" where
  "worker_wait i rt =
     (case rt_queue rt of
        [] \<Rightarrow> if \<not> rt_stopping rt then set_worker i Wk_Asleep rt
              else wake_drainers (set_worker i Wk_Exited rt)
      | item # q \<Rightarrow> set_worker i (Wk_Taken item) (rt\<lparr>rt_queue := q, rt_in_flight := rt_in_flight rt + 1\<rparr>))"

definition worker_finish :: "nat \<Rightarrow> 'o runtime \<Rightarrow> 'o runtime" where
  "worker_finish i rt =
     (let rt1 = on_stats (\<lambda>s. s\<lparr>rs_completed := rs_completed s + 1\<rparr>)
                  (set_worker i Wk_Waiting (rt\<lparr>rt_in_flight := rt_in_flight rt - 1\<rparr>))
      in if idle rt1 then wake_drainers rt1 else rt1)"

fun worker_loop :: "nat \<Rightarrow> 'o worker \<Rightarrow> 'o runtime \<Rightarrow> 'o runtime" where
  "worker_loop i Wk_Waiting rt = worker_wait i rt"
| "worker_loop i (Wk_Taken item) rt =
     (if rt_token rt then set_worker i (Wk_Cancelling (rs_cancelled (rt_stats rt))) rt
      else set_worker i (Wk_Running (wi_job item)) rt)"
| "worker_loop i (Wk_Cancelling loaded) rt =
     on_stats (\<lambda>s. s\<lparr>rs_cancelled := loaded + 1\<rparr>) (set_worker i Wk_Finishing rt)"
| "worker_loop i (Wk_Running (Job_Call f)) rt =
     (case f (rt_observatory rt) (rt_token rt) of
        (obs, j) \<Rightarrow> set_worker i (Wk_Running j) (rt\<lparr>rt_observatory := obs\<rparr>))"
| "worker_loop i (Wk_Running (Job_Return r)) rt =
     set_worker i (if is_ok r then Wk_Finishing else Wk_Failing) rt"
| "worker_loop i Wk_Failing rt =
     on_stats (\<lambda>s. s\<lparr>rs_failed := rs_failed s + 1\<rparr>) (set_worker i Wk_Finishing rt)"
| "worker_loop i Wk_Finishing rt = worker_finish i rt"
| "worker_loop i _ rt = rt"

text \<open>The private \<open>pop\<close>, which nothing calls, takes the front item and counts it in flight.\<close>

definition pop :: "'o runtime \<Rightarrow> 'o work_item option \<times> 'o runtime" where
  "pop rt =
     (case rt_queue rt of
        [] \<Rightarrow> (None, rt)
      | item # q \<Rightarrow> (Some item, rt\<lparr>rt_queue := q, rt_in_flight := rt_in_flight rt + 1\<rparr>))"

definition resting :: "'o worker \<Rightarrow> bool" where
  "resting w \<longleftrightarrow> w = Wk_Asleep \<or> w = Wk_Exited"

text \<open>What the threads of the runtime do on their own, with no caller and no spurious wakeup.\<close>

inductive progress :: "'o runtime \<Rightarrow> 'o runtime \<Rightarrow> bool" where
  pr_worker: "i < length (rt_workers rt) \<Longrightarrow> \<not> resting (rt_workers rt ! i) \<Longrightarrow>
    progress rt (worker_loop i (rt_workers rt ! i) rt)"
| pr_notify_one: "rt_signals rt = Suc n \<Longrightarrow> i < length (rt_workers rt) \<Longrightarrow> rt_workers rt ! i = Wk_Asleep \<Longrightarrow>
    progress rt (set_worker i Wk_Waiting (rt\<lparr>rt_signals := n\<rparr>))"
| pr_notify_none: "rt_signals rt = Suc n \<Longrightarrow> Wk_Asleep \<notin> set (rt_workers rt) \<Longrightarrow>
    progress rt (rt\<lparr>rt_signals := n\<rparr>)"
| pr_drainer: "i < length (rt_drainers rt) \<Longrightarrow> rt_drainers rt ! i = Dr_Waiting \<Longrightarrow>
    progress rt (rt\<lparr>rt_drainers := (rt_drainers rt)[i := if idle rt then Dr_Returned else Dr_Asleep]\<rparr>)"
| pr_notify_all: "rt_closer rt = Cl_Notify \<Longrightarrow> progress rt ((wake_workers rt)\<lparr>rt_closer := Cl_Join\<rparr>)"
| pr_join: "rt_closer rt = Cl_Join \<Longrightarrow> set (rt_workers rt) \<subseteq> {Wk_Exited} \<Longrightarrow>
    progress rt (rt\<lparr>rt_workers := [], rt_closer := Cl_Clear\<rparr>)"
| pr_clear: "rt_closer rt = Cl_Clear \<Longrightarrow> progress rt (rt\<lparr>rt_running := False, rt_closer := Cl_None\<rparr>)"

text \<open>All steps: those, the calls of other threads, and spurious wakeups.\<close>

inductive runtime_step :: "('o job \<Rightarrow> bool) \<Rightarrow> 'o runtime \<Rightarrow> 'o runtime \<Rightarrow> bool"
  for allowed :: "'o job \<Rightarrow> bool" where
  rs_progress: "progress rt rt' \<Longrightarrow> runtime_step allowed rt rt'"
| rs_start: "runtime_step allowed rt (snd (start rt))"
| rs_submit: "(\<And>j. job = Some j \<Longrightarrow> allowed j) \<Longrightarrow> runtime_step allowed rt (snd (submit job label rt))"
| rs_drain: "runtime_step allowed rt (snd (drain rt))"
| rs_cancel: "runtime_step allowed rt (cancel rt)"
| rs_shutdown: "rt_closer rt = Cl_None \<Longrightarrow> runtime_step allowed rt (snd (shutdown discard rt))"
| rs_spurious_worker: "i < length (rt_workers rt) \<Longrightarrow> rt_workers rt ! i = Wk_Asleep \<Longrightarrow>
    runtime_step allowed rt (set_worker i Wk_Waiting rt)"
| rs_spurious_drainer: "i < length (rt_drainers rt) \<Longrightarrow> rt_drainers rt ! i = Dr_Asleep \<Longrightarrow>
    runtime_step allowed rt (rt\<lparr>rt_drainers := (rt_drainers rt)[i := Dr_Waiting]\<rparr>)"

inductive runtime_reach :: "('o job \<Rightarrow> bool) \<Rightarrow> 'o \<Rightarrow> runtime_config \<Rightarrow> 'o runtime \<Rightarrow> bool"
  for allowed obs c where
  rr_start: "runtime_reach allowed obs c (make_runtime obs c)"
| rr_step: "runtime_reach allowed obs c rt \<Longrightarrow> runtime_step allowed rt rt' \<Longrightarrow>
    runtime_reach allowed obs c rt'"

end
