(* ===== verification/Runtime_Facts.thy ===== *)
theory Runtime_Facts
  imports Runtime
begin

text \<open>
  What holds of the worker runtime in every reachable state: the phases of start and shutdown, the
  bound of the queue, the count of work in flight, the accounting of submitted work, and that no
  thread sleeps through the condition it waits for. The last part shows that the runtime's own
  steps cannot go on for ever and stop only when all work is done.
\<close>

section \<open>The invariant\<close>

fun busy :: "'o worker \<Rightarrow> bool" where
  "busy Wk_Waiting = False"
| "busy Wk_Asleep = False"
| "busy Wk_Exited = False"
| "busy _ = True"

definition phase_inv :: "'o runtime \<Rightarrow> bool" where
  "phase_inv rt \<longleftrightarrow>
     (rt_closer rt \<noteq> Cl_None \<longleftrightarrow> rt_running rt \<and> rt_stopping rt) \<and>
     (\<not> rt_running rt \<or> rt_closer rt = Cl_Clear \<longrightarrow> rt_workers rt = [] \<and> rt_queue rt = []) \<and>
     (rt_running rt \<and> rt_closer rt \<noteq> Cl_Clear \<longrightarrow>
        length (rt_workers rt) = unat (rc_worker_threads (rt_config rt)) \<and>
        is_ok (validate_runtime_config (rt_config rt))) \<and>
     (Wk_Exited \<in> set (rt_workers rt) \<longrightarrow> rt_stopping rt \<and> rt_queue rt = []) \<and>
     (rt_stopping rt \<and> Wk_Asleep \<in> set (rt_workers rt) \<longrightarrow> rt_closer rt = Cl_Notify)"

definition flight_inv :: "'o runtime \<Rightarrow> bool" where
  "flight_inv rt \<longleftrightarrow> rt_in_flight rt = word_of_nat (length (filter busy (rt_workers rt)))"

definition queue_inv :: "'o runtime \<Rightarrow> bool" where
  "queue_inv rt \<longleftrightarrow>
     length (rt_queue rt) \<le> unat (rs_peak_queue_depth (rt_stats rt)) \<and>
     rs_peak_queue_depth (rt_stats rt) \<le> rc_queue_capacity (rt_config rt)"

definition wake_inv :: "'o runtime \<Rightarrow> bool" where
  "wake_inv rt \<longleftrightarrow>
     (rt_queue rt \<noteq> [] \<and> (\<forall>w \<in> set (rt_workers rt). resting w) \<longrightarrow>
        rt_signals rt \<noteq> 0 \<or> rt_closer rt = Cl_Notify)"

definition drain_inv :: "'o runtime \<Rightarrow> bool" where
  "drain_inv rt \<longleftrightarrow>
     (Dr_Asleep \<in> set (rt_drainers rt) \<and> idle rt \<longrightarrow>
        rt_stopping rt \<and> \<not> set (rt_workers rt) \<subseteq> {Wk_Exited})"

definition account_inv :: "'o runtime \<Rightarrow> bool" where
  "account_inv rt \<longleftrightarrow>
     (\<not> rt_token rt \<longrightarrow>
        rs_submitted (rt_stats rt) =
          rs_completed (rt_stats rt) + rs_dropped_oldest (rt_stats rt) + rs_cancelled (rt_stats rt) +
          word_of_nat (length (rt_queue rt)) + rt_in_flight rt \<and>
        (\<forall>w \<in> set (rt_workers rt). \<forall>n. w \<noteq> Wk_Cancelling n))"

definition runtime_inv :: "'o runtime \<Rightarrow> bool" where
  "runtime_inv rt \<longleftrightarrow> phase_inv rt \<and> flight_inv rt \<and> queue_inv rt \<and> wake_inv rt \<and> drain_inv rt \<and> account_inv rt"

lemmas runtime_parts = phase_inv_def flight_inv_def queue_inv_def wake_inv_def drain_inv_def account_inv_def

lemmas runtime_ops = set_worker_def on_stats_def wake_drainers_def wake_workers_def worker_wait_def
  worker_finish_def Let_def

section \<open>Lists of workers\<close>

lemma busy_update:
  "i < length ws \<Longrightarrow>
     length (filter busy (ws[i := w])) + (if busy (ws ! i) then 1 else 0) =
     length (filter busy ws) + (if busy w then 1 else 0)"
proof (induction ws arbitrary: i)
  case (Cons v ws)
  then show ?case by (cases i) auto
qed simp

lemma busy_update_word:
  assumes "i < length ws"
  shows "(word_of_nat (length (filter busy (ws[i := w]))) :: u64) =
    word_of_nat (length (filter busy ws)) - (if busy (ws ! i) then 1 else 0) + (if busy w then 1 else 0)"
proof -
  have "(word_of_nat (length (filter busy (ws[i := w])) + (if busy (ws ! i) then 1 else 0)) :: u64) =
    word_of_nat (length (filter busy ws) + (if busy w then 1 else 0))"
    by (simp only: busy_update [OF assms])
  then show ?thesis by (simp add: algebra_simps split: if_splits)
qed

lemma mem_update: "x \<in> set (ws[i := w]) \<Longrightarrow> x = w \<or> x \<in> set ws"
  using set_update_subset_insert by fastforce

lemma resting_busy: "resting w \<Longrightarrow> \<not> busy w"
  by (auto simp: resting_def)

lemma busy_iff: "busy w \<longleftrightarrow> \<not> resting w \<and> w \<noteq> Wk_Waiting"
  by (cases w) (auto simp: resting_def)

lemma resting_simps [simp]:
  "resting Wk_Asleep" "resting Wk_Exited" "\<not> resting Wk_Waiting" "\<not> resting (Wk_Taken x)"
  "\<not> resting (Wk_Cancelling n)" "\<not> resting (Wk_Running j)" "\<not> resting Wk_Failing"
  "\<not> resting Wk_Finishing"
  by (simp_all add: resting_def)

lemma few_workers:
  assumes "phase_inv rt"
  shows "length (rt_workers rt) \<le> 32"
proof (cases "rt_running rt \<and> rt_closer rt \<noteq> Cl_Clear")
  case True
  then have "rc_worker_threads (rt_config rt) \<le> 32" "length (rt_workers rt) = unat (rc_worker_threads (rt_config rt))"
    using assms by (auto simp: phase_inv_def validate_runtime_config_def kMaxWorkerThreads_def is_ok_def split: if_splits)
  then show ?thesis by (simp add: word_le_nat_alt)
next
  case False
  then show ?thesis using assms by (auto simp: phase_inv_def)
qed

lemma idle_busy:
  assumes "phase_inv rt" "flight_inv rt"
  shows "rt_in_flight rt = 0 \<longleftrightarrow> (\<forall>w \<in> set (rt_workers rt). \<not> busy w)"
proof -
  have "length (filter busy (rt_workers rt)) < 2 ^ 64"
    by (rule le_less_trans [OF length_filter_le]) (use few_workers [OF assms(1)] in simp)
  then have "rt_in_flight rt = 0 \<longleftrightarrow> length (filter busy (rt_workers rt)) = 0"
    using assms(2) dvd_imp_le [of "2 ^ 64" "length (filter busy (rt_workers rt))"]
    by (auto simp: flight_inv_def word_of_nat_eq_0_iff simp del: length_0_conv)
  then show ?thesis by (simp add: filter_empty_conv)
qed

section \<open>The steps of a worker\<close>

text \<open>Every step of a worker replaces its position; only three of them touch anything shared by others.\<close>

lemma worker_loop_flight:
  assumes "i < length (rt_workers rt)" "flight_inv rt"
  shows "flight_inv (worker_loop i (rt_workers rt ! i) rt)"
proof (cases "rt_workers rt ! i")
  case (Wk_Running j)
  then show ?thesis using assms
    by (cases j) (auto simp: runtime_ops flight_inv_def busy_update_word split: prod.splits)
qed (use assms in \<open>auto simp: runtime_ops flight_inv_def busy_update_word split: list.splits\<close>)

lemma worker_loop_frame:
  "rt_config (worker_loop i w rt) = rt_config rt"
  "rt_running (worker_loop i w rt) = rt_running rt"
  "rt_stopping (worker_loop i w rt) = rt_stopping rt"
  "rt_token (worker_loop i w rt) = rt_token rt"
  "rt_closer (worker_loop i w rt) = rt_closer rt"
  "rt_signals (worker_loop i w rt) = rt_signals rt"
  "length (rt_workers (worker_loop i w rt)) = length (rt_workers rt)"
  "rs_peak_queue_depth (rt_stats (worker_loop i w rt)) = rs_peak_queue_depth (rt_stats rt)"
  "rs_submitted (rt_stats (worker_loop i w rt)) = rs_submitted (rt_stats rt)"
  "rs_dropped_oldest (rt_stats (worker_loop i w rt)) = rs_dropped_oldest (rt_stats rt)"
  by (cases "(i, w, rt)" rule: worker_loop.cases;
      auto simp: runtime_ops split: list.splits prod.splits)+

lemma worker_loop_queue:
  "rt_queue (worker_loop i w rt) = (if w = Wk_Waiting then tl (rt_queue rt) else rt_queue rt)"
  by (cases "(i, w, rt)" rule: worker_loop.cases) (auto simp: runtime_ops split: list.splits prod.splits)

definition next_position :: "'o worker \<Rightarrow> 'o runtime \<Rightarrow> 'o worker" where
  "next_position w rt =
     (case w of
        Wk_Waiting \<Rightarrow>
          (case rt_queue rt of [] \<Rightarrow> if rt_stopping rt then Wk_Exited else Wk_Asleep | item # q \<Rightarrow> Wk_Taken item)
      | Wk_Taken item \<Rightarrow>
          if rt_token rt then Wk_Cancelling (rs_cancelled (rt_stats rt)) else Wk_Running (wi_job item)
      | Wk_Running (Job_Call f) \<Rightarrow> Wk_Running (snd (f (rt_observatory rt) (rt_token rt)))
      | Wk_Running (Job_Return r) \<Rightarrow> if is_ok r then Wk_Finishing else Wk_Failing
      | Wk_Finishing \<Rightarrow> Wk_Waiting
      | _ \<Rightarrow> Wk_Finishing)"

lemma worker_loop_workers:
  "\<not> resting w \<Longrightarrow> rt_workers (worker_loop i w rt) = (rt_workers rt)[i := next_position w rt]"
  by (cases "(i, w, rt)" rule: worker_loop.cases)
    (auto simp: runtime_ops next_position_def split: list.splits prod.splits)

lemma next_position_resting:
  "\<not> resting w \<Longrightarrow> resting (next_position w rt) \<longleftrightarrow> w = Wk_Waiting \<and> rt_queue rt = []"
  by (auto simp: next_position_def split: worker.splits list.splits job.splits)

lemma next_position_simps:
  "next_position w rt = Wk_Exited \<Longrightarrow> \<not> resting w \<Longrightarrow> rt_stopping rt \<and> rt_queue rt = []"
  "next_position w rt = Wk_Asleep \<Longrightarrow> \<not> resting w \<Longrightarrow> \<not> rt_stopping rt"
  "next_position w rt = Wk_Cancelling n \<Longrightarrow> rt_token rt"
  by (auto simp: next_position_def split: worker.splits list.splits job.splits if_splits)

lemma worker_loop_drainers:
  "rt_drainers (worker_loop i w rt) =
     (if w = Wk_Waiting \<and> rt_queue rt = [] \<and> rt_stopping rt \<or> w = Wk_Finishing \<and> idle (worker_loop i w rt)
      then map (\<lambda>d. if d = Dr_Asleep then Dr_Waiting else d) (rt_drainers rt) else rt_drainers rt)"
  by (cases "(i, w, rt)" rule: worker_loop.cases)
    (auto simp: runtime_ops idle_def split: list.splits prod.splits)

section \<open>Preservation by the runtime's own steps\<close>

lemma worker_phase:
  assumes "phase_inv rt" "i < length (rt_workers rt)" "\<not> resting (rt_workers rt ! i)"
  shows "phase_inv (worker_loop i (rt_workers rt ! i) rt)"
proof -
  let ?w = "rt_workers rt ! i" and ?rt = "worker_loop i (rt_workers rt ! i) rt"
  note frame = worker_loop_frame [of i ?w rt] worker_loop_queue [of i ?w rt]
  have mem: "x = next_position ?w rt \<or> x \<in> set (rt_workers rt)" if "x \<in> set (rt_workers ?rt)" for x
    using mem_update that by (metis worker_loop_workers [OF assms(3)])
  have exited: "rt_stopping ?rt \<and> rt_queue ?rt = []" if *: "Wk_Exited \<in> set (rt_workers ?rt)"
  proof -
    have "rt_stopping rt \<and> rt_queue rt = []"
      using mem [OF *] next_position_simps(1) [OF _ assms(3), of rt] assms(1) unfolding phase_inv_def by metis
    then show ?thesis by (simp only: frame list.sel if_cancel simp_thms)
  qed
  have asleep: "rt_closer ?rt = Cl_Notify" if *: "rt_stopping ?rt" "Wk_Asleep \<in> set (rt_workers ?rt)"
  proof -
    have "rt_stopping rt" using *(1) by (simp only: frame)
    then have "rt_closer rt = Cl_Notify"
      using mem [OF *(2)] next_position_simps(2) [OF _ assms(3), of rt] assms(1) unfolding phase_inv_def by metis
    then show ?thesis by (simp only: frame)
  qed
  have "rt_workers rt \<noteq> []" using assms(2) by auto
  then have "rt_running rt" "rt_closer rt \<noteq> Cl_Clear" using assms(1) by (auto simp: phase_inv_def)
  then show ?thesis
    using assms(1) exited asleep unfolding phase_inv_def frame by blast
qed

lemma worker_queue:
  "queue_inv rt \<Longrightarrow> queue_inv (worker_loop i w rt)"
  by (auto simp: queue_inv_def worker_loop_frame worker_loop_queue)

lemma worker_wake:
  assumes "wake_inv rt" "i < length (rt_workers rt)" "\<not> resting (rt_workers rt ! i)"
  shows "wake_inv (worker_loop i (rt_workers rt ! i) rt)"
proof -
  let ?w = "rt_workers rt ! i"
  have "next_position ?w rt \<in> set (rt_workers (worker_loop i ?w rt))"
    using assms(2,3) by (simp add: worker_loop_workers set_update_memI)
  then show ?thesis
    using next_position_resting [OF assms(3), of rt] by (auto simp: wake_inv_def worker_loop_queue simp del: worker_loop.simps)
qed

lemma worker_drain:
  assumes "drain_inv rt" "flight_inv rt" "phase_inv rt" "i < length (rt_workers rt)" "\<not> resting (rt_workers rt ! i)"
  shows "drain_inv (worker_loop i (rt_workers rt ! i) rt)"
proof (cases "Dr_Asleep \<in> set (rt_drainers (worker_loop i (rt_workers rt ! i) rt)) \<and>
              idle (worker_loop i (rt_workers rt ! i) rt)")
  case True
  let ?w = "rt_workers rt ! i" and ?rt = "worker_loop i (rt_workers rt ! i) rt"
  have ph: "phase_inv ?rt" and fl: "flight_inv ?rt"
    using worker_phase worker_loop_flight assms by blast+
  have mem: "next_position ?w rt \<in> set (rt_workers ?rt)"
    using assms(4,5) by (simp add: worker_loop_workers set_update_memI)
  have asleep: "Dr_Asleep \<in> set (rt_drainers rt)" and no_exit: "\<not> (?w = Wk_Waiting \<and> rt_queue rt = [] \<and> rt_stopping rt)"
    and no_finish: "?w \<noteq> Wk_Finishing"
    using True by (auto simp: worker_loop_drainers split: if_splits)
  have "\<not> busy (next_position ?w rt)"
    using True idle_busy [OF ph fl] mem by (auto simp: idle_def)
  then have w: "?w = Wk_Waiting" "rt_queue rt = []"
    using assms(5) no_finish by (auto simp: next_position_def split: worker.splits list.splits job.splits if_splits)
  then have "rt_in_flight ?rt = rt_in_flight rt"
    by (simp add: runtime_ops)
  then have "idle rt" using True w by (simp add: idle_def)
  then have "rt_stopping rt" using assms(1) asleep by (simp add: drain_inv_def)
  then show ?thesis using no_exit w by blast
next
  case False
  then show ?thesis unfolding drain_inv_def by blast
qed

lemma worker_account:
  assumes "account_inv rt" "i < length (rt_workers rt)" "\<not> resting (rt_workers rt ! i)"
  shows "account_inv (worker_loop i (rt_workers rt ! i) rt)"
proof (cases "rt_token rt")
  case False
  let ?w = "rt_workers rt ! i" and ?rt = "worker_loop i (rt_workers rt ! i) rt"
  have free: "?w \<noteq> Wk_Cancelling n" for n
    using assms(1,2) False by (force simp: account_inv_def)
  have "rs_completed (rt_stats ?rt) + rs_cancelled (rt_stats ?rt) + word_of_nat (length (rt_queue ?rt)) + rt_in_flight ?rt
     = rs_completed (rt_stats rt) + rs_cancelled (rt_stats rt) + word_of_nat (length (rt_queue rt)) + rt_in_flight rt"
  proof (cases ?w)
    case (Wk_Running j)
    then show ?thesis by (cases j) (auto simp: runtime_ops split: prod.splits)
  qed (use free False in \<open>auto simp: runtime_ops split: list.splits\<close>)
  moreover have "v \<noteq> Wk_Cancelling n" if "v \<in> set (rt_workers ?rt)" for v n
    using that assms False next_position_simps(3) [of ?w rt n]
    by (auto simp: account_inv_def worker_loop_workers dest!: mem_update)
  ultimately show ?thesis
    using assms(1) False by (auto simp: account_inv_def worker_loop_frame algebra_simps)
qed (simp add: account_inv_def worker_loop_frame)

lemma worker_inv:
  assumes "runtime_inv rt" "i < length (rt_workers rt)" "\<not> resting (rt_workers rt ! i)"
  shows "runtime_inv (worker_loop i (rt_workers rt ! i) rt)"
  using assms
  by (simp add: runtime_inv_def worker_phase worker_loop_flight worker_queue worker_wake worker_drain worker_account)

section \<open>Preservation by the other steps\<close>

lemma queue_needs_worker:
  assumes "phase_inv rt" "rt_queue rt \<noteq> []"
  shows "\<not> set (rt_workers rt) \<subseteq> {Wk_Exited}" and "Wk_Exited \<notin> set (rt_workers rt)"
proof -
  have "rt_running rt" "rt_closer rt \<noteq> Cl_Clear" using assms unfolding phase_inv_def by blast+
  then have "length (rt_workers rt) \<noteq> 0"
    using assms(1) by (simp add: phase_inv_def validate_runtime_config_def is_ok_def unat_eq_0 split: if_splits)
  moreover show "Wk_Exited \<notin> set (rt_workers rt)" using assms unfolding phase_inv_def by blast
  ultimately show "\<not> set (rt_workers rt) \<subseteq> {Wk_Exited}" by (cases "rt_workers rt") auto
qed

lemma phase_inv_fewer:
  assumes "phase_inv rt" "length (rt_workers rt') = length (rt_workers rt)"
    and "Wk_Exited \<in> set (rt_workers rt') \<Longrightarrow> Wk_Exited \<in> set (rt_workers rt)"
    and "Wk_Asleep \<in> set (rt_workers rt') \<Longrightarrow> Wk_Asleep \<in> set (rt_workers rt)"
    and "rt_closer rt' = rt_closer rt" "rt_running rt' = rt_running rt" "rt_stopping rt' = rt_stopping rt"
      "rt_queue rt' = rt_queue rt" "rt_config rt' = rt_config rt"
  shows "phase_inv rt'"
proof -
  have "rt_workers rt' = [] \<longleftrightarrow> rt_workers rt = []"
    using assms(2) by (metis length_0_conv)
  then show ?thesis using assms(1,3,4) unfolding phase_inv_def assms(2,5-) by blast
qed

text \<open>The parts of the invariant that a step leaves alone carry over by their frame.\<close>

lemma inv_frames:
  "phase_inv (rt\<lparr>rt_signals := n\<rparr>) = phase_inv rt" "phase_inv (rt\<lparr>rt_drainers := ds\<rparr>) = phase_inv rt"
  "flight_inv (rt\<lparr>rt_signals := n\<rparr>) = flight_inv rt" "flight_inv (rt\<lparr>rt_drainers := ds\<rparr>) = flight_inv rt"
  "flight_inv (rt\<lparr>rt_closer := k\<rparr>) = flight_inv rt" "flight_inv (rt\<lparr>rt_running := b\<rparr>) = flight_inv rt"
  "queue_inv (rt\<lparr>rt_signals := n\<rparr>) = queue_inv rt" "queue_inv (rt\<lparr>rt_drainers := ds\<rparr>) = queue_inv rt"
  "queue_inv (rt\<lparr>rt_closer := k\<rparr>) = queue_inv rt" "queue_inv (rt\<lparr>rt_running := b\<rparr>) = queue_inv rt"
  "queue_inv (rt\<lparr>rt_workers := ws\<rparr>) = queue_inv rt"
  "wake_inv (rt\<lparr>rt_drainers := ds\<rparr>) = wake_inv rt" "wake_inv (rt\<lparr>rt_running := b\<rparr>) = wake_inv rt"
  "drain_inv (rt\<lparr>rt_signals := n\<rparr>) = drain_inv rt" "drain_inv (rt\<lparr>rt_closer := k\<rparr>) = drain_inv rt"
  "drain_inv (rt\<lparr>rt_running := b\<rparr>) = drain_inv rt"
  "account_inv (rt\<lparr>rt_signals := n\<rparr>) = account_inv rt" "account_inv (rt\<lparr>rt_drainers := ds\<rparr>) = account_inv rt"
  "account_inv (rt\<lparr>rt_closer := k\<rparr>) = account_inv rt" "account_inv (rt\<lparr>rt_running := b\<rparr>) = account_inv rt"
  by (simp_all add: runtime_parts idle_def)

text \<open>A step that only moves one sleeping worker to the top of its loop.\<close>

lemma wake_one_inv:
  assumes "runtime_inv rt" "i < length (rt_workers rt)" "rt_workers rt ! i = Wk_Asleep"
  shows "runtime_inv (set_worker i Wk_Waiting (rt\<lparr>rt_signals := n\<rparr>))"
proof -
  let ?ws = "(rt_workers rt)[i := Wk_Waiting]" and ?rt = "set_worker i Wk_Waiting (rt\<lparr>rt_signals := n\<rparr>)"
  have rt: "?rt = rt\<lparr>rt_signals := n, rt_workers := ?ws\<rparr>" by (simp add: set_worker_def)
  have old: "x \<in> set (rt_workers rt)" if "x \<in> set ?ws" "x \<noteq> Wk_Waiting" for x
    using mem_update that by metis
  have waiting: "Wk_Waiting \<in> set ?ws" using assms(2) by (simp add: set_update_memI)
  have inv: "phase_inv rt" "flight_inv rt" "queue_inv rt" "drain_inv rt" "account_inv rt"
    using assms(1) by (simp_all add: runtime_inv_def)
  have "phase_inv ?rt"
    by (rule phase_inv_fewer [OF inv(1)]) (use old in \<open>simp_all add: rt\<close>)
  moreover have "flight_inv ?rt"
    using inv(2) assms(2,3) by (simp add: flight_inv_def rt busy_update_word)
  moreover have "queue_inv ?rt" using inv(3) by (simp add: queue_inv_def rt)
  moreover have "wake_inv ?rt" using waiting by (auto simp: wake_inv_def rt)
  moreover have "drain_inv ?rt" using inv(4) waiting by (auto simp: drain_inv_def idle_def rt)
  moreover have "account_inv ?rt"
    using inv(5) old [of "Wk_Cancelling _"] by (auto simp: account_inv_def rt)
  ultimately show ?thesis by (simp add: runtime_inv_def)
qed

lemma drop_signal_inv:
  assumes "runtime_inv rt" "Wk_Asleep \<notin> set (rt_workers rt)"
  shows "runtime_inv (rt\<lparr>rt_signals := n\<rparr>)"
proof -
  have "\<exists>w \<in> set (rt_workers rt). \<not> resting w" if "rt_queue rt \<noteq> []"
    using queue_needs_worker(1) [of rt] that assms by (auto simp: runtime_inv_def resting_def)
  then have "wake_inv (rt\<lparr>rt_signals := n\<rparr>)" by (auto simp: wake_inv_def)
  then show ?thesis using assms(1) by (simp add: runtime_inv_def inv_frames)
qed

lemma drainers_inv:
  assumes "runtime_inv rt"
    and "Dr_Asleep \<in> set ds \<Longrightarrow> idle rt \<Longrightarrow> Dr_Asleep \<in> set (rt_drainers rt)"
  shows "runtime_inv (rt\<lparr>rt_drainers := ds\<rparr>)"
proof -
  have "drain_inv (rt\<lparr>rt_drainers := ds\<rparr>)"
    using assms by (simp add: runtime_inv_def drain_inv_def idle_def)
  then show ?thesis using assms(1) by (simp add: runtime_inv_def inv_frames)
qed

lemma wake_workers_member:
  "Wk_Asleep \<notin> set (rt_workers (wake_workers rt))"
  "x \<noteq> Wk_Waiting \<Longrightarrow> x \<in> set (rt_workers (wake_workers rt)) \<Longrightarrow> x \<in> set (rt_workers rt)"
  "x \<noteq> Wk_Asleep \<Longrightarrow> x \<in> set (rt_workers rt) \<Longrightarrow> x \<in> set (rt_workers (wake_workers rt))"
  by (force simp: wake_workers_def split: worker.splits)+

lemma wake_workers_busy: "filter busy (rt_workers (wake_workers rt)) = filter busy (rt_workers rt)"
proof -
  have "filter busy (map (\<lambda>w. case w of Wk_Asleep \<Rightarrow> Wk_Waiting | _ \<Rightarrow> w) ws) = filter busy ws" for ws :: "'a worker list"
    by (induction ws) (auto split: worker.splits)
  then show ?thesis by (simp add: wake_workers_def)
qed

lemma wake_workers_frame [simp]:
  "rt_config (wake_workers rt) = rt_config rt" "rt_running (wake_workers rt) = rt_running rt"
  "rt_stopping (wake_workers rt) = rt_stopping rt" "rt_queue (wake_workers rt) = rt_queue rt"
  "rt_token (wake_workers rt) = rt_token rt" "rt_stats (wake_workers rt) = rt_stats rt"
  "rt_in_flight (wake_workers rt) = rt_in_flight rt" "rt_signals (wake_workers rt) = rt_signals rt"
  "rt_drainers (wake_workers rt) = rt_drainers rt"
  "length (rt_workers (wake_workers rt)) = length (rt_workers rt)"
  by (simp_all add: wake_workers_def)

lemma notify_all_inv:
  assumes "runtime_inv rt" "rt_closer rt = Cl_Notify"
  shows "runtime_inv ((wake_workers rt)\<lparr>rt_closer := Cl_Join\<rparr>)"
proof -
  let ?ws = "rt_workers (wake_workers rt)" and ?rt = "(wake_workers rt)\<lparr>rt_closer := Cl_Join\<rparr>"
  note member = wake_workers_member(2) [of _ rt] and none = wake_workers_member(1) [of rt]
  have inv: "phase_inv rt" "flight_inv rt" "queue_inv rt" "drain_inv rt" "account_inv rt"
    using assms(1) by (simp_all add: runtime_inv_def)
  have exited: "set (rt_workers rt) \<subseteq> {Wk_Exited}" if "set ?ws \<subseteq> {Wk_Exited}"
  proof
    fix x assume "x \<in> set (rt_workers rt)"
    then have "(case x of Wk_Asleep \<Rightarrow> Wk_Waiting | _ \<Rightarrow> x) \<in> set ?ws"
      by (simp add: wake_workers_def)
    with that show "x \<in> {Wk_Exited}" by (auto split: worker.splits)
  qed
  have phase: "phase_inv ?rt"
    using inv(1) assms(2) none member [of Wk_Exited] unfolding phase_inv_def by simp
  have "\<exists>w \<in> set ?ws. \<not> resting w" if "rt_queue rt \<noteq> []"
    using queue_needs_worker(1) [OF phase] that none by (auto simp: resting_def)
  then have "wake_inv ?rt" by (auto simp: wake_inv_def)
  moreover have "drain_inv ?rt" using inv(4) exited unfolding drain_inv_def by (auto simp: idle_def)
  moreover have "account_inv ?rt"
    using inv(5) member [of "Wk_Cancelling _"] by (auto simp: account_inv_def)
  ultimately show ?thesis
    using inv phase by (simp add: runtime_inv_def queue_inv_def flight_inv_def wake_workers_busy)
qed

lemma join_inv:
  assumes "runtime_inv rt" "rt_closer rt = Cl_Join" "set (rt_workers rt) \<subseteq> {Wk_Exited}"
  shows "runtime_inv (rt\<lparr>rt_workers := [], rt_closer := Cl_Clear\<rparr>)"
proof -
  have inv: "phase_inv rt" "flight_inv rt" "queue_inv rt" "drain_inv rt" "account_inv rt"
    using assms(1) by (simp_all add: runtime_inv_def)
  have "rt_queue rt = []" using queue_needs_worker(1) [OF inv(1)] assms(3) by blast
  moreover have "filter busy (rt_workers rt) = []" using assms(3) by (auto simp: filter_empty_conv)
  moreover have "drain_inv (rt\<lparr>rt_workers := []\<rparr>)" using inv(4) assms(3) by (auto simp: drain_inv_def idle_def)
  ultimately show ?thesis
    using inv assms(2) by (simp add: runtime_inv_def phase_inv_def flight_inv_def wake_inv_def account_inv_def
        queue_inv_def drain_inv_def idle_def)
qed

lemma clear_inv:
  assumes "runtime_inv rt" "rt_closer rt = Cl_Clear"
  shows "runtime_inv (rt\<lparr>rt_running := False, rt_closer := Cl_None\<rparr>)"
proof -
  have "phase_inv (rt\<lparr>rt_running := False, rt_closer := Cl_None\<rparr>)"
    using assms unfolding runtime_inv_def phase_inv_def by simp
  moreover have "rt_queue rt = []" using assms unfolding runtime_inv_def phase_inv_def by blast
  ultimately show ?thesis
    using assms(1) by (simp add: runtime_inv_def inv_frames wake_inv_def drain_inv_def idle_def
        flight_inv_def queue_inv_def account_inv_def)
qed

lemma progress_inv: "progress rt rt' \<Longrightarrow> runtime_inv rt \<Longrightarrow> runtime_inv rt'"
proof (induction rule: progress.induct)
  case (pr_drainer i rt)
  then show ?case
    by (intro drainers_inv) (auto dest!: mem_update split: if_splits)
qed (simp_all add: worker_inv wake_one_inv drop_signal_inv notify_all_inv join_inv clear_inv)

section \<open>Preservation by the callers\<close>

lemma make_runtime_inv: "runtime_inv (make_runtime obs c)"
  by (simp add: runtime_inv_def runtime_parts make_runtime_def runtime_stats_init_def idle_def)

text \<open>The invariant reads four of the statistics.\<close>

lemma stats_inv:
  assumes "runtime_inv rt" "rs_peak_queue_depth s = rs_peak_queue_depth (rt_stats rt)"
    "rs_submitted s = rs_submitted (rt_stats rt)" "rs_completed s = rs_completed (rt_stats rt)"
    "rs_dropped_oldest s = rs_dropped_oldest (rt_stats rt)" "rs_cancelled s = rs_cancelled (rt_stats rt)"
  shows "runtime_inv (rt\<lparr>rt_stats := s\<rparr>)"
proof -
  have "phase_inv (rt\<lparr>rt_stats := s\<rparr>) = phase_inv rt" "flight_inv (rt\<lparr>rt_stats := s\<rparr>) = flight_inv rt"
    "wake_inv (rt\<lparr>rt_stats := s\<rparr>) = wake_inv rt" "drain_inv (rt\<lparr>rt_stats := s\<rparr>) = drain_inv rt"
    by (simp_all add: runtime_parts idle_def)
  moreover have "queue_inv (rt\<lparr>rt_stats := s\<rparr>) = queue_inv rt" "account_inv (rt\<lparr>rt_stats := s\<rparr>) = account_inv rt"
    by (simp_all add: queue_inv_def account_inv_def assms(2-))
  ultimately show ?thesis using assms(1) by (simp add: runtime_inv_def)
qed

lemma start_inv:
  assumes "runtime_inv rt"
  shows "runtime_inv (snd (start rt))"
proof (cases "is_ok (validate_runtime_config (rt_config rt)) \<and> \<not> rt_running rt")
  case True
  let ?ws = "replicate (unat (rc_worker_threads (rt_config rt))) Wk_Waiting :: 'a worker list"
  let ?s = "(rt_stats rt)\<lparr>rs_workers_started := rs_workers_started (rt_stats rt) + rc_worker_threads (rt_config rt)\<rparr>"
  have inv: "phase_inv rt" "flight_inv rt" "drain_inv rt" "account_inv rt" "queue_inv rt"
    using assms by (simp_all add: runtime_inv_def)
  have empty: "rt_workers rt = []" "rt_queue rt = []" "rt_closer rt = Cl_None"
    using inv(1) True unfolding phase_inv_def by blast+
  have eq: "snd (start rt) = rt\<lparr>rt_stopping := False, rt_running := True, rt_workers := ?ws, rt_stats := ?s\<rparr>"
    using True empty by (auto simp: start_def on_stats_def is_ok_def split: sum.splits)
  have "filter busy ?ws = []" by simp
  moreover have "\<not> (Dr_Asleep \<in> set (rt_drainers rt) \<and> idle rt)" using inv(3) empty by (auto simp: drain_inv_def)
  ultimately show ?thesis
    using inv True empty by (simp add: eq runtime_inv_def runtime_parts idle_def del: filter_replicate)
qed (use assms in \<open>auto simp: start_def is_ok_def split: sum.splits\<close>)

text \<open>What an accepted submission does: the queue of the new state and nothing else that matters.\<close>

lemma submit_cases:
  assumes "runtime_inv rt"
  obtains (refused) s where "snd (submit job label rt) = rt\<lparr>rt_stats := s\<rparr>" "\<not> is_ok (fst (submit job label rt))"
      "rs_peak_queue_depth s = rs_peak_queue_depth (rt_stats rt)"
      "rs_submitted s = rs_submitted (rt_stats rt)" "rs_completed s = rs_completed (rt_stats rt)"
      "rs_dropped_oldest s = rs_dropped_oldest (rt_stats rt)" "rs_cancelled s = rs_cancelled (rt_stats rt)"
  | (accepted) j old s where "job = Some j" "rt_running rt" "\<not> rt_stopping rt"
      "rt_queue rt = old @ drop (length old) (rt_queue rt)"
      "length old \<le> 1" "old \<noteq> [] \<Longrightarrow> length (rt_queue rt) = unat (rc_queue_capacity (rt_config rt))"
      "length (rt_queue rt) < unat (rc_queue_capacity (rt_config rt)) + length old"
      "snd (submit job label rt) = rt\<lparr>rt_queue := drop (length old) (rt_queue rt) @ [\<lparr>wi_job = j, wi_label = label\<rparr>],
         rt_signals := rt_signals rt + 1, rt_stats := s\<rparr>"
      "rs_submitted s = rs_submitted (rt_stats rt) + 1" "rs_completed s = rs_completed (rt_stats rt)"
      "rs_dropped_oldest s = rs_dropped_oldest (rt_stats rt) + word_of_nat (length old)"
      "rs_cancelled s = rs_cancelled (rt_stats rt)"
      "rs_peak_queue_depth s = max (rs_peak_queue_depth (rt_stats rt))
         (word_of_nat (length (rt_queue rt) + 1 - length old))"
proof (cases "\<exists>j. job = Some j \<and> rt_running rt \<and> \<not> rt_stopping rt \<and>
    (length (rt_queue rt) \<ge> unat (rc_queue_capacity (rt_config rt)) \<longrightarrow>
       rc_backpressure (rt_config rt) = Backpressure_DropOldest)")
  case True
  then obtain j where j: "job = Some j" "rt_running rt" "\<not> rt_stopping rt"
    "length (rt_queue rt) \<ge> unat (rc_queue_capacity (rt_config rt)) \<Longrightarrow>
       rc_backpressure (rt_config rt) = Backpressure_DropOldest" by blast
  have phase: "phase_inv rt" and q: "queue_inv rt" using assms by (simp_all add: runtime_inv_def)
  have "is_ok (validate_runtime_config (rt_config rt))"
    using phase j unfolding phase_inv_def by auto
  then have cap: "0 < unat (rc_queue_capacity (rt_config rt))"
    by (auto simp: validate_runtime_config_def is_ok_def unat_gt_0 split: if_splits)
  have le: "length (rt_queue rt) \<le> unat (rc_queue_capacity (rt_config rt))"
    using q by (auto simp: queue_inv_def word_le_nat_alt)
  show thesis
  proof (cases "length (rt_queue rt) \<ge> unat (rc_queue_capacity (rt_config rt))")
    case True
    then obtain x xs where xs: "rt_queue rt = x # xs" using cap by (cases "rt_queue rt") auto
    have len: "length (rt_queue rt) = unat (rc_queue_capacity (rt_config rt))" using True le by simp
    have drop: "rc_backpressure (rt_config rt) = Backpressure_DropOldest" using j(4) True by blast
    show thesis
      by (rule accepted [of j "[x]" "rt_stats (snd (submit job label rt))"])
        (simp_all add: submit_def on_stats_def Let_def j(1-3) drop len [symmetric] xs)
  next
    case False
    show thesis
      by (rule accepted [of j "[]" "rt_stats (snd (submit job label rt))"]) (use False in \<open>simp_all add: submit_def on_stats_def Let_def j(1-3)\<close>)
  qed
next
  case False
  show thesis
  proof (cases job)
    case None
    then show thesis by (intro refused [of "rt_stats rt"]) (auto simp: submit_def)
  next
    case (Some j)
    show thesis
    proof (cases "rt_running rt \<and> \<not> rt_stopping rt")
      case True
      then have full: "length (rt_queue rt) \<ge> unat (rc_queue_capacity (rt_config rt))"
          "rc_backpressure (rt_config rt) = Backpressure_Reject"
      proof -
        have "\<not> (length (rt_queue rt) \<ge> unat (rc_queue_capacity (rt_config rt)) \<longrightarrow>
            rc_backpressure (rt_config rt) = Backpressure_DropOldest)"
          using False Some True by blast
        then show "length (rt_queue rt) \<ge> unat (rc_queue_capacity (rt_config rt))"
            "rc_backpressure (rt_config rt) = Backpressure_Reject"
          by (blast, cases "rc_backpressure (rt_config rt)") simp_all
      qed
      show thesis
        by (rule refused [of "rt_stats (snd (submit job label rt))"]) (simp_all add: submit_def on_stats_def Some True full)
    next
      case False
      then show thesis
        by (intro refused [of "rt_stats (snd (submit job label rt))"]) (simp_all add: submit_def on_stats_def Some)
    qed
  qed
qed

lemma submit_inv:
  assumes "runtime_inv rt"
  shows "runtime_inv (snd (submit job label rt))"
  using assms
proof (cases rule: submit_cases [where job = job and label = label])
  case (refused s)
  then show ?thesis using stats_inv [OF assms] by simp
next
  case (accepted j old s)
  let ?q = "drop (length old) (rt_queue rt) @ [\<lparr>wi_job = j, wi_label = label\<rparr>]"
  let ?cap = "rc_queue_capacity (rt_config rt)" and ?rt = "snd (submit job label rt)"
  note rt = accepted(8)
  have inv: "phase_inv rt" "flight_inv rt" "queue_inv rt" "account_inv rt"
    using assms by (simp_all add: runtime_inv_def)
  have len: "length ?q = length (rt_queue rt) + 1 - length old" "length old \<le> length (rt_queue rt)"
    using arg_cong [OF accepted(4), of length] accepted(5) by auto
  have cap: "length ?q \<le> unat ?cap" using accepted(7) len by simp
  have noexit: "Wk_Exited \<notin> set (rt_workers rt)" "rt_closer rt = Cl_None"
    using inv(1) accepted(2,3) unfolding phase_inv_def by blast+
  have "phase_inv ?rt" using inv(1) accepted(2,3) noexit by (simp add: phase_inv_def rt)
  moreover have "flight_inv ?rt" using inv(2) by (simp add: flight_inv_def rt)
  moreover have "queue_inv ?rt"
  proof -
    have small: "unat (word_of_nat (length ?q) :: u64) = length ?q"
      using le_less_trans [OF cap unsigned_less] by (simp add: unat_of_nat take_bit_nat_eq_self del: length_append)
    obtain k :: u64 where k: "k = word_of_nat (length ?q)" by blast
    have "rs_peak_queue_depth s = max (rs_peak_queue_depth (rt_stats rt)) k"
      unfolding k len(1) by (rule accepted(13))
    moreover have "unat k = length ?q" "k \<le> ?cap" using small cap by (simp_all only: k word_le_nat_alt)
    ultimately show ?thesis
      using inv(3) by (simp add: queue_inv_def rt max_def word_le_nat_alt)
  qed
  moreover have "wake_inv ?rt" by (simp add: wake_inv_def rt)
  moreover have "drain_inv ?rt" by (simp add: drain_inv_def idle_def rt)
  moreover have "account_inv ?rt"
  proof -
    have "(word_of_nat (length ?q + length old) :: u64) = word_of_nat (length (rt_queue rt) + 1)"
      using len by simp
    then have "(word_of_nat (length ?q) :: u64) + word_of_nat (length old) = word_of_nat (length (rt_queue rt)) + 1"
      by simp
    then show ?thesis
      using inv(4) unfolding account_inv_def rt
      by (simp add: accepted(9-12) add.commute add.left_commute add.assoc del: length_append length_drop)
  qed
  ultimately show ?thesis by (simp add: runtime_inv_def)
qed

lemma cancel_inv:
  assumes "runtime_inv rt"
  shows "runtime_inv (cancel rt)"
proof -
  have "phase_inv (cancel rt) = phase_inv rt" "flight_inv (cancel rt) = flight_inv rt"
    "queue_inv (cancel rt) = queue_inv rt" "wake_inv (cancel rt) = wake_inv rt"
    "drain_inv (cancel rt) = drain_inv rt" "account_inv (cancel rt)"
    by (simp_all add: cancel_def runtime_parts idle_def)
  then show ?thesis using assms by (simp add: runtime_inv_def)
qed

lemma drain_op_inv: "runtime_inv rt \<Longrightarrow> runtime_inv (snd (drain rt))"
  using drainers_inv [of rt "rt_drainers rt @ [if idle rt then Dr_Returned else Dr_Asleep]"]
  by (auto simp: drain_def)

lemma shutdown_inv:
  assumes "runtime_inv rt" "rt_closer rt = Cl_None"
  shows "runtime_inv (snd (shutdown discard rt))"
proof (cases "rt_running rt")
  case True
  have inv: "phase_inv rt" "flight_inv rt" "queue_inv rt" "drain_inv rt" "account_inv rt"
    using assms by (simp_all add: runtime_inv_def)
  have run: "\<not> rt_stopping rt" "Wk_Exited \<notin> set (rt_workers rt)"
    "length (rt_workers rt) = unat (rc_worker_threads (rt_config rt))" "is_ok (validate_runtime_config (rt_config rt))"
    using inv(1) assms(2) True unfolding phase_inv_def by auto
  have "\<not> set (rt_workers rt) \<subseteq> {Wk_Exited}"
    using run by (cases "rt_workers rt") (auto simp: validate_runtime_config_def is_ok_def unat_eq_0 split: if_splits)
  note some = this
  let ?rt = "rt\<lparr>rt_stopping := True, rt_closer := Cl_Notify\<rparr>"
  from some have keep: "phase_inv ?rt" "drain_inv ?rt" "wake_inv ?rt" "account_inv ?rt"
    using inv True run by (simp_all add: phase_inv_def drain_inv_def wake_inv_def account_inv_def)
  show ?thesis
  proof (cases discard)
    case True
    let ?n = "word_of_nat (length (rt_queue rt)) :: u64"
    let ?s = "(rt_stats rt)\<lparr>rs_cancelled := rs_cancelled (rt_stats rt) + ?n\<rparr>"
    have eq: "snd (shutdown discard rt) = ?rt\<lparr>rt_stats := ?s, rt_queue := []\<rparr>"
      using True \<open>rt_running rt\<close> by (simp add: shutdown_def on_stats_def Let_def)
    have "account_inv (?rt\<lparr>rt_stats := ?s, rt_queue := []\<rparr>)"
      using inv(5) by (simp add: account_inv_def add.commute add.left_commute add.assoc)
    moreover have "phase_inv (?rt\<lparr>rt_stats := ?s, rt_queue := []\<rparr>)" using keep(1) by (simp add: phase_inv_def)
    moreover have "drain_inv (?rt\<lparr>rt_stats := ?s, rt_queue := []\<rparr>)"
      using \<open>\<not> set (rt_workers rt) \<subseteq> {Wk_Exited}\<close> by (simp add: drain_inv_def)
    ultimately show ?thesis
      using inv by (simp add: eq runtime_inv_def flight_inv_def queue_inv_def wake_inv_def)
  next
    case False
    then show ?thesis
      using inv keep True by (simp add: shutdown_def runtime_inv_def flight_inv_def queue_inv_def)
  qed
qed (use assms in \<open>simp add: shutdown_def\<close>)

lemma runtime_step_inv:
  "runtime_step allowed rt rt' \<Longrightarrow> runtime_inv rt \<Longrightarrow> runtime_inv rt'"
proof (induction rule: runtime_step.induct)
  case (rs_spurious_worker i rt)
  then show ?case using wake_one_inv [of rt i "rt_signals rt"] by simp
next
  case (rs_spurious_drainer i rt)
  then show ?case by (intro drainers_inv) (auto dest!: mem_update intro: nth_mem simp: in_set_conv_nth)
qed (simp_all add: progress_inv start_inv submit_inv drain_op_inv cancel_inv shutdown_inv)

lemma runtime_reach_inv: "runtime_reach allowed obs c rt \<Longrightarrow> runtime_inv rt"
  by (induction rule: runtime_reach.induct) (simp_all add: make_runtime_inv runtime_step_inv)

end
