(* ===== verification/Runtime_Progress.thy ===== *)
theory Runtime_Progress
  imports Runtime_Facts
begin

text \<open>
  The runtime's own steps come to an end, whatever the schedule, and where they end all work is
  done. The order that decreases is the multiset order over what is still to be done: queued and
  running jobs by the subtree order of their call trees, then the stations of the threads.
\<close>

section \<open>A decreasing weight\<close>

definition subjob :: "('o job \<times> 'o job) set" where
  "subjob = {(j, k). \<exists>f obs token. k = Job_Call f \<and> j = snd (f obs token)}"

lemma wf_subjob: "wf subjob"
proof (rule wfUNIVI)
  fix P :: "'o job \<Rightarrow> bool" and j
  assume step: "\<forall>k. (\<forall>j. (j, k) \<in> subjob \<longrightarrow> P j) \<longrightarrow> P k"
  show "P j"
  proof (induction j)
    case (Job_Return r)
    show ?case using step by (auto simp: subjob_def)
  next
    case (Job_Call f)
    have "P (snd (f obs token))" for obs token
      using Job_Call [of "f obs" "f obs token" "snd (f obs token)"] by (auto intro: rangeI simp: snds.simps)
    then have "P j" if "(j, Job_Call f) \<in> subjob" for j using that by (auto simp: subjob_def)
    then show ?case using step by blast
  qed
qed

type_synonym 'o task = "nat \<times> 'o job \<times> nat"

definition task_order :: "('o task \<times> 'o task) set" where
  "task_order = less_than <*lex*> subjob <*lex*> less_than"

lemma wf_task_order: "wf task_order"
  by (simp add: task_order_def wf_lex_prod wf_subjob)

abbreviation station :: "nat \<Rightarrow> 'o task" where
  "station n \<equiv> (0, Job_Return success, n)"

fun worker_weight :: "'o worker \<Rightarrow> 'o task multiset" where
  "worker_weight Wk_Waiting = {#station 2#}"
| "worker_weight (Wk_Taken item) = {#(1, wi_job item, 1)#}"
| "worker_weight (Wk_Running j) = {#(1, j, 0)#}"
| "worker_weight (Wk_Cancelling n) = {#station 5#}"
| "worker_weight Wk_Failing = {#station 5#}"
| "worker_weight Wk_Finishing = {#station 4#}"
| "worker_weight _ = {#}"

fun drainer_weight :: "drainer \<Rightarrow> 'o task multiset" where
  "drainer_weight Dr_Waiting = {#station 1#}"
| "drainer_weight _ = {#}"

fun closer_weight :: "closer \<Rightarrow> 'o task multiset" where
  "closer_weight Cl_Notify = {#station 6#}"
| "closer_weight Cl_Join = {#station 5#}"
| "closer_weight Cl_Clear = {#station 4#}"
| "closer_weight Cl_None = {#}"

definition weight :: "'o runtime \<Rightarrow> 'o task multiset" where
  "weight rt =
     mset (map (\<lambda>item. (1, wi_job item, 2)) (rt_queue rt)) +
     sum_list (map worker_weight (rt_workers rt)) + replicate_mset (rt_signals rt) (station 3) +
     sum_list (map drainer_weight (rt_drainers rt)) + closer_weight (rt_closer rt)"

lemma sum_list_update_split:
  fixes f :: "'a \<Rightarrow> 'b multiset"
  assumes "i < length xs"
  obtains rest where "sum_list (map f xs) = rest + f (xs ! i)" "\<And>x. sum_list (map f (xs[i := x])) = rest + f x"
proof
  let ?rest = "sum_list (map f (take i xs)) + sum_list (map f (drop (Suc i) xs))"
  show "sum_list (map f xs) = ?rest + f (xs ! i)"
    by (subst id_take_nth_drop [OF assms]) (simp add: ac_simps)
  show "sum_list (map f (xs[i := x])) = ?rest + f x" for x
    using assms by (simp add: upd_conv_take_nth_drop ac_simps)
qed

text \<open>Waking the drainers adds stations below every other.\<close>

lemma woken_drainers:
  obtains woken :: "'o task multiset" where
    "sum_list (map drainer_weight (map (\<lambda>d. if d = Dr_Asleep then Dr_Waiting else d) ds)) =
       sum_list (map drainer_weight ds) + woken"
    "set_mset woken \<subseteq> {station 1}"
proof -
  have "\<exists>woken :: 'o task multiset. sum_list (map drainer_weight (map (\<lambda>d. if d = Dr_Asleep then Dr_Waiting else d) ds)) =
       sum_list (map drainer_weight ds) + woken \<and> set_mset woken \<subseteq> {station 1}"
  proof (induction ds)
    case (Cons d ds)
    then obtain woken :: "'o task multiset" where w: "sum_list (map drainer_weight (map (\<lambda>d. if d = Dr_Asleep then Dr_Waiting else d) ds)) =
       sum_list (map drainer_weight ds) + woken" "set_mset woken \<subseteq> {station 1}" by blast
    show ?case
      by (rule exI [of _ "if d = Dr_Asleep then add_mset (station 1) woken else woken"])
        (use w in \<open>auto simp del: map_map\<close>)
  qed (simp add: exI [of _ "{#}"])
  then show thesis using that by blast
qed

lemma woken_workers:
  "sum_list (map worker_weight (map (\<lambda>w. case w of Wk_Asleep \<Rightarrow> Wk_Waiting | _ \<Rightarrow> w) ws)) =
     sum_list (map worker_weight ws) + replicate_mset (length (filter (\<lambda>w. w = Wk_Asleep) ws)) (station 2)"
  by (induction ws) (auto split: worker.splits)

text \<open>A step replaces one thing by smaller things.\<close>

lemma weight_less:
  assumes "weight rt' = rest + new" "weight rt = rest + old"
    and "old \<noteq> {#}" and "\<And>x. x \<in># new \<Longrightarrow> \<exists>y \<in># old. (x, y) \<in> task_order"
  shows "(weight rt', weight rt) \<in> mult task_order"
  unfolding assms(1,2) using assms(3,4) by (intro one_step_implies_mult) auto

lemma weight_set_worker:
  assumes "i < length (rt_workers rt)"
  obtains rest where "weight rt = rest + worker_weight (rt_workers rt ! i)"
    "\<And>w. weight (set_worker i w rt) = rest + worker_weight w"
proof -
  obtain r where "sum_list (map worker_weight (rt_workers rt)) = r + worker_weight (rt_workers rt ! i)"
    "\<And>w. sum_list (map worker_weight ((rt_workers rt)[i := w])) = r + worker_weight w"
    using sum_list_update_split [OF assms] by metis
  then show thesis
    by (intro that [of "weight (rt\<lparr>rt_workers := []\<rparr>) + r"]) (simp_all add: weight_def set_worker_def ac_simps)
qed

lemma weight_frames [simp]:
  "weight (on_stats f rt) = weight rt" "weight (rt\<lparr>rt_observatory := obs\<rparr>) = weight rt"
  "weight (rt\<lparr>rt_in_flight := n\<rparr>) = weight rt"
  by (simp_all add: weight_def on_stats_def)

lemma set_worker_frames [simp]:
  "set_worker i w (rt\<lparr>rt_observatory := obs\<rparr>) = (set_worker i w rt)\<lparr>rt_observatory := obs\<rparr>"
  "set_worker i w (rt\<lparr>rt_in_flight := n\<rparr>) = (set_worker i w rt)\<lparr>rt_in_flight := n\<rparr>"
  by (simp_all add: set_worker_def)

lemma weight_wake_drainers:
  obtains woken where "weight (wake_drainers rt) = weight rt + woken" "set_mset woken \<subseteq> {station 1}"
proof -
  obtain woken :: "'a task multiset" where
    "sum_list (map drainer_weight (map (\<lambda>d. if d = Dr_Asleep then Dr_Waiting else d) (rt_drainers rt))) =
      sum_list (map drainer_weight (rt_drainers rt)) + woken" "set_mset woken \<subseteq> {station 1}"
    using woken_drainers [of "rt_drainers rt"] by blast
  then show thesis
    by (intro that [of woken]) (simp_all add: weight_def wake_drainers_def ac_simps del: map_map)
qed

text \<open>A worker at any station moves to smaller ones.\<close>

lemma worker_weight_less:
  assumes "i < length (rt_workers rt)" "\<not> resting (rt_workers rt ! i)"
  shows "(weight (worker_loop i (rt_workers rt ! i) rt), weight rt) \<in> mult task_order"
proof -
  obtain rest where rest: "weight rt = rest + worker_weight (rt_workers rt ! i)"
    "\<And>w. weight (set_worker i w rt) = rest + worker_weight w"
    using weight_set_worker [OF assms(1)] by blast
  show ?thesis
  proof (cases "rt_workers rt ! i")
    case Wk_Waiting
    show ?thesis
    proof (cases "rt_queue rt")
      case Nil
      obtain woken where woken: "weight (wake_drainers (set_worker i Wk_Exited rt)) = rest + woken" "set_mset woken \<subseteq> {station 1}"
        using weight_wake_drainers [of "set_worker i Wk_Exited rt"] by (auto simp only: rest(2) worker_weight.simps add_0_right)
      show ?thesis
      proof (cases "rt_stopping rt")
        case True
        show ?thesis
          by (rule weight_less [where old = "{#station 2#}" and new = woken and rest = rest])
            (use Wk_Waiting Nil True woken rest in \<open>auto simp: worker_wait_def task_order_def\<close>)
      next
        case False
        show ?thesis
          by (rule weight_less [where old = "{#station 2#}" and new = "{#}" and rest = rest])
            (use Wk_Waiting Nil False rest in \<open>auto simp: worker_wait_def\<close>)
      qed
    next
      case (Cons item q)
      obtain r where r: "sum_list (map worker_weight (rt_workers rt)) = r + worker_weight (rt_workers rt ! i)"
        "\<And>w. sum_list (map worker_weight ((rt_workers rt)[i := w])) = r + worker_weight w"
        using sum_list_update_split [OF assms(1)] by metis
      show ?thesis
        by (rule weight_less [where old = "{#(1, wi_job item, 2), station 2#}" and new = "{#(1, wi_job item, 1)#}"
              and rest = "weight (rt\<lparr>rt_workers := [], rt_queue := q\<rparr>) + r"])
          (use Wk_Waiting Cons r in \<open>auto simp: worker_wait_def set_worker_def weight_def task_order_def ac_simps\<close>)
    qed
  next
    case (Wk_Running j)
    show ?thesis
    proof (cases j)
      case (Job_Call f)
      let ?k = "snd (f (rt_observatory rt) (rt_token rt))"
      have "(?k, j) \<in> subjob" by (auto simp: subjob_def Job_Call)
      then show ?thesis
        by (intro weight_less [where old = "{#(1, j, 0)#}" and new = "{#(1, ?k, 0)#}" and rest = rest])
          (use Wk_Running Job_Call rest in \<open>auto simp: task_order_def split: prod.splits\<close>)
    next
      case (Job_Return r)
      show ?thesis
        by (rule weight_less [where old = "{#(1, j, 0)#}" and rest = rest
              and new = "worker_weight (if is_ok r then Wk_Finishing else Wk_Failing)"])
          (use Wk_Running Job_Return rest in \<open>auto simp: task_order_def split: if_splits\<close>)
    qed
  next
    case Wk_Finishing
    obtain woken where woken: "weight (worker_loop i Wk_Finishing rt) = rest + add_mset (station 2) woken" "set_mset woken \<subseteq> {station 1}"
    proof -
      let ?rt = "on_stats (\<lambda>s. s\<lparr>rs_completed := rs_completed s + 1\<rparr>)
                  (set_worker i Wk_Waiting (rt\<lparr>rt_in_flight := rt_in_flight rt - 1\<rparr>))"
      have waiting: "weight ?rt = rest + {#station 2#}" using rest(2) [of Wk_Waiting] by simp
      have loop: "worker_loop i Wk_Finishing rt = (if idle ?rt then wake_drainers ?rt else ?rt)"
        by (simp only: worker_loop.simps worker_finish_def Let_def)
      obtain woken where "weight (wake_drainers ?rt) = weight ?rt + woken" "set_mset woken \<subseteq> {station 1}"
        by (rule weight_wake_drainers)
      then show thesis
        using that [of woken] that [of "{#}"] waiting unfolding loop by (cases "idle ?rt") auto
    qed
    show ?thesis
      by (rule weight_less [where old = "{#station 4#}" and new = "add_mset (station 2) woken" and rest = rest])
        (use Wk_Finishing woken rest in \<open>auto simp: task_order_def\<close>)
  next
    case (Wk_Taken item)
    show ?thesis
      by (rule weight_less [where old = "{#(1, wi_job item, 1)#}" and rest = rest
            and new = "worker_weight (next_position (Wk_Taken item) rt)"])
        (use Wk_Taken rest in \<open>auto simp: task_order_def next_position_def split: if_splits\<close>)
  next
    case (Wk_Cancelling n)
    show ?thesis
      by (rule weight_less [where old = "{#station 5#}" and rest = rest and new = "{#station 4#}"])
        (use Wk_Cancelling rest in \<open>auto simp: task_order_def\<close>)
  next
    case Wk_Failing
    show ?thesis
      by (rule weight_less [where old = "{#station 5#}" and rest = rest and new = "{#station 4#}"])
        (use Wk_Failing rest in \<open>auto simp: task_order_def\<close>)
  qed (use assms(2) in simp_all)
qed

lemma weight_signals: "weight rt = weight (rt\<lparr>rt_signals := 0\<rparr>) + replicate_mset (rt_signals rt) (station 3)"
  by (simp add: weight_def ac_simps)

lemma progress_weight: "progress rt rt' \<Longrightarrow> (weight rt', weight rt) \<in> mult task_order"
proof (induction rule: progress.induct)
  case (pr_worker i rt)
  then show ?case by (rule worker_weight_less)
next
  case (pr_notify_one rt n i)
  let ?rt = "rt\<lparr>rt_signals := n\<rparr>"
  have less: "weight rt = weight ?rt + {#station 3#}"
    using weight_signals [of rt] weight_signals [of ?rt] pr_notify_one(1) by simp
  have "i < length (rt_workers ?rt)" using pr_notify_one(2) by simp
  then obtain rest where "weight ?rt = rest + worker_weight (rt_workers ?rt ! i)"
    "\<And>w. weight (set_worker i w ?rt) = rest + worker_weight w" by (rule weight_set_worker) blast
  then show ?case
    using pr_notify_one(3) less
    by (intro weight_less [where old = "{#station 3#}" and new = "{#station 2#}" and rest = rest])
      (auto simp: task_order_def)
next
  case (pr_notify_none rt n)
  then show ?case
    using weight_signals [of rt] weight_signals [of "rt\<lparr>rt_signals := n\<rparr>"]
    by (intro weight_less [where old = "{#station 3#}" and new = "{#}" and rest = "weight (rt\<lparr>rt_signals := n\<rparr>)"]) auto
next
  case (pr_drainer i rt)
  obtain r :: "'a task multiset" where r: "sum_list (map drainer_weight (rt_drainers rt)) = r + drainer_weight (rt_drainers rt ! i)"
    "\<And>d. sum_list (map drainer_weight ((rt_drainers rt)[i := d])) = r + drainer_weight d"
    using sum_list_update_split [OF pr_drainer(1)] by metis
  show ?case
    by (rule weight_less [where old = "{#station 1#}" and new = "{#}" and rest = "weight (rt\<lparr>rt_drainers := []\<rparr>) + r"])
      (use r pr_drainer(2) in \<open>auto simp: weight_def ac_simps\<close>)
next
  case (pr_notify_all rt)
  let ?woken = "replicate_mset (length (filter (\<lambda>w. w = Wk_Asleep) (rt_workers rt))) (station 2)"
  show ?case
    by (rule weight_less [where old = "{#station 6#}" and new = "add_mset (station 5) ?woken" and rest = "weight (rt\<lparr>rt_closer := Cl_None\<rparr>)"])
      (use pr_notify_all woken_workers [of "rt_workers rt"] in
        \<open>auto simp: weight_def wake_workers_def task_order_def ac_simps simp del: map_map split: if_splits\<close>)
next
  case (pr_join rt)
  have "sum_list (map worker_weight ws) = {#}" if "set ws \<subseteq> {Wk_Exited}" for ws :: "'a worker list"
    using that by (induction ws) auto
  then show ?case
    using pr_join
    by (intro weight_less [where old = "{#station 5#}" and new = "{#station 4#}" and rest = "weight (rt\<lparr>rt_closer := Cl_None\<rparr>)"])
      (auto simp: weight_def task_order_def)
next
  case (pr_clear rt)
  then show ?case
    by (intro weight_less [where old = "{#station 4#}" and new = "{#}" and rest = "weight (rt\<lparr>rt_closer := Cl_None\<rparr>)"])
      (auto simp: weight_def)
qed

lemma progress_terminates: "wf {(rt', rt). progress rt rt'}"
  by (rule wf_subset [OF wf_inv_image [OF wf_mult [OF wf_task_order], of weight]])
    (auto simp: progress_weight)

section \<open>Where the runtime stops\<close>

text \<open>All accepted work is over, nobody waits in \<open>drain\<close> or \<open>shutdown\<close>, and the workers sleep.\<close>

definition quiet :: "'o runtime \<Rightarrow> bool" where
  "quiet rt \<longleftrightarrow>
     idle rt \<and> rt_closer rt = Cl_None \<and> set (rt_drainers rt) \<subseteq> {Dr_Returned} \<and>
     set (rt_workers rt) \<subseteq> {Wk_Asleep}"

definition stuck :: "'o runtime \<Rightarrow> bool" where
  "stuck rt \<longleftrightarrow> (\<nexists>rt'. progress rt rt')"

lemma stuck_quiet:
  assumes "runtime_inv rt" "stuck rt"
  shows "quiet rt"
proof -
  have inv: "phase_inv rt" "flight_inv rt" "wake_inv rt" "drain_inv rt"
    using assms(1) by (simp_all add: runtime_inv_def)
  have no: "\<not> progress rt rt'" for rt' using assms(2) by (simp add: stuck_def)
  have resting: "resting w" if "w \<in> set (rt_workers rt)" for w
    using no pr_worker that unfolding in_set_conv_nth by metis
  have signals: "rt_signals rt = 0"
  proof (cases "rt_signals rt")
    case (Suc n)
    show ?thesis
    proof (cases "Wk_Asleep \<in> set (rt_workers rt)")
      case True
      then obtain i where "i < length (rt_workers rt)" "rt_workers rt ! i = Wk_Asleep"
        by (auto simp: in_set_conv_nth)
      then show ?thesis using no pr_notify_one [OF Suc] by blast
    qed (use no pr_notify_none [OF Suc] in blast)
  qed
  have closer: "rt_closer rt = Cl_None"
  proof (rule ccontr)
    assume some: "rt_closer rt \<noteq> Cl_None"
    moreover have not_notify: "rt_closer rt \<noteq> Cl_Notify" and "rt_closer rt \<noteq> Cl_Clear"
      using no pr_notify_all pr_clear by blast+
    ultimately have join: "rt_closer rt = Cl_Join" by (cases "rt_closer rt") auto
    have "Wk_Asleep \<notin> set (rt_workers rt)"
      using inv(1) some not_notify unfolding phase_inv_def by blast
    then have "set (rt_workers rt) \<subseteq> {Wk_Exited}" using resting by (auto simp: resting_def)
    then show False using no pr_join [OF join] by blast
  qed
  have queue: "rt_queue rt = []"
    using inv(3) resting signals closer by (auto simp: wake_inv_def)
  have asleep: "set (rt_workers rt) \<subseteq> {Wk_Asleep}"
  proof -
    have "Wk_Exited \<notin> set (rt_workers rt)"
      using inv(1) closer unfolding phase_inv_def by (metis empty_iff list.set(1))
    then show ?thesis using resting by (auto simp: resting_def)
  qed
  have idle: "idle rt"
    using queue idle_busy [OF inv(1,2)] resting resting_busy by (auto simp: idle_def)
  have "d = Dr_Returned" if d: "d \<in> set (rt_drainers rt)" for d
  proof (cases d)
    case Dr_Waiting
    then show ?thesis using no pr_drainer d unfolding in_set_conv_nth by metis
  next
    case Dr_Asleep
    then have "rt_stopping rt" "\<not> set (rt_workers rt) \<subseteq> {Wk_Exited}" using inv(4) d idle unfolding drain_inv_def by blast+
    then have False using inv(1) closer unfolding phase_inv_def by (metis empty_subsetI list.set(1))
    then show ?thesis ..
  qed
  then show ?thesis using idle closer asleep by (auto simp: quiet_def)
qed

lemma progress_reach: "progress\<^sup>*\<^sup>* rt rt' \<Longrightarrow> runtime_inv rt \<Longrightarrow> runtime_inv rt'"
  by (induction rule: rtranclp_induct) (auto simp: progress_inv)

lemma progress_to_quiet:
  assumes "runtime_inv rt"
  shows "\<exists>rt'. progress\<^sup>*\<^sup>* rt rt' \<and> quiet rt'"
  using assms
proof (induction rt rule: wf_induct_rule [OF progress_terminates])
  case (1 rt)
  show ?case
  proof (cases "stuck rt")
    case True
    then show ?thesis using stuck_quiet 1(2) by blast
  next
    case False
    then obtain rt1 where "progress rt rt1" by (auto simp: stuck_def)
    moreover then obtain rt' where "progress\<^sup>*\<^sup>* rt1 rt'" "quiet rt'"
      using 1(1) [of rt1] progress_inv 1(2) by auto
    ultimately show ?thesis using converse_rtranclp_into_rtranclp [of progress] by blast
  qed
qed

section \<open>What jobs can do to the observatory\<close>

text \<open>Every call of the job relates the observatory before and after by \<open>R\<close>.\<close>

inductive job_within :: "('o \<Rightarrow> 'o \<Rightarrow> bool) \<Rightarrow> 'o job \<Rightarrow> bool" for R :: "'o \<Rightarrow> 'o \<Rightarrow> bool" where
  within_return: "job_within R (Job_Return r)"
| within_call: "(\<And>obs token. R obs (fst (f obs token))) \<Longrightarrow> (\<And>obs token. job_within R (snd (f obs token))) \<Longrightarrow>
    job_within R (Job_Call f)"

inductive_cases within_callE: "job_within R (Job_Call f)"

definition jobs_of :: "'o runtime \<Rightarrow> 'o job set" where
  "jobs_of rt = wi_job ` set (rt_queue rt) \<union> {j. Wk_Running j \<in> set (rt_workers rt)} \<union>
     {wi_job item | item. Wk_Taken item \<in> set (rt_workers rt)}"

fun worker_jobs :: "'o worker \<Rightarrow> 'o job set" where
  "worker_jobs (Wk_Running j) = {j}"
| "worker_jobs (Wk_Taken item) = {wi_job item}"
| "worker_jobs _ = {}"

lemma jobs_of_workers: "jobs_of rt = wi_job ` set (rt_queue rt) \<union> \<Union> (worker_jobs ` set (rt_workers rt))"
proof -
  have "\<Union> (worker_jobs ` W) = {j. Wk_Running j \<in> W} \<union> {wi_job item | item. Wk_Taken item \<in> W}" for W :: "'a worker set"
  proof (rule set_eqI)
    fix j
    show "j \<in> \<Union> (worker_jobs ` W) \<longleftrightarrow> j \<in> {j. Wk_Running j \<in> W} \<union> {wi_job item | item. Wk_Taken item \<in> W}"
    proof
      assume "j \<in> \<Union> (worker_jobs ` W)"
      then obtain w where "w \<in> W" "j \<in> worker_jobs w" by blast
      then show "j \<in> {j. Wk_Running j \<in> W} \<union> {wi_job item | item. Wk_Taken item \<in> W}"
        by (cases w) auto
    qed force
  qed
  then show ?thesis unfolding jobs_of_def by blast
qed

lemma jobs_of_fewer:
  assumes "set (rt_queue rt') \<subseteq> set (rt_queue rt)"
    and "\<And>w. w \<in> set (rt_workers rt') \<Longrightarrow> worker_jobs w \<noteq> {} \<Longrightarrow> w \<in> set (rt_workers rt)"
  shows "jobs_of rt' \<subseteq> jobs_of rt"
  using assms unfolding jobs_of_workers by blast

lemma set_tlD: "x \<in> set (tl xs) \<Longrightarrow> x \<in> set xs"
  by (cases xs) auto

lemma worker_loop_jobs:
  assumes "\<not> resting w" "w \<in> set (rt_workers rt)" "j \<in> jobs_of (worker_loop i w rt)"
  shows "j \<in> jobs_of rt \<or>
    (\<exists>f. w = Wk_Running (Job_Call f) \<and> j = snd (f (rt_observatory rt) (rt_token rt)))"
proof -
  consider "j \<in> wi_job ` set (rt_queue rt)" | v where "v \<in> set (rt_workers rt)" "j \<in> worker_jobs v"
    | "j \<in> worker_jobs (next_position w rt)"
    using assms(3) unfolding jobs_of_workers worker_loop_workers [OF assms(1)] worker_loop_queue
    by (auto dest!: mem_update dest: set_tlD split: if_splits)
  then show ?thesis
  proof cases
    case 3
    then show ?thesis
      using assms(2) unfolding jobs_of_workers
      by (cases w) (force simp: next_position_def split: list.splits job.splits if_splits)+
  qed (auto simp: jobs_of_workers)
qed

lemma worker_loop_observatory:
  "rt_observatory (worker_loop i w rt) =
     (case w of Wk_Running (Job_Call f) \<Rightarrow> fst (f (rt_observatory rt) (rt_token rt)) | _ \<Rightarrow> rt_observatory rt)"
  by (cases "(i, w, rt)" rule: worker_loop.cases) (auto simp: runtime_ops split: list.splits prod.splits)

lemma wake_workers_workers:
  "rt_workers (wake_workers rt) = map (\<lambda>w. case w of Wk_Asleep \<Rightarrow> Wk_Waiting | _ \<Rightarrow> w) (rt_workers rt)"
  by (simp add: wake_workers_def)

lemma frames_jobs:
  fixes rt :: "'o runtime"
  shows "jobs_of (wake_workers rt) = jobs_of rt" "jobs_of (rt\<lparr>rt_closer := k\<rparr>) = jobs_of rt"
  "jobs_of (rt\<lparr>rt_signals := n\<rparr>) = jobs_of rt" "jobs_of (rt\<lparr>rt_drainers := ds\<rparr>) = jobs_of rt"
  "jobs_of (rt\<lparr>rt_running := b\<rparr>) = jobs_of rt" "jobs_of (cancel rt) = jobs_of rt"
  "jobs_of (rt\<lparr>rt_stats := s\<rparr>) = jobs_of rt" "jobs_of (snd (drain rt)) = jobs_of rt"
proof -
  have "\<Union> (worker_jobs ` set (map (\<lambda>w. case w of Wk_Asleep \<Rightarrow> Wk_Waiting | _ \<Rightarrow> w) ws)) = \<Union> (worker_jobs ` set ws)"
    for ws :: "'o worker list" by (induction ws) (auto split: worker.splits)
  then show "jobs_of (wake_workers rt) = jobs_of rt"
    unfolding jobs_of_workers wake_workers_frame by (simp only: wake_workers_workers)
qed (simp_all add: jobs_of_def cancel_def drain_def)

lemma waiting_jobs: "jobs_of (set_worker i Wk_Waiting rt) \<subseteq> jobs_of rt"
  by (rule jobs_of_fewer) (auto simp: set_worker_def dest!: mem_update)

text \<open>A step keeps the jobs within \<open>R\<close> and does at most one thing that \<open>R\<close> allows.\<close>

definition confined :: "('o \<Rightarrow> 'o \<Rightarrow> bool) \<Rightarrow> 'o runtime \<Rightarrow> bool" where
  "confined R rt \<longleftrightarrow> (\<forall>j \<in> jobs_of rt. job_within R j)"

lemma progress_confined:
  "progress rt rt' \<Longrightarrow> confined R rt \<Longrightarrow>
     confined R rt' \<and> (rt_observatory rt' = rt_observatory rt \<or> R (rt_observatory rt) (rt_observatory rt'))"
proof (induction rule: progress.induct)
  case (pr_worker i rt)
  let ?w = "rt_workers rt ! i"
  have w: "?w \<in> set (rt_workers rt)" using pr_worker(1) by simp
  have call: "(\<forall>obs token. R obs (fst (f obs token))) \<and> (\<forall>obs token. job_within R (snd (f obs token)))"
    if "?w = Wk_Running (Job_Call f)" for f
  proof -
    have "Job_Call f \<in> jobs_of rt" using w that by (auto simp: jobs_of_def)
    then have "job_within R (Job_Call f)" using pr_worker(3) by (simp add: confined_def)
    then show ?thesis by (rule within_callE) simp
  qed
  have "job_within R j" if "j \<in> jobs_of (worker_loop i ?w rt)" for j
    using worker_loop_jobs [OF pr_worker(2) w that] pr_worker(3) call by (auto simp: confined_def)
  then show ?case
    using call by (auto simp: confined_def worker_loop_observatory split: worker.splits job.splits)
next
  case (pr_notify_one rt n i)
  then show ?case using waiting_jobs [of i "rt\<lparr>rt_signals := n\<rparr>"]
    by (auto simp: confined_def frames_jobs set_worker_def)
next
  case (pr_join rt)
  then show ?case by (auto simp: confined_def jobs_of_def)
qed (simp_all add: confined_def frames_jobs wake_workers_def [THEN arg_cong [where f = rt_observatory]])

lemma submit_jobs:
  "jobs_of (snd (submit job label rt)) \<subseteq> jobs_of rt \<union> set_option job"
proof -
  have "set (rt_queue (snd (submit job label rt))) \<subseteq> set (rt_queue rt) \<union> {item. Some (wi_job item) = job}"
    by (auto simp: submit_def on_stats_def Let_def dest: set_tlD split: option.splits)
  moreover have "rt_workers (snd (submit job label rt)) = rt_workers rt"
    by (auto simp: submit_def on_stats_def Let_def split: option.splits)
  ultimately show ?thesis unfolding jobs_of_def by auto
qed

lemma step_confined:
  "runtime_step (job_within R) rt rt' \<Longrightarrow> confined R rt \<Longrightarrow>
     confined R rt' \<and> (rt_observatory rt' = rt_observatory rt \<or> R (rt_observatory rt) (rt_observatory rt'))"
proof (induction rule: runtime_step.induct)
  case (rs_start rt)
  have "jobs_of (snd (start rt)) \<subseteq> jobs_of rt"
    by (rule jobs_of_fewer) (auto simp: start_def on_stats_def split: sum.splits if_splits)
  moreover have "rt_observatory (snd (start rt)) = rt_observatory rt"
    by (auto simp: start_def on_stats_def split: sum.splits)
  ultimately show ?case using rs_start by (auto simp: confined_def)
next
  case (rs_submit job rt label)
  then show ?case using submit_jobs [of job label rt]
    by (fastforce simp: confined_def submit_def on_stats_def Let_def split: option.splits)
next
  case (rs_shutdown rt discard)
  have "jobs_of (snd (shutdown discard rt)) \<subseteq> jobs_of rt"
    by (rule jobs_of_fewer) (auto simp: shutdown_def on_stats_def Let_def split: if_splits)
  then show ?case using rs_shutdown by (auto simp: confined_def shutdown_def on_stats_def Let_def)
next
  case (rs_spurious_worker i rt)
  then show ?case using waiting_jobs [of i rt] by (auto simp: confined_def set_worker_def)
next
  case (rs_progress rt rt')
  then show ?case by (simp add: progress_confined)
qed (simp_all add: confined_def frames_jobs, simp_all add: drain_def cancel_def)

lemma reach_confined:
  assumes "runtime_reach (job_within R) obs c rt"
  shows "confined R rt \<and> R\<^sup>*\<^sup>* obs (rt_observatory rt)"
  using assms
proof (induction rule: runtime_reach.induct)
  case rr_start
  show ?case by (simp add: confined_def jobs_of_def make_runtime_def)
next
  case (rr_step rt rt')
  then show ?case using step_confined [of R rt rt'] by (auto intro: rtranclp.rtrancl_into_rtrancl)
qed

section \<open>What the runtime needs of the state it shares\<close>

text \<open>
  A component whose single calls keep a property of its state: the only thing the runtime relies on,
  and all it needs to keep that property however the workers interleave.
\<close>

locale shared_state =
  fixes call :: "'o \<Rightarrow> 'o \<Rightarrow> bool" and good :: "'o \<Rightarrow> bool"
  assumes call_keeps: "good obs \<Longrightarrow> call obs obs' \<Longrightarrow> good obs'"
begin

lemma calls_keep: "call\<^sup>*\<^sup>* obs obs' \<Longrightarrow> good obs \<Longrightarrow> good obs'"
  by (induction rule: rtranclp_induct) (auto intro: call_keeps)

lemma runtime_keeps:
  "runtime_reach (job_within call) obs c rt \<Longrightarrow> good obs \<Longrightarrow> good (rt_observatory rt)"
  by (rule calls_keep [OF conjunct2 [OF reach_confined]])

end

section \<open>Properties\<close>

lemma step_config:
  "runtime_step allowed rt rt' \<Longrightarrow> rt_config rt' = rt_config rt"
proof (induction rule: runtime_step.induct)
  case (rs_progress rt rt')
  then show ?case
    by (induction rule: progress.induct) (simp_all add: worker_loop_frame set_worker_def)
qed (auto simp: start_def submit_def drain_def cancel_def shutdown_def on_stats_def set_worker_def Let_def
    split: sum.splits option.splits)

lemma reach_config: "runtime_reach allowed obs c rt \<Longrightarrow> rt_config rt = c"
  by (induction rule: runtime_reach.induct) (simp_all add: make_runtime_def step_config)

definition demo_config :: runtime_config where
  "demo_config = \<lparr>rc_worker_threads = 2, rc_queue_capacity = 4, rc_backpressure = Backpressure_Reject\<rparr>"

definition worker_turn :: "nat \<Rightarrow> 'o runtime \<Rightarrow> 'o runtime" where
  "worker_turn i rt = worker_loop i (rt_workers rt ! i) rt"

lemma turn_reach:
  "runtime_reach allowed obs c rt \<Longrightarrow> i < length (rt_workers rt) \<Longrightarrow> \<not> resting (rt_workers rt ! i) \<Longrightarrow>
     runtime_reach allowed obs c (worker_turn i rt)"
  unfolding worker_turn_def by (blast intro: rr_step rs_progress pr_worker)

text \<open>A runtime of two workers that is not asked to stop, with what is not at its initial value.\<close>

definition demo_state :: "unit worker list \<Rightarrow> unit work_item list \<Rightarrow> bool \<Rightarrow> u64 \<Rightarrow> runtime_stats \<Rightarrow> nat \<Rightarrow> unit runtime" where
  "demo_state ws q token n s k =
     \<lparr>rt_observatory = (), rt_config = demo_config, rt_workers = ws, rt_queue = q, rt_token = token,
      rt_running = True, rt_stopping = False, rt_in_flight = n, rt_stats = s, rt_signals = k,
      rt_drainers = [], rt_closer = Cl_None\<rparr>"

definition demo_item :: "unit work_item" where
  "demo_item = \<lparr>wi_job = Job_Return success, wi_label = ''demo''\<rparr>"

definition demo_stats :: "u64 \<Rightarrow> runtime_stats" where
  "demo_stats n = runtime_stats_init\<lparr>rs_submitted := n, rs_peak_queue_depth := n, rs_workers_started := 2\<rparr>"

lemma demo_small: "unat (2 :: u64) = 2" "unat (4 :: u64) = 4" "replicate 2 x = [x, x]"
  by (simp, simp, simp add: numeral_2_eq_2)

lemma demo_start: "snd (start (make_runtime () demo_config)) = demo_state [Wk_Waiting, Wk_Waiting] [] False 0 (demo_stats 0) 0"
  by (simp add: start_def make_runtime_def demo_config_def validate_runtime_config_def kMaxWorkerThreads_def
      kMaxQueueDepth_def on_stats_def demo_state_def demo_stats_def runtime_stats_init_def demo_small)

lemma demo_submit:
  "length q < 4 \<Longrightarrow> snd (submit (Some (Job_Return success)) ''demo'' (demo_state ws q token n (demo_stats k) j)) =
     demo_state ws (q @ [demo_item]) token n
       ((demo_stats (k + 1))\<lparr>rs_peak_queue_depth := max k (word_of_nat (length q + 1))\<rparr>) (j + 1)"
  unfolding submit_def Let_def
  by (simp add: demo_state_def demo_config_def on_stats_def demo_stats_def demo_item_def demo_small)

definition two_taken :: "unit runtime" where
  "two_taken = demo_state [Wk_Taken demo_item, Wk_Taken demo_item] [] False 2 (demo_stats 2) (Suc (Suc 0))"

lemma two_taken:
  "rt_workers two_taken = [Wk_Taken demo_item, Wk_Taken demo_item]" "rt_queue two_taken = []"
  "rt_in_flight two_taken = 2" "\<not> rt_token two_taken" "rt_running two_taken" "rt_stats two_taken = demo_stats 2"
  by (simp_all add: two_taken_def demo_state_def)

lemma two_taken_reach: "runtime_reach (\<lambda>_. True) () demo_config two_taken"
proof -
  let ?reach = "runtime_reach (\<lambda>_. True) () demo_config"
  have "?reach (demo_state [Wk_Waiting, Wk_Waiting] [] False 0 (demo_stats 0) 0)"
    using rr_step [OF rr_start rs_start] demo_start by metis
  from rr_step [OF this rs_submit [of "Some (Job_Return success)" _ _ "''demo''"]]
  have "?reach (demo_state [Wk_Waiting, Wk_Waiting] [demo_item] False 0 (demo_stats 1) 1)"
    by (simp add: demo_submit) (simp add: demo_stats_def runtime_stats_init_def)
  from rr_step [OF this rs_submit [of "Some (Job_Return success)" _ _ "''demo''"]]
  have "?reach (demo_state [Wk_Waiting, Wk_Waiting] [demo_item, demo_item] False 0 (demo_stats 2) (Suc (Suc 0)))"
    by (simp add: demo_submit) (simp add: demo_stats_def runtime_stats_init_def)
  then have "?reach (worker_turn 0 (demo_state [Wk_Waiting, Wk_Waiting] [demo_item, demo_item] False 0 (demo_stats 2) (Suc (Suc 0))))"
    by (rule turn_reach) (simp_all add: demo_state_def)
  then have "?reach (demo_state [Wk_Taken demo_item, Wk_Waiting] [demo_item] False 1 (demo_stats 2) (Suc (Suc 0)))"
    by (simp add: worker_turn_def worker_wait_def set_worker_def demo_state_def)
  then have "?reach (worker_turn 1 (demo_state [Wk_Taken demo_item, Wk_Waiting] [demo_item] False 1 (demo_stats 2) (Suc (Suc 0))))"
    by (rule turn_reach) (simp_all add: demo_state_def)
  then show ?thesis
    by (simp add: worker_turn_def worker_wait_def set_worker_def demo_state_def two_taken_def)
qed

text \<open>
  C29: The queue never holds more than its capacity and the recorded peak never exceeds it either;
  the work in flight is exactly the number of workers that hold a job, at most one each.
\<close>

lemma runtime_queue_bounded:
  assumes "runtime_reach allowed obs c rt"
  shows "length (rt_queue rt) \<le> unat (rs_peak_queue_depth (rt_stats rt)) \<and>
     rs_peak_queue_depth (rt_stats rt) \<le> rc_queue_capacity c \<and>
     unat (rt_in_flight rt) = length (filter busy (rt_workers rt)) \<and>
     length (rt_workers rt) \<le> unat (rc_worker_threads c)"
proof -
  have inv: "phase_inv rt" "flight_inv rt" "queue_inv rt"
    using runtime_reach_inv [OF assms] by (simp_all add: runtime_inv_def)
  have "length (rt_workers rt) \<le> unat (rc_worker_threads (rt_config rt))"
    using inv(1) unfolding phase_inv_def by (metis le0 le_refl list.size(3))
  moreover have "length (filter busy (rt_workers rt)) < 2 ^ 64"
    by (rule le_less_trans [OF length_filter_le]) (use few_workers [OF inv(1)] in simp)
  then have "unat (rt_in_flight rt) = length (filter busy (rt_workers rt))"
    using inv(2) by (simp add: flight_inv_def unat_of_nat take_bit_nat_eq_self)
  ultimately show ?thesis using inv(3) by (simp add: queue_inv_def reach_config [OF assms])
qed

lemma runtime_queue_bounded_witness:
  "length (filter busy (rt_workers two_taken)) = 2 \<and> rs_peak_queue_depth (rt_stats two_taken) \<le> 4"
  using runtime_queue_bounded [OF two_taken_reach] by (simp add: two_taken demo_config_def demo_stats_def)

text \<open>
  C28: As long as no cancellation was requested, every submission the runtime accepted is accounted for
  in its statistics: completed, dropped to make room, discarded by a shutdown, queued or in flight.
  When the runtime has stopped, the last two are zero. (The counters are words; the equation is the
  one of their arithmetic.)
\<close>

lemma accepted_work_accounted:
  assumes "runtime_reach allowed obs c rt" and "\<not> rt_token rt"
  shows "let s = stats audit rt
     in rs_submitted s = rs_completed s + rs_dropped_oldest s + rs_cancelled s + rs_queued_now s + rs_in_flight s \<and>
        (\<not> rt_running rt \<longrightarrow> rs_queued_now s = 0 \<and> rs_in_flight s = 0)"
proof -
  have inv: "phase_inv rt" "flight_inv rt" "account_inv rt"
    using runtime_reach_inv [OF assms(1)] by (simp_all add: runtime_inv_def)
  have "rt_queue rt = [] \<and> rt_in_flight rt = 0" if "\<not> rt_running rt"
    using inv(1,2) that by (simp add: phase_inv_def flight_inv_def)
  then show ?thesis using inv(3) assms(2) by (simp add: stats_def account_inv_def Let_def)
qed

lemma accepted_work_accounted_witness:
  "let s = stats audit_init two_taken in rs_submitted s = 2 \<and> rs_completed s = 0 \<and> rs_in_flight s = 2"
  using accepted_work_accounted [OF two_taken_reach two_taken(4), of audit_init]
  by (simp add: stats_def two_taken demo_stats_def runtime_stats_init_def Let_def)

text \<open>
  C7: No wakeup is lost and nothing waits for ever. From any reachable state the runtime's own steps
  (without new calls and without spurious wakeups) come to an end in whatever order they are
  scheduled, and where they end the queue is empty, no job is in flight, every \<open>drain\<close> and
  \<open>shutdown\<close> has returned and the workers that remain are asleep.
\<close>

lemma runtime_finishes_its_work:
  assumes "runtime_reach allowed obs c rt"
  shows "\<not> (\<exists>f. f 0 = rt \<and> (\<forall>n. progress (f n) (f (Suc n)))) \<and>
     (\<forall>rt'. progress\<^sup>*\<^sup>* rt rt' \<and> stuck rt' \<longrightarrow> quiet rt') \<and>
     (\<exists>rt'. progress\<^sup>*\<^sup>* rt rt' \<and> stuck rt')"
proof -
  have inv: "runtime_inv rt" by (rule runtime_reach_inv [OF assms])
  have finite: "\<not> (\<exists>f. f 0 = rt \<and> (\<forall>n. progress (f n) (f (Suc n))))"
    using progress_terminates unfolding wf_iff_no_infinite_down_chain by blast
  have "\<exists>rt'. progress\<^sup>*\<^sup>* rt rt' \<and> stuck rt'"
  proof (induction rt rule: wf_induct_rule [OF progress_terminates])
    case (1 rt)
    show ?case
    proof (cases "stuck rt")
      case False
      then obtain rt1 where "progress rt rt1" by (auto simp: stuck_def)
      moreover then obtain rt' where "progress\<^sup>*\<^sup>* rt1 rt'" "stuck rt'" using 1 [of rt1] by auto
      ultimately show ?thesis using converse_rtranclp_into_rtranclp [of progress] by blast
    qed blast
  qed
  then show ?thesis using finite stuck_quiet progress_reach inv by blast
qed

lemma runtime_finishes_its_work_witness:
  "\<exists>rt'. progress\<^sup>*\<^sup>* two_taken rt' \<and> quiet rt'"
  using runtime_finishes_its_work [OF two_taken_reach] by blast

text \<open>
  Cancelled jobs may be missing from the statistics: both workers read the counter before either
  stores it, because this increment alone is made without the queue's lock.
\<close>

lemma cancelled_count_can_be_lost:
  "\<exists>rt. runtime_reach (\<lambda>_. True) () demo_config rt \<and> rs_submitted (rt_stats rt) = 2 \<and>
     rs_completed (rt_stats rt) = 2 \<and> rs_cancelled (rt_stats rt) = 1"
proof -
  let ?reach = "runtime_reach (\<lambda>_. True) () demo_config"
  let ?stats = "\<lambda>m n. (demo_stats 2)\<lparr>rs_completed := m, rs_cancelled := n\<rparr>"
  note turn = worker_turn_def set_worker_def on_stats_def worker_finish_def wake_drainers_def idle_def Let_def
    demo_state_def demo_stats_def runtime_stats_init_def
  have "?reach (demo_state [Wk_Taken demo_item, Wk_Taken demo_item] [] True 2 (?stats 0 0) (Suc (Suc 0)))"
    using rr_step [OF two_taken_reach rs_cancel]
    by (simp add: cancel_def two_taken_def demo_state_def demo_stats_def runtime_stats_init_def)
  from turn_reach [OF this, of 0] have "?reach (demo_state [Wk_Cancelling 0, Wk_Taken demo_item] [] True 2 (?stats 0 0) (Suc (Suc 0)))"
    by (simp add: turn)
  from turn_reach [OF this, of 1] have "?reach (demo_state [Wk_Cancelling 0, Wk_Cancelling 0] [] True 2 (?stats 0 0) (Suc (Suc 0)))"
    by (simp add: turn)
  from turn_reach [OF this, of 0] have "?reach (demo_state [Wk_Finishing, Wk_Cancelling 0] [] True 2 (?stats 0 1) (Suc (Suc 0)))"
    by (simp add: turn)
  from turn_reach [OF this, of 1] have "?reach (demo_state [Wk_Finishing, Wk_Finishing] [] True 2 (?stats 0 1) (Suc (Suc 0)))"
    by (simp add: turn)
  from turn_reach [OF this, of 0] have "?reach (demo_state [Wk_Waiting, Wk_Finishing] [] True 1 (?stats 1 1) (Suc (Suc 0)))"
    by (simp add: turn)
  from turn_reach [OF this, of 1] have "?reach (demo_state [Wk_Waiting, Wk_Waiting] [] True 0 (?stats 2 1) (Suc (Suc 0)))"
    by (simp add: turn)
  then show ?thesis
    by (intro exI conjI, assumption) (simp_all add: demo_state_def demo_stats_def)
qed

end
