(* ===== verification/Runtime_Engine.thy ===== *)
theory Runtime_Engine
  imports Runtime_Progress Engine_Facts
begin

text \<open>
  The worker runtime over the observatory: jobs are programs of engine calls, and the locks that the
  two components take.
\<close>

section \<open>Jobs over the engine\<close>

definition engine_call :: "bool \<Rightarrow> observatory \<Rightarrow> observatory \<Rightarrow> bool" where
  "engine_call recovering ob ob' \<longleftrightarrow> ob' = ob \<or> engine_step recovering ob ob'"

interpretation engine: shared_state "engine_call recovering" "engine_reach recovering cfg"
  for recovering cfg
  by unfold_locales (auto simp: engine_call_def intro: reach_step)

section \<open>Locks\<close>

text \<open>
  The mutex of the runtime's queue and the one of the engine. Each call of the runtime is a sequence
  of critical sections of the queue's mutex; waiting on a condition variable leaves and re-enters
  one. A public operation of the engine is one section of the engine's mutex, and a worker runs its
  job outside every section of the queue's.
\<close>

definition queue_mutex :: mutex_id where "queue_mutex = 1"
definition engine_mutex :: mutex_id where "engine_mutex = 2"

datatype runtime_call =
    Rc_Start
  | Rc_Submit
  | Rc_Drain nat
  | Rc_Cancel
  | Rc_Shutdown bool
  | Rc_Stats
  | Rc_Engine
  | Rc_Take nat
  | Rc_Fail
  | Rc_Finish

fun call_sections :: "runtime_call \<Rightarrow> mutex_id list" where
  "call_sections Rc_Start = [queue_mutex]"
| "call_sections Rc_Submit = [queue_mutex]"
| "call_sections (Rc_Drain wakeups) = replicate (wakeups + 1) queue_mutex"
| "call_sections Rc_Cancel = []"
| "call_sections (Rc_Shutdown running) = (if running then [queue_mutex, queue_mutex] else [queue_mutex])"
| "call_sections Rc_Stats = [queue_mutex]"
| "call_sections Rc_Engine = [engine_mutex]"
| "call_sections (Rc_Take wakeups) = replicate (wakeups + 1) queue_mutex"
| "call_sections Rc_Fail = [queue_mutex]"
| "call_sections Rc_Finish = [queue_mutex]"

text \<open>The events of a thread that runs through such sections, contended or not.\<close>

fun in_sections :: "thread_id \<Rightarrow> mutex_id list \<Rightarrow> lock_event list \<Rightarrow> bool" where
  "in_sections t [] es \<longleftrightarrow> es = []"
| "in_sections t (m # ms) es \<longleftrightarrow>
     (case es of Lk_Lock t1 m1 free # Lk_Unlock t2 m2 # es' \<Rightarrow>
        t1 = t \<and> t2 = t \<and> m1 = m \<and> m2 = m \<and> in_sections t ms es'
      | _ \<Rightarrow> False)"

lemma in_sections_one_at_a_time: "in_sections t ms es \<Longrightarrow> one_at_a_time [] es"
proof (induction ms arbitrary: es)
  case (Cons m ms)
  then show ?case by (auto split: list.splits lock_event.splits)
qed simp

section \<open>Properties\<close>


definition initialize_job :: "observatory job" where
  "initialize_job = Job_Call (\<lambda>ob token. (snd (initialize ob), Job_Return (fst (initialize ob))))"

definition one_job_running :: "observatory runtime" where
  "one_job_running =
     snd (submit (Some initialize_job) ''initialize''
       (snd (start (make_runtime (make_observatory default_engine_config) default_runtime_config))))"

lemma one_job_reach:
  "runtime_reach (job_within (engine_call False)) (make_observatory default_engine_config) default_runtime_config
     one_job_running"
  unfolding one_job_running_def
  by (intro rr_step [OF _ rs_submit] rr_step [OF _ rs_start] rr_start)
    (auto simp: initialize_job_def engine_call_def intro!: within_call within_return step_initialize)


text \<open>
  No thread of the runtime ever holds two locks, and the auditor confirms it: for any threads
  that make calls of the runtime and run worker loops with engine jobs, in any interleaving of
  their lock events, the audit is free of violations.
\<close>

lemma runtime_locks_one_at_a_time:
  assumes "\<And>t. \<exists>calls. in_sections t (concat (map call_sections calls)) (events_of t es)" and "length es < 2 ^ 64"
  shows "violation_free (snapshot (audit_run es audit_init))"
proof -
  have "one_at_a_time [] (events_of t es)" for t
    using assms(1) [of t] in_sections_one_at_a_time by blast
  then have "never_nested (\<lambda>_. []) es" using never_nested_threads [of "\<lambda>_. []" es] by simp
  then show ?thesis
    using audit_run_exact [of audit_init es] assms(2)
    by (simp add: violation_free_violations violations_def audit_init_def audit_state_init_def)
qed

definition submit_and_work :: "lock_event list" where
  "submit_and_work =
     [Lk_Lock 0 queue_mutex True, Lk_Lock 1 queue_mutex False, Lk_Unlock 0 queue_mutex, Lk_Unlock 1 queue_mutex,
      Lk_Lock 1 engine_mutex True, Lk_Unlock 1 engine_mutex, Lk_Lock 1 queue_mutex True, Lk_Unlock 1 queue_mutex]"

lemma runtime_locks_one_at_a_time_witness:
  "violation_free (snapshot (audit_run submit_and_work audit_init))"
proof (rule runtime_locks_one_at_a_time)
  show "\<exists>calls. in_sections t (concat (map call_sections calls)) (events_of t submit_and_work)" for t
    by (rule exI [of _ "if t = 0 then [Rc_Submit] else if t = 1 then [Rc_Take 0, Rc_Engine, Rc_Finish] else []"])
      (auto simp: submit_and_work_def)
qed (simp add: submit_and_work_def)

end
