(* ===== verification/Transport.thy ===== *)
theory Transport
  imports Wire Record_Codec Engine
begin

text \<open>
  The ingest transport: \<^verbatim>\<open>include/jitter/transport.hpp\<close> and \<^verbatim>\<open>src/transport.cpp\<close>, over the two
  socket calls of \<^verbatim>\<open>src/platform/socket.cpp\<close> that move data. What the operating system answers to
  each \<^verbatim>\<open>recv\<close> and \<^verbatim>\<open>send\<close> is a script in the state of the socket, so every claim holds for every
  peer: what it sends, how its bytes are cut into pieces, when it stops and when a call fails. An
  exhausted script is a peer that has closed in order and accepts all that is sent.

  The context of an error is not modelled (Prelude); \<^verbatim>\<open>peer_closed\<close> is recognised by the message it
  comes with, which no other error has. The caller's context source is a function of the number of
  the call.
\<close>

fun error_code_number :: "error_code \<Rightarrow> u32" where
  "error_code_number Ec_Ok = 0"
| "error_code_number Ec_InvalidArgument = 1"
| "error_code_number Ec_OutOfRange = 2"
| "error_code_number Ec_Overflow = 3"
| "error_code_number Ec_NotFound = 4"
| "error_code_number Ec_Duplicate = 5"
| "error_code_number Ec_Conflict = 6"
| "error_code_number Ec_StaleEpoch = 7"
| "error_code_number Ec_StaleIncarnation = 8"
| "error_code_number Ec_StaleSequence = 9"
| "error_code_number Ec_StaleGeneration = 10"
| "error_code_number Ec_StaleEvidence = 11"
| "error_code_number Ec_Incomparable = 12"
| "error_code_number Ec_MetricMismatch = 13"
| "error_code_number Ec_UnitMismatch = 14"
| "error_code_number Ec_Unsupported = 15"
| "error_code_number Ec_PolicyViolation = 16"
| "error_code_number Ec_CapacityExceeded = 17"
| "error_code_number Ec_LimitExceeded = 18"
| "error_code_number Ec_IntegrityFailure = 19"
| "error_code_number Ec_VersionUnsupported = 20"
| "error_code_number Ec_Corrupt = 21"
| "error_code_number Ec_Cancelled = 22"
| "error_code_number Ec_ShuttingDown = 23"
| "error_code_number Ec_Backpressure = 24"
| "error_code_number Ec_ProtocolViolation = 25"
| "error_code_number Ec_IoFailure = 26"
| "error_code_number Ec_NoEvidence = 27"
| "error_code_number Ec_InsufficientEvidence = 28"
| "error_code_number Ec_NotReady = 29"
| "error_code_number Ec_Internal = 30"

section \<open>Sockets\<close>

text \<open>\<open>None\<close> is a failed system call; a \<^verbatim>\<open>recv\<close> of no bytes is the orderly close.\<close>

record socket =
  sk_recv :: "bytes option list"
  sk_send :: "nat option list"
  sk_delivered :: bytes

fun receive_some :: "nat \<Rightarrow> socket \<Rightarrow> bytes result \<times> socket" where
  "receive_some n sk =
     (if n = 0 then (fail Ec_InvalidArgument ''receive buffer is empty'', sk)
      else case sk_recv sk of
             [] \<Rightarrow> (Inr [], sk)
           | None # rs \<Rightarrow> (fail Ec_IoFailure ''socket receive failed'', sk\<lparr>sk_recv := rs\<rparr>)
           | Some bs # rs \<Rightarrow>
               (Inr (take n bs), sk\<lparr>sk_recv := (if length bs \<le> n then rs else Some (drop n bs) # rs)\<rparr>))"

text \<open>The loop of \<^verbatim>\<open>send_all\<close>: the answers it consumes, and what reached the peer.\<close>

fun send_loop :: "nat option list \<Rightarrow> bytes \<Rightarrow> status \<times> nat option list \<times> bytes" where
  "send_loop answers [] = (success, answers, [])"
| "send_loop [] data = (success, [], data)"
| "send_loop (None # answers) data = (fail Ec_IoFailure ''socket send failed'', answers, [])"
| "send_loop (Some written # answers) data =
     (if written = 0 then (fail Ec_IoFailure ''socket send reported zero bytes'', answers, [])
      else case send_loop answers (drop written data) of
             (st, rest, out) \<Rightarrow> (st, rest, take written data @ out))"

definition send_all :: "bytes \<Rightarrow> socket \<Rightarrow> status \<times> socket" where
  "send_all data sk =
     (case send_loop (sk_send sk) data of
        (st, answers, out) \<Rightarrow> (st, sk\<lparr>sk_send := answers, sk_delivered := sk_delivered sk @ out\<rparr>))"

section \<open>Frame streams\<close>

record frame_stream =
  fs_handle :: socket
  fs_buffer :: bytes
  fs_buffered_start :: nat
  fs_read_chunk :: nat
  fs_bytes_received :: u64
  fs_bytes_sent :: u64

definition make_frame_stream :: "socket \<Rightarrow> nat \<Rightarrow> frame_stream" where
  "make_frame_stream handle read_chunk =
     \<lparr>fs_handle = handle, fs_buffer = [], fs_buffered_start = 0,
      fs_read_chunk = (if read_chunk = 0 then 16384 else read_chunk), fs_bytes_received = 0, fs_bytes_sent = 0\<rparr>"

definition available :: "frame_stream \<Rightarrow> bytes" where
  "available fs = drop (fs_buffered_start fs) (fs_buffer fs)"

text \<open>A decoded frame leaves the buffer; the buffer is compacted when it is used up or long.\<close>

definition consume :: "nat \<Rightarrow> frame_stream \<Rightarrow> frame_stream" where
  "consume consumed fs =
     (let start = fs_buffered_start fs + consumed
      in if start = length (fs_buffer fs) then fs\<lparr>fs_buffer := [], fs_buffered_start := 0\<rparr>
         else if start > 65536 then fs\<lparr>fs_buffer := drop start (fs_buffer fs), fs_buffered_start := 0\<rparr>
         else fs\<lparr>fs_buffered_start := start\<rparr>)"

text \<open>One pass through the loop of \<^verbatim>\<open>read_frame\<close>: it returns, or it has received something.\<close>

definition receive_more :: "frame_stream \<Rightarrow> wire_frame result option \<times> frame_stream" where
  "receive_more fs =
     (if length (fs_buffer fs) - fs_buffered_start fs > kMaxWireFrameBytes
      then (Some (fail Ec_LimitExceeded ''peer exceeded the maximum frame size''), fs)
      else case receive_some (fs_read_chunk fs) (fs_handle fs) of
             (Inl e, sk) \<Rightarrow> (Some (Inl e), fs\<lparr>fs_handle := sk\<rparr>)
           | (Inr bs, sk) \<Rightarrow>
               if bs = [] then (Some (fail Ec_IoFailure ''peer closed the connection''), fs\<lparr>fs_handle := sk\<rparr>)
               else (None, fs\<lparr>fs_handle := sk, fs_bytes_received := fs_bytes_received fs + word_of_nat (length bs),
                              fs_buffer := fs_buffer fs @ bs\<rparr>))"

definition read_step :: "frame_stream \<Rightarrow> wire_frame result option \<times> frame_stream" where
  "read_step fs =
     (if length (fs_buffer fs) > fs_buffered_start fs
      then case decode_frame (available fs) of
             Inr (frame, consumed) \<Rightarrow> (Some (Inr frame), consume consumed fs)
           | Inl e \<Rightarrow> if err_code e \<noteq> Ec_NotReady then (Some (Inl e), fs) else receive_more fs
      else receive_more fs)"

text \<open>What the script still holds; every pass that goes on takes from it.\<close>

definition script_size :: "bytes option list \<Rightarrow> nat" where
  "script_size rs = (\<Sum>r\<leftarrow>rs. case r of None \<Rightarrow> 1 | Some bs \<Rightarrow> Suc (length bs))"

lemma receive_some_shrinks:
  "receive_some n sk = (Inr bs, sk') \<Longrightarrow> bs \<noteq> [] \<Longrightarrow> script_size (sk_recv sk') + length bs \<le> script_size (sk_recv sk)"
  by (auto simp: script_size_def split: if_splits list.splits option.splits)

lemma read_step_goes_on:
  assumes "read_step fs = (None, fs')"
  shows "script_size (sk_recv (fs_handle fs')) < script_size (sk_recv (fs_handle fs))"
proof -
  have "receive_more fs = (None, fs')"
    using assms by (auto simp: read_step_def split: if_splits sum.splits prod.splits)
  then obtain bs sk where r: "receive_some (fs_read_chunk fs) (fs_handle fs) = (Inr bs, sk)" "bs \<noteq> []" "fs_handle fs' = sk"
    by (auto simp: receive_more_def simp del: receive_some.simps split: if_splits sum.splits prod.splits)
  then show ?thesis using receive_some_shrinks [OF r(1,2)] by (cases bs) auto
qed

function read_frame :: "frame_stream \<Rightarrow> wire_frame result \<times> frame_stream" where
  "read_frame fs =
     (case read_step fs of
        (Some r, fs') \<Rightarrow> (r, fs')
      | (None, fs') \<Rightarrow> read_frame fs')"
  by pat_completeness auto
termination
  by (relation "measure (\<lambda>fs. script_size (sk_recv (fs_handle fs)))") (simp_all add: read_step_goes_on)

declare read_frame.simps [simp del]

definition write_frame :: "wire_message_type \<Rightarrow> bytes \<Rightarrow> frame_stream \<Rightarrow> status \<times> frame_stream" where
  "write_frame t payload fs =
     (let encoded = encode_frame t payload
      in case send_all encoded (fs_handle fs) of
           (Inl e, sk) \<Rightarrow> (Inl e, fs\<lparr>fs_handle := sk\<rparr>)
         | (Inr _, sk) \<Rightarrow>
             (success, fs\<lparr>fs_handle := sk, fs_bytes_sent := fs_bytes_sent fs + word_of_nat (length encoded)\<rparr>))"

section \<open>What reading does to the bytes\<close>

lemma available_consume: "available (consume n fs) = drop n (available fs)"
  by (auto simp: available_def consume_def Let_def add.commute)

lemma decode_frame_consumes:
  assumes "decode_frame bs = Inr (frame, n)"
  shows "kWireHeaderBytes \<le> n \<and> n \<le> length bs"
  using assms
  by (auto simp: decode_frame_def res_bind_eq_Inr Let_def not_less split: if_splits)

definition script_bytes :: "bytes option list \<Rightarrow> nat" where
  "script_bytes rs = (\<Sum>r\<leftarrow>rs. case r of None \<Rightarrow> 0 | Some bs \<Rightarrow> length bs)"

definition unread :: "frame_stream \<Rightarrow> nat" where
  "unread fs = length (available fs) + script_bytes (sk_recv (fs_handle fs))"

lemma receive_some_bytes:
  "receive_some n sk = (Inr bs, sk') \<Longrightarrow> length bs + script_bytes (sk_recv sk') = script_bytes (sk_recv sk)"
  by (auto simp: script_bytes_def split: if_splits list.splits option.splits)

lemma receive_some_error_bytes:
  "receive_some n sk = (Inl e, sk') \<Longrightarrow> script_bytes (sk_recv sk') = script_bytes (sk_recv sk)"
  by (auto simp: script_bytes_def split: if_splits list.splits option.splits)

lemma receive_more_unread: "receive_more fs = (r, fs') \<Longrightarrow> unread fs' \<le> unread fs"
  by (auto simp: receive_more_def unread_def available_def simp del: receive_some.simps
      dest!: receive_some_bytes receive_some_error_bytes split: if_splits sum.splits prod.splits)

lemma read_step_unread:
  assumes "read_step fs = (r, fs')"
  shows "unread fs' \<le> unread fs" and "r = Some (Inr frame) \<Longrightarrow> unread fs' < unread fs"
proof -
  have decoded: "unread (consume n fs) < unread fs" if "decode_frame (available fs) = Inr (f, n)" for f n
    using decode_frame_consumes [OF that] available_consume [of n fs]
    by (auto simp: unread_def consume_def Let_def kWireHeaderBytes_def)
  show "unread fs' \<le> unread fs"
    using assms decoded by (auto simp: read_step_def less_imp_le receive_more_unread split: if_splits sum.splits prod.splits)
  have "r \<noteq> Some (Inr frame)" if "receive_more fs = (r, fs')"
    using that by (auto simp: receive_more_def simp del: receive_some.simps split: if_splits sum.splits prod.splits)
  then show "r = Some (Inr frame) \<Longrightarrow> unread fs' < unread fs"
    using assms decoded by (auto simp: read_step_def split: if_splits sum.splits prod.splits)
qed

lemma read_frame_unread: "read_frame fs = (Inr frame, fs') \<Longrightarrow> unread fs' < unread fs"
proof (induction fs rule: read_frame.induct)
  case (1 fs)
  show ?case
  proof (cases "read_step fs")
    case (Pair r fs1)
    show ?thesis
    proof (cases r)
      case None
      have "unread fs' < unread fs1" using 1(1) [OF Pair [symmetric] None] 1(2) by (simp add: read_frame.simps [of fs] Pair None)
      then show ?thesis using read_step_unread(1) [OF Pair] by simp
    next
      case (Some x)
      then show ?thesis using read_step_unread(2) [OF Pair, of frame] 1(2) by (simp add: read_frame.simps [of fs] Pair)
    qed
  qed
qed

lemma write_frame_unread: "write_frame t p fs = (r, fs') \<Longrightarrow> unread fs' = unread fs"
  by (auto simp: write_frame_def send_all_def unread_def available_def Let_def split: prod.splits sum.splits)

section \<open>The server\<close>

record ingest_server_config =
  sc_bind_address :: string
  sc_port :: u16
  sc_max_batches_per_connection :: u64
  sc_require_hello :: bool
  sc_advertised_agent :: string

definition default_ingest_server_config :: ingest_server_config where
  "default_ingest_server_config =
     \<lparr>sc_bind_address = ''127.0.0.1'', sc_port = 0, sc_max_batches_per_connection = 1000000,
      sc_require_hello = True, sc_advertised_agent = ''jitter-observatory''\<rparr>"

record ingest_server_stats =
  is_connections_accepted :: u64
  is_connections_completed :: u64
  is_connections_failed :: u64
  is_hellos_accepted :: u64
  is_hellos_rejected :: u64
  is_frames_received :: u64
  is_frames_rejected :: u64
  is_batches_accepted :: u64
  is_batches_rejected :: u64
  is_samples_accepted :: u64
  is_samples_rejected :: u64
  is_bytes_received :: u64
  is_bytes_sent :: u64
  is_last_error :: string

definition ingest_server_stats_init :: ingest_server_stats where
  "ingest_server_stats_init =
     \<lparr>is_connections_accepted = 0, is_connections_completed = 0, is_connections_failed = 0,
      is_hellos_accepted = 0, is_hellos_rejected = 0, is_frames_received = 0, is_frames_rejected = 0,
      is_batches_accepted = 0, is_batches_rejected = 0, is_samples_accepted = 0, is_samples_rejected = 0,
      is_bytes_received = 0, is_bytes_sent = 0, is_last_error = []\<rparr>"

record ingest_server =
  sv_observatory :: observatory
  sv_config :: ingest_server_config
  sv_context_source :: "nat \<Rightarrow> ingest_context"
  sv_context_calls :: nat
  sv_listening :: bool
  sv_stats :: ingest_server_stats

definition make_ingest_server :: "observatory \<Rightarrow> ingest_server_config \<Rightarrow> (nat \<Rightarrow> ingest_context) \<Rightarrow> ingest_server" where
  "make_ingest_server ob c contexts =
     \<lparr>sv_observatory = ob, sv_config = c, sv_context_source = contexts, sv_context_calls = 0,
      sv_listening = False, sv_stats = ingest_server_stats_init\<rparr>"

definition server_stats :: "(ingest_server_stats \<Rightarrow> ingest_server_stats) \<Rightarrow> ingest_server \<Rightarrow> ingest_server" where
  "server_stats f sv = sv\<lparr>sv_stats := f (sv_stats sv)\<rparr>"

text \<open>The local variables of \<^verbatim>\<open>handle_connection\<close> with the server it runs on.\<close>

record connection =
  cn_stream :: frame_stream
  cn_hello_accepted :: bool
  cn_batches :: u64
  cn_server :: ingest_server

definition count_in :: "(ingest_server_stats \<Rightarrow> ingest_server_stats) \<Rightarrow> connection \<Rightarrow> connection" where
  "count_in f cn = cn\<lparr>cn_server := server_stats f (cn_server cn)\<rparr>"

definition record_bytes :: "connection \<Rightarrow> connection" where
  "record_bytes cn =
     count_in (\<lambda>s. s\<lparr>is_bytes_received := fs_bytes_received (cn_stream cn),
                      is_bytes_sent := fs_bytes_sent (cn_stream cn)\<rparr>) cn"

text \<open>The result of sending the error is discarded by every caller.\<close>

definition send_error :: "error_code \<Rightarrow> string \<Rightarrow> connection \<Rightarrow> connection" where
  "send_error code msg cn =
     cn\<lparr>cn_stream := snd (write_frame Wm_Error
            (enc_error_message \<lparr>em_code = error_code_text code, em_message = msg\<rparr>) (cn_stream cn))\<rparr>"

text \<open>An iteration of the loop returns (\<open>Some\<close> status) or continues (\<open>None\<close>).\<close>

definition reply :: "wire_message_type \<Rightarrow> bytes \<Rightarrow> connection \<Rightarrow> status option \<times> connection" where
  "reply t payload cn =
     (case write_frame t payload (cn_stream cn) of
        (Inl e, fs) \<Rightarrow> (Some (Inl e), cn\<lparr>cn_stream := fs\<rparr>)
      | (Inr _, fs) \<Rightarrow> (None, cn\<lparr>cn_stream := fs\<rparr>))"

definition hello_ack :: "hello_message \<Rightarrow> hello_ack_message" where
  "hello_ack hello =
     (let ok = hm_protocol_version hello = kWireProtocolVersion
      in \<lparr>hk_accepted = ok, hk_protocol_version = kWireProtocolVersion,
          hk_reason = (if ok then ''accepted'' else ''protocol_version_unsupported''),
          hk_max_frame_bytes = word_of_nat kMaxWireFrameBytes,
          hk_max_samples_per_batch = word_of_nat kMaxSamplesPerBatch\<rparr>)"

definition handle_hello :: "bytes \<Rightarrow> connection \<Rightarrow> status option \<times> connection" where
  "handle_hello payload cn =
     (case dec_hello payload of
        Inl e \<Rightarrow>
          (Some success,
           send_error (err_code e) (err_message e)
             (count_in (\<lambda>s. s\<lparr>is_frames_rejected := is_frames_rejected s + 1,
                              is_hellos_rejected := is_hellos_rejected s + 1\<rparr>) cn))
      | Inr (hello, _) \<Rightarrow>
          let ack = hello_ack hello
          in reply Wm_HelloAck (enc_hello_ack ack)
               ((count_in (\<lambda>s. if hk_accepted ack then s\<lparr>is_hellos_accepted := is_hellos_accepted s + 1\<rparr>
                               else s\<lparr>is_hellos_rejected := is_hellos_rejected s + 1\<rparr>) cn)
                  \<lparr>cn_hello_accepted := hk_accepted ack\<rparr>))"

definition batch_ack :: "latency_batch \<Rightarrow> ingest_outcome result \<Rightarrow> batch_ack_message" where
  "batch_ack b outcome =
     (case outcome of
        Inl e \<Rightarrow>
          \<lparr>bk_accepted = False, bk_reason_code = error_code_number (err_code e),
           bk_verdict = error_code_text (err_code e), bk_reason = err_message e, bk_accepted_samples = 0,
           bk_rejected_samples = word_of_nat (length (lb_samples b)), bk_window_retained = 0,
           bk_batch = lb_content b\<rparr>
      | Inr out \<Rightarrow>
          \<lparr>bk_accepted = io_admitted out, bk_reason_code = error_code_number Ec_Ok,
           bk_verdict = sequence_verdict_text (io_verdict out), bk_reason = io_reason out,
           bk_accepted_samples = io_accepted out, bk_rejected_samples = io_rejected out,
           bk_window_retained = io_window_retained out, bk_batch = lb_content b\<rparr>)"

definition count_batch :: "latency_batch \<Rightarrow> ingest_outcome result \<Rightarrow> ingest_server_stats \<Rightarrow> ingest_server_stats" where
  "count_batch b outcome s =
     (case outcome of
        Inr out \<Rightarrow>
          if io_admitted out
          then s\<lparr>is_batches_accepted := is_batches_accepted s + 1,
                 is_samples_accepted := is_samples_accepted s + io_accepted out\<rparr>
          else s\<lparr>is_batches_rejected := is_batches_rejected s + 1,
                 is_samples_rejected := is_samples_rejected s + word_of_nat (length (lb_samples b))\<rparr>
      | Inl _ \<Rightarrow>
          s\<lparr>is_batches_rejected := is_batches_rejected s + 1,
            is_samples_rejected := is_samples_rejected s + word_of_nat (length (lb_samples b))\<rparr>)"

definition server_ingest :: "latency_batch \<Rightarrow> ingest_server \<Rightarrow> ingest_outcome result \<times> ingest_server" where
  "server_ingest b sv =
     (case ingest b (sv_context_source sv (sv_context_calls sv)) (sv_observatory sv) of
        (outcome, ob) \<Rightarrow>
          (outcome,
           server_stats (count_batch b outcome)
             (sv\<lparr>sv_observatory := ob, sv_context_calls := sv_context_calls sv + 1\<rparr>)))"

definition handle_batch :: "bytes \<Rightarrow> connection \<Rightarrow> status option \<times> connection" where
  "handle_batch payload cn =
     (if \<not> cn_hello_accepted cn
      then (Some success,
            send_error Ec_ProtocolViolation ''a batch arrived before an accepted hello''
              (count_in (\<lambda>s. s\<lparr>is_frames_rejected := is_frames_rejected s + 1,
                               is_batches_rejected := is_batches_rejected s + 1\<rparr>) cn))
      else
        let cn1 = cn\<lparr>cn_batches := cn_batches cn + 1\<rparr>
        in if cn_batches cn1 > sc_max_batches_per_connection (sv_config (cn_server cn))
           then (Some success,
                 send_error Ec_LimitExceeded ''connection exceeded its batch budget''
                   (count_in (\<lambda>s. s\<lparr>is_batches_rejected := is_batches_rejected s + 1\<rparr>) cn1))
           else case dec_batch payload of
                  Inl e \<Rightarrow>
                    (Some success,
                     send_error (err_code e) (err_message e)
                       (count_in (\<lambda>s. s\<lparr>is_frames_rejected := is_frames_rejected s + 1,
                                        is_batches_rejected := is_batches_rejected s + 1\<rparr>) cn1))
                | Inr (b, _) \<Rightarrow>
                    (case server_ingest b (cn_server cn1) of
                       (outcome, sv) \<Rightarrow>
                         reply Wm_BatchAck (enc_batch_ack (batch_ack b outcome)) (cn1\<lparr>cn_server := sv\<rparr>)))"

definition handle_frame :: "wire_frame \<Rightarrow> connection \<Rightarrow> status option \<times> connection" where
  "handle_frame frame cn =
     (let cn1 = count_in (\<lambda>s. s\<lparr>is_frames_received := is_frames_received s + 1\<rparr>) cn
      in case wf_type frame of
           Wm_Bye \<Rightarrow> (Some success, record_bytes cn1)
         | Wm_Hello \<Rightarrow> handle_hello (wf_payload frame) cn1
         | Wm_Batch \<Rightarrow> handle_batch (wf_payload frame) cn1
         | _ \<Rightarrow>
             (Some success,
              send_error Ec_ProtocolViolation ''unexpected message type on an ingest connection''
                (count_in (\<lambda>s. s\<lparr>is_frames_rejected := is_frames_rejected s + 1\<rparr>) cn1)))"

lemma handle_frame_unread: "handle_frame frame cn = (r, cn') \<Longrightarrow> unread (cn_stream cn') = unread (cn_stream cn)"
proof -
  have frames: "cn_stream (count_in f cn) = cn_stream cn" "cn_stream (record_bytes cn) = cn_stream cn" for f cn
    by (simp_all add: count_in_def record_bytes_def)
  have sent: "unread (cn_stream (send_error c m cn)) = unread (cn_stream cn)" for c m cn
    using write_frame_unread by (simp add: send_error_def prod_eq_iff)
  have replied: "unread (cn_stream cn') = unread (cn_stream cn)" if "reply t p cn = (r, cn')" for t p cn r cn'
    using that write_frame_unread [of t p "cn_stream cn"]
    by (auto simp: reply_def split: prod.splits sum.splits)
  assume "handle_frame frame cn = (r, cn')"
  then show ?thesis
    by (auto simp: handle_frame_def handle_hello_def handle_batch_def Let_def frames sent dest!: replied
        split: wire_message_type.splits sum.splits prod.splits if_splits)
qed

function connection_loop :: "connection \<Rightarrow> status \<times> connection" where
  "connection_loop cn =
     (case read_frame (cn_stream cn) of
        (Inl e, fs) \<Rightarrow>
          (if err_message e = ''peer closed the connection'' then success else Inl e,
           record_bytes (cn\<lparr>cn_stream := fs\<rparr>))
      | (Inr frame, fs) \<Rightarrow>
          (case handle_frame frame (cn\<lparr>cn_stream := fs\<rparr>) of
             (Some st, cn') \<Rightarrow> (st, cn')
           | (None, cn') \<Rightarrow> connection_loop cn'))"
  by pat_completeness auto
termination
  by (relation "measure (\<lambda>cn. unread (cn_stream cn))")
    (auto dest!: read_frame_unread [OF sym] handle_frame_unread [OF sym])

declare connection_loop.simps [simp del]

definition handle_connection :: "socket \<Rightarrow> ingest_server \<Rightarrow> status \<times> connection" where
  "handle_connection handle sv =
     connection_loop
       \<lparr>cn_stream = make_frame_stream handle 16384, cn_hello_accepted = \<not> sc_require_hello (sv_config sv),
        cn_batches = 0, cn_server = sv\<rparr>"

text \<open>\<open>None\<close> is a missing context source; what \<^verbatim>\<open>listen_tcp\<close> and \<^verbatim>\<open>accept_one\<close> answer is an argument.\<close>

definition server_start :: "bool \<Rightarrow> status \<Rightarrow> ingest_server \<Rightarrow> status \<times> ingest_server" where
  "server_start has_context_source listened sv =
     (if \<not> has_context_source
      then (fail Ec_InvalidArgument ''ingest server requires an ingest context source'', sv)
      else if \<not> ob_initialized (sv_observatory sv)
      then (fail Ec_NotReady ''ingest server requires an initialised engine'', sv)
      else case listened of
             Inl e \<Rightarrow> (Inl e, sv)
           | Inr _ \<Rightarrow> (success, sv\<lparr>sv_listening := True\<rparr>))"

definition server_stop :: "ingest_server \<Rightarrow> ingest_server" where
  "server_stop sv = sv\<lparr>sv_listening := False\<rparr>"

definition serve_once :: "socket result \<Rightarrow> ingest_server \<Rightarrow> status \<times> ingest_server" where
  "serve_once peer sv =
     (if \<not> sv_listening sv then (fail Ec_NotReady ''ingest server is not listening'', sv)
      else case peer of
             Inl e \<Rightarrow>
               (Inl e, server_stats (\<lambda>s. s\<lparr>is_connections_failed := is_connections_failed s + 1,
                                          is_last_error := err_message e\<rparr>) sv)
           | Inr handle \<Rightarrow>
               (case handle_connection handle
                       (server_stats (\<lambda>s. s\<lparr>is_connections_accepted := is_connections_accepted s + 1\<rparr>) sv) of
                  (Inl e, cn) \<Rightarrow>
                    (Inl e, server_stats (\<lambda>s. s\<lparr>is_connections_failed := is_connections_failed s + 1,
                                               is_last_error := err_message e\<rparr>) (cn_server cn))
                | (Inr _, cn) \<Rightarrow>
                    (success, server_stats (\<lambda>s. s\<lparr>is_connections_completed := is_connections_completed s + 1\<rparr>)
                                (cn_server cn))))"

text \<open>One answer of \<^verbatim>\<open>accept_one\<close> for each of the \<^verbatim>\<open>max_connections\<close> rounds.\<close>

fun serve :: "socket result list \<Rightarrow> ingest_server \<Rightarrow> status \<times> ingest_server" where
  "serve [] sv = (success, sv)"
| "serve (peer # peers) sv =
     (case serve_once peer sv of
        (Inl e, sv') \<Rightarrow> (Inl e, sv')
      | (Inr _, sv') \<Rightarrow> serve peers sv')"

section \<open>The client\<close>

record ingest_client =
  cl_stream :: frame_stream
  cl_hello :: hello_message
  cl_ack :: "hello_ack_message option"
  cl_handshaken :: bool

definition client_connect :: "socket result \<Rightarrow> hello_message \<Rightarrow> ingest_client result" where
  "client_connect peer hello =
     res_bind peer (\<lambda>handle.
       Inr \<lparr>cl_stream = make_frame_stream handle 16384, cl_hello = hello, cl_ack = None, cl_handshaken = False\<rparr>)"

text \<open>A request and its answer; the frame that comes back is judged by the operation.\<close>

definition exchange :: "wire_message_type \<Rightarrow> bytes \<Rightarrow> ingest_client \<Rightarrow> wire_frame result \<times> ingest_client" where
  "exchange t payload cl =
     (case write_frame t payload (cl_stream cl) of
        (Inl e, fs) \<Rightarrow> (Inl e, cl\<lparr>cl_stream := fs\<rparr>)
      | (Inr _, fs) \<Rightarrow> (case read_frame fs of (r, fs') \<Rightarrow> (r, cl\<lparr>cl_stream := fs'\<rparr>)))"

definition handshake :: "ingest_client \<Rightarrow> hello_ack_message result \<times> ingest_client" where
  "handshake cl =
     (case exchange Wm_Hello (enc_hello (cl_hello cl)) cl of
        (Inl e, cl1) \<Rightarrow> (Inl e, cl1)
      | (Inr frame, cl1) \<Rightarrow>
          if wf_type frame = Wm_Error
          then (case dec_error_message (wf_payload frame) of
                  Inl e \<Rightarrow> (Inl e, cl1)
                | Inr (m, _) \<Rightarrow>
                    (fail Ec_ProtocolViolation (''server rejected the handshake: '' @ em_message m), cl1))
          else if wf_type frame \<noteq> Wm_HelloAck
          then (fail Ec_ProtocolViolation ''server did not acknowledge the handshake'', cl1)
          else (case dec_hello_ack (wf_payload frame) of
                  Inl e \<Rightarrow> (Inl e, cl1)
                | Inr (ack, _) \<Rightarrow> (Inr ack, cl1\<lparr>cl_ack := Some ack, cl_handshaken := hk_accepted ack\<rparr>)))"

definition send_batch :: "latency_batch \<Rightarrow> ingest_client \<Rightarrow> batch_ack_message result \<times> ingest_client" where
  "send_batch b cl =
     (if \<not> cl_handshaken cl
      then (fail Ec_NotReady ''client must complete its handshake before sending batches'', cl)
      else case exchange Wm_Batch (enc_batch b) cl of
             (Inl e, cl1) \<Rightarrow> (Inl e, cl1)
           | (Inr frame, cl1) \<Rightarrow>
               if wf_type frame \<noteq> Wm_BatchAck
               then (fail Ec_ProtocolViolation ''server did not acknowledge the batch'', cl1)
               else (case dec_batch_ack (wf_payload frame) of
                       Inl e \<Rightarrow> (Inl e, cl1)
                     | Inr (ack, _) \<Rightarrow> (Inr ack, cl1)))"

definition send_bye :: "u64 \<Rightarrow> u64 \<Rightarrow> ingest_client \<Rightarrow> bye_message result \<times> ingest_client" where
  "send_bye batches_sent batches_acknowledged cl =
     (let bye = \<lparr>ym_batches_sent = batches_sent, ym_batches_acknowledged = batches_acknowledged\<rparr>
      in case write_frame Wm_Bye (enc_bye bye) (cl_stream cl) of
           (Inl e, fs) \<Rightarrow> (Inl e, cl\<lparr>cl_stream := fs\<rparr>)
         | (Inr _, fs) \<Rightarrow> (Inr bye, cl\<lparr>cl_stream := fs\<rparr>))"

end
