(* ===== verification/Transport_Facts.thy ===== *)
theory Transport_Facts
  imports Transport Runtime_Engine
begin

text \<open>
  The transport against its contract. However the bytes of a sequence of frames are cut into pieces,
  the reader returns exactly those frames; so a connection is its frame handler folded over the
  frames, the server ingests the batches of a session in the order they were sent and answers each
  one, and the client reads those answers. Whatever a peer sends, the server does nothing to the
  engine but ingest decoded batches.
\<close>

section \<open>Reading frames from pieces\<close>

text \<open>A script without failures, whose end is the orderly close of the peer.\<close>

definition clean :: "bytes option list \<Rightarrow> bool" where
  "clean rs \<longleftrightarrow> (\<forall>r \<in> set rs. r \<noteq> None \<and> r \<noteq> Some [])"

definition script_data :: "bytes option list \<Rightarrow> bytes" where
  "script_data rs = concat (map (\<lambda>r. case r of None \<Rightarrow> [] | Some bs \<Rightarrow> bs) rs)"

definition stream_ok :: "frame_stream \<Rightarrow> bool" where
  "stream_ok fs \<longleftrightarrow>
     fs_buffered_start fs \<le> length (fs_buffer fs) \<and> fs_read_chunk fs \<noteq> 0 \<and> clean (sk_recv (fs_handle fs))"

definition pending :: "frame_stream \<Rightarrow> bytes" where
  "pending fs = available fs @ script_data (sk_recv (fs_handle fs))"

text \<open>Everything of a stream but what it has read.\<close>

definition same_sender :: "frame_stream \<Rightarrow> frame_stream \<Rightarrow> bool" where
  "same_sender fs fs' \<longleftrightarrow>
     sk_send (fs_handle fs') = sk_send (fs_handle fs) \<and>
     sk_delivered (fs_handle fs') = sk_delivered (fs_handle fs) \<and> fs_bytes_sent fs' = fs_bytes_sent fs"

lemma same_sender_refl [simp]: "same_sender fs fs"
  by (simp add: same_sender_def)

lemma same_sender_trans: "same_sender fs fs1 \<Longrightarrow> same_sender fs1 fs2 \<Longrightarrow> same_sender fs fs2"
  by (simp add: same_sender_def)

lemma receive_clean:
  assumes "clean (sk_recv sk)" "n \<noteq> 0"
  obtains bs sk' where "receive_some n sk = (Inr bs, sk')" "clean (sk_recv sk')"
    "bs @ script_data (sk_recv sk') = script_data (sk_recv sk)" "bs = [] \<longleftrightarrow> script_data (sk_recv sk) = []"
    "sk_send sk' = sk_send sk" "sk_delivered sk' = sk_delivered sk"
proof (cases "sk_recv sk")
  case Nil
  then show thesis using assms that [of "[]" sk] by (simp add: script_data_def clean_def)
next
  case (Cons r rs)
  then obtain bs where "r = Some bs" "bs \<noteq> []" using assms(1) by (cases r) (auto simp: clean_def)
  then show thesis
    using Cons assms that [of "take n bs" "sk\<lparr>sk_recv := (if length bs \<le> n then rs else Some (drop n bs) # rs)\<rparr>"]
    by (auto simp: clean_def script_data_def)
qed

lemma stream_ok_consume:
  assumes "stream_ok fs" "n \<le> length (available fs)"
  shows "stream_ok (consume n fs)" "pending (consume n fs) = drop n (available fs) @ script_data (sk_recv (fs_handle fs))"
    "same_sender fs (consume n fs)"
proof -
  show "stream_ok (consume n fs)" "same_sender fs (consume n fs)"
    using assms by (auto simp: stream_ok_def consume_def Let_def available_def same_sender_def)
  have "fs_handle (consume n fs) = fs_handle fs" by (auto simp: consume_def Let_def)
  then show "pending (consume n fs) = drop n (available fs) @ script_data (sk_recv (fs_handle fs))"
    by (simp add: pending_def available_consume)
qed

lemma receive_more_ok:
  assumes "stream_ok fs" "length (available fs) \<le> kMaxWireFrameBytes"
  obtains (more) fs' where "receive_more fs = (None, fs')" "stream_ok fs'" "pending fs' = pending fs" "same_sender fs fs'"
      "script_data (sk_recv (fs_handle fs)) \<noteq> []"
  | (finished) fs' where "receive_more fs = (Some (fail Ec_IoFailure ''peer closed the connection''), fs')"
      "script_data (sk_recv (fs_handle fs)) = []" "same_sender fs fs'"
proof -
  obtain bs sk where r: "receive_some (fs_read_chunk fs) (fs_handle fs) = (Inr bs, sk)" "clean (sk_recv sk)"
    "bs @ script_data (sk_recv sk) = script_data (sk_recv (fs_handle fs))"
    "bs = [] \<longleftrightarrow> script_data (sk_recv (fs_handle fs)) = []"
    "sk_send sk = sk_send (fs_handle fs)" "sk_delivered sk = sk_delivered (fs_handle fs)"
    using assms(1) receive_clean [of "fs_handle fs" "fs_read_chunk fs"] unfolding stream_ok_def by blast
  have small: "\<not> length (fs_buffer fs) - fs_buffered_start fs > kMaxWireFrameBytes"
    using assms(2) by (simp add: available_def)
  show thesis
  proof (cases "bs = []")
    case True
    show thesis
      by (rule finished [of "fs\<lparr>fs_handle := sk\<rparr>"])
        (use r True small in \<open>simp_all add: receive_more_def same_sender_def del: receive_some.simps\<close>)
  next
    case False
    let ?fs = "fs\<lparr>fs_handle := sk, fs_bytes_received := fs_bytes_received fs + word_of_nat (length bs),
                  fs_buffer := fs_buffer fs @ bs\<rparr>"
    show thesis
      by (rule more [of ?fs])
        (use r False small assms(1) in
          \<open>simp_all add: receive_more_def same_sender_def stream_ok_def pending_def available_def del: receive_some.simps\<close>)
  qed
qed

text \<open>Frames that fit whatever the arrival of their bytes; see \<open>legal_frame_refused\<close> below for the others.\<close>

definition frame_fits :: "bytes \<Rightarrow> bool" where
  "frame_fits p \<longleftrightarrow> kWireHeaderBytes + length p \<le> kMaxWireFrameBytes"

lemma frame_fits_payload: "frame_fits p \<Longrightarrow> payload_fits p"
  by (simp add: frame_fits_def payload_fits_def)

lemma length_encode_frame: "length (encode_frame t p) = kWireHeaderBytes + length p"
  by (simp add: encode_frame_def)

text \<open>The frame at the front is there as a whole, or the reader asks for more.\<close>

lemma read_step_next:
  assumes "stream_ok fs" "pending fs = encode_frame t p @ rest" "frame_fits p"
  obtains (frame) fs' where "read_step fs = (Some (Inr \<lparr>wf_type = t, wf_payload = p\<rparr>), fs')"
      "stream_ok fs'" "pending fs' = rest" "same_sender fs fs'"
  | (more) fs' where "read_step fs = (None, fs')" "stream_ok fs'" "pending fs' = encode_frame t p @ rest" "same_sender fs fs'"
proof (cases "length (encode_frame t p) \<le> length (available fs)")
  case True
  have avail: "available fs = encode_frame t p @ drop (length (encode_frame t p)) (available fs)"
    using assms(2) True unfolding pending_def by (metis append_eq_append_conv_if append_take_drop_id)
  then have dec: "decode_frame (available fs) = Inr (\<lparr>wf_type = t, wf_payload = p\<rparr>, length (encode_frame t p))"
    using decode_encode_frame [OF frame_fits_payload [OF assms(3)]] length_encode_frame by metis
  have nonempty: "length (fs_buffer fs) > fs_buffered_start fs"
    using True by (auto simp: available_def length_encode_frame kWireHeaderBytes_def)
  have "pending (consume (length (encode_frame t p)) fs) = rest"
    using stream_ok_consume(2) [OF assms(1) True] assms(2) avail unfolding pending_def
    by (metis append.assoc same_append_eq)
  then show thesis
    using frame stream_ok_consume(1,3) [OF assms(1) True] dec nonempty by (simp add: read_step_def)
next
  case False
  then have short: "length (available fs) < length (encode_frame t p)" by simp
  have prefix: "available fs = take (length (available fs)) (encode_frame t p)"
    using assms(2) short unfolding pending_def
    by (metis append_eq_append_conv_if append_eq_conv_conj le_eq_less_or_eq not_less)
  have "read_step fs = receive_more fs"
  proof (cases "length (fs_buffer fs) > fs_buffered_start fs")
    case True
    obtain m where "decode_frame (available fs) = fail Ec_NotReady m"
      using decode_frame_prefix [OF frame_fits_payload [OF assms(3)] short] prefix by metis
    then show ?thesis by (simp add: read_step_def)
  qed (simp add: read_step_def)
  moreover have "length (available fs) \<le> kMaxWireFrameBytes"
    using short assms(3) by (simp add: length_encode_frame frame_fits_def)
  moreover have "script_data (sk_recv (fs_handle fs)) \<noteq> []"
    using assms(2) short unfolding pending_def by (metis append_Nil2 le_add1 length_append not_less)
  ultimately show thesis
    using receive_more_ok [OF assms(1)] more assms(2) by metis
qed

lemma read_frame_next:
  assumes "stream_ok fs" "pending fs = encode_frame t p @ rest" "frame_fits p"
  obtains fs' where "read_frame fs = (Inr \<lparr>wf_type = t, wf_payload = p\<rparr>, fs')" "stream_ok fs'" "pending fs' = rest"
    "same_sender fs fs'"
proof -
  have "\<exists>fs'. read_frame fs = (Inr \<lparr>wf_type = t, wf_payload = p\<rparr>, fs') \<and> stream_ok fs' \<and> pending fs' = rest \<and>
    same_sender fs fs'"
    using assms(1,2)
  proof (induction fs rule: read_frame.induct)
    case (1 fs)
    from 1(2,3) assms(3) show ?case
    proof (cases rule: read_step_next)
      case (more fs1)
      then show ?thesis
        using 1(1) [OF more(1) [symmetric] refl more(2,3)] same_sender_trans by (auto simp: read_frame.simps [of fs])
    qed (auto simp: read_frame.simps [of fs])
  qed
  then show thesis using that by blast
qed

lemma read_frame_closed:
  assumes "stream_ok fs" "pending fs = []"
  obtains fs' where "read_frame fs = (fail Ec_IoFailure ''peer closed the connection'', fs')" "same_sender fs fs'"
proof -
  have empty: "available fs = []" "script_data (sk_recv (fs_handle fs)) = []"
    using assms(2) by (simp_all add: pending_def)
  have "read_step fs = receive_more fs"
    using empty(1) by (auto simp: read_step_def available_def)
  moreover from assms(1) empty(1) obtain fs' where
    "receive_more fs = (Some (fail Ec_IoFailure ''peer closed the connection''), fs')" "same_sender fs fs'"
    using receive_more_ok [OF assms(1)] empty by (metis list.size(3) le0)
  ultimately show thesis using that by (simp add: read_frame.simps [of fs])
qed

section \<open>Handling does not depend on the reader\<close>

definition same_reader :: "frame_stream \<Rightarrow> frame_stream \<Rightarrow> bool" where
  "same_reader fs fs' \<longleftrightarrow>
     fs_buffer fs' = fs_buffer fs \<and> fs_buffered_start fs' = fs_buffered_start fs \<and>
     fs_read_chunk fs' = fs_read_chunk fs \<and> sk_recv (fs_handle fs') = sk_recv (fs_handle fs)"

lemma same_reader_refl [simp]: "same_reader fs fs"
  by (simp add: same_reader_def)

lemma same_reader_ok:
  "same_reader fs fs' \<Longrightarrow> stream_ok fs' = stream_ok fs" "same_reader fs fs' \<Longrightarrow> pending fs' = pending fs"
  by (simp_all add: same_reader_def stream_ok_def pending_def available_def)

lemma write_frame_reader: "same_reader fs (snd (write_frame t p fs))"
  by (auto simp: write_frame_def send_all_def same_reader_def Let_def split: prod.splits sum.splits)

lemma write_frame_sender:
  "same_sender fs gs \<Longrightarrow>
     fst (write_frame t p gs) = fst (write_frame t p fs) \<and>
     same_sender (snd (write_frame t p fs)) (snd (write_frame t p gs))"
  by (auto simp: write_frame_def send_all_def same_sender_def Let_def split: prod.splits sum.splits)

text \<open>Connections that agree on all but what was read, and on the recorded count of it.\<close>

definition set_received :: "u64 \<Rightarrow> ingest_server \<Rightarrow> ingest_server" where
  "set_received n = server_stats (\<lambda>s. s\<lparr>is_bytes_received := n\<rparr>)"

definition same_connection :: "connection \<Rightarrow> connection \<Rightarrow> bool" where
  "same_connection cn cn' \<longleftrightarrow>
     cn_hello_accepted cn' = cn_hello_accepted cn \<and> cn_batches cn' = cn_batches cn \<and>
     (\<exists>n. cn_server cn' = set_received n (cn_server cn)) \<and> same_sender (cn_stream cn) (cn_stream cn')"

lemma set_received_frames [simp]:
  "sv_observatory (set_received n sv) = sv_observatory sv" "sv_config (set_received n sv) = sv_config sv"
  "sv_context_source (set_received n sv) = sv_context_source sv"
  "sv_context_calls (set_received n sv) = sv_context_calls sv"
  "set_received n (set_received m sv) = set_received n sv"
  by (simp_all add: set_received_def server_stats_def)

lemma set_received_same: "set_received (is_bytes_received (sv_stats sv)) sv = sv"
  by (simp add: set_received_def server_stats_def)

lemma set_received_ex: "\<exists>n. sv = set_received n sv"
  by (rule exI, rule set_received_same [symmetric])

lemma same_connection_refl [simp]: "same_connection cn cn"
  by (simp add: same_connection_def set_received_ex)

lemma same_connection_trans:
  "same_connection cn cn1 \<Longrightarrow> same_connection cn1 cn2 \<Longrightarrow> same_connection cn cn2"
  by (auto simp: same_connection_def intro: same_sender_trans)

lemma same_connection_sym: "same_connection cn cn' \<Longrightarrow> same_connection cn' cn"
  using set_received_ex [of "cn_server cn"] by (auto simp: same_connection_def same_sender_def)

text \<open>An update of the statistics that leaves the count of received bytes out.\<close>

definition ignores_received :: "(ingest_server_stats \<Rightarrow> ingest_server_stats) \<Rightarrow> bool" where
  "ignores_received f \<longleftrightarrow> (\<forall>s n. f (s\<lparr>is_bytes_received := n\<rparr>) = (f s)\<lparr>is_bytes_received := n\<rparr>)"

lemma ignores_received_counters:
  "ignores_received (\<lambda>s. s\<lparr>is_frames_received := is_frames_received s + 1\<rparr>)"
  "ignores_received (\<lambda>s. s\<lparr>is_frames_rejected := is_frames_rejected s + 1\<rparr>)"
  "ignores_received (\<lambda>s. s\<lparr>is_batches_rejected := is_batches_rejected s + 1\<rparr>)"
  "ignores_received (\<lambda>s. s\<lparr>is_frames_rejected := is_frames_rejected s + 1, is_hellos_rejected := is_hellos_rejected s + 1\<rparr>)"
  "ignores_received (\<lambda>s. s\<lparr>is_frames_rejected := is_frames_rejected s + 1, is_batches_rejected := is_batches_rejected s + 1\<rparr>)"
  "ignores_received (\<lambda>s. if b then s\<lparr>is_hellos_accepted := is_hellos_accepted s + 1\<rparr>
                          else s\<lparr>is_hellos_rejected := is_hellos_rejected s + 1\<rparr>)"
  "ignores_received (count_batch batch outcome)"
  by (simp_all add: ignores_received_def count_batch_def split: sum.split)

lemma server_stats_received:
  "ignores_received f \<Longrightarrow> server_stats f (set_received n sv) = set_received n (server_stats f sv)"
  by (simp add: ignores_received_def server_stats_def set_received_def)

lemma same_count_in:
  "same_connection cn cn' \<Longrightarrow> ignores_received f \<Longrightarrow> same_connection (count_in f cn) (count_in f cn')"
  by (auto simp: same_connection_def count_in_def server_stats_received)

lemma same_record_bytes:
  assumes "same_connection cn cn'"
  shows "same_connection (record_bytes cn) (record_bytes cn')"
proof -
  obtain n where n: "cn_server cn' = set_received n (cn_server cn)" using assms by (auto simp: same_connection_def)
  have sent: "fs_bytes_sent (cn_stream cn') = fs_bytes_sent (cn_stream cn)"
    using assms by (simp add: same_connection_def same_sender_def)
  have "cn_server (record_bytes cn') = set_received (fs_bytes_received (cn_stream cn')) (cn_server (record_bytes cn))"
    using n sent by (simp add: record_bytes_def count_in_def server_stats_def set_received_def)
  then show ?thesis using assms by (auto simp: same_connection_def record_bytes_def count_in_def)
qed

lemma same_send_error: "same_connection cn cn' \<Longrightarrow> same_connection (send_error c m cn) (send_error c m cn')"
  using write_frame_sender by (auto simp: same_connection_def send_error_def)

lemma same_reply:
  assumes "same_connection cn cn'"
  shows "fst (reply t p cn') = fst (reply t p cn) \<and> same_connection (snd (reply t p cn)) (snd (reply t p cn'))"
proof -
  have "fst (write_frame t p (cn_stream cn')) = fst (write_frame t p (cn_stream cn))"
    "same_sender (snd (write_frame t p (cn_stream cn))) (snd (write_frame t p (cn_stream cn')))"
    using write_frame_sender assms unfolding same_connection_def by blast+
  then show ?thesis
    using assms by (simp add: reply_def same_connection_def split: prod.split sum.split) auto
qed

lemma same_server_ingest:
  "server_ingest b (set_received n sv) = apsnd (set_received n) (server_ingest b sv)"
  using ignores_received_counters(7)
  by (simp add: server_ingest_def server_stats_def ignores_received_def set_received_def split: prod.split)

lemma same_connectionD:
  assumes "same_connection cn cn'"
  shows "cn_hello_accepted cn' = cn_hello_accepted cn" "cn_batches cn' = cn_batches cn"
    "sv_config (cn_server cn') = sv_config (cn_server cn)"
  using assms by (auto simp: same_connection_def)

lemma same_handle_hello:
  assumes "same_connection cn cn'"
  shows "fst (handle_hello p cn') = fst (handle_hello p cn) \<and>
     same_connection (snd (handle_hello p cn)) (snd (handle_hello p cn'))"
proof (cases "dec_hello p")
  case (Inl e)
  then show ?thesis
    by (simp add: handle_hello_def same_send_error same_count_in assms ignores_received_counters)
next
  case (Inr r)
  obtain hello rest where r: "r = (hello, rest)" by (cases r)
  let ?count = "\<lambda>s. if hk_accepted (hello_ack hello) then s\<lparr>is_hellos_accepted := is_hellos_accepted s + 1\<rparr>
                               else s\<lparr>is_hellos_rejected := is_hellos_rejected s + 1\<rparr>"
  have "same_connection (count_in ?count cn) (count_in ?count cn')"
    by (rule same_count_in [OF assms ignores_received_counters(6)])
  then have "same_connection ((count_in ?count cn)\<lparr>cn_hello_accepted := h\<rparr>) ((count_in ?count cn')\<lparr>cn_hello_accepted := h\<rparr>)" for h
    by (simp add: same_connection_def)
  from same_reply [OF this] show ?thesis
    unfolding handle_hello_def Inr r Let_def by simp
qed

lemma same_handle_batch:
  assumes "same_connection cn cn'"
  shows "fst (handle_batch p cn') = fst (handle_batch p cn) \<and>
     same_connection (snd (handle_batch p cn)) (snd (handle_batch p cn'))"
proof -
  let ?next = "\<lambda>cn. cn\<lparr>cn_batches := cn_batches cn + 1\<rparr>"
  have same: "same_connection (?next cn) (?next cn')" using assms by (simp add: same_connection_def)
  have ingested: "fst (server_ingest b (cn_server cn')) = fst (server_ingest b (cn_server cn)) \<and>
      same_connection ((?next cn)\<lparr>cn_server := snd (server_ingest b (cn_server cn))\<rparr>)
        ((?next cn')\<lparr>cn_server := snd (server_ingest b (cn_server cn'))\<rparr>)" for b
    using assms by (auto simp: same_connection_def same_server_ingest)
  consider (early) "\<not> cn_hello_accepted cn" | (budget) "cn_hello_accepted cn"
      "cn_batches cn + 1 > sc_max_batches_per_connection (sv_config (cn_server cn))"
    | (garbled) e where "cn_hello_accepted cn"
      "\<not> cn_batches cn + 1 > sc_max_batches_per_connection (sv_config (cn_server cn))" "dec_batch p = Inl e"
    | (batch) b rest where "cn_hello_accepted cn"
      "\<not> cn_batches cn + 1 > sc_max_batches_per_connection (sv_config (cn_server cn))" "dec_batch p = Inr (b, rest)"
    by (metis obj_sumE surj_pair)
  then show ?thesis
  proof cases
    case early
    then show ?thesis
      unfolding handle_batch_def same_connectionD [OF assms]
      by (simp add: same_send_error same_count_in ignores_received_counters assms)
  next
    case budget
    have "handle_batch p c = (Some success, send_error Ec_LimitExceeded ''connection exceeded its batch budget''
        (count_in (\<lambda>s. s\<lparr>is_batches_rejected := is_batches_rejected s + 1\<rparr>) (?next c)))"
      if "cn_hello_accepted c" "cn_batches c + 1 > sc_max_batches_per_connection (sv_config (cn_server c))" for c
      using that by (simp add: handle_batch_def Let_def)
    from this [of cn] this [of cn'] show ?thesis
      using budget same_connectionD [OF assms] same_send_error [OF same_count_in [OF same ignores_received_counters(3)]]
      by simp
  next
    case garbled
    have "handle_batch p c = (Some success, send_error (err_code e) (err_message e)
        (count_in (\<lambda>s. s\<lparr>is_frames_rejected := is_frames_rejected s + 1,
                         is_batches_rejected := is_batches_rejected s + 1\<rparr>) (?next c)))"
      if "cn_hello_accepted c" "\<not> cn_batches c + 1 > sc_max_batches_per_connection (sv_config (cn_server c))" for c
      using that garbled(3) by (simp add: handle_batch_def Let_def)
    from this [of cn] this [of cn'] show ?thesis
      using garbled(1,2) same_connectionD [OF assms] same_send_error [OF same_count_in [OF same ignores_received_counters(5)]]
      by simp
  next
    case batch
    have replied: "fst (reply t q ((?next cn')\<lparr>cn_server := snd (server_ingest b (cn_server cn'))\<rparr>)) =
        fst (reply t q ((?next cn)\<lparr>cn_server := snd (server_ingest b (cn_server cn))\<rparr>)) \<and>
      same_connection (snd (reply t q ((?next cn)\<lparr>cn_server := snd (server_ingest b (cn_server cn))\<rparr>)))
        (snd (reply t q ((?next cn')\<lparr>cn_server := snd (server_ingest b (cn_server cn'))\<rparr>)))" for t q
      by (rule same_reply) (use ingested in blast)
    have step: "handle_batch p c = reply Wm_BatchAck (enc_batch_ack (batch_ack b (fst (server_ingest b (cn_server c)))))
        ((?next c)\<lparr>cn_server := snd (server_ingest b (cn_server c))\<rparr>)"
      if "cn_hello_accepted c" "\<not> cn_batches c + 1 > sc_max_batches_per_connection (sv_config (cn_server c))" for c
      using that batch(3) by (simp add: handle_batch_def Let_def split: prod.split)
    show ?thesis
      using replied step [of cn] step [of cn'] batch(1,2) ingested [of b] same_connectionD [OF assms] by simp
  qed
qed

lemma same_handle_frame:
  assumes "same_connection cn cn'"
  shows "fst (handle_frame f cn') = fst (handle_frame f cn) \<and>
     same_connection (snd (handle_frame f cn)) (snd (handle_frame f cn'))"
proof -
  let ?count = "count_in (\<lambda>s. s\<lparr>is_frames_received := is_frames_received s + 1\<rparr>)"
  have same: "same_connection (?count cn) (?count cn')"
    by (rule same_count_in [OF assms ignores_received_counters(1)])
  then show ?thesis
    using same_handle_hello [OF same] same_handle_batch [OF same] same_record_bytes [OF same]
      same_send_error same_count_in ignores_received_counters
    by (simp add: handle_frame_def Let_def split: wire_message_type.split)
qed

section \<open>A connection is its handler folded over the frames\<close>

fun handle_frames :: "wire_frame list \<Rightarrow> connection \<Rightarrow> status \<times> connection" where
  "handle_frames [] cn = (success, record_bytes cn)"
| "handle_frames (f # fs) cn =
     (case handle_frame f cn of
        (Some st, cn') \<Rightarrow> (st, cn')
      | (None, cn') \<Rightarrow> handle_frames fs cn')"

definition wire_of :: "wire_frame list \<Rightarrow> bytes" where
  "wire_of fs = concat (map (\<lambda>f. encode_frame (wf_type f) (wf_payload f)) fs)"

lemma wire_of_simps [simp]:
  "wire_of [] = []" "wire_of (f # fs) = encode_frame (wf_type f) (wf_payload f) @ wire_of fs"
  "wire_of (fs @ gs) = wire_of fs @ wire_of gs"
  by (simp_all add: wire_of_def)

lemma frame_eta: "\<lparr>wf_type = wf_type f, wf_payload = wf_payload f\<rparr> = (f :: wire_frame)"
  by simp

lemma handle_frame_reader: "same_reader (cn_stream cn) (cn_stream (snd (handle_frame f cn)))"
proof -
  have frames: "cn_stream (count_in g cn) = cn_stream cn" "cn_stream (record_bytes cn) = cn_stream cn" for g cn
    by (simp_all add: count_in_def record_bytes_def)
  have sent: "same_reader (cn_stream cn) (cn_stream (send_error c m cn))" for c m cn
    by (simp add: send_error_def write_frame_reader)
  have replied: "same_reader (cn_stream cn) (cn_stream (snd (reply t p cn)))" for t p cn
    using write_frame_reader [of "cn_stream cn" t p]
    by (cases "write_frame t p (cn_stream cn)") (simp add: reply_def split: sum.split)
  have sent': "same_reader (cn_stream cn) (cn_stream (send_error c m cn1))" if "cn_stream cn1 = cn_stream cn" for c m cn1
    using sent [of cn1] that by simp
  have replied': "same_reader (cn_stream cn) (cn_stream (snd (reply t p cn1)))" if "cn_stream cn1 = cn_stream cn" for t p cn1
    using replied [of cn1] that by simp
  show ?thesis
    by (simp add: handle_frame_def handle_hello_def handle_batch_def Let_def frames sent' replied'
        split: wire_message_type.split sum.split prod.split)
qed

lemma connection_loop_frames:
  assumes "stream_ok (cn_stream cn)" "pending (cn_stream cn) = wire_of fs" "\<forall>f \<in> set fs. frame_fits (wf_payload f)"
    and "same_connection ab cn"
  shows "fst (connection_loop cn) = fst (handle_frames fs ab) \<and>
    same_connection (snd (handle_frames fs ab)) (snd (connection_loop cn))"
  using assms
proof (induction fs arbitrary: cn ab)
  case Nil
  then have "pending (cn_stream cn) = []" by simp
  with Nil.prems(1) obtain fs' where r: "read_frame (cn_stream cn) = (fail Ec_IoFailure ''peer closed the connection'', fs')"
    "same_sender (cn_stream cn) fs'" by (rule read_frame_closed)
  have "same_connection ab (cn\<lparr>cn_stream := fs'\<rparr>)"
    using Nil.prems(4) r(2) by (auto simp: same_connection_def intro: same_sender_trans)
  then show ?case by (simp add: connection_loop.simps [of cn] r(1) same_record_bytes)
next
  case (Cons f fs)
  have "pending (cn_stream cn) = encode_frame (wf_type f) (wf_payload f) @ wire_of fs" "frame_fits (wf_payload f)"
    using Cons.prems(2,3) by simp_all
  with Cons.prems(1) obtain st where r: "read_frame (cn_stream cn) = (Inr \<lparr>wf_type = wf_type f, wf_payload = wf_payload f\<rparr>, st)"
    "stream_ok st" "pending st = wire_of fs" "same_sender (cn_stream cn) st" by (rule read_frame_next)
  let ?cn = "cn\<lparr>cn_stream := st\<rparr>"
  have same: "same_connection ab ?cn"
    using Cons.prems(4) r(4) by (auto simp: same_connection_def intro: same_sender_trans)
  obtain q cn1 where h: "handle_frame f ?cn = (q, cn1)" by (cases "handle_frame f ?cn")
  obtain ab1 where ha: "handle_frame f ab = (q, ab1)" "same_connection ab1 cn1"
    using same_handle_frame [OF same, of f] h by (cases "handle_frame f ab") simp
  have "stream_ok (cn_stream cn1)" "pending (cn_stream cn1) = wire_of fs"
    using same_reader_ok [OF handle_frame_reader [of ?cn f]] h r(2,3) by simp_all
  then have "q = None \<Longrightarrow> fst (connection_loop cn1) = fst (handle_frames fs ab1) \<and>
      same_connection (snd (handle_frames fs ab1)) (snd (connection_loop cn1))"
    using Cons.IH [of cn1 ab1] Cons.prems(3) ha(2) by simp
  then show ?case
    using h ha by (cases q) (simp_all add: connection_loop.simps [of cn] r(1) [unfolded frame_eta])
qed

section \<open>Sessions\<close>

text \<open>A peer that takes everything it is sent.\<close>

lemma write_frame_taken:
  assumes "sk_send (fs_handle fs) = []"
  obtains fs' where "write_frame t p fs = (success, fs')" "sk_send (fs_handle fs') = []"
    "sk_delivered (fs_handle fs') = sk_delivered (fs_handle fs) @ encode_frame t p" "same_reader fs fs'"
proof
  have "encode_frame t p \<noteq> []" using length_encode_frame [of t p] by (auto simp: kWireHeaderBytes_def)
  then have loop: "send_loop [] (encode_frame t p) = (success, [], encode_frame t p)"
    by (cases "encode_frame t p") simp_all
  let ?fs = "fs\<lparr>fs_handle := (fs_handle fs)\<lparr>sk_send := [], sk_delivered := sk_delivered (fs_handle fs) @ encode_frame t p\<rparr>,
                fs_bytes_sent := fs_bytes_sent fs + word_of_nat (length (encode_frame t p))\<rparr>"
  show "write_frame t p fs = (success, ?fs)" using loop assms by (simp add: write_frame_def send_all_def Let_def)
qed (simp_all add: same_reader_def)

lemma reply_taken:
  assumes "sk_send (fs_handle (cn_stream cn)) = []"
  obtains fs where "reply t p cn = (None, cn\<lparr>cn_stream := fs\<rparr>)" "sk_send (fs_handle fs) = []"
    "sk_delivered (fs_handle fs) = sk_delivered (fs_handle (cn_stream cn)) @ encode_frame t p"
proof -
  obtain fs where "write_frame t p (cn_stream cn) = (success, fs)" "sk_send (fs_handle fs) = []"
    "sk_delivered (fs_handle fs) = sk_delivered (fs_handle (cn_stream cn)) @ encode_frame t p"
    using write_frame_taken [OF assms] by blast
  then show thesis using that by (simp add: reply_def)
qed

text \<open>The ingests of a list of batches, with their outcomes.\<close>

fun ingest_all :: "latency_batch list \<Rightarrow> ingest_server \<Rightarrow> ingest_outcome result list \<times> ingest_server" where
  "ingest_all [] sv = ([], sv)"
| "ingest_all (b # bs) sv =
     (case server_ingest b sv of
        (outcome, sv1) \<Rightarrow> (case ingest_all bs sv1 of (outcomes, sv2) \<Rightarrow> (outcome # outcomes, sv2)))"

fun engine_ingests :: "(latency_batch \<times> ingest_context) list \<Rightarrow> observatory \<Rightarrow> ingest_outcome result list \<times> observatory" where
  "engine_ingests [] ob = ([], ob)"
| "engine_ingests ((b, ctx) # bs) ob =
     (case ingest b ctx ob of
        (outcome, ob1) \<Rightarrow> (case engine_ingests bs ob1 of (outcomes, ob2) \<Rightarrow> (outcome # outcomes, ob2)))"

text \<open>The batches paired with the contexts the server draws for them.\<close>

definition with_contexts :: "latency_batch list \<Rightarrow> ingest_server \<Rightarrow> (latency_batch \<times> ingest_context) list" where
  "with_contexts bs sv =
     zip bs (map (\<lambda>i. sv_context_source sv (sv_context_calls sv + i)) [0..<length bs])"

lemma with_contexts_Cons:
  "with_contexts (b # bs) sv = (b, sv_context_source sv (sv_context_calls sv)) #
     with_contexts bs (sv\<lparr>sv_context_calls := sv_context_calls sv + 1\<rparr>)"
  by (simp add: with_contexts_def upt_conv_Cons map_Suc_upt [symmetric] o_def del: upt_Suc map_Suc_upt)

lemma ingest_all_engine:
  "ingest_all bs sv = (outcomes, sv') \<Longrightarrow>
     engine_ingests (with_contexts bs sv) (sv_observatory sv) = (outcomes, sv_observatory sv') \<and>
     length outcomes = length bs"
proof (induction bs arbitrary: sv outcomes)
  case (Cons b bs)
  obtain o1 ob1 where i: "ingest b (sv_context_source sv (sv_context_calls sv)) (sv_observatory sv) = (o1, ob1)"
    by (meson surj_pair)
  let ?sv = "server_stats (count_batch b o1) (sv\<lparr>sv_observatory := ob1, sv_context_calls := sv_context_calls sv + 1\<rparr>)"
  obtain os where os: "ingest_all bs ?sv = (os, sv')" "outcomes = o1 # os"
    using Cons.prems i by (auto simp: server_ingest_def split: prod.splits)
  have "with_contexts bs ?sv = with_contexts bs (sv\<lparr>sv_context_calls := sv_context_calls sv + 1\<rparr>)"
    by (simp add: with_contexts_def server_stats_def)
  moreover have "sv_observatory ?sv = ob1" by (simp add: server_stats_def)
  ultimately show ?case using Cons.IH [OF os(1)] i os(2) by (simp add: with_contexts_Cons)
qed (simp add: with_contexts_def)

definition batch_frames :: "latency_batch list \<Rightarrow> wire_frame list" where
  "batch_frames bs = map (\<lambda>b. \<lparr>wf_type = Wm_Batch, wf_payload = enc_batch b\<rparr>) bs"

definition ack_bytes :: "latency_batch list \<Rightarrow> ingest_outcome result list \<Rightarrow> bytes" where
  "ack_bytes bs outcomes =
     concat (map (\<lambda>(b, r). encode_frame Wm_BatchAck (enc_batch_ack (batch_ack b r))) (zip bs outcomes))"

text \<open>One accepted batch of a session.\<close>

lemma handle_batch_frame:
  assumes "cn_hello_accepted cn" "sk_send (fs_handle (cn_stream cn)) = []" "batch_wf b"
    and "cn_batches cn < sc_max_batches_per_connection (sv_config (cn_server cn))"
    and "ingest b (sv_context_source (cn_server cn) (sv_context_calls (cn_server cn))) (sv_observatory (cn_server cn)) = (outcome, ob)"
  obtains cn' where "handle_frame \<lparr>wf_type = Wm_Batch, wf_payload = enc_batch b\<rparr> cn = (None, cn')"
    "cn_hello_accepted cn'" "cn_batches cn' = cn_batches cn + 1" "sk_send (fs_handle (cn_stream cn')) = []"
    "sk_delivered (fs_handle (cn_stream cn')) =
       sk_delivered (fs_handle (cn_stream cn)) @ encode_frame Wm_BatchAck (enc_batch_ack (batch_ack b outcome))"
    "sv_observatory (cn_server cn') = ob" "sv_config (cn_server cn') = sv_config (cn_server cn)"
    "sv_context_source (cn_server cn') = sv_context_source (cn_server cn)"
    "sv_context_calls (cn_server cn') = sv_context_calls (cn_server cn) + 1"
proof -
  let ?count = "count_in (\<lambda>s. s\<lparr>is_frames_received := is_frames_received s + 1\<rparr>) cn"
  let ?sv = "snd (server_ingest b (cn_server ?count))"
  let ?cn = "?count\<lparr>cn_batches := cn_batches cn + 1, cn_server := ?sv\<rparr>"
  have fields: "cn_hello_accepted ?count" "cn_batches ?count = cn_batches cn" "cn_stream ?count = cn_stream cn"
    "sv_config (cn_server ?count) = sv_config (cn_server cn)"
    using assms(1) by (simp_all add: count_in_def server_stats_def)
  have ing: "server_ingest b (cn_server ?count) = (outcome, ?sv)" "sv_observatory ?sv = ob"
    "sv_config ?sv = sv_config (cn_server cn)" "sv_context_source ?sv = sv_context_source (cn_server cn)"
    "sv_context_calls ?sv = sv_context_calls (cn_server cn) + 1"
    using assms(5) by (simp_all add: server_ingest_def count_in_def server_stats_def)
  have dec: "dec_batch (enc_batch b) = Inr (b, [])" by (rule batch_codec.dec_enc_exact [OF assms(3)])
  have budget: "(sc_max_batches_per_connection (sv_config (cn_server cn)) < cn_batches cn + 1) = False"
    using inc_le [OF assms(4)] by (simp add: not_less)
  have step: "handle_frame \<lparr>wf_type = Wm_Batch, wf_payload = enc_batch b\<rparr> cn =
      reply Wm_BatchAck (enc_batch_ack (batch_ack b outcome)) ?cn"
    by (simp add: handle_frame_def handle_batch_def Let_def fields budget dec) (subst ing(1), simp)
  have "sk_send (fs_handle (cn_stream ?cn)) = []" using assms(2) fields(3) by simp
  then obtain fs where "reply Wm_BatchAck (enc_batch_ack (batch_ack b outcome)) ?cn = (None, ?cn\<lparr>cn_stream := fs\<rparr>)"
    "sk_send (fs_handle fs) = []" "sk_delivered (fs_handle fs) = sk_delivered (fs_handle (cn_stream ?cn)) @
      encode_frame Wm_BatchAck (enc_batch_ack (batch_ack b outcome))" by (rule reply_taken)
  then show thesis using step fields ing by (intro that [of "?cn\<lparr>cn_stream := fs\<rparr>"]) simp_all
qed

definition bye_frame :: "bye_message \<Rightarrow> wire_frame" where
  "bye_frame y = \<lparr>wf_type = Wm_Bye, wf_payload = enc_bye y\<rparr>"

lemma handle_bye: "handle_frame (bye_frame y) cn =
    (Some success, record_bytes (count_in (\<lambda>s. s\<lparr>is_frames_received := is_frames_received s + 1\<rparr>) cn))"
  by (simp add: handle_frame_def bye_frame_def Let_def)

lemma handle_batches:
  assumes "cn_hello_accepted cn" "sk_send (fs_handle (cn_stream cn)) = []" "\<forall>b \<in> set bs. batch_wf b"
    and "unat (cn_batches cn) + length bs \<le> unat (sc_max_batches_per_connection (sv_config (cn_server cn)))"
    and "engine_ingests (with_contexts bs (cn_server cn)) (sv_observatory (cn_server cn)) = (outcomes, ob)"
  shows "\<exists>cn'. handle_frames (batch_frames bs @ [bye_frame y]) cn = (success, cn') \<and> sv_observatory (cn_server cn') = ob \<and>
    sk_delivered (fs_handle (cn_stream cn')) = sk_delivered (fs_handle (cn_stream cn)) @ ack_bytes bs outcomes"
  using assms
proof (induction bs arbitrary: cn outcomes)
  case Nil
  then show ?case
    by (simp add: batch_frames_def handle_bye record_bytes_def count_in_def server_stats_def with_contexts_def ack_bytes_def)
next
  case (Cons b bs)
  obtain r ob1 where i: "ingest b (sv_context_source (cn_server cn) (sv_context_calls (cn_server cn))) (sv_observatory (cn_server cn)) = (r, ob1)"
    by (meson surj_pair)
  obtain rs where rs: "outcomes = r # rs"
    "engine_ingests (with_contexts bs ((cn_server cn)\<lparr>sv_context_calls := sv_context_calls (cn_server cn) + 1\<rparr>)) ob1 = (rs, ob)"
    using Cons.prems(5) i by (auto simp: with_contexts_Cons split: prod.splits)
  have room: "cn_batches cn < sc_max_batches_per_connection (sv_config (cn_server cn))" "batch_wf b"
    using Cons.prems(3,4) by (simp_all add: word_less_nat_alt)
  obtain cn1 where c: "handle_frame \<lparr>wf_type = Wm_Batch, wf_payload = enc_batch b\<rparr> cn = (None, cn1)"
    "cn_hello_accepted cn1" "cn_batches cn1 = cn_batches cn + 1" "sk_send (fs_handle (cn_stream cn1)) = []"
    "sk_delivered (fs_handle (cn_stream cn1)) =
       sk_delivered (fs_handle (cn_stream cn)) @ encode_frame Wm_BatchAck (enc_batch_ack (batch_ack b r))"
    "sv_observatory (cn_server cn1) = ob1" "sv_config (cn_server cn1) = sv_config (cn_server cn)"
    "sv_context_source (cn_server cn1) = sv_context_source (cn_server cn)"
    "sv_context_calls (cn_server cn1) = sv_context_calls (cn_server cn) + 1"
    by (rule handle_batch_frame [OF Cons.prems(1,2) room(2,1) i])
  have "unat (cn_batches cn1) = unat (cn_batches cn) + 1"
    unfolding c(3)
    by (rule unat_inc, rule le_less_trans [of _ "unat (sc_max_batches_per_connection (sv_config (cn_server cn)))"])
      (use room(1) unsigned_less [of "sc_max_batches_per_connection (sv_config (cn_server cn))"] in
        \<open>simp_all add: word_less_nat_alt\<close>)
  then have count: "unat (cn_batches cn1) + length bs \<le> unat (sc_max_batches_per_connection (sv_config (cn_server cn1)))"
    using Cons.prems(4) c(7) by simp
  have "with_contexts bs (cn_server cn1) = with_contexts bs ((cn_server cn)\<lparr>sv_context_calls := sv_context_calls (cn_server cn) + 1\<rparr>)"
    using c(8,9) by (simp add: with_contexts_def)
  then have "engine_ingests (with_contexts bs (cn_server cn1)) (sv_observatory (cn_server cn1)) = (rs, ob)"
    using rs(2) c(6) by simp
  from Cons.IH [OF c(2,4) _ count this] Cons.prems(3) obtain cn' where
    "handle_frames (batch_frames bs @ [bye_frame y]) cn1 = (success, cn')" "sv_observatory (cn_server cn') = ob"
    "sk_delivered (fs_handle (cn_stream cn')) = sk_delivered (fs_handle (cn_stream cn1)) @ ack_bytes bs rs" by auto
  then show ?case using c(1,5) rs(1) by (simp add: batch_frames_def ack_bytes_def)
qed

definition hello_frame :: "hello_message \<Rightarrow> wire_frame" where
  "hello_frame h = \<lparr>wf_type = Wm_Hello, wf_payload = enc_hello h\<rparr>"

lemma handle_hello_frame:
  assumes "sk_send (fs_handle (cn_stream cn)) = []" "str_ok (hm_agent h)" "hm_protocol_version h = kWireProtocolVersion"
  obtains cn' where "handle_frame (hello_frame h) cn = (None, cn')" "cn_hello_accepted cn'" "cn_batches cn' = cn_batches cn"
    "sk_send (fs_handle (cn_stream cn')) = []"
    "sk_delivered (fs_handle (cn_stream cn')) =
       sk_delivered (fs_handle (cn_stream cn)) @ encode_frame Wm_HelloAck (enc_hello_ack (hello_ack h))"
    "sv_observatory (cn_server cn') = sv_observatory (cn_server cn)" "sv_config (cn_server cn') = sv_config (cn_server cn)"
    "sv_context_source (cn_server cn') = sv_context_source (cn_server cn)"
    "sv_context_calls (cn_server cn') = sv_context_calls (cn_server cn)"
proof -
  have dec: "dec_hello (enc_hello h) = Inr (h, [])" by (rule hello_codec.dec_enc_exact [OF assms(2)])
  have ok: "hk_accepted (hello_ack h)" using assms(3) by (simp add: hello_ack_def Let_def)
  let ?cn = "(count_in (\<lambda>s. if hk_accepted (hello_ack h) then s\<lparr>is_hellos_accepted := is_hellos_accepted s + 1\<rparr>
                               else s\<lparr>is_hellos_rejected := is_hellos_rejected s + 1\<rparr>)
      (count_in (\<lambda>s. s\<lparr>is_frames_received := is_frames_received s + 1\<rparr>) cn))\<lparr>cn_hello_accepted := hk_accepted (hello_ack h)\<rparr>"
  have step: "handle_frame (hello_frame h) cn = reply Wm_HelloAck (enc_hello_ack (hello_ack h)) ?cn"
    by (simp add: handle_frame_def hello_frame_def handle_hello_def dec Let_def)
  have "sk_send (fs_handle (cn_stream ?cn)) = []" using assms(1) by (simp add: count_in_def)
  then obtain fs where "reply Wm_HelloAck (enc_hello_ack (hello_ack h)) ?cn = (None, ?cn\<lparr>cn_stream := fs\<rparr>)"
    "sk_send (fs_handle fs) = []" "sk_delivered (fs_handle fs) = sk_delivered (fs_handle (cn_stream ?cn)) @
      encode_frame Wm_HelloAck (enc_hello_ack (hello_ack h))" by (rule reply_taken)
  then show thesis using step ok by (intro that [of "?cn\<lparr>cn_stream := fs\<rparr>"]) (simp_all add: count_in_def server_stats_def)
qed

definition session_frames :: "hello_message \<Rightarrow> latency_batch list \<Rightarrow> bye_message \<Rightarrow> wire_frame list" where
  "session_frames h bs y = hello_frame h # batch_frames bs @ [bye_frame y]"

definition opened :: "socket \<Rightarrow> ingest_server \<Rightarrow> connection" where
  "opened sk sv =
     \<lparr>cn_stream = make_frame_stream sk 16384, cn_hello_accepted = \<not> sc_require_hello (sv_config sv),
      cn_batches = 0, cn_server = sv\<rparr>"

lemma handle_connection_opened: "handle_connection sk sv = connection_loop (opened sk sv)"
  by (simp add: handle_connection_def opened_def)

lemma opened_stream:
  "clean (sk_recv sk) \<Longrightarrow> stream_ok (cn_stream (opened sk sv))"
  "pending (cn_stream (opened sk sv)) = script_data (sk_recv sk)"
  by (simp_all add: opened_def make_frame_stream_def stream_ok_def pending_def available_def)

lemma handle_connection_frames:
  assumes "clean (sk_recv sk)" "script_data (sk_recv sk) = wire_of fs" "\<forall>f \<in> set fs. frame_fits (wf_payload f)"
    and "same_connection ab (opened sk sv)"
  shows "fst (handle_connection sk sv) = fst (handle_frames fs ab) \<and>
    same_connection (snd (handle_frames fs ab)) (snd (handle_connection sk sv))"
  unfolding handle_connection_opened using assms
  by (intro connection_loop_frames) (simp_all add: opened_stream)

lemma session_serves:
  assumes "clean (sk_recv sk)" "script_data (sk_recv sk) = wire_of (session_frames h bs y)" "sk_send sk = []"
    and "\<forall>f \<in> set (session_frames h bs y). frame_fits (wf_payload f)"
    and "str_ok (hm_agent h)" "hm_protocol_version h = kWireProtocolVersion" "\<forall>b \<in> set bs. batch_wf b"
    and "length bs \<le> unat (sc_max_batches_per_connection (sv_config sv))"
    and "engine_ingests (with_contexts bs sv) (sv_observatory sv) = (outcomes, ob)"
  obtains cn where "handle_connection sk sv = (success, cn)" "sv_observatory (cn_server cn) = ob"
    "sk_delivered (fs_handle (cn_stream cn)) =
       sk_delivered sk @ encode_frame Wm_HelloAck (enc_hello_ack (hello_ack h)) @ ack_bytes bs outcomes"
proof -
  let ?cn = "opened sk sv"
  have send: "sk_send (fs_handle (cn_stream ?cn)) = []" using assms(3) by (simp add: opened_def make_frame_stream_def)
  obtain cn1 where c: "handle_frame (hello_frame h) ?cn = (None, cn1)" "cn_hello_accepted cn1" "cn_batches cn1 = cn_batches ?cn"
    "sk_send (fs_handle (cn_stream cn1)) = []"
    "sk_delivered (fs_handle (cn_stream cn1)) =
       sk_delivered (fs_handle (cn_stream ?cn)) @ encode_frame Wm_HelloAck (enc_hello_ack (hello_ack h))"
    "sv_observatory (cn_server cn1) = sv_observatory (cn_server ?cn)" "sv_config (cn_server cn1) = sv_config (cn_server ?cn)"
    "sv_context_source (cn_server cn1) = sv_context_source (cn_server ?cn)"
    "sv_context_calls (cn_server cn1) = sv_context_calls (cn_server ?cn)"
    by (rule handle_hello_frame [OF send assms(5,6)])
  have "with_contexts bs (cn_server cn1) = with_contexts bs sv"
    using c(8,9) by (simp add: with_contexts_def opened_def)
  then have ing: "engine_ingests (with_contexts bs (cn_server cn1)) (sv_observatory (cn_server cn1)) = (outcomes, ob)"
    using assms(9) c(6) by (simp add: opened_def)
  have "unat (cn_batches cn1) + length bs \<le> unat (sc_max_batches_per_connection (sv_config (cn_server cn1)))"
    using assms(8) c(3,7) by (simp add: opened_def)
  from handle_batches [OF c(2,4) assms(7) this ing, of y] obtain cn2 where
    r: "handle_frames (session_frames h bs y) ?cn = (success, cn2)" "sv_observatory (cn_server cn2) = ob"
    "sk_delivered (fs_handle (cn_stream cn2)) = sk_delivered (fs_handle (cn_stream cn1)) @ ack_bytes bs outcomes"
    using c(1) by (auto simp: session_frames_def)
  have same: "fst (handle_connection sk sv) = success" "same_connection cn2 (snd (handle_connection sk sv))"
    using handle_connection_frames [OF assms(1,2,4) same_connection_refl, of sv] r(1) by simp_all
  have "sv_observatory (cn_server (snd (handle_connection sk sv))) = ob"
    using same(2) r(2) by (auto simp: same_connection_def)
  moreover have "sk_delivered (fs_handle (cn_stream (snd (handle_connection sk sv)))) =
      sk_delivered sk @ encode_frame Wm_HelloAck (enc_hello_ack (hello_ack h)) @ ack_bytes bs outcomes"
    using same(2) r(3) c(5) by (simp add: same_connection_def same_sender_def opened_def make_frame_stream_def)
  ultimately show thesis
    using that [of "snd (handle_connection sk sv)"] same(1) by (metis prod.collapse)
qed

section \<open>The client reads the answers\<close>

definition client_ready :: "ingest_client \<Rightarrow> bytes \<Rightarrow> bytes \<Rightarrow> bool" where
  "client_ready cl answers sent \<longleftrightarrow>
     stream_ok (cl_stream cl) \<and> pending (cl_stream cl) = answers \<and> sk_send (fs_handle (cl_stream cl)) = [] \<and>
     sk_delivered (fs_handle (cl_stream cl)) = sent"

lemma exchange_ready:
  assumes "client_ready cl (encode_frame t' p' @ rest) sent" "frame_fits p'"
  obtains cl' where "exchange t p cl = (Inr \<lparr>wf_type = t', wf_payload = p'\<rparr>, cl')"
    "client_ready cl' rest (sent @ encode_frame t p)" "cl_hello cl' = cl_hello cl" "cl_handshaken cl' = cl_handshaken cl"
proof -
  obtain fs where w: "write_frame t p (cl_stream cl) = (success, fs)" "sk_send (fs_handle fs) = []"
    "sk_delivered (fs_handle fs) = sk_delivered (fs_handle (cl_stream cl)) @ encode_frame t p" "same_reader (cl_stream cl) fs"
    using assms(1) by (auto simp: client_ready_def intro: write_frame_taken [of "cl_stream cl" t p])
  have "stream_ok fs" "pending fs = encode_frame t' p' @ rest"
    using assms(1) same_reader_ok [OF w(4)] by (simp_all add: client_ready_def)
  then obtain fs' where "read_frame fs = (Inr \<lparr>wf_type = t', wf_payload = p'\<rparr>, fs')" "stream_ok fs'" "pending fs' = rest"
    "same_sender fs fs'" using read_frame_next assms(2) by blast
  then show thesis
    using w assms(1) by (intro that [of "cl\<lparr>cl_stream := fs'\<rparr>"]) (simp_all add: exchange_def client_ready_def same_sender_def)
qed

lemma handshake_ready:
  assumes "client_ready cl (encode_frame Wm_HelloAck (enc_hello_ack a) @ rest) sent" "str_ok (hk_reason a)"
    and "frame_fits (enc_hello_ack a)"
  obtains cl' where "handshake cl = (Inr a, cl')" "client_ready cl' rest (sent @ encode_frame Wm_Hello (enc_hello (cl_hello cl)))"
    "cl_handshaken cl' = hk_accepted a"
proof -
  obtain cl1 where "exchange Wm_Hello (enc_hello (cl_hello cl)) cl = (Inr \<lparr>wf_type = Wm_HelloAck, wf_payload = enc_hello_ack a\<rparr>, cl1)"
    "client_ready cl1 rest (sent @ encode_frame Wm_Hello (enc_hello (cl_hello cl)))"
    using exchange_ready [OF assms(1,3)] by blast
  then show thesis
    using hello_ack_codec.dec_enc_exact [OF assms(2)]
    by (intro that [of "cl1\<lparr>cl_ack := Some a, cl_handshaken := hk_accepted a\<rparr>"]) (simp_all add: handshake_def client_ready_def)
qed

fun send_batches :: "latency_batch list \<Rightarrow> ingest_client \<Rightarrow> batch_ack_message result list \<times> ingest_client" where
  "send_batches [] cl = ([], cl)"
| "send_batches (b # bs) cl =
     (case send_batch b cl of (r, cl1) \<Rightarrow> (case send_batches bs cl1 of (rs, cl2) \<Rightarrow> (r # rs, cl2)))"

definition ack_ok :: "batch_ack_message \<Rightarrow> bool" where
  "ack_ok a \<longleftrightarrow> str_ok (bk_verdict a) \<and> str_ok (bk_reason a) \<and> frame_fits (enc_batch_ack a)"

lemma send_batches_ready:
  assumes "client_ready cl (ack_bytes bs outcomes @ rest) sent" "cl_handshaken cl" "length outcomes = length bs"
    and "\<forall>(b, r) \<in> set (zip bs outcomes). ack_ok (batch_ack b r)"
  shows "\<exists>cl'. send_batches bs cl = (map (\<lambda>(b, r). Inr (batch_ack b r)) (zip bs outcomes), cl') \<and>
    client_ready cl' rest (sent @ wire_of (batch_frames bs))"
  using assms
proof (induction bs arbitrary: cl outcomes sent)
  case Nil
  then show ?case by (simp add: ack_bytes_def batch_frames_def)
next
  case (Cons b bs)
  then obtain r rs where rs: "outcomes = r # rs" by (cases outcomes) auto
  let ?a = "batch_ack b r"
  have ok: "ack_ok ?a" using Cons.prems(4) rs by simp
  have "client_ready cl (encode_frame Wm_BatchAck (enc_batch_ack ?a) @ (ack_bytes bs rs @ rest)) sent"
    using Cons.prems(1) rs by (simp add: ack_bytes_def)
  then obtain cl1 where e: "exchange Wm_Batch (enc_batch b) cl = (Inr \<lparr>wf_type = Wm_BatchAck, wf_payload = enc_batch_ack ?a\<rparr>, cl1)"
    "client_ready cl1 (ack_bytes bs rs @ rest) (sent @ encode_frame Wm_Batch (enc_batch b))" "cl_handshaken cl1 = cl_handshaken cl"
    using exchange_ready ok unfolding ack_ok_def by blast
  have "dec_batch_ack (enc_batch_ack ?a) = Inr (?a, [])"
    using ok by (intro batch_ack_codec.dec_enc_exact) (simp add: ack_ok_def)
  then have "send_batch b cl = (Inr ?a, cl1)" using e(1) Cons.prems(2) by (simp add: send_batch_def)
  moreover obtain cl' where "send_batches bs cl1 = (map (\<lambda>(b, r). Inr (batch_ack b r)) (zip bs rs), cl')"
    "client_ready cl' rest ((sent @ encode_frame Wm_Batch (enc_batch b)) @ wire_of (batch_frames bs))"
    using Cons.IH [OF e(2)] e(3) Cons.prems(2,3,4) rs by auto
  ultimately show ?case using rs by (auto simp: batch_frames_def)
qed

section \<open>Whatever a peer sends\<close>

text \<open>A frame changes the engine only as an accepted, decoded batch within the budget does.\<close>

definition ingest_step :: "connection \<Rightarrow> connection \<Rightarrow> bool" where
  "ingest_step cn cn' \<longleftrightarrow>
     cn_hello_accepted cn \<and> cn_batches cn' = cn_batches cn + 1 \<and>
     cn_batches cn' \<le> sc_max_batches_per_connection (sv_config (cn_server cn)) \<and>
     (\<exists>b ctx. sv_observatory (cn_server cn') = snd (ingest b ctx (sv_observatory (cn_server cn))))"

definition quiet_step :: "connection \<Rightarrow> connection \<Rightarrow> bool" where
  "quiet_step cn cn' \<longleftrightarrow>
     sv_observatory (cn_server cn') = sv_observatory (cn_server cn) \<and>
     (cn_batches cn' = cn_batches cn \<or> sc_max_batches_per_connection (sv_config (cn_server cn)) < cn_batches cn' \<or>
      cn_batches cn' = cn_batches cn + 1)"

lemma send_error_server [simp]:
  "cn_server (send_error c m cn) = cn_server cn" "cn_batches (send_error c m cn) = cn_batches cn"
  "cn_hello_accepted (send_error c m cn) = cn_hello_accepted cn"
  by (simp_all add: send_error_def)

lemma reply_server:
  "cn_server (snd (reply t p cn)) = cn_server cn" "cn_batches (snd (reply t p cn)) = cn_batches cn"
  "cn_hello_accepted (snd (reply t p cn)) = cn_hello_accepted cn"
  by (simp_all add: reply_def split: prod.split sum.split)

lemma count_in_server [simp]:
  "sv_observatory (cn_server (count_in f cn)) = sv_observatory (cn_server cn)"
  "sv_config (cn_server (count_in f cn)) = sv_config (cn_server cn)"
  "cn_batches (count_in f cn) = cn_batches cn" "cn_hello_accepted (count_in f cn) = cn_hello_accepted cn"
  by (simp_all add: count_in_def server_stats_def)

lemma record_bytes_server [simp]:
  "sv_observatory (cn_server (record_bytes cn)) = sv_observatory (cn_server cn)"
  "sv_config (cn_server (record_bytes cn)) = sv_config (cn_server cn)"
  "cn_batches (record_bytes cn) = cn_batches cn" "cn_hello_accepted (record_bytes cn) = cn_hello_accepted cn"
  by (simp_all add: record_bytes_def)

lemma server_ingest_server:
  "sv_observatory (snd (server_ingest b sv)) =
     snd (ingest b (sv_context_source sv (sv_context_calls sv)) (sv_observatory sv))"
  "sv_config (snd (server_ingest b sv)) = sv_config sv"
  by (simp_all add: server_ingest_def server_stats_def split: prod.split)

definition accepts_hello :: "wire_frame \<Rightarrow> bool" where
  "accepts_hello f \<longleftrightarrow>
     wf_type f = Wm_Hello \<and>
     (case dec_hello (wf_payload f) of Inl _ \<Rightarrow> False | Inr (h, _) \<Rightarrow> hm_protocol_version h = kWireProtocolVersion)"

lemma handle_hello_server:
  "sv_observatory (cn_server (snd (handle_hello p cn))) = sv_observatory (cn_server cn)"
  "sv_config (cn_server (snd (handle_hello p cn))) = sv_config (cn_server cn)"
  "cn_batches (snd (handle_hello p cn)) = cn_batches cn"
  "fst (handle_hello p cn) = None \<Longrightarrow>
     cn_hello_accepted (snd (handle_hello p cn)) = accepts_hello \<lparr>wf_type = Wm_Hello, wf_payload = p\<rparr>"
  by (auto simp: handle_hello_def reply_server Let_def accepts_hello_def hello_ack_def split: sum.splits prod.splits)

lemma handle_batch_server:
  "sv_config (cn_server (snd (handle_batch p cn))) = sv_config (cn_server cn)"
  "cn_hello_accepted (snd (handle_batch p cn)) = cn_hello_accepted cn"
  by (simp_all add: handle_batch_def Let_def reply_server split: sum.split prod.split)
    (metis server_ingest_server(2) snd_conv)+

lemma handle_batch_step:
  "sv_observatory (cn_server (snd (handle_batch p cn))) = sv_observatory (cn_server cn) \<and>
     (fst (handle_batch p cn) = None \<longrightarrow> cn_batches (snd (handle_batch p cn)) = cn_batches cn) \<or>
   ingest_step cn (snd (handle_batch p cn))"
proof (cases "cn_hello_accepted cn \<and> \<not> sc_max_batches_per_connection (sv_config (cn_server cn)) < cn_batches cn + 1")
  case True
  show ?thesis
  proof (cases "dec_batch p")
    case (Inr r)
    obtain b rest where r: "r = (b, rest)" by (cases r)
    obtain o1 sv1 where si: "server_ingest b (cn_server cn) = (o1, sv1)" by (cases "server_ingest b (cn_server cn)")
    have "sv_observatory sv1 = snd (ingest b (sv_context_source (cn_server cn) (sv_context_calls (cn_server cn))) (sv_observatory (cn_server cn)))"
      using server_ingest_server(1) [of b "cn_server cn"] si by simp
    moreover have "snd (handle_batch p cn) =
        snd (reply Wm_BatchAck (enc_batch_ack (batch_ack b o1)) (cn\<lparr>cn_batches := cn_batches cn + 1, cn_server := sv1\<rparr>))"
      using True Inr r si by (simp add: handle_batch_def Let_def)
    ultimately have "ingest_step cn (snd (handle_batch p cn))"
      using True by (auto simp: ingest_step_def reply_server not_less)
    then show ?thesis ..
  qed (use True in \<open>simp add: handle_batch_def Let_def\<close>)
qed (auto simp: handle_batch_def Let_def)

lemma handle_frame_step:
  assumes "handle_frame f cn = (r, cn')"
  shows "sv_config (cn_server cn') = sv_config (cn_server cn)"
    and "sv_observatory (cn_server cn') = sv_observatory (cn_server cn) \<and> (r = None \<longrightarrow> cn_batches cn' = cn_batches cn) \<or>
      ingest_step cn cn'"
    and "r = None \<Longrightarrow> cn_hello_accepted cn' \<Longrightarrow> cn_hello_accepted cn \<or> accepts_hello f"
proof -
  let ?cn = "count_in (\<lambda>s. s\<lparr>is_frames_received := is_frames_received s + 1\<rparr>) cn"
  have same: "ingest_step ?cn c \<longleftrightarrow> ingest_step cn c" for c by (simp add: ingest_step_def)
  note facts = handle_hello_server [of "wf_payload f" ?cn] handle_batch_server [of "wf_payload f" ?cn]
    handle_batch_step [of "wf_payload f" ?cn, unfolded same count_in_server]
  have split: "(r, cn') =
     (case wf_type f of
        Wm_Bye \<Rightarrow> (Some success, record_bytes ?cn)
      | Wm_Hello \<Rightarrow> handle_hello (wf_payload f) ?cn
      | Wm_Batch \<Rightarrow> handle_batch (wf_payload f) ?cn
      | _ \<Rightarrow> (Some success, send_error Ec_ProtocolViolation ''unexpected message type on an ingest connection''
                (count_in (\<lambda>s. s\<lparr>is_frames_rejected := is_frames_rejected s + 1\<rparr>) ?cn)))"
    using assms by (simp add: handle_frame_def Let_def)
  have eta: "wf_type f = Wm_Hello \<Longrightarrow> \<lparr>wf_type = Wm_Hello, wf_payload = wf_payload f\<rparr> = f" by (cases f) simp
  show "sv_config (cn_server cn') = sv_config (cn_server cn)"
    using split facts(2,5) by (cases "wf_type f") (auto simp: prod_eq_iff)
  show "sv_observatory (cn_server cn') = sv_observatory (cn_server cn) \<and> (r = None \<longrightarrow> cn_batches cn' = cn_batches cn) \<or>
      ingest_step cn cn'"
    using split facts(1,3,7) by (cases "wf_type f") (auto simp: prod_eq_iff)
  show "cn_hello_accepted cn \<or> accepts_hello f" if "r = None" "cn_hello_accepted cn'"
    using that split facts(4,6) eta by (cases "wf_type f") (auto simp: prod_eq_iff)
qed

text \<open>The whole connection is a sequence of ingests within the budget.\<close>

lemma connection_loop_ingests:
  assumes "connection_loop cn = (st, cn')"
    and "sc_max_batches_per_connection (sv_config (cn_server cn)) \<noteq> u64_max"
    and "unat (cn_batches cn) \<le> unat (sc_max_batches_per_connection (sv_config (cn_server cn)))"
  shows "\<exists>bs. sv_observatory (cn_server cn') = snd (engine_ingests bs (sv_observatory (cn_server cn))) \<and>
    unat (cn_batches cn) + length bs \<le> unat (sc_max_batches_per_connection (sv_config (cn_server cn)))"
  using assms
proof (induction cn rule: connection_loop.induct)
  case (1 cn)
  let ?max = "sc_max_batches_per_connection (sv_config (cn_server cn))"
  obtain x fs where rd: "read_frame (cn_stream cn) = (x, fs)" by (cases "read_frame (cn_stream cn)")
  show ?case
  proof (cases x)
    case (Inl e)
    then show ?thesis using 1(2,4) rd by (intro exI [of _ "[]"]) (auto simp: connection_loop.simps [of cn])
  next
    case (Inr f)
    obtain r cn1 where h: "handle_frame f (cn\<lparr>cn_stream := fs\<rparr>) = (r, cn1)" by (cases "handle_frame f (cn\<lparr>cn_stream := fs\<rparr>)")
    have config: "sv_config (cn_server cn1) = sv_config (cn_server cn)" using handle_frame_step(1) [OF h] by simp
    consider (same) "sv_observatory (cn_server cn1) = sv_observatory (cn_server cn)" "r = None \<longrightarrow> cn_batches cn1 = cn_batches cn"
      | (step) b ctx where "cn_batches cn1 = cn_batches cn + 1" "cn_batches cn1 \<le> ?max"
          "sv_observatory (cn_server cn1) = snd (ingest b ctx (sv_observatory (cn_server cn)))"
      using handle_frame_step(2) [OF h] by (auto simp: ingest_step_def)
    then show ?thesis
    proof cases
      case same
      show ?thesis
      proof (cases r)
        case None
        then show ?thesis using 1(1) [OF rd [symmetric] Inr h [symmetric] None] 1(2-) same config rd Inr h
          by (simp add: connection_loop.simps [of cn])
      next
        case (Some q)
        then show ?thesis using 1(2,4) rd Inr h same by (intro exI [of _ "[]"]) (simp add: connection_loop.simps [of cn])
      qed
    next
      case step
      have "unat ?max \<noteq> unat u64_max" using 1(3) by (simp add: word_unat_eq_iff)
      then have "unat ?max < 2 ^ 64 - 1" using unat_u64_bound [of ?max] by (simp add: u64_max_def)
      then have count: "unat (cn_batches cn1) = unat (cn_batches cn) + 1"
        unfolding step(1) using 1(4) by (intro unat_inc) simp
      then have room: "unat (cn_batches cn1) \<le> unat ?max" using step(2) by (simp add: word_le_nat_alt)
      have onward: "snd (engine_ingests ((b, ctx) # bs) (sv_observatory (cn_server cn))) =
          snd (engine_ingests bs (sv_observatory (cn_server cn1)))" for bs
        by (simp add: step(3) split: prod.split)
      show ?thesis
      proof (cases r)
        case None
        then have "connection_loop cn1 = (st, cn')" using 1(2) rd Inr h by (simp add: connection_loop.simps [of cn])
        then obtain bs where "sv_observatory (cn_server cn') = snd (engine_ingests bs (sv_observatory (cn_server cn1)))"
          "unat (cn_batches cn1) + length bs \<le> unat ?max"
          using 1(1) [OF rd [symmetric] Inr h [symmetric] None] 1(3) config room by auto
        then show ?thesis using onward [of bs] count by (intro exI [of _ "(b, ctx) # bs"]) simp
      next
        case (Some q)
        then have "cn' = cn1" using 1(2) rd Inr h by (simp add: connection_loop.simps [of cn])
        then show ?thesis using onward [of "[]"] count room by (intro exI [of _ "[(b, ctx)]"]) simp
      qed
    qed
  qed
qed

text \<open>A connection on which no hello is accepted does not touch the engine.\<close>

lemma handle_frames_no_hello:
  assumes "\<not> cn_hello_accepted cn" "\<forall>f \<in> set fs. \<not> accepts_hello f"
  shows "sv_observatory (cn_server (snd (handle_frames fs cn))) = sv_observatory (cn_server cn)"
  using assms
proof (induction fs arbitrary: cn)
  case (Cons f fs)
  obtain r cn1 where h: "handle_frame f cn = (r, cn1)" by (cases "handle_frame f cn")
  have same: "sv_observatory (cn_server cn1) = sv_observatory (cn_server cn)"
    using handle_frame_step(2) [OF h] Cons.prems(1) by (auto simp: ingest_step_def)
  show ?case
  proof (cases r)
    case None
    then have "\<not> cn_hello_accepted cn1" using handle_frame_step(3) [OF h] Cons.prems by auto
    then show ?thesis using Cons.IH [of cn1] Cons.prems(2) h None same by simp
  qed (use h same in simp)
qed simp

section \<open>Lengths of small messages\<close>

lemma length_enc_primitive [simp]:
  "length (enc_u8 v) = 1" "length (enc_bool q) = 1" "length (enc_u64 w) = 8" "length (enc_id i) = 16"
  "length (enc_str s) = 4 + length s"
  by (simp_all add: enc_u8_def enc_bool_def enc_u64_def enc_id_def enc_str_def)

section \<open>A legal frame that is refused\<close>

text \<open>
  The limit is checked against the header and the payload together, so a payload within the bound is
  refused when more than \<open>kMaxWireFrameBytes\<close> of its frame, but not all of it, has arrived.
\<close>

lemma legal_frame_refused:
  assumes "payload_fits p" "kMaxWireFrameBytes < n" "n < length (encode_frame t p)"
    and "available fs = take n (encode_frame t p)" "fs_buffered_start fs = 0"
  shows "read_frame fs = (fail Ec_LimitExceeded ''peer exceeded the maximum frame size'', fs)"
proof -
  have len: "length (fs_buffer fs) = n" using assms(3-5) by (simp add: available_def)
  obtain m where "decode_frame (available fs) = fail Ec_NotReady m"
    using decode_frame_prefix [OF assms(1,3)] assms(4) by metis
  then have "read_step fs = receive_more fs" by (simp add: read_step_def)
  then show ?thesis using len assms(2,5) by (simp add: read_frame.simps [of fs] receive_more_def)
qed

section \<open>Properties\<close>


definition demo_server :: ingest_server where
  "demo_server = make_ingest_server (make_observatory default_engine_config) default_ingest_server_config
     (\<lambda>_. \<lparr>ic_now_utc_ns = 0, ic_historical = False\<rparr>)"

definition demo_bye :: wire_frame where
  "demo_bye = bye_frame \<lparr>ym_batches_sent = 0, ym_batches_acknowledged = 0\<rparr>"

lemma demo_bye_fits: "frame_fits (wf_payload demo_bye)"
  by (simp add: demo_bye_def bye_frame_def enc_bye_def frame_fits_def kWireHeaderBytes_def kMaxWireFrameBytes_def)



definition demo_hello :: hello_message where
  "demo_hello = \<lparr>hm_protocol_version = 1, hm_source = StrongId 1, hm_origin = Origin_Real,
     hm_authority = Authority_Authoritative, hm_agent = ''a'', hm_protocol_revision = 1\<rparr>"

definition demo_session :: socket where
  "demo_session = \<lparr>sk_recv = [Some (wire_of (session_frames demo_hello [] \<lparr>ym_batches_sent = 0, ym_batches_acknowledged = 0\<rparr>))],
     sk_send = [], sk_delivered = []\<rparr>"

definition demo_client :: "bytes \<Rightarrow> ingest_client" where
  "demo_client answers =
     \<lparr>cl_stream = make_frame_stream \<lparr>sk_recv = [Some answers], sk_send = [], sk_delivered = []\<rparr> 7,
      cl_hello = demo_hello, cl_ack = None, cl_handshaken = False\<rparr>"


text \<open>
  C9: Whatever a peer sends and however its connection fails, the server does nothing to the engine
  but ingest batches, at most as many as the connection's budget, so the engine is again in a state
  that single calls reach and keeps its invariant.
\<close>

lemma any_peer_only_ingests:
  assumes "handle_connection sk sv = (st, cn)" "engine_reach recovering cfg (sv_observatory sv)"
    and "sc_max_batches_per_connection (sv_config sv) \<noteq> u64_max"
  shows "(\<exists>bs. sv_observatory (cn_server cn) = snd (engine_ingests bs (sv_observatory sv)) \<and>
       length bs \<le> unat (sc_max_batches_per_connection (sv_config sv))) \<and>
     engine_reach recovering cfg (sv_observatory (cn_server cn)) \<and> engine_inv (\<not> recovering) (sv_observatory (cn_server cn))"
proof -
  obtain bs where bs: "sv_observatory (cn_server cn) = snd (engine_ingests bs (sv_observatory sv))"
    "length bs \<le> unat (sc_max_batches_per_connection (sv_config sv))"
    using connection_loop_ingests [of "opened sk sv" st cn] assms(1,3)
    by (auto simp: handle_connection_opened opened_def)
  have calls: "(engine_call recovering)\<^sup>*\<^sup>* ob (snd (engine_ingests bs ob))" for bs ob
  proof (induction bs ob rule: engine_ingests.induct)
    case (2 b ctx bs ob)
    obtain r ob1 where i: "ingest b ctx ob = (r, ob1)" by (meson surj_pair)
    then have "engine_call recovering ob ob1" using step_ingest [of recovering ob b ctx] by (simp add: engine_call_def)
    then show ?case using 2 [OF i [symmetric]] i by (auto intro: converse_rtranclp_into_rtranclp split: prod.splits)
  qed simp
  then have "engine_reach recovering cfg (sv_observatory (cn_server cn))"
    using engine.calls_keep [OF calls assms(2)] bs(1) by simp
  then show ?thesis using bs engine_reach_inv by blast
qed

lemma any_peer_only_ingests_witness:
  "engine_inv True (sv_observatory (cn_server (snd
     (handle_connection \<lparr>sk_recv = [Some [1, 2, 3], None], sk_send = [None], sk_delivered = []\<rparr> demo_server))))"
proof -
  obtain st cn where "handle_connection \<lparr>sk_recv = [Some [1, 2, 3], None], sk_send = [None], sk_delivered = []\<rparr> demo_server = (st, cn)"
    by (meson surj_pair)
  from any_peer_only_ingests [OF this, of False default_engine_config] this show ?thesis
    by (simp add: demo_server_def make_ingest_server_def reach_start default_ingest_server_config_def u64_max_def)
qed

text \<open>
  C12: Without an accepted hello nothing reaches the engine: when the server requires one and none of
  the frames a peer sends is a hello of the supported version, the engine stays as it was, whatever
  batches are among the frames.
\<close>

lemma no_batch_before_hello:
  assumes "clean (sk_recv sk)" "script_data (sk_recv sk) = wire_of fs" "\<forall>f \<in> set fs. frame_fits (wf_payload f)"
    and "sc_require_hello (sv_config sv)" "\<forall>f \<in> set fs. \<not> accepts_hello f"
    and "handle_connection sk sv = (st, cn)"
  shows "sv_observatory (cn_server cn) = sv_observatory sv"
proof -
  have "same_connection (snd (handle_frames fs (opened sk sv))) cn"
    using handle_connection_frames [OF assms(1-3) same_connection_refl, of sv] assms(6) by simp
  then have "sv_observatory (cn_server cn) = sv_observatory (cn_server (snd (handle_frames fs (opened sk sv))))"
    by (auto simp: same_connection_def)
  also have "\<dots> = sv_observatory sv"
    using handle_frames_no_hello [of "opened sk sv" fs] assms(4,5) by (simp add: opened_def)
  finally show ?thesis .
qed

lemma no_batch_before_hello_witness:
  "sv_observatory (cn_server (snd (handle_connection
     \<lparr>sk_recv = [Some (wire_of [\<lparr>wf_type = Wm_Batch, wf_payload = [1]\<rparr>])], sk_send = [], sk_delivered = []\<rparr> demo_server)))
   = sv_observatory demo_server"
proof -
  let ?sk = "\<lparr>sk_recv = [Some (wire_of [\<lparr>wf_type = Wm_Batch, wf_payload = [1]\<rparr>])], sk_send = [], sk_delivered = []\<rparr> :: socket"
  obtain st cn where run: "handle_connection ?sk demo_server = (st, cn)" by (meson surj_pair)
  have "encode_frame Wm_Batch [1] \<noteq> []"
    using length_encode_frame [of Wm_Batch "[1]"] by (auto simp: kWireHeaderBytes_def)
  then have "sv_observatory (cn_server cn) = sv_observatory demo_server"
    by (intro no_batch_before_hello [OF _ _ _ _ _ run, where fs = "[\<lparr>wf_type = Wm_Batch, wf_payload = [1]\<rparr>]"])
      (auto simp: clean_def script_data_def frame_fits_def kWireHeaderBytes_def kMaxWireFrameBytes_def demo_server_def
        make_ingest_server_def default_ingest_server_config_def accepts_hello_def)
  then show ?thesis using run by simp
qed

end
