(* ===== verification/Json.thy ===== *)
theory Json
  imports Ident F64
begin

text \<open>
  Canonical JSON documents: \<^verbatim>\<open>include/jitter/json.hpp\<close> and \<^verbatim>\<open>src/json.cpp\<close>. A value is a tree; a
  number is the text it is printed as, and the members of an object are a map, so they are in key
  order. The text of a double comes from the C++ library (\<^verbatim>\<open>std::to_chars\<close>) and is the argument
  \<open>shortest\<close>; what is used of it is the hypothesis \<open>shortest_ok\<close>.
\<close>

datatype json =
    JNull
  | JBoolean bool
  | JNumber string
  | JString string
  | JArray "json list"
  | JObject "(string \<times> json) list"

section \<open>Building\<close>

definition make_object :: json where
  "make_object = JObject []"

definition make_array :: json where
  "make_array = JArray []"

definition make_u64 :: "u64 \<Rightarrow> json" where
  "make_u64 v = JNumber (u64_to_string v)"

definition make_i64 :: "i64 \<Rightarrow> json" where
  "make_i64 v = JNumber (i64_to_string v)"

text \<open>\<^verbatim>\<open>text::double_to_string\<close>; the buffer of 64 characters is enough for every double.\<close>

definition double_to_string :: "(f64_bits \<Rightarrow> string) \<Rightarrow> f64_bits \<Rightarrow> string" where
  "double_to_string shortest v =
     (case f64_val v of
        NaN \<Rightarrow> ''nan''
      | Inf negative \<Rightarrow> if negative then ''-inf'' else ''inf''
      | Fin _ \<Rightarrow> shortest v)"

definition make_double :: "(f64_bits \<Rightarrow> string) \<Rightarrow> f64_bits \<Rightarrow> json" where
  "make_double shortest v = (if \<not> f64_is_finite v then JNull else JNumber (double_to_string shortest v))"

text \<open>Both answer whether the value was of the right kind.\<close>

fun set_member :: "string \<Rightarrow> json \<Rightarrow> json \<Rightarrow> bool \<times> json" where
  "set_member key v (JObject ms) = (True, JObject (om_put key v ms))"
| "set_member key v j = (False, j)"

fun push :: "json \<Rightarrow> json \<Rightarrow> bool \<times> json" where
  "push v (JArray xs) = (True, JArray (xs @ [v]))"
| "push v j = (False, j)"

fun member :: "string \<Rightarrow> json \<Rightarrow> json option" where
  "member key (JObject ms) = om_find key ms"
| "member key j = None"

fun json_size :: "json \<Rightarrow> nat" where
  "json_size (JArray xs) = length xs"
| "json_size (JObject ms) = length ms"
| "json_size j = 0"

text \<open>What a sequence of calls of \<^verbatim>\<open>set\<close> on a new object, or of \<^verbatim>\<open>push\<close> on a new array, builds.\<close>

definition object_of :: "(string \<times> json) list \<Rightarrow> json" where
  "object_of ms = fold (\<lambda>(key, v) j. snd (set_member key v j)) ms make_object"

definition array_of :: "json list \<Rightarrow> json" where
  "array_of vs = fold (\<lambda>v j. snd (push v j)) vs make_array"

section \<open>Printing\<close>

definition line_break :: "nat \<Rightarrow> nat \<Rightarrow> string" where
  "line_break indent depth = (if indent > 0 then CHR 0x0A # replicate (depth * indent) (CHR '' '') else [])"

definition quoted :: "string \<Rightarrow> string" where
  "quoted s = CHR 0x22 # escape_json s @ [CHR 0x22]"

text \<open>The loops over the elements and members carry the flag \<^verbatim>\<open>first\<close>.\<close>

fun dump_into :: "nat \<Rightarrow> nat \<Rightarrow> json \<Rightarrow> string"
  and dump_elements :: "nat \<Rightarrow> nat \<Rightarrow> bool \<Rightarrow> json list \<Rightarrow> string"
  and dump_members :: "nat \<Rightarrow> nat \<Rightarrow> bool \<Rightarrow> (string \<times> json) list \<Rightarrow> string" where
  "dump_into indent depth JNull = ''null''"
| "dump_into indent depth (JBoolean b) = (if b then ''true'' else ''false'')"
| "dump_into indent depth (JNumber t) = t"
| "dump_into indent depth (JString s) = quoted s"
| "dump_into indent depth (JArray xs) =
     ''['' @ dump_elements indent depth True xs @ (if xs = [] then [] else line_break indent depth) @ '']''"
| "dump_into indent depth (JObject ms) =
     ''{'' @ dump_members indent depth True ms @ (if ms = [] then [] else line_break indent depth) @ ''}''"
| "dump_elements indent depth first [] = []"
| "dump_elements indent depth first (x # xs) =
     (if first then [] else '','') @ line_break indent (depth + 1) @ dump_into indent (depth + 1) x
       @ dump_elements indent depth False xs"
| "dump_members indent depth first [] = []"
| "dump_members indent depth first (m # ms) =
     (if first then [] else '','') @ line_break indent (depth + 1) @ quoted (fst m) @ '':''
       @ (if indent > 0 then '' '' else []) @ dump_into indent (depth + 1) (snd m)
       @ dump_members indent depth False ms"

definition dump :: "json \<Rightarrow> string" where
  "dump v = dump_into 0 0 v"

definition dump_pretty :: "json \<Rightarrow> string" where
  "dump_pretty v = dump_into 2 0 v"

definition json_digest :: "json \<Rightarrow> digest" where
  "json_digest v = digest_of (enc_text (dump v))"

section \<open>Well-formed trees\<close>

text \<open>The characters a number is made of, and what is relied on of the library's printer.\<close>

definition number_char :: "char \<Rightarrow> bool" where
  "number_char c \<longleftrightarrow> is_digit_char c \<or> c \<in> {CHR ''-'', CHR ''+'', CHR ''.'', CHR ''e''}"

definition number_text :: "string \<Rightarrow> bool" where
  "number_text t \<longleftrightarrow> t \<noteq> [] \<and> list_all number_char t"

definition shortest_ok :: "(f64_bits \<Rightarrow> string) \<Rightarrow> bool" where
  "shortest_ok shortest \<longleftrightarrow>
     (\<forall>v. f64_is_finite v \<longrightarrow> number_text (shortest v)) \<and> inj_on shortest {v. f64_is_finite v}"

fun json_wf :: "json \<Rightarrow> bool" where
  "json_wf (JNumber t) \<longleftrightarrow> number_text t"
| "json_wf (JArray xs) \<longleftrightarrow> (\<forall>x \<in> set xs. json_wf x)"
| "json_wf (JObject ms) \<longleftrightarrow> om_invar ms \<and> (\<forall>m \<in> set ms. json_wf (snd m))"
| "json_wf j \<longleftrightarrow> True"

lemma json_wf_leaves [simp]:
  "json_wf (make_u64 v)" "json_wf (make_i64 i)" "shortest_ok shortest \<Longrightarrow> json_wf (make_double shortest d)"
proof -
  have digits: "number_text (nat_text n)" for n
    using digits_of_ne [of n]
    by (auto simp: number_text_def number_char_def nat_text_def list_all_iff digit_char_lt10 dest: digits_of_lt10)
  then show "json_wf (make_u64 v)" "json_wf (make_i64 i)"
    by (auto simp: make_u64_def make_i64_def u64_to_string_def i64_to_string_def number_text_def number_char_def)
  show "shortest_ok shortest \<Longrightarrow> json_wf (make_double shortest d)"
    by (auto simp: make_double_def shortest_ok_def double_to_string_def f64_is_finite_def split: f64_class.splits)
qed

section \<open>Strings survive their escapes\<close>

definition plain_char :: "char \<Rightarrow> bool" where
  "plain_char c \<longleftrightarrow> c \<noteq> CHR 0x22 \<and> c \<noteq> CHR 0x5C \<and> \<not> byte_of_char c < 0x20"

lemma escape_plain: "plain_char c \<Longrightarrow> escape_char c = [c]"
  by (auto simp: plain_char_def escape_char_def byte_of_char_def)

text \<open>The character an escape stands for.\<close>

definition escaped_char :: "char \<Rightarrow> string \<Rightarrow> char" where
  "escaped_char e r =
     (if e = CHR ''u'' then char_of (16 * digit_value (r ! 2) + (if is_digit_char (r ! 3) then digit_value (r ! 3) else of_char (r ! 3) - 87))
      else if e = CHR ''b'' then CHR 0x08 else if e = CHR ''f'' then CHR 0x0C else if e = CHR ''n'' then CHR 0x0A
      else if e = CHR ''r'' then CHR 0x0D else if e = CHR ''t'' then CHR 0x09 else e)"

definition escape_decodes :: "char \<Rightarrow> bool" where
  "escape_decodes c \<longleftrightarrow>
     (case escape_char c of
        b # e # r \<Rightarrow> b = CHR 0x5C \<and> length r = (if e = CHR ''u'' then 4 else 0) \<and> escaped_char e r = c
      | _ \<Rightarrow> False)"

lemma escapes_decode: "list_all escape_decodes (CHR 0x22 # CHR 0x5C # map char_of [0::nat ..< 32])"
  by code_simp

lemma escape_special:
  assumes "\<not> plain_char c"
  obtains e r where "escape_char c = CHR 0x5C # e # r" "length r = (if e = CHR ''u'' then 4 else 0)" "escaped_char e r = c"
proof -
  have "c \<in> set (CHR 0x22 # CHR 0x5C # map char_of [0::nat ..< 32])"
  proof (cases "c = CHR 0x22 \<or> c = CHR 0x5C")
    case False
    then have "byte_of_char c < 0x20" using assms by (simp add: plain_char_def)
    then have "of_char c < (32 :: nat)" by (simp add: byte_of_char_def word_less_nat_alt unat_of_nat take_bit_nat_eq_self)
    then show ?thesis by (auto simp: image_iff intro!: bexI [of _ "of_char c"])
  qed auto
  then have "escape_decodes c" using escapes_decode unfolding list_all_iff by blast
  then show thesis using that by (auto simp: escape_decodes_def split: list.splits)
qed

lemma escape_char_prefix:
  assumes "escape_char c @ x = escape_char d @ y"
  shows "c = d \<and> x = y"
proof (cases "plain_char c")
  case c: True
  show ?thesis
  proof (cases "plain_char d")
    case False
    then obtain e r where "escape_char d = CHR 0x5C # e # r" by (rule escape_special)
    then show ?thesis using assms c by (simp add: escape_plain plain_char_def)
  qed (use assms c in \<open>simp add: escape_plain\<close>)
next
  case False
  then obtain e r where c: "escape_char c = CHR 0x5C # e # r" "length r = (if e = CHR ''u'' then 4 else 0)" "escaped_char e r = c"
    by (rule escape_special)
  show ?thesis
  proof (cases "plain_char d")
    case True
    then show ?thesis using assms c by (auto simp: escape_plain plain_char_def)
  next
    case False
    then obtain e' r' where d: "escape_char d = CHR 0x5C # e' # r'" "length r' = (if e' = CHR ''u'' then 4 else 0)" "escaped_char e' r' = d"
      by (rule escape_special)
    have "e = e'" "r @ x = r' @ y" using assms c(1) d(1) by simp_all
    moreover have "length r = length r'" using c(2) d(2) \<open>e = e'\<close> by simp
    ultimately have "r = r'" "x = y" by simp_all
    then show ?thesis using c(3) d(3) \<open>e = e'\<close> by simp
  qed
qed

lemma escape_char_no_quote: "escape_char c @ x \<noteq> CHR 0x22 # y"
proof (cases "plain_char c")
  case True
  then show ?thesis by (auto simp: escape_plain plain_char_def)
next
  case False
  then obtain e r where "escape_char c = CHR 0x5C # e # r" by (rule escape_special)
  then show ?thesis by simp
qed

lemma escape_json_prefix: "escape_json a @ CHR 0x22 # x = escape_json b @ CHR 0x22 # y \<Longrightarrow> a = b \<and> x = y"
proof (induction a arbitrary: b)
  case Nil
  then show ?case using escape_char_no_quote by (cases b) (auto simp: escape_json_def dest: sym)
next
  case (Cons c a)
  show ?case
  proof (cases b)
    case Nil
    then show ?thesis using Cons.prems escape_char_no_quote [of c] by (simp add: escape_json_def)
  next
    case (Cons d b')
    then have "escape_char c @ (escape_json a @ CHR 0x22 # x) = escape_char d @ (escape_json b' @ CHR 0x22 # y)"
      using Cons.prems by (simp add: escape_json_def)
    then show ?thesis using escape_char_prefix Cons.IH Cons by blast
  qed
qed

lemma quoted_prefix: "quoted a @ x = quoted b @ y \<Longrightarrow> a = b \<and> x = y"
  using escape_json_prefix [of a x b y] by (simp add: quoted_def)

section \<open>Canonical text\<close>

text \<open>Where a number ends.\<close>

definition delimited :: "string \<Rightarrow> bool" where
  "delimited r \<longleftrightarrow> (case r of [] \<Rightarrow> True | c # _ \<Rightarrow> \<not> number_char c)"

lemma delimited_simps [simp]: "delimited []" "delimited (c # r) \<longleftrightarrow> \<not> number_char c"
  by (simp_all add: delimited_def)

lemma number_char_not [simp]:
  "\<not> number_char (CHR '','')" "\<not> number_char (CHR '']'')" "\<not> number_char (CHR ''}'')" "\<not> number_char (CHR 0x22)"
  "\<not> number_char (CHR ''['')" "\<not> number_char (CHR ''{'')" "\<not> number_char (CHR ''n'')" "\<not> number_char (CHR ''t'')"
  "\<not> number_char (CHR ''f'')" "\<not> number_char (CHR '' '')" "\<not> number_char (CHR 0x0A)" "\<not> number_char (CHR 0x5C)"
  by (simp_all add: number_char_def is_digit_char_def less_eq_char_def)

lemma number_prefix:
  assumes "list_all number_char a" "list_all number_char b" "delimited r" "delimited s" "a @ r = b @ s"
  shows "a = b \<and> r = s"
  using assms
proof (induction a arbitrary: b)
  case Nil
  then show ?case by (cases b) (auto simp: delimited_def)
next
  case (Cons c a)
  then show ?case by (cases b) (auto simp: delimited_def)
qed

text \<open>The first character tells the kind of a value.\<close>

fun opener :: "json \<Rightarrow> char \<Rightarrow> bool" where
  "opener JNull c \<longleftrightarrow> c = CHR ''n''"
| "opener (JBoolean b) c \<longleftrightarrow> c = (if b then CHR ''t'' else CHR ''f'')"
| "opener (JNumber t) c \<longleftrightarrow> number_char c"
| "opener (JString s) c \<longleftrightarrow> c = CHR 0x22"
| "opener (JArray xs) c \<longleftrightarrow> c = CHR ''[''"
| "opener (JObject ms) c \<longleftrightarrow> c = CHR ''{''"

lemma dump_opens:
  assumes "json_wf v"
  obtains c t where "dump_into 0 d v = c # t" "opener v c"
proof (cases v)
  case (JBoolean b)
  then show thesis using that by (cases b) auto
qed (use assms that in \<open>auto simp: quoted_def number_text_def neq_Nil_conv\<close>)

lemma opener_not_close: "opener v c \<Longrightarrow> c \<noteq> CHR '']'' \<and> c \<noteq> CHR ''}'' \<and> c \<noteq> CHR '',''"
  by (cases v) (auto split: if_splits)

lemma dump_same_opener:
  assumes "json_wf v" "json_wf w" "dump_into 0 d v @ r = dump_into 0 d' w @ s"
  obtains c where "opener v c" "opener w c"
  using dump_opens [OF assms(1), of d] dump_opens [OF assms(2), of d'] assms(3) by (metis append_Cons list.inject)

lemma opener_kind:
  assumes "opener v c" "opener w c"
  shows "(v = JNull \<longleftrightarrow> w = JNull) \<and> (\<forall>b. v = JBoolean b \<longleftrightarrow> w = JBoolean b) \<and>
    ((\<exists>t. v = JNumber t) \<longleftrightarrow> (\<exists>t. w = JNumber t)) \<and> ((\<exists>s. v = JString s) \<longleftrightarrow> (\<exists>s. w = JString s)) \<and>
    ((\<exists>xs. v = JArray xs) \<longleftrightarrow> (\<exists>xs. w = JArray xs)) \<and> ((\<exists>ms. v = JObject ms) \<longleftrightarrow> (\<exists>ms. w = JObject ms))"
  using assms by (cases v; cases w) (auto split: if_splits)

lemma compact_break [simp]: "line_break 0 d = []"
  by (simp add: line_break_def)

lemma dump_into_prefix:
  "indent = 0 \<Longrightarrow> json_wf v \<Longrightarrow> json_wf w \<Longrightarrow> delimited r \<Longrightarrow> delimited s \<Longrightarrow>
     dump_into indent d v @ r = dump_into 0 d' w @ s \<Longrightarrow> v = w \<and> r = s"
  "indent = 0 \<Longrightarrow> \<forall>x \<in> set xs. json_wf x \<Longrightarrow> \<forall>y \<in> set ys. json_wf y \<Longrightarrow>
     dump_elements indent d first xs @ '']'' @ r = dump_elements 0 d' first ys @ '']'' @ s \<Longrightarrow> xs = ys \<and> r = s"
  "indent = 0 \<Longrightarrow> \<forall>m \<in> set ms. json_wf (snd m) \<Longrightarrow> \<forall>n \<in> set ns. json_wf (snd n) \<Longrightarrow>
     dump_members indent d first ms @ ''}'' @ r = dump_members 0 d' first ns @ ''}'' @ s \<Longrightarrow> ms = ns \<and> r = s"
proof (induction indent d v and indent d first xs and indent d first ms
    arbitrary: w d' r s and ys d' r s and ns d' r s
    rule: dump_into_dump_elements_dump_members.induct)
  case (3 indent depth t)
  obtain c where "opener (JNumber t) c" "opener w c" using dump_same_opener [OF 3(2,3)] 3(1,6) by blast
  then obtain u where "w = JNumber u" using opener_kind by blast
  then show ?case using number_prefix [of t u r s] 3 by (auto simp: number_text_def)
next
  case (4 indent depth s')
  obtain c where "opener (JString s') c" "opener w c" using dump_same_opener [OF 4(2,3)] 4(1,6) by blast
  then obtain u where w: "w = JString u" using opener_kind by blast
  then have "quoted s' @ r = quoted u @ s" using 4(6) by simp
  then show ?case using quoted_prefix w by blast
next
  case (5 indent depth xs)
  obtain c where "opener (JArray xs) c" "opener w c" using dump_same_opener [OF 5(3,4)] 5(2,7) by blast
  then obtain ys where w: "w = JArray ys" using opener_kind by blast
  then have "dump_elements indent depth True xs @ '']'' @ r = dump_elements 0 d' True ys @ '']'' @ s"
    using 5(2,7) by (simp split: if_splits)
  then show ?case using 5(1) [of ys r d' s] 5(2-4) w by simp
next
  case (6 indent depth ms)
  obtain c where "opener (JObject ms) c" "opener w c" using dump_same_opener [OF 6(3,4)] 6(2,7) by blast
  then obtain ns where w: "w = JObject ns" using opener_kind by blast
  then have "dump_members indent depth True ms @ ''}'' @ r = dump_members 0 d' True ns @ ''}'' @ s"
    using 6(2,7) by (simp split: if_splits)
  then show ?case using 6(1) [of ns r d' s] 6(2-4) w by simp
next
  case (1 indent depth)
  obtain c where "opener JNull c" "opener w c" using dump_same_opener [OF 1(2,3)] 1(1,6) by blast
  then have "w = JNull" using opener_kind by blast
  then show ?case using 1 by simp
next
  case (2 indent depth b)
  obtain c where "opener (JBoolean b) c" "opener w c" using dump_same_opener [OF 2(2,3)] 2(1,6) by blast
  then have "w = JBoolean b" using opener_kind by blast
  then show ?case using 2 by simp
next
  case (8 indent depth first x xs)
  show ?case
  proof (cases ys)
    case Nil
    obtain c t where "dump_into 0 (depth + 1) x = c # t" "opener x c" using dump_opens 8(4) by (metis list.set_intros(1))
    then show ?thesis using 8(3,6) Nil opener_not_close [of x c] by (auto split: if_splits)
  next
    case (Cons y ys')
    then have "dump_into indent (depth + 1) x @ (dump_elements indent depth False xs @ '']'' @ r) =
        dump_into 0 (d' + 1) y @ (dump_elements 0 d' False ys' @ '']'' @ s)"
      using 8(3,6) by (auto split: if_splits)
    moreover have "delimited (dump_elements 0 k False zs @ '']'' @ q)" for k zs q by (cases zs) auto
    ultimately have "x = y" "dump_elements indent depth False xs @ '']'' @ r = dump_elements 0 d' False ys' @ '']'' @ s"
      using 8(1) [OF 8(3), of y "dump_elements indent depth False xs @ '']'' @ r" "dump_elements 0 d' False ys' @ '']'' @ s" "d' + 1"] 8(3-5) Cons by auto
    then show ?thesis using 8(2) [OF 8(3), of ys' r d' s] 8(4,5) Cons by simp
  qed
next
  case (7 indent depth first)
  show ?case
  proof (cases ys)
    case (Cons y ys')
    obtain c t where "dump_into 0 (d' + 1) y = c # t" "opener y c" using dump_opens 7(3) Cons by (metis list.set_intros(1))
    then show ?thesis using 7 Cons opener_not_close [of y c] by (auto split: if_splits)
  qed (use 7 in simp)
next
  case (9 indent depth first)
  then show ?case by (cases ns) (auto simp: quoted_def split: if_splits)
next
  case (10 indent depth first m ms)
  show ?case
  proof (cases ns)
    case Nil
    then show ?thesis using 10(3,6) by (auto simp: quoted_def split: if_splits)
  next
    case (Cons n ns')
    then have "quoted (fst m) @ (CHR '':'' # dump_into indent (depth + 1) (snd m) @ (dump_members indent depth False ms @ ''}'' @ r)) =
        quoted (fst n) @ (CHR '':'' # dump_into 0 (d' + 1) (snd n) @ (dump_members 0 d' False ns' @ ''}'' @ s))"
      using 10(3,6) by (auto split: if_splits)
    from quoted_prefix [OF this] have key: "fst m = fst n" and
      "dump_into indent (depth + 1) (snd m) @ (dump_members indent depth False ms @ ''}'' @ r) =
        dump_into 0 (d' + 1) (snd n) @ (dump_members 0 d' False ns' @ ''}'' @ s)" by simp_all
    moreover have "delimited (dump_members 0 k False zs @ ''}'' @ q)" for k zs q by (cases zs) auto
    ultimately have "snd m = snd n" "dump_members indent depth False ms @ ''}'' @ r = dump_members 0 d' False ns' @ ''}'' @ s"
      using 10(1) [OF 10(3), of "snd n" "dump_members indent depth False ms @ ''}'' @ r" "dump_members 0 d' False ns' @ ''}'' @ s" "d' + 1"] 10(3-5) Cons by auto
    then show ?thesis using 10(2) [OF 10(3), of ns' r d' s] 10(4,5) Cons key by (simp add: prod_eq_iff)
  qed
qed

lemma dump_inject: "json_wf v \<Longrightarrow> json_wf w \<Longrightarrow> dump v = dump w \<longleftrightarrow> v = w"
  using dump_into_prefix(1) [of 0 v w "[]" "[]" 0 0] by (auto simp: dump_def)

section \<open>Objects are maps\<close>

lemma om_ext:
  assumes "om_invar a" "om_invar b" "\<And>k. om_find k a = om_find k b"
  shows "a = b"
proof -
  have eta: "m = map (\<lambda>k. (k, the (om_find k m))) (map fst m)" if "om_invar m" for m :: "('a \<times> 'b) list"
  proof -
    have "distinct (map fst m)" using that by (simp add: om_invar_def strict_sorted_iff)
    then have "\<forall>e \<in> set m. the (om_find (fst e) m) = snd e" by (force simp: om_find_map_of)
    then show ?thesis by (simp add: map_idI)
  qed
  have "map_of a = map_of b" using assms(3) by (auto simp flip: om_find_map_of)
  then have "fst ` set a = fst ` set b" by (metis dom_map_of_conv_image_fst)
  then have "map fst a = map fst b"
    using assms(1,2) by (intro strict_sorted_equal) (simp_all add: om_invar_def)
  then show ?thesis using eta [OF assms(1)] eta [OF assms(2)] assms(3) by simp
qed

lemma object_of_members:
  "object_of ms = JObject (fold (\<lambda>(key, v). om_put key v) ms [])"
proof -
  have "fold (\<lambda>(key, v) j. snd (set_member key v j)) ms (JObject m) = JObject (fold (\<lambda>(key, v). om_put key v) ms m)" for m
    by (induction ms arbitrary: m) auto
  then show ?thesis by (simp add: object_of_def make_object_def)
qed

lemma array_of_elements [simp]: "array_of vs = JArray vs"
proof -
  have "fold (\<lambda>v j. snd (push v j)) vs (JArray us) = JArray (us @ vs)" for us
    by (induction vs arbitrary: us) auto
  then show ?thesis by (simp add: array_of_def make_array_def)
qed

lemma fold_put_invar: "om_invar m \<Longrightarrow> om_invar (fold (\<lambda>(key, v). om_put key v) ms m)"
  by (induction ms arbitrary: m) auto

lemma fold_put_find:
  "om_find k (fold (\<lambda>(key, v). om_put key v) ms m) = (case map_of (rev ms) k of None \<Rightarrow> om_find k m | Some v \<Rightarrow> Some v)"
  by (induction ms arbitrary: m) (auto simp: map_add_def split: option.splits)

text \<open>The last value set under a key is the member.\<close>

lemma member_object_of [simp]: "member k (object_of ms) = map_of (rev ms) k"
  by (simp add: object_of_members fold_put_find split: option.split)

lemma om_find_in_set: "om_find k m = Some v \<Longrightarrow> (k, v) \<in> set m"
  by (simp add: om_find_map_of map_of_SomeD)

lemma json_wf_object_of [simp]:
  assumes "\<forall>m \<in> set ms. json_wf (snd m)"
  shows "json_wf (object_of ms)"
proof -
  let ?f = "fold (\<lambda>(key, v). om_put key v) ms []"
  have inv: "om_invar ?f" by (simp add: fold_put_invar)
  have "json_wf (snd m)" if "m \<in> set ?f" for m
  proof -
    have "distinct (map fst ?f)" using inv by (simp add: om_invar_def strict_sorted_iff)
    then have "om_find (fst m) ?f = Some (snd m)" using that by (simp add: om_find_map_of)
    then have "map_of (rev ms) (fst m) = Some (snd m)" by (simp add: fold_put_find split: option.splits)
    then show ?thesis using assms map_of_SomeD by fastforce
  qed
  then show ?thesis using inv by (simp add: object_of_members)
qed

lemma json_wf_array_of [simp]: "json_wf (array_of vs) \<longleftrightarrow> (\<forall>v \<in> set vs. json_wf v)"
  by simp

lemma object_of_eq_iff: "object_of ms = object_of ns \<longleftrightarrow> map_of (rev ms) = map_of (rev ns)"
proof
  assume "map_of (rev ms) = map_of (rev ns)"
  then show "object_of ms = object_of ns"
    unfolding object_of_members by (auto intro!: om_ext simp: fold_put_invar fold_put_find)
qed (metis member_object_of ext)

section \<open>The pretty form\<close>

text \<open>Removing the layout: blanks and line ends outside of string literals.\<close>

fun squeeze :: "bool \<Rightarrow> bool \<Rightarrow> string \<Rightarrow> string" where
  "squeeze quote escaped [] = []"
| "squeeze quote escaped (c # cs) =
     (if quote
      then c # (if escaped then squeeze True False cs
                else if c = CHR 0x5C then squeeze True True cs
                else squeeze (c \<noteq> CHR 0x22) False cs)
      else if c = CHR '' '' \<or> c = CHR 0x0A then squeeze False False cs
      else c # squeeze (c = CHR 0x22) False cs)"

lemma squeeze_break [simp]: "squeeze False False (line_break i d @ r) = squeeze False False r"
proof -
  have "squeeze False False (replicate n (CHR '' '') @ r) = squeeze False False r" for n by (induction n) auto
  then show ?thesis by (simp add: line_break_def)
qed

lemma hex_pair_plain: "list_all (\<lambda>c. c \<noteq> CHR 0x22 \<and> c \<noteq> CHR 0x5C) (hex_pair b)"
proof -
  have "\<forall>c \<in> set kHexDigits. c \<noteq> CHR 0x22 \<and> c \<noteq> CHR 0x5C" by (simp add: kHexDigits_def)
  moreover have "length kHexDigits = 16" by (simp add: kHexDigits_def)
  ultimately show ?thesis using nibble_lt16 [of b] nibble_lt16 [of "drop_bit 4 b"] by (simp add: hex_pair_def)
qed

lemma squeeze_escape: "squeeze True False (escape_char c @ r) = escape_char c @ squeeze True False r"
proof (cases "plain_char c")
  case True
  then show ?thesis by (auto simp: escape_plain plain_char_def)
next
  case False
  then show ?thesis
    using hex_pair_plain [of "byte_of_char c"] by (auto simp: escape_char_def hex_pair_def plain_char_def)
qed

lemma squeeze_quoted [simp]: "squeeze False False (quoted s @ r) = quoted s @ squeeze False False r"
proof -
  have "squeeze True False (escape_json s @ CHR 0x22 # r) = escape_json s @ CHR 0x22 # squeeze False False r"
    by (induction s) (simp_all add: escape_json_def squeeze_escape)
  then show ?thesis by (simp add: quoted_def)
qed

lemma squeeze_number [simp]: "list_all number_char t \<Longrightarrow> squeeze False False (t @ r) = t @ squeeze False False r"
proof (induction t)
  case (Cons c t)
  then have "c \<noteq> CHR 0x22" "c \<noteq> CHR '' ''" "c \<noteq> CHR 0x0A" by auto
  then show ?case using Cons by simp
qed simp

lemma squeeze_dump:
  "json_wf v \<Longrightarrow> squeeze False False (dump_into indent d v @ r) = dump_into 0 d v @ squeeze False False r"
  "\<forall>x \<in> set xs. json_wf x \<Longrightarrow>
     squeeze False False (dump_elements indent d first xs @ r) = dump_elements 0 d first xs @ squeeze False False r"
  "\<forall>m \<in> set ms. json_wf (snd m) \<Longrightarrow>
     squeeze False False (dump_members indent d first ms @ r) = dump_members 0 d first ms @ squeeze False False r"
  by (induction indent d v and indent d first xs and indent d first ms arbitrary: r and r and r
      rule: dump_into_dump_elements_dump_members.induct) (auto simp: number_text_def)

section \<open>Properties\<close>

text \<open>
  The exported text of an object is canonical: two objects are printed alike exactly when they
  hold the same members, in whatever order and however often these were set.
\<close>

lemma export_canonical:
  assumes "\<forall>m \<in> set ms. json_wf (snd m)" "\<forall>m \<in> set ns. json_wf (snd m)"
  shows "dump (object_of ms) = dump (object_of ns) \<longleftrightarrow> map_of (rev ms) = map_of (rev ns)"
  using assms by (simp add: dump_inject object_of_eq_iff)

lemma export_canonical_witness:
  "dump (object_of [(''b'', JNull), (''a'', make_u64 1), (''b'', JString ''x'')]) =
   dump (object_of [(''b'', JString ''x''), (''a'', make_u64 1)])"
  by (subst export_canonical) auto

text \<open>
  The indented form differs from the canonical one only in its layout: without the blanks and
  line ends outside of its string literals it is the canonical text, whatever the strings hold.
\<close>

lemma pretty_is_compact:
  assumes "json_wf v"
  shows "squeeze False False (dump_pretty v) = dump v"
  using squeeze_dump(1) [OF assms, of 2 0 "[]"] by (simp add: dump_def dump_pretty_def)

lemma pretty_is_compact_witness:
  "squeeze False False (dump_pretty (JArray [JString [CHR 0x22, CHR '' ''], JNumber ''1''])) =
   dump (JArray [JString [CHR 0x22, CHR '' ''], JNumber ''1''])"
  by (rule pretty_is_compact) (simp add: number_text_def number_char_def is_digit_char_def less_eq_char_def)

end
