(* ===== verification/Report.thy ===== *)
theory Report
  imports Engine Json
begin

text \<open>
  History reports and explanations: \<^verbatim>\<open>include/jitter/report.hpp\<close>, \<^verbatim>\<open>src/report.cpp\<close> and the engine
  operations that build them (\<^verbatim>\<open>history_locked\<close> and \<^verbatim>\<open>explain_locked\<close> of \<^verbatim>\<open>src/engine.cpp\<close>). The text of a
  double is the argument \<open>shortest\<close> (Json).
\<close>

section \<open>History\<close>

record generation_segment =
  gs_generation :: generation_id
  gs_ordinal :: counter
  gs_revision :: counter
  gs_topology :: digest
  gs_opened_at_utc_ns :: i64
  gs_closed_at_utc_ns :: "i64 option"
  gs_hop_count :: u32
  gs_cause :: string
  gs_close_reason :: string
  gs_current :: bool
  gs_episode_count :: u64
  gs_open_episode_count :: u64
  gs_retained_observations :: u64
  gs_reasons :: "string list"

record history_report =
  hr_series :: series_id
  hr_path :: path_id
  hr_segments :: "generation_segment list"
  hr_generations_retained :: u64
  hr_generations_dropped :: u64
  hr_episodes :: "episode list"
  hr_episodes_dropped :: u64
  hr_conflicts :: "conflict_record list"
  hr_conflicts_dropped :: u64
  hr_rows_truncated :: bool
  hr_reasons :: "string list"
  hr_digest :: digest

record history_request =
  hq_series :: series_id
  hq_path :: path_id
  hq_max_rows :: u64
  hq_include_conflicts :: bool

record history_input =
  hi_request :: history_request
  hi_generations :: "path_generation list"
  hi_generations_dropped :: u64
  hi_episodes :: "episode list"
  hi_episodes_dropped :: u64
  hi_conflicts :: "conflict_record list"
  hi_conflicts_dropped :: u64
  hi_current_generation :: generation_id
  hi_retained_observations :: "(generation_id \<times> u64) list"

text \<open>The last entry for the generation counts.\<close>

definition retained_for :: "generation_id \<Rightarrow> (generation_id \<times> u64) list \<Rightarrow> u64" where
  "retained_for g entries = fold (\<lambda>e n. if fst e = g then snd e else n) entries 0"

definition make_segment :: "history_input \<Rightarrow> path_generation \<Rightarrow> generation_segment" where
  "make_segment i g =
     \<lparr>gs_generation = pg_id g, gs_ordinal = pg_ordinal g, gs_revision = pg_revision g,
      gs_topology = pg_topology g, gs_opened_at_utc_ns = pg_opened_at_utc_ns g,
      gs_closed_at_utc_ns = pg_closed_at_utc_ns g, gs_hop_count = pg_hop_count g, gs_cause = pg_cause g,
      gs_close_reason = pg_close_reason g, gs_current = (pg_id g = hi_current_generation i),
      gs_episode_count = 0, gs_open_episode_count = 0,
      gs_retained_observations = retained_for (pg_id g) (hi_retained_observations i), gs_reasons = []\<rparr>"

definition count_episode :: "episode \<Rightarrow> generation_segment \<Rightarrow> generation_segment" where
  "count_episode e s =
     (if gs_generation s = ep_generation e
      then s\<lparr>gs_episode_count := gs_episode_count s + 1,
             gs_open_episode_count := (if ep_is_open e then gs_open_episode_count s + 1
                                       else gs_open_episode_count s)\<rparr>
      else s)"

definition history_segments :: "history_input \<Rightarrow> generation_segment list" where
  "history_segments i =
     fold (\<lambda>e. map (count_episode e)) (hi_episodes i) (map (make_segment i) (hi_generations i))"

text \<open>A loop that stops at the first row beyond the budget: the rows, the budget left, whether it stopped.\<close>

fun take_rows :: "u64 \<Rightarrow> 'a list \<Rightarrow> 'a list \<times> u64 \<times> bool" where
  "take_rows budget [] = ([], budget, False)"
| "take_rows budget (x # xs) =
     (if budget = 0 then ([], budget, True)
      else case take_rows (budget - 1) xs of (rows, left, stopped) \<Rightarrow> (x # rows, left, stopped))"

definition segment_parts :: "generation_segment \<Rightarrow> bytes list" where
  "segment_parts s =
     [enc_id (gs_generation s), enc_u64 (gs_ordinal s), enc_u64 (gs_revision s),
      enc_i64 (gs_opened_at_utc_ns s), fld_optional_i64 (gs_closed_at_utc_ns s), enc_bool (gs_current s),
      enc_u64 (gs_episode_count s), enc_u64 (gs_retained_observations s)]"

definition history_episode_parts :: "episode \<Rightarrow> bytes list" where
  "history_episode_parts e =
     [enc_id (ep_id e), enc_u8 (instability_level_code (ep_peak_level e)), enc_i64 (ep_opened_at_utc_ns e),
      fld_optional_i64 (ep_closed_at_utc_ns e), enc_u8 (episode_close_reason_code (ep_close_reason e))]"

definition history_parts :: "history_report \<Rightarrow> bytes list" where
  "history_parts r =
     [enc_str ''jitter.history.v1'', enc_id (hr_series r), enc_id (hr_path r),
      enc_u32 (word_of_nat (length (hr_segments r)))]
     @ concat (map segment_parts (hr_segments r))
     @ [enc_u32 (word_of_nat (length (hr_episodes r)))]
     @ concat (map history_episode_parts (hr_episodes r))
     @ [enc_u32 (word_of_nat (length (hr_conflicts r)))]
     @ map (\<lambda>c. enc_digest (cr_identity c)) (hr_conflicts r)"

definition history_reasons :: "history_report \<Rightarrow> string list" where
  "history_reasons r =
     add_reasons []
       ((if hr_generations_dropped r > 0 then [''generation_history_truncated''] else [])
        @ (if hr_episodes_dropped r > 0 then [''episode_history_truncated''] else [])
        @ (if hr_conflicts_dropped r > 0 then [''conflict_history_truncated''] else [])
        @ (if hr_rows_truncated r then [''rows_truncated_by_request_limit''] else [])
        @ (if length (hr_segments r) > 1 then [''history_is_segmented_by_route_generation''] else []))"

definition build_history_report :: "history_input \<Rightarrow> history_report result" where
  "build_history_report i =
     (let q = hi_request i
      in if id_is_nil (hq_series q)
         then fail Ec_InvalidArgument ''history request requires a series identity''
         else
           case take_rows (if hq_max_rows q = 0 then 1 else hq_max_rows q) (hi_episodes i) of
             (es, budget, stopped) \<Rightarrow>
               (case (if hq_include_conflicts q then take_rows budget (hi_conflicts i) else ([], budget, False)) of
                  (cs, _, stopped') \<Rightarrow>
                    let r = \<lparr>hr_series = hq_series q, hr_path = hq_path q, hr_segments = history_segments i,
                             hr_generations_retained = word_of_nat (length (hi_generations i)),
                             hr_generations_dropped = hi_generations_dropped i, hr_episodes = es,
                             hr_episodes_dropped = hi_episodes_dropped i, hr_conflicts = cs,
                             hr_conflicts_dropped = hi_conflicts_dropped i,
                             hr_rows_truncated = (stopped \<or> stopped'), hr_reasons = [], hr_digest = zero_digest\<rparr>
                    in Inr (r\<lparr>hr_digest := builder_digest (history_parts r),
                              hr_reasons := finalize_reasons (history_reasons r)\<rparr>)))"

text \<open>The state the report is taken from; the operation changes nothing.\<close>

definition history_input_for :: "history_request \<Rightarrow> observatory \<Rightarrow> history_input" where
  "history_input_for q ob =
     (let gs = history (hq_path q) (ob_paths ob)
      in \<lparr>hi_request = q, hi_generations = gs,
          hi_generations_dropped =
            (if length gs > kMaxGenerationHistoryPerPath
             then word_of_nat (length gs - kMaxGenerationHistoryPerPath) else 0),
          hi_episodes = episodes (hq_series q) (ob_episodes ob), hi_episodes_dropped = el_dropped (ob_episodes ob),
          hi_conflicts = conflicts_for_series (hq_series q) (ob_conflicts ob),
          hi_conflicts_dropped = word_of_nat (cl_dropped (ob_conflicts ob)),
          hi_current_generation =
            (case current_generation (hq_path q) (ob_paths ob) of None \<Rightarrow> nil_id | Some g \<Rightarrow> pg_id g),
          hi_retained_observations =
            map (\<lambda>g. (pg_id g, case om_find (hq_series q, pg_id g) (ob_windows ob) of
                                 None \<Rightarrow> 0 | Some w \<Rightarrow> word_of_nat (retained w))) gs\<rparr>)"

definition engine_history :: "history_request \<Rightarrow> observatory \<Rightarrow> history_report result" where
  "engine_history q ob =
     (if id_is_nil (hq_path q) then fail Ec_InvalidArgument ''history request requires a path identity''
      else build_history_report (history_input_for q ob))"

section \<open>Explanations\<close>

record explanation_line =
  xl_code :: string
  xl_detail :: string

record explanation =
  xp_subject :: string
  xp_series :: series_id
  xp_path :: path_id
  xp_generation :: generation_id
  xp_generation_ordinal :: counter
  xp_level :: instability_level
  xp_evidence :: evidence_state
  xp_policy :: instability_policy_id
  xp_window :: window_policy_id
  xp_freshness :: freshness_policy_id
  xp_current_generation :: bool
  xp_lines :: "explanation_line list"
  xp_reasons :: "string list"
  xp_digest :: digest

definition line :: "string \<Rightarrow> string \<Rightarrow> explanation_line" where
  "line code detail = \<lparr>xl_code = code, xl_detail = detail\<rparr>"

definition truth_text :: "bool \<Rightarrow> string" where
  "truth_text b = (if b then ''true'' else ''false'')"

definition boundary_lines :: "explanation_line list" where
  "boundary_lines =
     [line ''boundary.authority''
        (''this runtime observes latency variance and path timing instability; it does not route '' @
         ''traffic, enforce objectives, attribute causality or declare faults''),
      line ''boundary.per_hop''
        (''per-hop values are hop local timing observations and are produced only where clock '' @
         ''comparability permits'')]"

definition evidence_lines :: "series_summary \<Rightarrow> explanation_line list" where
  "evidence_lines y =
     (let c = sy_classification y; e = sy_evidence y
      in [line ''classification.level'' (instability_level_text (cf_level c)),
          line ''classification.positive_assertion'' (truth_text (makes_positive_assertion (cf_level c))),
          line ''evidence.dominant'' (evidence_state_text (es_dominant e)),
          line ''evidence.fresh'' (nat_text (es_fresh e)), line ''evidence.stale'' (nat_text (es_stale e)),
          line ''evidence.expired'' (nat_text (es_expired e)),
          line ''evidence.conflicting'' (nat_text (es_conflicting e)),
          line ''evidence.unknown'' (nat_text (es_unknown e)),
          line ''evidence.unsupported'' (nat_text (es_unsupported e)),
          line ''evidence.total'' (nat_text (es_total e)),
          line ''evidence.real_origin'' (nat_text (es_real_origin e)),
          line ''evidence.synthetic_origin'' (nat_text (es_synthetic_origin e)),
          line ''evidence.admits_positive_assertion'' (truth_text (admits_positive_assertion e)),
          line ''generation.current'' (truth_text (sy_current_generation y)),
          line ''generation.ordinal'' (u64_to_string (sy_generation_ordinal y)),
          line ''origin.dominant'' (evidence_origin_text (sy_dominant_origin y))])"

definition policy_lines :: "series_summary \<Rightarrow> instability_policy \<Rightarrow> explanation_line list" where
  "policy_lines y p =
     [line ''policy.freshness.max_ingest_age_ns'' (i64_to_string (fp_max_ingest_age_ns (ip_freshness p))),
      line ''policy.freshness.max_observation_age_ns'' (i64_to_string (fp_max_observation_age_ns (ip_freshness p))),
      line ''policy.freshness.require_observation_age'' (truth_text (fp_require_observation_age (ip_freshness p))),
      line ''policy.instability.name'' (ip_name p),
      line ''policy.instability.min_fresh_samples'' (nat_text (ip_min_fresh_samples p)),
      line ''policy.instability.min_terms'' (nat_text (ip_min_terms p)),
      line ''policy.instability.require_all_rules'' (truth_text (ip_require_all_rules p)),
      line ''policy.identity'' (id_hex (sy_policy y))]"

definition window_lines :: "series_summary \<Rightarrow> window_policy \<Rightarrow> explanation_line list" where
  "window_lines y w =
     [line ''window.capacity'' (u64_to_string (wp_capacity w)), line ''window.count'' (u64_to_string (wp_count w)),
      line ''window.duration_ns'' (i64_to_string (wp_duration_ns w)),
      line ''window.kind'' (window_kind_text (wp_kind w)), line ''window.selection_reason'' (sy_selection_reason y),
      line ''window.selected'' (u64_to_string (sy_selected y)),
      line ''window.retained'' (u64_to_string (sy_retained y)),
      line ''window.evicted_by_capacity'' (u64_to_string (sy_evicted_by_capacity y)),
      line ''window.out_of_order_accepted'' (u64_to_string (sy_out_of_order_accepted y)),
      line ''window.excluded_by_policy'' (u64_to_string (sy_excluded_by_policy y)),
      line ''window.identity'' (id_hex (sy_window y)), line ''summary.identity'' (id_hex (sy_id y))]"

definition driver_lines :: "(f64_bits \<Rightarrow> string) \<Rightarrow> classification \<Rightarrow> explanation_line list" where
  "driver_lines shortest c =
     (if cf_has_driver c
      then [line ''driver.metric'' (md_name (metric_definition_of (cf_driver_key c))),
            line ''driver.value'' (double_to_string shortest (cf_driver_value c)),
            line ''driver.terms'' (nat_text (cf_terms c))]
      else [line ''driver.metric'' ''none''])"

definition metric_lines :: "(f64_bits \<Rightarrow> string) \<Rightarrow> metric_value \<Rightarrow> explanation_line list" where
  "metric_lines shortest v =
     (let prefix = ''metric.'' @ mv_name v
      in [line (prefix @ ''.value'') (double_to_string shortest (mv_value v)),
          line (prefix @ ''.unit'') (unit_label (mv_unit v)),
          line (prefix @ ''.terms'') (nat_text (mv_term_count v)),
          line (prefix @ ''.identity'') (id_hex (mv_id v))])"

definition rule_lines :: "(f64_bits \<Rightarrow> string) \<Rightarrow> instability_policy \<Rightarrow> rule_evaluation \<Rightarrow> explanation_line list" where
  "rule_lines shortest p e =
     (let prefix = ''rule.'' @ md_name (metric_definition_of (re_metric e));
          justification = (case find (\<lambda>d. tr_metric d = re_metric e) (ip_rules p) of
                             None \<Rightarrow> [] | Some d \<Rightarrow> tr_justification d)
      in [line (prefix @ ''.reason'') (re_reason e),
          line (prefix @ ''.elevated_at'') (double_to_string shortest (re_elevated_at e)),
          line (prefix @ ''.unstable_at'') (double_to_string shortest (re_unstable_at e)),
          line (prefix @ ''.value_present'') (truth_text (re_value_present e))]
         @ (if re_value_present e then [line (prefix @ ''.value'') (double_to_string shortest (re_value e))] else [])
         @ (if justification \<noteq> [] then [line (prefix @ ''.justification'') justification] else []))"

definition summary_lines ::
  "(f64_bits \<Rightarrow> string) \<Rightarrow> series_summary \<Rightarrow> window_policy \<Rightarrow> instability_policy \<Rightarrow> explanation_line list" where
  "summary_lines shortest y w p =
     boundary_lines @ evidence_lines y @ policy_lines y p @ window_lines y w
     @ driver_lines shortest (sy_classification y)
     @ concat (map (metric_lines shortest) (sy_metrics y))
     @ map (line ''metric.unavailable'') (sy_unavailable_metrics y)
     @ concat (map (rule_lines shortest p) (cf_rules (sy_classification y)))"

definition line_key :: "explanation_line \<Rightarrow> string \<times> string" where
  "line_key l = (xl_code l, xl_detail l)"

definition sort_lines :: "explanation_line list \<Rightarrow> explanation_line list" where
  "sort_lines ls = remdups_adj (sort_key line_key ls)"

definition explanation_parts :: "explanation \<Rightarrow> bytes list" where
  "explanation_parts x =
     [enc_str ''jitter.explanation.v1'', enc_str (xp_subject x), enc_id (xp_series x), enc_id (xp_generation x),
      enc_u8 (instability_level_code (xp_level x)), enc_u8 (evidence_state_code (xp_evidence x)),
      enc_id (xp_policy x), enc_id (xp_window x)]
     @ concat (map (\<lambda>l. [enc_str (xl_code l), enc_str (xl_detail l)]) (xp_lines x))"

definition explain_summary ::
  "(f64_bits \<Rightarrow> string) \<Rightarrow> series_summary \<Rightarrow> window_policy \<Rightarrow> instability_policy \<Rightarrow> explanation" where
  "explain_summary shortest y w p =
     (let x = \<lparr>xp_subject = ''series_summary'', xp_series = sy_series y, xp_path = sy_path y,
               xp_generation = sy_generation y, xp_generation_ordinal = sy_generation_ordinal y,
               xp_level = cf_level (sy_classification y), xp_evidence = es_dominant (sy_evidence y),
               xp_policy = sy_policy y, xp_window = sy_window y, xp_freshness = sy_freshness_policy y,
               xp_current_generation = sy_current_generation y,
               xp_lines = sort_lines (summary_lines shortest y w p),
               xp_reasons = sort (add_reasons [] (sy_reasons y)), xp_digest = zero_digest\<rparr>
      in x\<lparr>xp_digest := builder_digest (explanation_parts x)\<rparr>)"

definition engine_explain ::
  "(f64_bits \<Rightarrow> string) \<Rightarrow> summary_request \<Rightarrow> ingest_context \<Rightarrow> observatory \<Rightarrow> explanation result \<times> observatory" where
  "engine_explain shortest q ctx ob =
     (case engine_summarize q ctx False ob of
        (Inl e, ob1) \<Rightarrow> (Inl e, ob1)
      | (Inr out, ob1) \<Rightarrow>
          (res_bind (find_window (rq_series q) (rq_generation q) ob1) (\<lambda>w.
             Inr (explain_summary shortest (so_summary out) (sw_policy w) (rq_policy q))), ob1))"

end
