(* ===== verification/Report_Facts.thy ===== *)
theory Report_Facts
  imports Report Engine_Guarantees
begin

text \<open>
  What reports say: a history holds every generation as its own segment and as many rows as were
  asked for, and says when rows were left out; an explanation states, once and in order, exactly the
  lines of the summary the same request gives.
\<close>

section \<open>Rows\<close>

lemma take_rows_eq:
  "take_rows b xs = (take (unat b) xs, (if length xs \<le> unat b then b - word_of_nat (length xs) else 0), unat b < length xs)"
proof (induction xs arbitrary: b)
  case (Cons x xs)
  show ?case
  proof (cases "b = 0")
    case False
    then have "unat b = Suc (unat (b - 1))" by (simp add: unat_gt_0 unat_minus_one)
    then show ?thesis using Cons False by (auto simp: algebra_simps)
  qed simp
qed simp

lemma rows_left:
  "unat (fst (snd (take_rows b xs))) = unat b - length xs"
proof -
  have "unat (b - word_of_nat (length xs)) = unat b - length xs" if "length xs \<le> unat b"
  proof -
    have "unat (word_of_nat (length xs) :: u64) = length xs"
      using that unat_u64_bound [of b] by (simp add: unat_of_nat take_bit_nat_eq_self)
    then show ?thesis using that by (simp add: unat_sub_if_size word_size)
  qed
  then show ?thesis by (simp add: take_rows_eq)
qed

section \<open>Segments\<close>

definition episode_total :: "generation_id \<Rightarrow> episode list \<Rightarrow> nat" where
  "episode_total g es = length (filter (\<lambda>e. ep_generation e = g) es)"

definition open_total :: "generation_id \<Rightarrow> episode list \<Rightarrow> nat" where
  "open_total g es = length (filter (\<lambda>e. ep_generation e = g \<and> ep_is_open e) es)"

lemma fold_count_episode:
  "fold count_episode es s =
     s\<lparr>gs_episode_count := gs_episode_count s + word_of_nat (episode_total (gs_generation s) es),
       gs_open_episode_count := gs_open_episode_count s + word_of_nat (open_total (gs_generation s) es)\<rparr>"
  by (induction es arbitrary: s) (auto simp: count_episode_def episode_total_def open_total_def algebra_simps)

lemma fold_map_map: "fold (\<lambda>e. map (f e)) es xs = map (fold f es) xs"
  by (induction es arbitrary: xs) simp_all

lemma history_segments_eq:
  "history_segments i =
     map (\<lambda>g. (make_segment i g)\<lparr>gs_episode_count := word_of_nat (episode_total (pg_id g) (hi_episodes i)),
                gs_open_episode_count := word_of_nat (open_total (pg_id g) (hi_episodes i))\<rparr>) (hi_generations i)"
  by (simp add: history_segments_def fold_map_map fold_count_episode make_segment_def)

lemma segment_generations: "map gs_generation (history_segments i) = map pg_id (hi_generations i)"
  by (simp add: history_segments_eq make_segment_def)

lemma segment_ordinals: "map gs_ordinal (history_segments i) = map pg_ordinal (hi_generations i)"
  by (simp add: history_segments_eq make_segment_def)

definition row_budget :: "history_request \<Rightarrow> nat" where
  "row_budget q = max 1 (unat (hq_max_rows q))"

definition conflicts_asked :: "history_input \<Rightarrow> conflict_record list" where
  "conflicts_asked i = (if hq_include_conflicts (hi_request i) then hi_conflicts i else [])"

lemma build_history_report_rows:
  assumes "build_history_report i = Inr r"
  shows "hr_segments r = history_segments i" "hr_episodes r = take (row_budget (hi_request i)) (hi_episodes i)"
    "hr_conflicts r = take (row_budget (hi_request i) - length (hi_episodes i)) (conflicts_asked i)"
    "hr_rows_truncated r \<longleftrightarrow> row_budget (hi_request i) < length (hi_episodes i) + length (conflicts_asked i)"
    "hr_generations_dropped r = hi_generations_dropped i"
proof -
  let ?q = "hi_request i"
  let ?b = "if hq_max_rows ?q = 0 then 1 else hq_max_rows ?q"
  have b: "unat ?b = row_budget ?q" by (auto simp: row_budget_def max_def unat_gt_0 Suc_le_eq)
  obtain budget where e: "take_rows ?b (hi_episodes i) =
      (take (row_budget ?q) (hi_episodes i), budget, row_budget ?q < length (hi_episodes i))"
    "unat budget = row_budget ?q - length (hi_episodes i)"
    using rows_left [of ?b "hi_episodes i"] b by (simp add: take_rows_eq)
  obtain x where c: "(if hq_include_conflicts ?q then take_rows budget (hi_conflicts i) else ([], budget, False)) =
      (take (unat budget) (conflicts_asked i), x, unat budget < length (conflicts_asked i))"
    by (cases "hq_include_conflicts ?q") (auto simp: take_rows_eq conflicts_asked_def)
  note r = assms [unfolded build_history_report_def Let_def e(1) prod.case c]
  show "hr_segments r = history_segments i" "hr_episodes r = take (row_budget ?q) (hi_episodes i)"
    "hr_conflicts r = take (row_budget ?q - length (hi_episodes i)) (conflicts_asked i)"
    "hr_rows_truncated r \<longleftrightarrow> row_budget ?q < length (hi_episodes i) + length (conflicts_asked i)"
    "hr_generations_dropped r = hi_generations_dropped i"
    using r by (auto simp: e(2) split: if_splits)
qed

section \<open>Lines\<close>

lemma line_key_inject: "line_key l = line_key m \<longleftrightarrow> l = m"
  by (cases l; cases m) (simp add: line_key_def)

lemma strict_remdups_adj: "sorted (map f xs) \<Longrightarrow> inj f \<Longrightarrow> sorted_wrt (<) (map f (remdups_adj xs))"
  unfolding remdups_adj_map_injective [symmetric]
  by (simp add: strict_sorted_iff distinct_remdups_adj_sorted)

lemma sort_lines_strict: "sorted_wrt (<) (map line_key (sort_lines ls))"
  unfolding sort_lines_def by (intro strict_remdups_adj) (auto intro: injI simp: line_key_inject)

lemma set_sort_lines: "set (sort_lines ls) = set ls"
  by (simp add: sort_lines_def)

definition tells :: "bool \<Rightarrow> explanation_line \<Rightarrow> bool" where
  "tells b l \<longleftrightarrow> (xl_code l = ''classification.positive_assertion'' \<longrightarrow> xl_detail l = truth_text b)"

lemma line_simps [simp]: "xl_code (line c d) = c" "xl_detail (line c d) = d"
  by (simp_all add: line_def)

lemma lines_tell:
  "list_all (tells b) boundary_lines" "list_all (tells b) (policy_lines y p)" "list_all (tells b) (window_lines y w)"
  "list_all (tells b) (driver_lines shortest c)" "list_all (tells b) (metric_lines shortest v)"
  "list_all (tells b) (rule_lines shortest p e)" "tells b (line ''metric.unavailable'' u)"
  by (simp_all add: tells_def boundary_lines_def policy_lines_def window_lines_def driver_lines_def
      metric_lines_def rule_lines_def Let_def)

lemma evidence_lines_tell: "list_all (tells (makes_positive_assertion (cf_level (sy_classification y)))) (evidence_lines y)"
  by (simp add: tells_def evidence_lines_def Let_def)

lemma assertion_line:
  assumes "l \<in> set (summary_lines shortest y w p)"
  shows "tells (makes_positive_assertion (cf_level (sy_classification y))) l"
  using assms lines_tell evidence_lines_tell [of y] unfolding summary_lines_def list_all_iff by auto

lemma explain_parts:
  "xp_lines (explain_summary shortest y w p) = sort_lines (summary_lines shortest y w p)"
  "xp_level (explain_summary shortest y w p) = cf_level (sy_classification y)"
  "xp_generation (explain_summary shortest y w p) = sy_generation y"
  by (simp_all add: explain_summary_def Let_def)

lemma summarize_untracked:
  assumes "engine_summarize q ctx False ob = (r, ob')"
  shows "same_evidence ob ob'" "r = Inr out \<Longrightarrow> find_window (rq_series q) (rq_generation q) ob' \<noteq> Inl e"
  using assms by (auto simp: engine_summarize_def Let_def find_window_def same_evidence_def guard_of_def split: if_splits sum.splits option.splits)

section \<open>Properties\<close>

text \<open>
  C25: A history report never mixes route generations and says when it is incomplete: there is one
  segment for each generation, in the order given and with the number of its own episodes; the rows
  are the first ones up to the requested bound, episodes before conflicts; and rows are marked as
  missing exactly when some are.
\<close>

lemma history_report_exact:
  assumes "build_history_report i = Inr r"
  shows "map gs_generation (hr_segments r) = map pg_id (hi_generations i) \<and>
    (\<forall>s \<in> set (hr_segments r).
       gs_episode_count s = word_of_nat (length (filter (\<lambda>e. ep_generation e = gs_generation s) (hi_episodes i)))) \<and>
    hr_episodes r = take (row_budget (hi_request i)) (hi_episodes i) \<and>
    hr_conflicts r = take (row_budget (hi_request i) - length (hi_episodes i)) (conflicts_asked i) \<and>
    (hr_rows_truncated r \<longleftrightarrow>
       length (hr_episodes r) + length (hr_conflicts r) < length (hi_episodes i) + length (conflicts_asked i))"
proof -
  note r = build_history_report_rows [OF assms]
  have "\<forall>s \<in> set (history_segments i).
      gs_episode_count s = word_of_nat (length (filter (\<lambda>e. ep_generation e = gs_generation s) (hi_episodes i)))"
    by (simp add: history_segments_eq make_segment_def episode_total_def)
  then show ?thesis using r segment_generations [of i] by auto
qed

lemma history_report_exact_witness:
  "\<exists>r. engine_history \<lparr>hq_series = StrongId 1, hq_path = StrongId 2, hq_max_rows = 0, hq_include_conflicts = True\<rparr>
          (make_observatory default_engine_config) = Inr r \<and> hr_episodes r = [] \<and> \<not> hr_rows_truncated r"
proof -
  let ?q = "\<lparr>hq_series = StrongId 1, hq_path = StrongId 2, hq_max_rows = 0, hq_include_conflicts = True\<rparr>"
  let ?i = "history_input_for ?q (make_observatory default_engine_config)"
  have ok: "\<not> id_is_nil (StrongId 1 :: series_id)" "\<not> id_is_nil (StrongId 2 :: path_id)" by (simp_all add: id_is_nil_iff nil_id_def)
  then obtain r where r: "build_history_report ?i = Inr r"
    by (fastforce simp: build_history_report_def Let_def history_input_for_def split: prod.splits)
  have "hi_episodes ?i = []" "hi_conflicts ?i = []"
    by (simp_all add: history_input_for_def Let_def make_observatory_def episode_log_init_def episodes_def om_get_def
        conflict_log_init_def conflicts_for_series_def)
  then have "hr_episodes r = [] \<and> \<not> hr_rows_truncated r"
    using history_report_exact [OF r] by (simp add: conflicts_asked_def)
  then show ?thesis using r ok by (simp add: engine_history_def)
qed

text \<open>
  C26: What a history of the engine shows: its segments have increasing ordinals (until the counter
  saturates) and the last one is the current generation's. It shows finished episodes only: an episode in progress
  is neither listed nor counted, and the history never says that generations were dropped.
\<close>

lemma engine_history_shows:
  assumes "engine_reach recovering cfg ob" "engine_history q ob = Inr r"
  shows "sorted_wrt (\<lambda>m n. m < n \<or> m = u64_max \<and> n = u64_max) (map gs_ordinal (hr_segments r)) \<and>
    (hr_segments r \<noteq> [] \<longrightarrow> gs_current (last (hr_segments r))) \<and>
    (\<forall>e \<in> set (hr_episodes r). \<not> ep_is_open e) \<and> (\<forall>s \<in> set (hr_segments r). gs_open_episode_count s = 0) \<and>
    hr_generations_dropped r = 0"
proof -
  let ?i = "history_input_for q ob"
  let ?gs = "history (hq_path q) (ob_paths ob)"
  have built: "build_history_report ?i = Inr r" using assms(2) by (simp add: engine_history_def split: if_splits)
  note rows = build_history_report_rows [OF built]
  have inv: "engine_inv (\<not> recovering) ob" by (rule engine_reach_inv [OF assms(1)])
  then have gs: "history_inv (hq_path q) ?gs" and es: "bucket_inv (\<not> recovering) (hq_series q) (hi_episodes ?i)"
    by (simp_all add: engine_inv_defs catalog_inv_def episode_log_inv_def history_input_for_def Let_def)
  have input: "hi_generations ?i = ?gs" "hi_generations_dropped ?i = 0"
    "hi_current_generation ?i = (case current_generation (hq_path q) (ob_paths ob) of None \<Rightarrow> nil_id | Some g \<Rightarrow> pg_id g)"
    using gs by (simp_all add: history_input_for_def Let_def history_inv_def)
  have shut: "\<forall>e \<in> set (hi_episodes ?i). \<not> ep_is_open e" using es by (simp add: bucket_inv_def list_all_iff)
  then have "open_total g (hi_episodes ?i) = 0" for g by (simp add: open_total_def)
  then have none: "\<forall>s \<in> set (history_segments ?i). gs_open_episode_count s = 0"
    by (simp add: history_segments_eq make_segment_def)
  have ordered: "sorted_wrt (\<lambda>m n. m < n \<or> m = u64_max \<and> n = u64_max) (map pg_ordinal ?gs)"
    using gs by (simp add: history_inv_def sorted_wrt_map ordinal_before_def [abs_def])
  have "gs_current (last (history_segments ?i))" if "history_segments ?i \<noteq> []"
    using that input by (simp add: history_segments_eq last_map make_segment_def current_generation_def)
  then show ?thesis
    using rows none ordered shut input segment_ordinals [of ?i] by (auto dest: in_set_takeD)
qed

lemma engine_history_shows_witness:
  "\<exists>r. engine_history \<lparr>hq_series = StrongId 1, hq_path = StrongId 2, hq_max_rows = 0, hq_include_conflicts = True\<rparr>
          (make_observatory default_engine_config) = Inr r \<and> hr_generations_dropped r = 0"
proof -
  let ?q = "\<lparr>hq_series = StrongId 1, hq_path = StrongId 2, hq_max_rows = 0, hq_include_conflicts = True\<rparr>"
  obtain r where r: "engine_history ?q (make_observatory default_engine_config) = Inr r"
    by (fastforce simp: engine_history_def build_history_report_def Let_def history_input_for_def id_is_nil_iff nil_id_def
        split: prod.splits)
  then show ?thesis using engine_history_shows [OF reach_start [of False default_engine_config] r] by blast
qed

text \<open>
  C24: An explanation explains the summary that the same request gives: it exists exactly when the
  summary does, carries its level and generation, holds exactly the lines of its parts, each once
  and in the order of code and detail, and claims a positive assertion exactly when the level makes
  one. Asking for it leaves every window, guard, episode and baseline as it was.
\<close>

lemma explanation_faithful:
  assumes "engine_summarize q ctx False ob = (outcome, ob1)" "engine_explain shortest q ctx ob = (r, ob')"
  shows "ob' = ob1 \<and> same_evidence ob ob' \<and>
    (case (outcome, r) of
       (Inl e, Inl e') \<Rightarrow> e' = e
     | (Inr out, Inr x) \<Rightarrow>
         xp_level x = cf_level (sy_classification (so_summary out)) \<and> xp_generation x = sy_generation (so_summary out) \<and>
         sorted_wrt (<) (map line_key (xp_lines x)) \<and>
         (\<exists>w. find_window (rq_series q) (rq_generation q) ob = Inr w \<and>
            set (xp_lines x) = set (summary_lines shortest (so_summary out) (sw_policy w) (rq_policy q))) \<and>
         (\<forall>l \<in> set (xp_lines x). xl_code l = ''classification.positive_assertion'' \<longrightarrow>
            xl_detail l = truth_text (makes_positive_assertion (xp_level x)))
     | _ \<Rightarrow> False)"
proof (cases outcome)
  case (Inl e)
  then show ?thesis using assms summarize_untracked(1) [OF assms(1)] by (auto simp: engine_explain_def)
next
  case (Inr out)
  have same: "same_evidence ob ob1" by (rule summarize_untracked(1) [OF assms(1)])
  obtain w where w: "find_window (rq_series q) (rq_generation q) ob1 = Inr w"
    using summarize_untracked(2) [OF assms(1) Inr] by (cases "find_window (rq_series q) (rq_generation q) ob1") auto
  then have "find_window (rq_series q) (rq_generation q) ob = Inr w"
    using same by (simp add: find_window_def same_evidence_def)
  moreover have "ob' = ob1" "r = Inr (explain_summary shortest (so_summary out) (sw_policy w) (rq_policy q))"
    using assms Inr w by (simp_all add: engine_explain_def)
  ultimately show ?thesis
    using Inr same by (auto simp: explain_parts sort_lines_strict set_sort_lines tells_def dest: assertion_line)
qed

lemma explanation_faithful_witness:
  "same_evidence (make_observatory default_engine_config)
     (snd (engine_explain (\<lambda>_. ''0'') (request_for []) \<lparr>ic_now_utc_ns = 0, ic_historical = False\<rparr>
        (make_observatory default_engine_config)))"
  using explanation_faithful [OF prod.collapse [symmetric] prod.collapse [symmetric]] by blast

end
