(* ===== verification/Render.thy ===== *)
theory Render
  imports Report
begin

text \<open>
  The documents the engine exports: \<^verbatim>\<open>include/jitter/render.hpp\<close>, \<^verbatim>\<open>src/render.cpp\<close> and the document
  and export operations of \<^verbatim>\<open>src/engine.cpp\<close>. A document is a tree (Json); \<open>shortest\<close> is the text of a
  double. A count that the model keeps as a number is printed at its width in the source.
\<close>

section \<open>Parts\<close>

definition id_json :: "'tag strong_id \<Rightarrow> json" where
  "id_json i = JString (id_hex i)"

definition digest_json :: "digest \<Rightarrow> json" where
  "digest_json d = JString (digest_hex d)"

definition optional_i64_json :: "i64 option \<Rightarrow> json" where
  "optional_i64_json v = (case v of None \<Rightarrow> JNull | Some x \<Rightarrow> make_i64 x)"

definition optional_double_json :: "(f64_bits \<Rightarrow> string) \<Rightarrow> f64_bits option \<Rightarrow> json" where
  "optional_double_json shortest v = (case v of None \<Rightarrow> JNull | Some x \<Rightarrow> make_double shortest x)"

definition strings_json :: "string list \<Rightarrow> json" where
  "strings_json vs = array_of (map JString vs)"

definition metric_key_json :: "metric_key \<Rightarrow> json" where
  "metric_key_json k = JString (md_name (metric_definition_of k))"

abbreviation count_json :: "nat \<Rightarrow> json" where
  "count_json n \<equiv> make_u64 (word_of_nat n)"

definition kVersionString :: string where "kVersionString = ''1.0.0''"
definition kProductName :: string where "kProductName = ''Jitter Observatory''"
definition kProductSlug :: string where "kProductSlug = ''jitter-observatory''"
definition kOrganization :: string where "kOrganization = ''Summon Software Labs''"
definition kExportSchemaVersion :: u32 where "kExportSchemaVersion = 1"

definition render_version :: json where
  "render_version =
     object_of
       [(''product'', JString kProductName), (''slug'', JString kProductSlug),
        (''version'', JString kVersionString), (''organization'', JString kOrganization)]"

definition make_document :: "string \<Rightarrow> json \<Rightarrow> json" where
  "make_document kind payload =
     object_of
       [(''schema'', make_u64 (ucast kExportSchemaVersion)), (''kind'', JString kind),
        (''producer'', render_version), (''payload'', payload)]"

section \<open>Metrics and evidence\<close>

definition render_metric_value :: "(f64_bits \<Rightarrow> string) \<Rightarrow> metric_value \<Rightarrow> json" where
  "render_metric_value shortest v =
     object_of
       [(''identity'', id_json (mv_id v)), (''key'', metric_key_json (mv_key v)), (''name'', JString (mv_name v)),
        (''unit'', JString (unit_label (mv_unit v))), (''value'', make_double shortest (mv_value v)),
        (''sample_count'', count_json (mv_sample_count v)), (''term_count'', count_json (mv_term_count v)),
        (''definition_version'', make_u64 (ucast (mv_version v)))]"

definition render_metric_definition :: "metric_definition \<Rightarrow> json" where
  "render_metric_definition d =
     object_of
       [(''identity'', id_json (md_id d)), (''key'', metric_key_json (md_key d)), (''name'', JString (md_name d)),
        (''formula'', JString (md_formula d)), (''family'', JString (metric_family_text (md_family d))),
        (''unit'', JString (unit_label (md_unit d))), (''estimator'', JString (estimator_text (md_estimator d))),
        (''input'', JString (metric_input_text (md_input d))),
        (''requires_ordered_samples'', JBoolean (md_requires_ordered_samples d)),
        (''min_samples'', count_json (md_min_samples d)), (''min_terms'', count_json (md_min_terms d)),
        (''definition_version'', make_u64 (ucast (md_version d)))]"

definition render_evidence_summary :: "evidence_summary \<Rightarrow> json" where
  "render_evidence_summary e =
     object_of
       [(''total'', count_json (es_total e)), (''fresh'', count_json (es_fresh e)), (''stale'', count_json (es_stale e)),
        (''expired'', count_json (es_expired e)), (''conflicting'', count_json (es_conflicting e)),
        (''incomplete'', count_json (es_incomplete e)), (''unsupported'', count_json (es_unsupported e)),
        (''unknown'', count_json (es_unknown e)), (''real_origin'', count_json (es_real_origin e)),
        (''synthetic_origin'', count_json (es_synthetic_origin e)),
        (''dominant'', JString (evidence_state_text (es_dominant e))),
        (''admits_positive_assertion'', JBoolean (admits_positive_assertion e)),
        (''reasons'', strings_json (es_reasons e))]"

definition render_evidence_assessment :: "sample_assessment \<Rightarrow> json" where
  "render_evidence_assessment a =
     object_of
       [(''sample'', id_json (sa_sample a)), (''state'', JString (evidence_state_text (sa_state a))),
        (''reason'', JString (sa_reason a)), (''ingest_age_ns'', optional_i64_json (ag_ingest_age_ns (sa_ages a))),
        (''observation_age_ns'', optional_i64_json (ag_observation_age_ns (sa_ages a))),
        (''in_domain_span_ns'', optional_i64_json (ag_in_domain_span_ns (sa_ages a))),
        (''comparability'', JString (comparability_verdict_text (ag_comparability (sa_ages a)))),
        (''comparability_reason'', JString (ag_reason (sa_ages a)))]"

section \<open>Classifications and summaries\<close>

definition render_rule :: "(f64_bits \<Rightarrow> string) \<Rightarrow> rule_evaluation \<Rightarrow> json" where
  "render_rule shortest e =
     object_of
       ([(''metric'', JString (re_metric_name e)), (''identity'', id_json (re_metric_id e)),
         (''direction'', JString (threshold_direction_text (re_direction e))),
         (''elevated_at'', make_double shortest (re_elevated_at e)),
         (''unstable_at'', make_double shortest (re_unstable_at e)), (''value_present'', JBoolean (re_value_present e))]
        @ (if re_value_present e then [(''value'', make_double shortest (re_value e))] else [])
        @ [(''breached_elevated'', JBoolean (re_breached_elevated e)),
           (''breached_unstable'', JBoolean (re_breached_unstable e)), (''term_count'', count_json (re_term_count e)),
           (''reason'', JString (re_reason e))])"

definition render_driver :: "(f64_bits \<Rightarrow> string) \<Rightarrow> classification \<Rightarrow> json" where
  "render_driver shortest c =
     object_of
       ((''present'', JBoolean (cf_has_driver c))
        # (if cf_has_driver c
           then [(''key'', metric_key_json (cf_driver_key c)), (''identity'', id_json (cf_driver_id c)),
                 (''value'', make_double shortest (cf_driver_value c))]
           else []))"

definition render_classification :: "(f64_bits \<Rightarrow> string) \<Rightarrow> classification \<Rightarrow> json" where
  "render_classification shortest c =
     object_of
       [(''level'', JString (instability_level_text (cf_level c))),
        (''evidence'', JString (evidence_state_text (cf_evidence c))),
        (''current_generation'', JBoolean (cf_current_generation c)),
        (''asserts_instability'', JBoolean (asserts_instability (cf_level c))),
        (''asserts_stability'', JBoolean (asserts_stability (cf_level c))),
        (''makes_positive_assertion'', JBoolean (makes_positive_assertion (cf_level c))),
        (''fresh_samples'', count_json (cf_fresh_samples c)), (''terms'', count_json (cf_terms c)),
        (''episode_close_windows'', count_json (cf_episode_close_windows c)),
        (''window_policy'', id_json (cf_window c)), (''instability_policy'', id_json (cf_policy c)),
        (''driver'', render_driver shortest c), (''rules'', array_of (map (render_rule shortest) (cf_rules c))),
        (''reasons'', strings_json (cf_reasons c))]"

definition render_counts :: "series_summary \<Rightarrow> json" where
  "render_counts y =
     object_of
       [(''retained'', make_u64 (sy_retained y)), (''selected'', make_u64 (sy_selected y)),
        (''excluded_by_policy'', make_u64 (sy_excluded_by_policy y)),
        (''evicted_by_capacity'', make_u64 (sy_evicted_by_capacity y)),
        (''out_of_order_accepted'', make_u64 (sy_out_of_order_accepted y)),
        (''duplicate_ignored'', make_u64 (sy_duplicate_ignored y)),
        (''fresh_samples'', count_json (sy_fresh_samples y))]"

definition render_bounds :: "series_summary \<Rightarrow> json" where
  "render_bounds y =
     object_of
       [(''first_observation_ticks'', optional_i64_json (sy_first_observation_ticks y)),
        (''last_observation_ticks'', optional_i64_json (sy_last_observation_ticks y)),
        (''first_received_utc_ns'', optional_i64_json (sy_first_received_utc_ns y)),
        (''last_received_utc_ns'', optional_i64_json (sy_last_received_utc_ns y))]"

definition render_summary :: "(f64_bits \<Rightarrow> string) \<Rightarrow> series_summary \<Rightarrow> json" where
  "render_summary shortest y =
     object_of
       [(''id'', id_json (sy_id y)), (''series'', id_json (sy_series y)), (''path'', id_json (sy_path y)),
        (''generation'', id_json (sy_generation y)), (''generation_ordinal'', make_u64 (sy_generation_ordinal y)),
        (''window_policy'', id_json (sy_window y)), (''instability_policy'', id_json (sy_policy y)),
        (''freshness_policy'', id_json (sy_freshness_policy y)),
        (''current_generation'', JBoolean (sy_current_generation y)), (''counts'', render_counts y),
        (''observation_bounds'', render_bounds y), (''selection_reason'', JString (sy_selection_reason y)),
        (''dominant_origin'', JString (evidence_origin_text (sy_dominant_origin y))),
        (''evidence'', render_evidence_summary (sy_evidence y)),
        (''metrics'', array_of (map (render_metric_value shortest) (sy_metrics y))),
        (''unavailable_metrics'', strings_json (sy_unavailable_metrics y)),
        (''classification'', render_classification shortest (sy_classification y)),
        (''reasons'', strings_json (sy_reasons y)), (''digest'', digest_json (sy_digest y)),
        (''measurement_digest'', digest_json (sy_measurement_digest y))]"

section \<open>Episodes, conflicts, baselines and comparisons\<close>

definition render_episode :: "(f64_bits \<Rightarrow> string) \<Rightarrow> episode \<Rightarrow> json" where
  "render_episode shortest e =
     object_of
       [(''id'', id_json (ep_id e)), (''series'', id_json (ep_series e)), (''path'', id_json (ep_path e)),
        (''generation'', id_json (ep_generation e)), (''generation_ordinal'', make_u64 (ep_generation_ordinal e)),
        (''instability_policy'', id_json (ep_policy e)), (''window_policy'', id_json (ep_window e)),
        (''peak_level'', JString (instability_level_text (ep_peak_level e))),
        (''driver_metric'', metric_key_json (ep_driver_key e)), (''driver_identity'', id_json (ep_driver_id e)),
        (''opening_value'', make_double shortest (ep_opening_value e)),
        (''peak_value'', make_double shortest (ep_peak_value e)),
        (''opened_at_utc_ns'', make_i64 (ep_opened_at_utc_ns e)),
        (''closed_at_utc_ns'', optional_i64_json (ep_closed_at_utc_ns e)), (''open'', JBoolean (ep_is_open e)),
        (''observations'', make_u64 (ep_observations e)), (''breach_observations'', make_u64 (ep_breach_observations e)),
        (''recovery_observations'', make_u64 (ep_recovery_observations e)),
        (''close_windows_required'', count_json (ep_close_windows_required e)),
        (''close_reason'', JString (episode_close_reason_text (ep_close_reason e))),
        (''close_detail'', JString (ep_close_detail e)), (''duration_ns'', optional_i64_json (ep_duration_ns e)),
        (''reasons'', strings_json (ep_reasons e))]"

definition render_conflict :: "conflict_record \<Rightarrow> json" where
  "render_conflict c =
     object_of
       [(''identity'', digest_json (cr_identity c)), (''series'', id_json (cr_series c)), (''path'', id_json (cr_path c)),
        (''generation'', id_json (cr_generation c)), (''sequence'', make_u64 (cr_sequence c)),
        (''source_a'', id_json (cr_source_a c)), (''source_b'', id_json (cr_source_b c)),
        (''content_a'', digest_json (cr_content_a c)), (''content_b'', digest_json (cr_content_b c)),
        (''authority_a'', JString (source_authority_text (cr_authority_a c))),
        (''authority_b'', JString (source_authority_text (cr_authority_b c))),
        (''detected_at_utc_ns'', make_i64 (cr_detected_at_utc_ns c)),
        (''outcome'', JString (conflict_outcome_text (cr_outcome c))), (''resolved'', JBoolean (cr_resolved c)),
        (''winner'', case cr_winner c of None \<Rightarrow> JNull | Some s \<Rightarrow> id_json s), (''reason'', JString (cr_reason c))]"

definition render_baseline :: "(f64_bits \<Rightarrow> string) \<Rightarrow> baseline \<Rightarrow> json" where
  "render_baseline shortest b =
     object_of
       [(''id'', id_json (bl_id b)), (''name'', JString (bl_name b)), (''series'', id_json (bl_series b)),
        (''path'', id_json (bl_path b)), (''generation'', id_json (bl_generation b)),
        (''generation_ordinal'', make_u64 (bl_generation_ordinal b)), (''window_policy'', id_json (bl_window b)),
        (''instability_policy'', id_json (bl_policy b)), (''sample_count'', make_u64 (bl_sample_count b)),
        (''fresh_sample_count'', make_u64 (bl_fresh_sample_count b)),
        (''first_observation_utc_ns'', optional_i64_json (bl_first_observation_utc_ns b)),
        (''last_observation_utc_ns'', optional_i64_json (bl_last_observation_utc_ns b)),
        (''span_ns'', optional_i64_json (bl_span_ns b)), (''evidence'', JString (evidence_state_text (bl_evidence b))),
        (''origin'', JString (evidence_origin_text (bl_origin b))),
        (''created_at_utc_ns'', make_i64 (bl_created_at_utc_ns b)), (''note'', JString (bl_note b)),
        (''metrics'', array_of (map (render_metric_value shortest) (bl_metrics b))), (''digest'', digest_json (bl_digest b))]"

definition render_metric_comparison :: "(f64_bits \<Rightarrow> string) \<Rightarrow> metric_comparison \<Rightarrow> json" where
  "render_metric_comparison shortest c =
     object_of
       [(''metric'', JString (mc_name c)), (''identity'', id_json (mc_metric c)), (''unit'', JString (unit_label (mc_unit c))),
        (''baseline_value'', optional_double_json shortest (mc_baseline_value c)),
        (''current_value'', optional_double_json shortest (mc_current_value c)),
        (''delta'', optional_double_json shortest (mc_delta c)), (''ratio'', optional_double_json shortest (mc_ratio c)),
        (''relative_change'', optional_double_json shortest (mc_relative_change c)),
        (''baseline_terms'', count_json (mc_baseline_terms c)), (''current_terms'', count_json (mc_current_terms c)),
        (''verdict'', JString (comparison_verdict_text (mc_verdict c))), (''reason'', JString (mc_reason c))]"

definition render_comparison :: "(f64_bits \<Rightarrow> string) \<Rightarrow> comparison_report \<Rightarrow> json" where
  "render_comparison shortest r =
     object_of
       [(''baseline'', id_json (br_baseline r)), (''baseline_name'', JString (br_baseline_name r)),
        (''series'', id_json (br_series r)), (''path'', id_json (br_path r)),
        (''baseline_generation'', id_json (br_baseline_generation r)),
        (''current_generation'', id_json (br_current_generation r)),
        (''baseline_generation_ordinal'', make_u64 (br_baseline_generation_ordinal r)),
        (''current_generation_ordinal'', make_u64 (br_current_generation_ordinal r)),
        (''generation_changed'', JBoolean (br_generation_changed r)), (''window_changed'', JBoolean (br_window_changed r)),
        (''policy_changed'', JBoolean (br_policy_changed r)),
        (''current_evidence'', JString (evidence_state_text (br_current_evidence r))),
        (''overall'', JString (comparison_verdict_text (br_overall r))),
        (''comparisons'', array_of (map (render_metric_comparison shortest) (br_comparisons r))),
        (''reasons'', strings_json (br_reasons r)), (''digest'', digest_json (br_digest r))]"

section \<open>Histories, attributions and explanations\<close>

definition render_segment :: "generation_segment \<Rightarrow> json" where
  "render_segment s =
     object_of
       [(''generation'', id_json (gs_generation s)), (''ordinal'', make_u64 (gs_ordinal s)),
        (''revision'', make_u64 (gs_revision s)), (''topology'', digest_json (gs_topology s)),
        (''opened_at_utc_ns'', make_i64 (gs_opened_at_utc_ns s)),
        (''closed_at_utc_ns'', optional_i64_json (gs_closed_at_utc_ns s)),
        (''hop_count'', make_u64 (ucast (gs_hop_count s))), (''cause'', JString (gs_cause s)),
        (''close_reason'', JString (gs_close_reason s)), (''current'', JBoolean (gs_current s)),
        (''episode_count'', make_u64 (gs_episode_count s)),
        (''open_episode_count'', make_u64 (gs_open_episode_count s)),
        (''retained_observations'', make_u64 (gs_retained_observations s))]"

definition render_history :: "(f64_bits \<Rightarrow> string) \<Rightarrow> history_report \<Rightarrow> json" where
  "render_history shortest r =
     object_of
       [(''series'', id_json (hr_series r)), (''path'', id_json (hr_path r)),
        (''generations_retained'', make_u64 (hr_generations_retained r)),
        (''generations_dropped'', make_u64 (hr_generations_dropped r)),
        (''episodes_dropped'', make_u64 (hr_episodes_dropped r)), (''conflicts_dropped'', make_u64 (hr_conflicts_dropped r)),
        (''rows_truncated'', JBoolean (hr_rows_truncated r)),
        (''segments'', array_of (map render_segment (hr_segments r))),
        (''episodes'', array_of (map (render_episode shortest) (hr_episodes r))),
        (''conflicts'', array_of (map render_conflict (hr_conflicts r))), (''reasons'', strings_json (hr_reasons r)),
        (''digest'', digest_json (hr_digest r))]"

definition render_hop_attribution :: "(f64_bits \<Rightarrow> string) \<Rightarrow> hop_attribution \<Rightarrow> json" where
  "render_hop_attribution shortest h =
     object_of
       [(''hop'', id_json (ha_hop h)), (''index'', make_u64 (ucast (ha_index h))), (''name'', JString (ha_name h)),
        (''clock_domain'', id_json (ha_clock h)), (''clock_comparable'', JBoolean (ha_clock_comparable h)),
        (''clock_max_offset_ns'', make_i64 (ha_clock_max_offset_ns h)),
        (''state'', JString (attribution_state_text (ha_state h))), (''arrivals'', count_json (ha_arrivals h)),
        (''terms'', count_json (ha_terms h)), (''value_present'', JBoolean (ha_value_present h)),
        (''value'', if ha_value_present h then make_double shortest (ha_value h) else JNull),
        (''reason'', JString (ha_reason h))]"

definition render_attribution :: "(f64_bits \<Rightarrow> string) \<Rightarrow> attribution_report \<Rightarrow> json" where
  "render_attribution shortest r =
     object_of
       [(''series'', id_json (at_series r)), (''path'', id_json (at_path r)), (''generation'', id_json (at_generation r)),
        (''generation_ordinal'', make_u64 (at_generation_ordinal r)), (''metric'', metric_key_json (at_metric r)),
        (''metric_identity'', id_json (at_metric_id r)), (''current_generation'', JBoolean (at_current_generation r)),
        (''complete'', JBoolean (at_complete r)), (''total_hops'', count_json (at_total_hops r)),
        (''attributed_hops'', count_json (at_attributed_hops r)), (''limitation_note'', JString (at_limitation_note r)),
        (''hops'', array_of (map (render_hop_attribution shortest) (at_hops r))),
        (''reasons'', strings_json (at_reasons r)), (''digest'', digest_json (at_digest r))]"

definition render_line :: "explanation_line \<Rightarrow> json" where
  "render_line l = object_of [(''code'', JString (xl_code l)), (''detail'', JString (xl_detail l))]"

definition render_explanation :: "explanation \<Rightarrow> json" where
  "render_explanation x =
     object_of
       [(''subject'', JString (xp_subject x)), (''series'', id_json (xp_series x)), (''path'', id_json (xp_path x)),
        (''generation'', id_json (xp_generation x)), (''generation_ordinal'', make_u64 (xp_generation_ordinal x)),
        (''level'', JString (instability_level_text (xp_level x))),
        (''evidence'', JString (evidence_state_text (xp_evidence x))),
        (''current_generation'', JBoolean (xp_current_generation x)), (''instability_policy'', id_json (xp_policy x)),
        (''window_policy'', id_json (xp_window x)), (''freshness_policy'', id_json (xp_freshness x)),
        (''lines'', array_of (map render_line (xp_lines x))), (''reasons'', strings_json (xp_reasons x)),
        (''digest'', digest_json (xp_digest x))]"

section \<open>Catalog entries and samples\<close>

definition render_clock_domain :: "clock_domain \<Rightarrow> json" where
  "render_clock_domain d =
     object_of
       [(''id'', id_json (cd_id d)), (''name'', JString (cd_name d)), (''kind'', JString (clock_kind_text (cd_kind d))),
        (''unit'', JString (time_unit_text (cd_unit d))),
        (''unit_convertible'', JBoolean (nanos_per_unit (cd_unit d) \<noteq> None)),
        (''epoch_note'', JString (cd_epoch_note d)), (''declared_accuracy_ns'', make_i64 (cd_declared_accuracy_ns d)),
        (''declared_utc_aligned'', JBoolean (cd_declared_utc_aligned d)), (''owner'', id_json (cd_owner d))]"

definition render_source :: "source_descriptor \<Rightarrow> json" where
  "render_source d =
     object_of
       [(''id'', id_json (sd_id d)), (''name'', JString (sd_name d)),
        (''authority'', JString (source_authority_text (sd_authority d))),
        (''origin'', JString (evidence_origin_text (sd_origin d))), (''clock_domain'', id_json (sd_clock_domain d)),
        (''protocol_revision'', make_u64 (ucast (sd_protocol_revision d))), (''description'', JString (sd_description d))]"

definition render_series :: "series_descriptor \<Rightarrow> json" where
  "render_series d =
     object_of
       [(''id'', id_json (se_id d)), (''name'', JString (se_name d)), (''kind'', JString (measurement_kind_text (se_kind d))),
        (''unit'', JString (time_unit_text (se_unit d))), (''path'', id_json (se_path d)),
        (''clock_domain'', id_json (se_clock_domain d)), (''origin'', JString (evidence_origin_text (se_origin d))),
        (''description'', JString (se_description d))]"

definition render_hop :: "hop_descriptor \<Rightarrow> json" where
  "render_hop h =
     object_of
       [(''hop'', id_json (hd_id h)), (''index'', make_u64 (ucast (hd_index h))), (''name'', JString (hd_name h)),
        (''timing_clock'', case hd_timing_clock h of None \<Rightarrow> JNull | Some c \<Rightarrow> id_json c),
        (''origin'', JString (evidence_origin_text (hd_origin h))), (''device_note'', JString (hd_device_note h))]"

definition render_path :: "path_descriptor \<Rightarrow> json" where
  "render_path d =
     object_of
       [(''id'', id_json (pd_id d)), (''name'', JString (pd_name d)), (''origin'', JString (evidence_origin_text (pd_origin d))),
        (''description'', JString (pd_description d)), (''hops'', array_of (map render_hop (pd_hops d)))]"

definition render_generation :: "path_generation \<Rightarrow> json" where
  "render_generation g =
     object_of
       [(''id'', id_json (pg_id g)), (''path'', id_json (pg_path g)), (''ordinal'', make_u64 (pg_ordinal g)),
        (''revision'', make_u64 (pg_revision g)), (''topology'', digest_json (pg_topology g)),
        (''opened_at_utc_ns'', make_i64 (pg_opened_at_utc_ns g)),
        (''closed_at_utc_ns'', optional_i64_json (pg_closed_at_utc_ns g)),
        (''hop_count'', make_u64 (ucast (pg_hop_count g))), (''cause'', JString (pg_cause g)),
        (''close_reason'', JString (pg_close_reason g)), (''open'', JBoolean (pg_is_open g))]"

definition render_hop_timing :: "hop_timing \<Rightarrow> json" where
  "render_hop_timing t =
     object_of
       [(''hop'', id_json (ht_hop t)), (''arrived_ticks'', make_i64 (tp_ticks (ht_arrived t))),
        (''clock'', id_json (tp_domain (ht_arrived t)))]"

definition render_sample :: "latency_sample \<Rightarrow> json" where
  "render_sample s =
     (let p = ls_provenance s
      in object_of
           [(''id'', id_json (ls_id s)), (''series'', id_json (ls_series s)), (''path'', id_json (ls_path s)),
            (''generation'', id_json (ls_generation s)), (''generation_ordinal'', make_u64 (ls_generation_ordinal s)),
            (''latency_ns'', make_i64 (ls_latency_ns s)), (''observed_at_ticks'', make_i64 (tp_ticks (ls_observed_at s))),
            (''observed_clock'', id_json (tp_domain (ls_observed_at s))),
            (''received_at_utc_ns'', make_i64 (tp_ticks (ls_received_at s))),
            (''received_clock'', id_json (tp_domain (ls_received_at s))), (''source'', id_json (pv_source p)),
            (''incarnation'', make_u64 (pv_incarnation p)), (''epoch'', make_u64 (pv_epoch p)),
            (''sequence'', make_u64 (pv_sequence p)), (''authority'', JString (source_authority_text (pv_authority p))),
            (''origin'', JString (evidence_origin_text (pv_origin p))), (''ingest_path'', JString (pv_ingest_path p)),
            (''hop_timings'', array_of (map render_hop_timing (ls_hop_timings s))),
            (''metadata'', object_of (map (\<lambda>(k, v). (k, JString v)) (om_entries (ls_metadata s)))),
            (''content'', digest_json (ls_content s))])"

definition render_ingest_outcome :: "ingest_outcome \<Rightarrow> json" where
  "render_ingest_outcome r =
     object_of
       [(''batch'', id_json (io_batch r)), (''verdict'', JString (sequence_verdict_text (io_verdict r))),
        (''admitted'', JBoolean (io_admitted r)), (''accepted'', make_u64 (io_accepted r)),
        (''duplicates'', make_u64 (io_duplicates r)), (''historical'', make_u64 (io_historical r)),
        (''rejected'', make_u64 (io_rejected r)), (''window_retained'', make_u64 (io_window_retained r)),
        (''window_created'', JBoolean (io_window_created r)), (''conflict_recorded'', JBoolean (io_conflict_recorded r)),
        (''reason'', JString (io_reason r)), (''notes'', strings_json (io_notes r))]"

section \<open>Documents of the engine\<close>

definition render_counters :: "observatory \<Rightarrow> json" where
  "render_counters ob =
     (let c = ob_counters ob
      in object_of
           [(''batches_accepted'', make_u64 (ct_batches_accepted c)), (''batches_rejected'', make_u64 (ct_batches_rejected c)),
            (''batches_duplicate'', make_u64 (ct_batches_duplicate c)),
            (''batches_historical'', make_u64 (ct_batches_historical c)), (''samples_stored'', make_u64 (ct_samples_stored c)),
            (''samples_duplicate'', make_u64 (ct_samples_duplicate c)),
            (''conflicts_recorded'', make_u64 (ct_conflicts_recorded c)),
            (''windows_created'', make_u64 (ct_windows_created c)),
            (''generations_opened'', make_u64 (ct_generations_opened c)),
            (''summaries_computed'', make_u64 (ct_summaries_computed c)), (''episodes_opened'', make_u64 (ct_episodes_opened c)),
            (''episodes_closed'', make_u64 (ct_episodes_closed c)), (''restores'', make_u64 (ct_restores c)),
            (''saves'', make_u64 (ct_saves c)), (''restored_evidence_held'', count_json (card (ob_restored ob)))])"

definition render_configuration :: "engine_config \<Rightarrow> json" where
  "render_configuration c =
     object_of
       [(''instability_policy'', id_json (make_instability_policy_id (ec_policy c))),
        (''window_policy'', id_json (make_window_policy_id (ec_window c))),
        (''freshness_policy'', id_json (make_freshness_policy_id (ec_freshness c))),
        (''admit_persisted_evidence'', JBoolean (ec_admit_persisted_evidence c)),
        (''accept_synthetic'', JBoolean (ec_accept_synthetic c)), (''boot_id'', make_u64 (ec_boot_id c))]"

definition catalog_payload :: "observatory \<Rightarrow> json" where
  "catalog_payload ob =
     object_of
       [(''clock_domains'', array_of (map render_clock_domain (sorted_domains (ob_clocks ob)))),
        (''sources'', array_of (map render_source (sorted_sources (ob_sources ob)))),
        (''series'', array_of (map render_series (sorted_series (ob_series ob)))),
        (''paths'', array_of (map render_path (all_paths (ob_paths ob)))),
        (''generations'', array_of (map render_generation (all_generations (ob_paths ob)))),
        (''metric_definitions'', array_of (map render_metric_definition sorted_definitions)),
        (''counters'', render_counters ob), (''configuration'', render_configuration (ob_config ob))]"

definition catalog_document :: "observatory \<Rightarrow> json" where
  "catalog_document ob = make_document ''catalog'' (catalog_payload ob)"

definition summary_document ::
  "(f64_bits \<Rightarrow> string) \<Rightarrow> summary_request \<Rightarrow> ingest_context \<Rightarrow> observatory \<Rightarrow> json result \<times> observatory" where
  "summary_document shortest q ctx ob =
     (case engine_summarize q ctx False ob of
        (r, ob1) \<Rightarrow> (res_bind r (\<lambda>out. Inr (make_document ''series_summary'' (render_summary shortest (so_summary out)))), ob1))"

definition history_document :: "(f64_bits \<Rightarrow> string) \<Rightarrow> history_request \<Rightarrow> observatory \<Rightarrow> json result" where
  "history_document shortest q ob =
     res_bind (engine_history q ob) (\<lambda>r. Inr (make_document ''history'' (render_history shortest r)))"

definition comparison_document ::
  "(f64_bits \<Rightarrow> string) \<Rightarrow> summary_request \<Rightarrow> baseline_id \<Rightarrow> ingest_context \<Rightarrow> observatory \<Rightarrow> json result \<times> observatory" where
  "comparison_document shortest q i ctx ob =
     (case engine_compare q i ctx ob of
        (r, ob1) \<Rightarrow> (res_bind r (\<lambda>x. Inr (make_document ''baseline_comparison'' (render_comparison shortest x))), ob1))"

definition attribution_document ::
  "(f64_bits \<Rightarrow> string) \<Rightarrow> series_id \<Rightarrow> metric_key \<Rightarrow> nat \<Rightarrow> ingest_context \<Rightarrow> observatory \<Rightarrow> json result" where
  "attribution_document shortest i metric min_arrivals ctx ob =
     res_bind (engine_attribute i metric min_arrivals ctx ob)
       (\<lambda>r. Inr (make_document ''hop_attribution'' (render_attribution shortest r)))"

text \<open>Every export prints its document, pretty or compact.\<close>

definition document_text :: "bool \<Rightarrow> json \<Rightarrow> string" where
  "document_text pretty v = (if pretty then dump_pretty v else dump v)"

definition export_summary ::
  "(f64_bits \<Rightarrow> string) \<Rightarrow> summary_request \<Rightarrow> ingest_context \<Rightarrow> bool \<Rightarrow> observatory \<Rightarrow> string result \<times> observatory" where
  "export_summary shortest q ctx pretty ob =
     (case summary_document shortest q ctx ob of (r, ob1) \<Rightarrow> (res_bind r (\<lambda>v. Inr (document_text pretty v)), ob1))"

definition export_history :: "(f64_bits \<Rightarrow> string) \<Rightarrow> history_request \<Rightarrow> bool \<Rightarrow> observatory \<Rightarrow> string result" where
  "export_history shortest q pretty ob = res_bind (history_document shortest q ob) (\<lambda>v. Inr (document_text pretty v))"

definition export_comparison ::
  "(f64_bits \<Rightarrow> string) \<Rightarrow> summary_request \<Rightarrow> baseline_id \<Rightarrow> ingest_context \<Rightarrow> bool \<Rightarrow> observatory
     \<Rightarrow> string result \<times> observatory" where
  "export_comparison shortest q i ctx pretty ob =
     (case comparison_document shortest q i ctx ob of (r, ob1) \<Rightarrow> (res_bind r (\<lambda>v. Inr (document_text pretty v)), ob1))"

definition export_attribution ::
  "(f64_bits \<Rightarrow> string) \<Rightarrow> series_id \<Rightarrow> metric_key \<Rightarrow> nat \<Rightarrow> ingest_context \<Rightarrow> bool \<Rightarrow> observatory \<Rightarrow> string result" where
  "export_attribution shortest i metric min_arrivals ctx pretty ob =
     res_bind (attribution_document shortest i metric min_arrivals ctx ob) (\<lambda>v. Inr (document_text pretty v))"

definition export_catalog :: "bool \<Rightarrow> observatory \<Rightarrow> string" where
  "export_catalog pretty ob = document_text pretty (catalog_document ob)"

end
