(* ===== verification/Render_Facts.thy ===== *)
theory Render_Facts
  imports Render Engine_Facts
begin

text \<open>
  What documents carry: each rendering of a catalog entry, a generation or a sample keeps all of it,
  so equal exports are exports of equal things; and every document is a well-formed tree, so its two
  printed forms agree.
\<close>

section \<open>Objects with the same keys\<close>

lemma object_of_keys:
  assumes "distinct (map fst ms)" "map fst ms = map fst ns" "object_of ms = object_of ns"
  shows "ms = ns"
proof (rule nth_equalityI)
  show "length ms = length ns" using assms(2) by (metis length_map)
  fix i
  assume i: "i < length ms"
  have keys: "fst (ms ! i) = fst (ns ! i)" using i assms(2) \<open>length ms = length ns\<close> by (metis nth_map)
  have "map_of (rev ms) (fst (ms ! i)) = Some (snd (ms ! i))"
    using i assms(1) by (intro map_of_is_SomeI) (auto simp: rev_map [symmetric])
  moreover have "map_of (rev ns) (fst (ns ! i)) = Some (snd (ns ! i))"
    using i assms(1,2) \<open>length ms = length ns\<close> by (intro map_of_is_SomeI) (auto simp: rev_map [symmetric])
  ultimately have "snd (ms ! i) = snd (ns ! i)" using assms(3) keys by (simp add: object_of_eq_iff)
  then show "ms ! i = ns ! i" using keys by (simp add: prod_eq_iff)
qed

lemma map_of_rev_distinct:
  assumes "distinct (map fst ms)"
  shows "map_of (rev ms) = map_of ms"
proof
  fix k
  have "distinct (map fst (rev ms))" using assms by (simp flip: rev_map)
  then have "map_of (rev ms) k = Some v \<longleftrightarrow> map_of ms k = Some v" for v using assms by simp
  then show "map_of (rev ms) k = map_of ms k" by (metis not_Some_eq)
qed

text \<open>A map that is already in order is stored as it is.\<close>

lemma object_of_ordered:
  assumes "om_invar ms"
  shows "object_of ms = JObject ms"
proof -
  have "map_of (rev ms) = map_of ms" using assms by (intro map_of_rev_distinct) (simp add: om_invar_def strict_sorted_iff)
  then have "om_find k (fold (\<lambda>(key, v). om_put key v) ms []) = om_find k ms" for k
    unfolding fold_put_find by (simp add: om_find_map_of split: option.split)
  then show ?thesis
    unfolding object_of_members json.inject using assms by (intro om_ext) (auto simp: fold_put_invar)
qed

section \<open>Leaves\<close>

lemma nat_text_inject [simp]: "nat_text m = nat_text n \<longleftrightarrow> m = n"
  by (metis parse_digits_nat_text option.inject)

lemma leaf_inject [simp]:
  "id_json i = id_json j \<longleftrightarrow> i = j" "digest_json d = digest_json e \<longleftrightarrow> d = e"
  "make_u64 u = make_u64 v \<longleftrightarrow> u = v" "make_i64 a = make_i64 b \<longleftrightarrow> a = b"
  "make_i64 a \<noteq> JNull" "JNull \<noteq> make_i64 a" "id_json i \<noteq> JNull" "JNull \<noteq> id_json i"
proof -
  show "id_json i = id_json j \<longleftrightarrow> i = j" unfolding id_json_def by (metis id_parse_hex json.inject(3) sum.inject(2))
  show "digest_json d = digest_json e \<longleftrightarrow> d = e" unfolding digest_json_def by (metis digest_of_hex_hex json.inject(3))
  show "make_u64 u = make_u64 v \<longleftrightarrow> u = v" by (simp add: make_u64_def u64_to_string_def word_unat_eq_iff)
  show "make_i64 a = make_i64 b \<longleftrightarrow> a = b"
    using nat_text_hd [of "nat a"] nat_text_hd [of "nat b"] by (auto simp: make_i64_def i64_to_string_def)
qed (simp_all add: make_i64_def id_json_def)

lemma ucast_u64_inject [simp]:
  "(ucast (a :: u32) :: u64) = ucast b \<longleftrightarrow> a = b" "(ucast (c :: u16) :: u64) = ucast d \<longleftrightarrow> c = d"
proof -
  have "unat (ucast a :: u64) = unat a" for a :: u32
    using unsigned_less [of a, where ?'a = nat] by (simp add: unsigned_ucast_eq take_bit_nat_eq_self)
  then show "(ucast a :: u64) = ucast b \<longleftrightarrow> a = b" by (metis word_unat_eq_iff)
  have "unat (ucast c :: u64) = unat c" for c :: u16
    using unsigned_less [of c, where ?'a = nat] by (simp add: unsigned_ucast_eq take_bit_nat_eq_self)
  then show "(ucast c :: u64) = ucast d \<longleftrightarrow> c = d" by (metis word_unat_eq_iff)
qed

lemma optional_inject [simp]: "optional_i64_json a = optional_i64_json b \<longleftrightarrow> a = b"
  by (simp add: optional_i64_json_def split: option.split)

lemma strings_inject [simp]: "strings_json a = strings_json b \<longleftrightarrow> a = b"
  by (simp add: strings_json_def inj_map_eq_map inj_def)

lemmas enum_inject [simp] =
  source_authority_names.to_text_inject evidence_origin_names.to_text_inject clock_kind_names.to_text_inject
  time_unit_names.to_text_inject measurement_kind_names.to_text_inject

lemma leaf_wf [simp]:
  "json_wf (id_json i)" "json_wf (digest_json d)" "json_wf (optional_i64_json a)" "json_wf (strings_json ss)"
  "json_wf (metric_key_json k)" "shortest_ok shortest \<Longrightarrow> json_wf (optional_double_json shortest v)"
  by (auto simp: id_json_def digest_json_def optional_i64_json_def strings_json_def metric_key_json_def
      optional_double_json_def split: option.split)

section \<open>Renderings that keep everything\<close>

locale renderer =
  fixes render :: "'a \<Rightarrow> json"
    and valid :: "'a \<Rightarrow> bool"
  assumes render_inject: "valid x \<Longrightarrow> valid y \<Longrightarrow> render x = render y \<Longrightarrow> x = y"
    and render_wf: "json_wf (render x)"
begin

lemma array_inject:
  assumes "\<forall>x \<in> set xs. valid x" "\<forall>y \<in> set ys. valid y"
  shows "array_of (map render xs) = array_of (map render ys) \<longleftrightarrow> xs = ys"
proof -
  have "xs = ys" if "map render xs = map render ys"
    using that assms render_inject by (intro map_inj_on [of render, OF that]) (auto intro: inj_onI)
  then show ?thesis by auto
qed

lemma array_wf: "json_wf (array_of (map render xs))"
  by (simp add: render_wf)

lemma export_inject: "valid x \<Longrightarrow> valid y \<Longrightarrow> dump (render x) = dump (render y) \<longleftrightarrow> x = y"
  using render_inject by (auto simp: dump_inject render_wf)

end

abbreviation anything :: "'a \<Rightarrow> bool" where
  "anything \<equiv> \<lambda>_. True"

interpretation clock_domains_rendered: renderer render_clock_domain anything
proof
  fix x y :: clock_domain
  assume "render_clock_domain x = render_clock_domain y"
  from object_of_keys [OF _ _ this [unfolded render_clock_domain_def]] show "x = y"
    by (simp add: clock_domain.equality)
next
  fix x :: clock_domain
  show "json_wf (render_clock_domain x)" by (simp add: render_clock_domain_def)
qed

interpretation sources_rendered: renderer render_source anything
proof
  fix x y :: source_descriptor
  assume "render_source x = render_source y"
  from object_of_keys [OF _ _ this [unfolded render_source_def]] show "x = y"
    by (simp add: source_descriptor.equality)
next
  fix x :: source_descriptor
  show "json_wf (render_source x)" by (simp add: render_source_def)
qed

interpretation series_rendered: renderer render_series anything
proof
  fix x y :: series_descriptor
  assume "render_series x = render_series y"
  from object_of_keys [OF _ _ this [unfolded render_series_def]] show "x = y"
    by (simp add: series_descriptor.equality)
next
  fix x :: series_descriptor
  show "json_wf (render_series x)" by (simp add: render_series_def)
qed

interpretation hops_rendered: renderer render_hop anything
proof
  fix x y :: hop_descriptor
  assume "render_hop x = render_hop y"
  from object_of_keys [OF _ _ this [unfolded render_hop_def]] show "x = y"
    by (auto intro!: hop_descriptor.equality split: option.splits)
next
  fix x :: hop_descriptor
  show "json_wf (render_hop x)" by (simp add: render_hop_def split: option.split)
qed

lemmas hops_array = hops_rendered.array_inject [simplified]

interpretation paths_rendered: renderer render_path anything
proof
  fix x y :: path_descriptor
  assume "render_path x = render_path y"
  from object_of_keys [OF _ _ this [unfolded render_path_def]] show "x = y"
    by (simp add: path_descriptor.equality hops_array)
next
  fix x :: path_descriptor
  show "json_wf (render_path x)" by (auto simp: render_path_def hops_rendered.render_wf)
qed

interpretation generations_rendered: renderer render_generation anything
proof
  fix x y :: path_generation
  assume "render_generation x = render_generation y"
  from object_of_keys [OF _ _ this [unfolded render_generation_def]] show "x = y"
    by (simp add: path_generation.equality)
next
  fix x :: path_generation
  show "json_wf (render_generation x)" by (simp add: render_generation_def)
qed

interpretation hop_timings_rendered: renderer render_hop_timing anything
proof
  fix x y :: hop_timing
  assume "render_hop_timing x = render_hop_timing y"
  from object_of_keys [OF _ _ this [unfolded render_hop_timing_def]] show "x = y"
    by (simp add: hop_timing.equality time_point.equality)
next
  fix x :: hop_timing
  show "json_wf (render_hop_timing x)" by (simp add: render_hop_timing_def)
qed

lemma metadata_inject:
  assumes "om_invar m" "om_invar n"
  shows "object_of (map (\<lambda>(k, v). (k, JString v)) m) = object_of (map (\<lambda>(k, v). (k, JString v)) n) \<longleftrightarrow> m = n"
proof -
  have ordered: "om_invar (map (\<lambda>(k, v). (k, JString v)) a)" if "om_invar a" for a :: "(string \<times> string) list"
  proof -
    have "fst \<circ> (\<lambda>(k, v). (k, JString v)) = (fst :: string \<times> string \<Rightarrow> string)" by auto
    then show ?thesis using that by (simp add: om_invar_def)
  qed
  have "inj (\<lambda>(k, v). (k :: string, JString v))" by (auto intro: injI)
  then show ?thesis
    using ordered [OF assms(1)] ordered [OF assms(2)] by (simp add: object_of_ordered inj_map_eq_map)
qed

interpretation samples_rendered: renderer render_sample "\<lambda>s. om_invar (ls_metadata s)"
proof
  fix x y :: latency_sample
  assume "om_invar (ls_metadata x)" "om_invar (ls_metadata y)" and same: "render_sample x = render_sample y"
  from object_of_keys [OF _ _ same [unfolded render_sample_def Let_def]] this(1,2) show "x = y"
    by (simp add: latency_sample.equality provenance.equality time_point.equality metadata_inject om_entries_def
        hop_timings_rendered.array_inject [simplified])
next
  fix x :: latency_sample
  have "json_wf (object_of (map (\<lambda>(k, v). (k, JString v)) (om_entries (ls_metadata x))))"
    by (rule json_wf_object_of) auto
  then show "json_wf (render_sample x)"
    by (simp add: render_sample_def Let_def hop_timings_rendered.render_wf)
qed

section \<open>Documents are well-formed trees\<close>

lemma json_wf_option [simp]: "json_wf (case v of None \<Rightarrow> JNull | Some x \<Rightarrow> f x) \<longleftrightarrow> (\<forall>x. v = Some x \<longrightarrow> json_wf (f x))"
  by (simp split: option.split)

lemma measurement_wf [simp]:
  assumes "shortest_ok shortest"
  shows "json_wf (render_metric_value shortest v)" "json_wf (render_metric_definition d)"
    "json_wf (render_evidence_summary e)" "json_wf (render_rule shortest r)" "json_wf (render_driver shortest c)"
  using assms
  by (simp_all add: render_metric_value_def render_metric_definition_def render_evidence_summary_def
      render_rule_def render_driver_def)

lemma classification_wf [simp]: "shortest_ok shortest \<Longrightarrow> json_wf (render_classification shortest c)"
  by (simp add: render_classification_def)

lemma summary_wf [simp]:
  assumes "shortest_ok shortest"
  shows "json_wf (render_summary shortest y)"
proof -
  have "json_wf (render_counts y)" "json_wf (render_bounds y)" by (simp_all add: render_counts_def render_bounds_def)
  then show ?thesis using assms by (simp add: render_summary_def)
qed

lemma report_wf [simp]:
  assumes "shortest_ok shortest"
  shows "json_wf (render_history shortest h)" "json_wf (render_comparison shortest c)" "json_wf (render_attribution shortest a)"
proof -
  have "json_wf (render_episode shortest e)" "json_wf (render_segment s)" "json_wf (render_metric_comparison shortest m)"
    "json_wf (render_hop_attribution shortest t)" for e s m t
    using assms by (simp_all add: render_episode_def render_segment_def render_metric_comparison_def render_hop_attribution_def)
  moreover have "json_wf (render_conflict f)" for f by (simp add: render_conflict_def)
  ultimately show "json_wf (render_history shortest h)" "json_wf (render_comparison shortest c)"
    "json_wf (render_attribution shortest a)"
    using assms by (simp_all add: render_history_def render_comparison_def render_attribution_def)
qed

lemma document_wf [simp]: "json_wf v \<Longrightarrow> json_wf (make_document kind v)"
  by (simp add: make_document_def render_version_def)

lemma catalog_wf [simp]: "json_wf (catalog_document ob)"
proof -
  have "json_wf (render_metric_definition d)" for d by (simp add: render_metric_definition_def)
  moreover have "json_wf (render_counters ob)" "json_wf (render_configuration c)" for c
    by (simp_all add: render_counters_def render_configuration_def Let_def)
  ultimately show ?thesis
    by (simp add: catalog_document_def catalog_payload_def clock_domains_rendered.render_wf sources_rendered.render_wf
        series_rendered.render_wf paths_rendered.render_wf generations_rendered.render_wf)
qed

lemma make_document_inject: "make_document kind v = make_document kind w \<longleftrightarrow> v = w"
proof
  assume "make_document kind v = make_document kind w"
  from object_of_keys [OF _ _ this [unfolded make_document_def]] show "v = w" by simp
qed simp

lemma catalog_payload_inject:
  assumes "catalog_payload ob = catalog_payload ob'"
  shows "sorted_domains (ob_clocks ob) = sorted_domains (ob_clocks ob')" "sorted_sources (ob_sources ob) = sorted_sources (ob_sources ob')"
    "sorted_series (ob_series ob) = sorted_series (ob_series ob')" "all_paths (ob_paths ob) = all_paths (ob_paths ob')"
    "all_generations (ob_paths ob) = all_generations (ob_paths ob')" "render_counters ob = render_counters ob'"
proof -
  from object_of_keys [OF _ _ assms [unfolded catalog_payload_def]]
  have "map render_clock_domain (sorted_domains (ob_clocks ob)) = map render_clock_domain (sorted_domains (ob_clocks ob')) \<and>
    map render_source (sorted_sources (ob_sources ob)) = map render_source (sorted_sources (ob_sources ob')) \<and>
    map render_series (sorted_series (ob_series ob)) = map render_series (sorted_series (ob_series ob')) \<and>
    map render_path (all_paths (ob_paths ob)) = map render_path (all_paths (ob_paths ob')) \<and>
    map render_generation (all_generations (ob_paths ob)) = map render_generation (all_generations (ob_paths ob')) \<and>
    render_counters ob = render_counters ob'" by simp
  then show "sorted_domains (ob_clocks ob) = sorted_domains (ob_clocks ob')" "sorted_sources (ob_sources ob) = sorted_sources (ob_sources ob')"
    "sorted_series (ob_series ob) = sorted_series (ob_series ob')" "all_paths (ob_paths ob) = all_paths (ob_paths ob')"
    "all_generations (ob_paths ob) = all_generations (ob_paths ob')" "render_counters ob = render_counters ob'"
    by (simp_all add: clock_domains_rendered.array_inject [simplified] sources_rendered.array_inject [simplified]
        series_rendered.array_inject [simplified] paths_rendered.array_inject [simplified]
        generations_rendered.array_inject [simplified])
qed

lemma counters_inject:
  assumes "render_counters ob = render_counters ob'"
  shows "ob_counters ob = ob_counters ob'"
  using object_of_keys [OF _ _ assms [unfolded render_counters_def Let_def]] by (simp add: engine_counters.equality)

section \<open>Properties\<close>

text \<open>
  C27: The exported catalog loses nothing: two engines whose catalogs print the same text, pretty or
  compact, have the same registered clock domains, sources, series and paths with every field, the
  same route generations and the same counters.
\<close>

lemma exported_catalog_determines:
  assumes "export_catalog pretty ob = export_catalog pretty ob'"
  shows "sorted_domains (ob_clocks ob) = sorted_domains (ob_clocks ob') \<and>
    sorted_sources (ob_sources ob) = sorted_sources (ob_sources ob') \<and>
    sorted_series (ob_series ob) = sorted_series (ob_series ob') \<and>
    all_paths (ob_paths ob) = all_paths (ob_paths ob') \<and>
    all_generations (ob_paths ob) = all_generations (ob_paths ob') \<and> ob_counters ob = ob_counters ob'"
proof -
  have "dump (catalog_document ob) = dump (catalog_document ob')"
    using assms squeeze_dump(1) [OF catalog_wf, of 2 0 ob "[]"] squeeze_dump(1) [OF catalog_wf, of 2 0 ob' "[]"]
    by (auto simp: export_catalog_def document_text_def dump_def dump_pretty_def split: if_splits)
  then have "catalog_payload ob = catalog_payload ob'"
    by (simp add: dump_inject) (simp add: catalog_document_def make_document_inject)
  note payload = catalog_payload_inject [OF this]
  show ?thesis using payload(1-5) counters_inject [OF payload(6)] by blast
qed

lemma exported_catalog_determines_witness:
  "export_catalog False (make_observatory default_engine_config) \<noteq>
   export_catalog False ((make_observatory default_engine_config)
     \<lparr>ob_counters := (ob_counters (make_observatory default_engine_config))\<lparr>ct_saves := 1\<rparr>\<rparr>)"
proof
  let ?ob = "make_observatory default_engine_config"
  assume same: "export_catalog False ?ob = export_catalog False (?ob\<lparr>ob_counters := (ob_counters ?ob)\<lparr>ct_saves := 1\<rparr>\<rparr>)"
  have "ob_counters ?ob = (ob_counters ?ob)\<lparr>ct_saves := 1\<rparr>" using exported_catalog_determines [OF same] by simp
  then have "ct_saves (ob_counters ?ob) = 1" by (metis engine_counters.select_convs(14) engine_counters.surjective engine_counters.update_convs(14))
  then show False by (simp add: make_observatory_def counters_init_def)
qed

text \<open>
  The exported text of a sample determines the sample: identities, readings, times with their
  clock domains, provenance, hop timings, metadata and content digest.
\<close>

lemma exported_sample_determines:
  assumes "om_invar (ls_metadata s)" "om_invar (ls_metadata t)"
  shows "dump (render_sample s) = dump (render_sample t) \<longleftrightarrow> s = t"
  by (rule samples_rendered.export_inject [OF assms])

lemma exported_sample_determines_witness:
  "dump (render_sample (sample_at 1 10 7)) \<noteq> dump (render_sample (sample_at 1 10 8))"
  by (subst exported_sample_determines) (simp_all add: sample_at_def)

text \<open>
  The two forms of an export agree: whatever the engine exports, its indented text without the
  layout outside of string literals is its canonical text.
\<close>

lemma export_forms_agree:
  assumes "shortest_ok shortest"
  shows "squeeze False False (export_catalog True ob) = export_catalog False ob \<and>
    (case (fst (export_summary shortest q ctx True ob), fst (export_summary shortest q ctx False ob)) of
       (Inr p, Inr c) \<Rightarrow> squeeze False False p = c | (Inl e, Inl e') \<Rightarrow> e = e' | _ \<Rightarrow> False) \<and>
    (case (export_history shortest h True ob, export_history shortest h False ob) of
       (Inr p, Inr c) \<Rightarrow> squeeze False False p = c | (Inl e, Inl e') \<Rightarrow> e = e' | _ \<Rightarrow> False)"
proof -
  have agree: "squeeze False False (document_text True v) = document_text False v" if "json_wf v" for v
    using squeeze_dump(1) [OF that, of 2 0 "[]"] by (simp add: document_text_def dump_def dump_pretty_def)
  show ?thesis
    using assms
    by (auto simp: export_catalog_def export_summary_def summary_document_def export_history_def history_document_def agree
        res_bind_def split: prod.splits sum.splits)
qed

lemma export_forms_agree_witness:
  "squeeze False False (export_catalog True (make_observatory default_engine_config)) =
   export_catalog False (make_observatory default_engine_config)"
proof -
  have "number_text (u64_to_string v) \<and> u64_to_string v = u64_to_string w \<longrightarrow> v = w" for v w
    by (simp add: u64_to_string_def word_unat_eq_iff)
  moreover have "number_text (u64_to_string v)" for v
    using json_wf_leaves(1) [of v] by (simp add: make_u64_def)
  ultimately have "shortest_ok u64_to_string" by (auto simp: shortest_ok_def inj_on_def)
  from export_forms_agree [OF this] show ?thesis by blast
qed

end
