(* ===== verification/Scenario.thy ===== *)
theory Scenario
  imports Engine Metrics
begin

text \<open>
  Deterministic synthetic workloads and their plan files: \<^verbatim>\<open>include/jitter/scenario.hpp\<close> and
  \<^verbatim>\<open>src/scenario.cpp\<close>. The generator's doubles are exact rationals with the rounding of binary64 after
  each operation (F64); a plan file is its text. Signed arithmetic of the generator is unchecked in
  the source and written out with \<open>wrap_i64\<close>.
\<close>

section \<open>The random stream\<close>

text \<open>\<^verbatim>\<open>SplitMix64::next\<close>: the number and the next state.\<close>

definition splitmix_next :: "u64 \<Rightarrow> u64 \<times> u64" where
  "splitmix_next state =
     (let s = state + 0x9E3779B97F4A7C15;
          z1 = (s XOR drop_bit 30 s) * 0xBF58476D1CE4E5B9;
          z2 = (z1 XOR drop_bit 27 z1) * 0x94D049BB133111EB
      in (z2 XOR drop_bit 31 z2, s))"

definition next_signed_unit :: "u64 \<Rightarrow> rat \<times> u64" where
  "next_signed_unit state =
     (case splitmix_next state of
        (n, state') \<Rightarrow>
          let unit = rnd (of_nat (unat (drop_bit 11 n)) / 9007199254740992)
          in (rnd (rnd (unit * 2) - 1), state'))"

text \<open>\<^verbatim>\<open>static_cast<std::int64_t>\<close> of a double drops the fraction.\<close>

definition toward_zero :: "rat \<Rightarrow> int" where
  "toward_zero x = (if x < 0 then - floor (- x) else floor x)"

text \<open>\<^verbatim>\<open>static_cast<std::int64_t>(random.next_signed_unit() * static_cast<double>(n))\<close>\<close>

definition random_offset :: "i64 \<Rightarrow> u64 \<Rightarrow> i64 \<times> u64" where
  "random_offset n state =
     (case next_signed_unit state of (x, state') \<Rightarrow> (wrap_i64 (toward_zero (rnd (x * rnd (of_int n)))), state'))"

section \<open>Plans\<close>

record scenario_plan =
  pl_seed :: u64
  pl_samples :: u64
  pl_batch_size :: u64
  pl_base_latency_ns :: i64
  pl_jitter_ns :: i64
  pl_spike_every :: i64
  pl_spike_ns :: i64
  pl_start_utc_ns :: i64
  pl_interval_ns :: i64
  pl_receive_delay_ns :: i64
  pl_hop_spread_ns :: i64
  pl_hop_timings :: bool
  pl_source :: source_id
  pl_series :: series_id
  pl_path :: path_id
  pl_generation :: generation_id
  pl_ordinal :: counter
  pl_observation_clock :: clock_domain_id
  pl_hop_clock :: clock_domain_id
  pl_second_hop_clock :: clock_domain_id
  pl_incarnation :: counter
  pl_epoch :: counter
  pl_sequence_start :: counter
  pl_authority :: source_authority
  pl_origin :: evidence_origin
  pl_ingest_path :: string
  pl_hop_ids :: "hop_id list"
  pl_hop_clocks :: "clock_domain_id list"
  pl_incomparable_second_hop :: bool

definition default_scenario_plan :: scenario_plan where
  "default_scenario_plan =
     \<lparr>pl_seed = 12345, pl_samples = 256, pl_batch_size = 16, pl_base_latency_ns = 120000, pl_jitter_ns = 8000,
      pl_spike_every = 0, pl_spike_ns = 2000000, pl_start_utc_ns = 1700000000000000000, pl_interval_ns = 1000000,
      pl_receive_delay_ns = 50000, pl_hop_spread_ns = 3000, pl_hop_timings = True, pl_source = nil_id,
      pl_series = nil_id, pl_path = nil_id, pl_generation = nil_id, pl_ordinal = 0, pl_observation_clock = nil_id,
      pl_hop_clock = nil_id, pl_second_hop_clock = nil_id, pl_incarnation = 1, pl_epoch = 1, pl_sequence_start = 1,
      pl_authority = Authority_Simulated, pl_origin = Origin_Synthetic, pl_ingest_path = ''in_process'',
      pl_hop_ids = [], pl_hop_clocks = [], pl_incomparable_second_hop = False\<rparr>"

definition validate_scenario_plan :: "scenario_plan \<Rightarrow> status" where
  "validate_scenario_plan p =
     (if pl_samples p = 0 then fail Ec_InvalidArgument ''scenario plan requires at least one sample''
      else if pl_batch_size p = 0 then fail Ec_InvalidArgument ''scenario plan requires a non zero batch size''
      else if id_is_nil (pl_source p) \<or> id_is_nil (pl_series p) \<or> id_is_nil (pl_path p) \<or> id_is_nil (pl_generation p)
        \<or> id_is_nil (pl_observation_clock p) \<or> is_unset (pl_ordinal p) \<or> is_unset (pl_incarnation p)
        \<or> is_unset (pl_sequence_start p)
      then fail Ec_InvalidArgument ''scenario plan is missing one or more required identities''
      else if pl_hop_ids p = [] then fail Ec_InvalidArgument ''scenario plan declares no hops''
      else if length (pl_hop_ids p) \<noteq> length (pl_hop_clocks p)
      then fail Ec_InvalidArgument ''scenario plan hop identities and hop clocks do not line up''
      else success)"

section \<open>Generating batches\<close>

text \<open>The loop over the hops: \<^verbatim>\<open>timing_index\<close> counts the hops that have a clock.\<close>

fun make_timings ::
  "i64 \<Rightarrow> i64 \<Rightarrow> nat \<Rightarrow> (hop_id \<times> clock_domain_id) list \<Rightarrow> u64 \<Rightarrow> hop_timing list \<times> u64" where
  "make_timings spread observed timing_index [] state = ([], state)"
| "make_timings spread observed timing_index ((hop, clock) # hops) state =
     (if id_is_nil clock then make_timings spread observed timing_index hops state
      else case random_offset spread state of
             (drift, state1) \<Rightarrow>
               let share = wrap_i64 (spread * int (timing_index + 1));
                   t = \<lparr>ht_hop = hop, ht_arrived = \<lparr>tp_domain = clock, tp_ticks = wrap_i64 (wrap_i64 (observed + share) + drift)\<rparr>\<rparr>
               in (case make_timings spread observed (timing_index + 1) hops state1 of
                     (ts, state2) \<Rightarrow> (t # ts, state2)))"

definition plan_provenance :: "scenario_plan \<Rightarrow> counter \<Rightarrow> provenance" where
  "plan_provenance p sequence =
     \<lparr>pv_source = pl_source p, pv_incarnation = pl_incarnation p, pv_epoch = pl_epoch p, pv_sequence = sequence,
      pv_authority = pl_authority p, pv_origin = pl_origin p, pv_ingest_path = pl_ingest_path p\<rparr>"

definition spike_of :: "scenario_plan \<Rightarrow> i64 \<Rightarrow> i64" where
  "spike_of p index = (if pl_spike_every p > 0 \<and> index > 0 \<and> index mod pl_spike_every p = 0 then pl_spike_ns p else 0)"

text \<open>The reading with number \<open>produced\<close>.\<close>

definition plan_sample :: "scenario_plan \<Rightarrow> counter \<Rightarrow> nat \<Rightarrow> u64 \<Rightarrow> latency_sample \<times> u64" where
  "plan_sample p sequence produced state =
     (let index = wrap_i64 (int produced)
      in case random_offset (pl_jitter_ns p) state of
           (offset, state1) \<Rightarrow>
             let latency = wrap_i64 (wrap_i64 (pl_base_latency_ns p + offset) + spike_of p index);
                 observed = wrap_i64 (pl_start_utc_ns p + wrap_i64 (index * pl_interval_ns p))
             in (case (if pl_hop_timings p
                       then make_timings (pl_hop_spread_ns p) observed 0 (zip (pl_hop_ids p) (pl_hop_clocks p)) state1
                       else ([], state1)) of
                   (timings, state2) \<Rightarrow>
                     (\<lparr>ls_id = nil_id, ls_series = pl_series p, ls_path = pl_path p, ls_generation = pl_generation p,
                       ls_generation_ordinal = pl_ordinal p, ls_provenance = plan_provenance p sequence,
                       ls_latency_ns = latency,
                       ls_observed_at = \<lparr>tp_domain = pl_observation_clock p, tp_ticks = observed\<rparr>,
                       ls_received_at = \<lparr>tp_domain = local_clock_id,
                                         tp_ticks = wrap_i64 (observed + pl_receive_delay_ns p)\<rparr>,
                       ls_hop_timings = timings, ls_metadata = [], ls_content = zero_digest\<rparr>, state2)))"

text \<open>A sample that does not validate is left out.\<close>

fun plan_samples :: "scenario_plan \<Rightarrow> counter \<Rightarrow> nat \<Rightarrow> nat \<Rightarrow> u64 \<Rightarrow> latency_sample list \<times> u64" where
  "plan_samples p sequence produced 0 state = ([], state)"
| "plan_samples p sequence produced (Suc n) state =
     (case plan_sample p sequence produced state of
        (s, state1) \<Rightarrow>
          (case plan_samples p sequence (Suc produced) n state1 of
             (ss, state2) \<Rightarrow> (case make_sample s of Inl _ \<Rightarrow> ss | Inr made \<Rightarrow> made # ss, state2)))"

definition plan_header :: "scenario_plan \<Rightarrow> counter \<Rightarrow> batch_header" where
  "plan_header p sequence =
     \<lparr>bh_source = pl_source p, bh_incarnation = pl_incarnation p, bh_epoch = pl_epoch p, bh_sequence = sequence,
      bh_authority = pl_authority p, bh_origin = pl_origin p, bh_ingest_path = pl_ingest_path p,
      bh_series = pl_series p, bh_path = pl_path p, bh_generation = pl_generation p,
      bh_generation_ordinal = pl_ordinal p, bh_observation_clock = pl_observation_clock p, bh_protocol_revision = 1\<rparr>"

definition batch_count :: "scenario_plan \<Rightarrow> nat \<Rightarrow> nat" where
  "batch_count p produced =
     min (if pl_batch_size p = 0 then 1 else unat (pl_batch_size p)) (unat (pl_samples p) - produced)"

lemma batch_count_pos: "produced < unat (pl_samples p) \<Longrightarrow> 0 < batch_count p produced"
  by (simp add: batch_count_def unat_gt_0)

lemma batch_count_less:
  "produced < unat (pl_samples p) \<Longrightarrow> unat (pl_samples p) - (produced + batch_count p produced) < unat (pl_samples p) - produced"
  using batch_count_pos [of produced p] by simp

text \<open>A batch that does not validate is left out, and its sequence number is used again.\<close>

function plan_batches :: "scenario_plan \<Rightarrow> nat \<Rightarrow> counter \<Rightarrow> u64 \<Rightarrow> latency_batch list" where
  "plan_batches p produced sequence state =
     (if produced < unat (pl_samples p) then
        let n = batch_count p produced
        in case plan_samples p sequence produced n state of
             (ss, state1) \<Rightarrow>
               (case make_batch \<lparr>lb_id = nil_id, lb_header = plan_header p sequence, lb_samples = ss, lb_content = zero_digest\<rparr> of
                  Inl _ \<Rightarrow> plan_batches p (produced + n) sequence state1
                | Inr b \<Rightarrow> b # plan_batches p (produced + n) (next_counter sequence) state1)
      else [])"
  by pat_completeness auto
termination
  by (relation "measure (\<lambda>(p, produced, _). unat (pl_samples p) - produced)") (simp_all add: batch_count_less)

declare plan_batches.simps [simp del]

definition make_batches :: "scenario_plan \<Rightarrow> latency_batch list" where
  "make_batches p =
     (case validate_scenario_plan p of
        Inl _ \<Rightarrow> []
      | Inr _ \<Rightarrow> plan_batches p 0 (pl_sequence_start p) (pl_seed p))"

section \<open>Registering and ingesting a plan\<close>

text \<open>\<^verbatim>\<open>JITTER_TRY\<close> over the engine's state.\<close>

definition engine_try ::
  "(observatory \<Rightarrow> 'a result \<times> observatory) \<Rightarrow> ('a \<Rightarrow> observatory \<Rightarrow> 'b result \<times> observatory)
     \<Rightarrow> observatory \<Rightarrow> 'b result \<times> observatory" where
  "engine_try m k ob = (case m ob of (Inl e, ob1) \<Rightarrow> (Inl e, ob1) | (Inr x, ob1) \<Rightarrow> k x ob1)"

text \<open>A registration fills in the descriptor it is given.\<close>

definition registering :: "(observatory \<Rightarrow> status \<times> 'd \<times> observatory) \<Rightarrow> observatory \<Rightarrow> 'd result \<times> observatory" where
  "registering f ob = (case f ob of (st, d, ob1) \<Rightarrow> (res_bind st (\<lambda>_. Inr d), ob1))"

definition synthetic_clock :: "string \<Rightarrow> clock_kind \<Rightarrow> time_unit \<Rightarrow> string \<Rightarrow> clock_domain" where
  "synthetic_clock name kind unit note =
     (let d = \<lparr>cd_id = nil_id, cd_name = name, cd_kind = kind, cd_unit = unit, cd_epoch_note = note,
               cd_declared_accuracy_ns = -1, cd_declared_utc_aligned = False, cd_owner = nil_id\<rparr>
      in d\<lparr>cd_id := make_clock_domain_id d\<rparr>)"

definition observation_domain :: clock_domain where
  "observation_domain =
     synthetic_clock ''synthetic.observation'' Clock_Synthetic Unit_Nanoseconds ''origin at the start of the synthetic run''"

definition hop_domain :: clock_domain where
  "hop_domain = synthetic_clock ''synthetic.hop'' Clock_Synthetic Unit_Nanoseconds ''origin at the start of the synthetic run''"

definition second_hop_domain :: "bool \<Rightarrow> clock_domain" where
  "second_hop_domain incomparable =
     synthetic_clock (if incomparable then ''synthetic.hop.b'' else ''synthetic.hop.a2'')
       (if incomparable then Clock_HardwareCounter else Clock_Synthetic)
       (if incomparable then Unit_CounterTicks else Unit_Nanoseconds)
       (''free running counter with no declared relation to the '' @ ''observation clock'')"

definition declared_equal :: "clock_domain_id \<Rightarrow> clock_domain_id \<Rightarrow> i64 \<Rightarrow> string \<Rightarrow> clock_equivalence" where
  "declared_equal a b offset justification =
     \<lparr>ce_a = a, ce_b = b, ce_max_offset_ns = offset, ce_authority = Authority_Authoritative,
      ce_justification = justification, ce_valid_until_utc_ns = None\<rparr>"

definition scenario_source :: "scenario_plan \<Rightarrow> source_descriptor" where
  "scenario_source p =
     (let d = \<lparr>sd_id = nil_id, sd_name = ''synthetic.generator'', sd_authority = pl_authority p, sd_origin = pl_origin p,
               sd_clock_domain = pl_observation_clock p,
               sd_description = ''deterministic synthetic observation source used by tools and tests'',
               sd_protocol_revision = 1\<rparr>
      in d\<lparr>sd_id := make_source_id d\<rparr>)"

definition synthetic_hop :: "u16 \<Rightarrow> string \<Rightarrow> clock_domain_id option \<Rightarrow> string \<Rightarrow> hop_descriptor" where
  "synthetic_hop index name clock note =
     \<lparr>hd_id = nil_id, hd_index = index, hd_name = name, hd_timing_clock = clock, hd_origin = Origin_Synthetic,
      hd_device_note = note\<rparr>"

definition scenario_path :: "scenario_plan \<Rightarrow> string \<Rightarrow> path_descriptor" where
  "scenario_path p path_name =
     (let d = \<lparr>pd_id = nil_id, pd_name = path_name,
               pd_hops = [synthetic_hop 0 ''ingress'' (Some (pl_hop_clock p)) ''synthetic hop, no hardware claim'',
                          synthetic_hop 1 ''transit'' (Some (pl_second_hop_clock p)) ''synthetic hop, no hardware claim'',
                          synthetic_hop 2 ''egress'' None ''synthetic hop that emits no timing''],
               pd_origin = Origin_Synthetic, pd_description = ''synthetic multi hop path''\<rparr>;
          i = make_path_id d
      in d\<lparr>pd_id := i, pd_hops := map (\<lambda>hop. hop\<lparr>hd_id := make_hop_id hop i\<rparr>) (pd_hops d)\<rparr>)"

definition scenario_series :: "scenario_plan \<Rightarrow> path_id \<Rightarrow> clock_domain_id \<Rightarrow> series_descriptor" where
  "scenario_series p path clock =
     (let d = \<lparr>se_id = nil_id, se_name = ''synthetic.one_way_delay'', se_kind = Kind_OneWayDelay,
               se_unit = Unit_Nanoseconds, se_path = path, se_clock_domain = clock, se_origin = pl_origin p,
               se_description = ''synthetic one way delay series''\<rparr>
      in d\<lparr>se_id := make_series_id d\<rparr>)"

text \<open>The clocks, with the declarations that make them comparable.\<close>

definition register_scenario_clocks :: "scenario_plan \<Rightarrow> observatory \<Rightarrow> (scenario_plan \<times> clock_domain_id) result \<times> observatory" where
  "register_scenario_clocks p0 =
     engine_try (registering (engine_register_clock_domain observation_domain)) (\<lambda>observation.
     engine_try (registering (engine_register_clock_domain hop_domain)) (\<lambda>hop_clock.
     engine_try (registering (engine_register_clock_domain (second_hop_domain (pl_incomparable_second_hop p0)))) (\<lambda>second.
       let p = p0\<lparr>pl_observation_clock := cd_id observation, pl_hop_clock := cd_id hop_clock, pl_second_hop_clock := cd_id second\<rparr>
       in engine_try (engine_declare_equivalence (declared_equal (pl_observation_clock p) local_clock_id 0
            (''the synthetic generator derives observation and receive times from one run clock, so the '' @
             ''observation domain is the runtime timeline''))) (\<lambda>_.
          engine_try (engine_declare_equivalence (declared_equal (pl_hop_clock p) (pl_observation_clock p) 500
            ''the synthetic hop clock is derived from the run clock'')) (\<lambda>_.
          engine_try
            (if pl_incomparable_second_hop p then (\<lambda>ob. (success, ob))
             else engine_declare_equivalence (declared_equal (pl_second_hop_clock p) (pl_observation_clock p) 500
                    ''the second synthetic hop clock is derived from the run clock'')) (\<lambda>_ ob.
            (Inr (p, cd_id observation), ob)))))))"

definition register_scenario :: "scenario_plan \<Rightarrow> string \<Rightarrow> observatory \<Rightarrow> scenario_plan result \<times> observatory" where
  "register_scenario p0 path_name =
     engine_try (register_scenario_clocks p0) (\<lambda>(p1, clock).
     engine_try (registering (engine_register_source (scenario_source p1))) (\<lambda>source.
       let p2 = p1\<lparr>pl_source := sd_id source\<rparr>
       in engine_try (registering (engine_register_path (scenario_path p2 path_name))) (\<lambda>path.
            let p3 = p2\<lparr>pl_path := pd_id path, pl_hop_ids := map hd_id (pd_hops path),
                        pl_hop_clocks := map (\<lambda>hop. case hd_timing_clock hop of None \<Rightarrow> nil_id | Some c \<Rightarrow> c) (pd_hops path)\<rparr>
            in engine_try (registering (engine_register_series (scenario_series p3 (pd_id path) clock))) (\<lambda>series.
                 let p4 = p3\<lparr>pl_series := se_id series\<rparr>
                 in engine_try (engine_observe_topology (pl_path p4) (make_topology path) (pl_start_utc_ns p4) ''scenario_registered'')
                      (\<lambda>out ob.
                        let p5 = p4\<lparr>pl_generation := pg_id (go_generation out), pl_ordinal := pg_ordinal (go_generation out)\<rparr>
                        in (res_bind (validate_scenario_plan p5) (\<lambda>_. Inr p5), ob))))))"

fun ingest_batches :: "latency_batch list \<Rightarrow> ingest_context \<Rightarrow> observatory \<Rightarrow> status \<times> observatory" where
  "ingest_batches [] ctx ob = (success, ob)"
| "ingest_batches (b # bs) ctx ob =
     (case ingest b ctx ob of
        (Inl e, ob1) \<Rightarrow> (Inl e, ob1)
      | (Inr out, ob1) \<Rightarrow>
          if \<not> io_admitted out \<and> io_historical out = 0
          then (fail Ec_Conflict (''scenario batch was not admitted: '' @ io_reason out), ob1)
          else ingest_batches bs ctx ob1)"

definition ingest_plan :: "scenario_plan \<Rightarrow> ingest_context \<Rightarrow> observatory \<Rightarrow> status \<times> observatory" where
  "ingest_plan p ctx ob =
     (case validate_scenario_plan p of
        Inl e \<Rightarrow> (Inl e, ob)
      | Inr _ \<Rightarrow>
          let bs = make_batches p
          in if bs = [] then (fail Ec_Conflict ''scenario produced no batches, so nothing was ingested'', ob)
             else if (\<Sum>b\<leftarrow>bs. length (lb_samples b)) \<noteq> unat (pl_samples p)
             then (fail Ec_Conflict ''scenario produced fewer observations than it declared'', ob)
             else ingest_batches bs ctx ob)"

section \<open>Plan files\<close>

text \<open>Extraction from a string stream: maximal runs of characters that are no white space.\<close>

definition is_blank :: "char \<Rightarrow> bool" where
  "is_blank c \<longleftrightarrow> c \<in> {CHR '' '', CHR 0x09, CHR 0x0A, CHR 0x0B, CHR 0x0C, CHR 0x0D}"

function tokens :: "string \<Rightarrow> string list" where
  "tokens s =
     (let r = dropWhile is_blank s
      in if r = [] then [] else takeWhile (Not \<circ> is_blank) r # tokens (dropWhile (Not \<circ> is_blank) r))"
  by pat_completeness auto
termination
proof (relation "measure length", goal_cases)
  case (2 s x)
  then obtain c cs where r: "x = c # cs" "\<not> is_blank c" by (metis hd_dropWhile list.collapse)
  have "length (dropWhile (Not \<circ> is_blank) x) \<le> length cs" using r by (simp add: length_dropWhile_le)
  moreover have "length x \<le> length s" unfolding 2(1) by (rule length_dropWhile_le)
  ultimately show ?case using r(1) by simp
qed simp

declare tokens.simps [simp del]

definition field :: "string \<Rightarrow> nat \<Rightarrow> string" where
  "field s index = (if index < length (tokens s) then tokens s ! index else [])"

definition flag_text :: "bool \<Rightarrow> string" where
  "flag_text b = (if b then ''1'' else ''0'')"

definition hop_entry :: "nat \<Rightarrow> hop_id \<times> clock_domain_id \<Rightarrow> string \<times> string" where
  "hop_entry i hop =
     (''hop'' @ nat_text i, id_hex (fst hop) @ '' '' @ (if id_is_nil (snd hop) then ''-'' else id_hex (snd hop)))"

definition plan_entries :: "scenario_plan \<Rightarrow> (string \<times> string) list" where
  "plan_entries p =
     [(''seed'', u64_to_string (pl_seed p)), (''samples'', u64_to_string (pl_samples p)),
      (''batch_size'', u64_to_string (pl_batch_size p)), (''base_latency_ns'', i64_to_string (pl_base_latency_ns p)),
      (''jitter_ns'', i64_to_string (pl_jitter_ns p)), (''spike_every'', i64_to_string (pl_spike_every p)),
      (''spike_ns'', i64_to_string (pl_spike_ns p)), (''start_utc_ns'', i64_to_string (pl_start_utc_ns p)),
      (''interval_ns'', i64_to_string (pl_interval_ns p)), (''receive_delay_ns'', i64_to_string (pl_receive_delay_ns p)),
      (''hop_spread_ns'', i64_to_string (pl_hop_spread_ns p)), (''hop_timings'', flag_text (pl_hop_timings p)),
      (''incomparable_second_hop'', flag_text (pl_incomparable_second_hop p)), (''source'', id_hex (pl_source p)),
      (''series'', id_hex (pl_series p)), (''path'', id_hex (pl_path p)), (''generation'', id_hex (pl_generation p)),
      (''ordinal'', u64_to_string (pl_ordinal p)), (''observation_clock'', id_hex (pl_observation_clock p)),
      (''hop_clock'', id_hex (pl_hop_clock p)), (''second_hop_clock'', id_hex (pl_second_hop_clock p)),
      (''incarnation'', u64_to_string (pl_incarnation p)), (''epoch'', u64_to_string (pl_epoch p)),
      (''sequence_start'', u64_to_string (pl_sequence_start p)),
      (''authority'', source_authority_text (pl_authority p)), (''origin'', evidence_origin_text (pl_origin p)),
      (''ingest_path'', pl_ingest_path p), (''hop_count'', nat_text (length (pl_hop_ids p)))]
     @ map (case_prod hop_entry) (enumerate 0 (zip (pl_hop_ids p) (pl_hop_clocks p)))"

definition write_key :: "string \<times> string \<Rightarrow> string" where
  "write_key entry = fst entry @ '' '' @ snd entry @ [CHR 0x0A]"

definition write_plan_text :: "scenario_plan \<Rightarrow> string" where
  "write_plan_text p = concat (map write_key (plan_entries p))"

text \<open>\<^verbatim>\<open>std::getline\<close> until the stream is used up.\<close>

definition lines_of :: "string \<Rightarrow> string list" where
  "lines_of s = (let ls = split_text (CHR 0x0A) s in if last ls = [] then butlast ls else ls)"

definition with_u64 :: "string \<Rightarrow> string \<Rightarrow> (u64 \<Rightarrow> 'a) \<Rightarrow> 'a result" where
  "with_u64 message s f = (case parse_u64 s of None \<Rightarrow> fail Ec_InvalidArgument message | Some v \<Rightarrow> Inr (f v))"

definition with_i64 :: "string \<Rightarrow> string \<Rightarrow> (i64 \<Rightarrow> 'a) \<Rightarrow> 'a result" where
  "with_i64 message s f = (case parse_i64 s of None \<Rightarrow> fail Ec_InvalidArgument message | Some v \<Rightarrow> Inr (f v))"

definition with_id :: "string \<Rightarrow> string \<Rightarrow> ('t strong_id \<Rightarrow> 'a) \<Rightarrow> 'a result" where
  "with_id tag s f = res_bind (id_parse tag s) (\<lambda>v. Inr (f v))"

definition read_hop :: "string \<Rightarrow> scenario_plan \<Rightarrow> scenario_plan result" where
  "read_hop view p =
     res_bind (id_parse ''hop'' (field view 1)) (\<lambda>hop.
     res_bind (if field view 2 \<noteq> ''-'' then id_parse ''clock'' (field view 2) else Inr nil_id) (\<lambda>clock.
       Inr (p\<lparr>pl_hop_ids := pl_hop_ids p @ [hop], pl_hop_clocks := pl_hop_clocks p @ [clock]\<rparr>)))"

text \<open>The chain of tests over the key.\<close>

definition read_entry :: "string \<Rightarrow> scenario_plan \<times> u64 \<Rightarrow> (scenario_plan \<times> u64) result" where
  "read_entry view acc =
     (let key = field view 0; v = field view 1; p = fst acc; hops = snd acc;
          keep = (\<lambda>r. res_bind r (\<lambda>q. Inr (q, hops)))
      in if key = ''seed'' then keep (with_u64 ''invalid seed'' v (\<lambda>x. p\<lparr>pl_seed := x\<rparr>))
         else if key = ''samples'' then keep (with_u64 ''invalid samples'' v (\<lambda>x. p\<lparr>pl_samples := x\<rparr>))
         else if key = ''batch_size'' then keep (with_u64 ''invalid batch_size'' v (\<lambda>x. p\<lparr>pl_batch_size := x\<rparr>))
         else if key = ''base_latency_ns'' then keep (with_i64 ''invalid base_latency_ns'' v (\<lambda>x. p\<lparr>pl_base_latency_ns := x\<rparr>))
         else if key = ''jitter_ns'' then keep (with_i64 ''invalid jitter_ns'' v (\<lambda>x. p\<lparr>pl_jitter_ns := x\<rparr>))
         else if key = ''spike_every'' then keep (with_i64 ''invalid spike_every'' v (\<lambda>x. p\<lparr>pl_spike_every := x\<rparr>))
         else if key = ''spike_ns'' then keep (with_i64 ''invalid spike_ns'' v (\<lambda>x. p\<lparr>pl_spike_ns := x\<rparr>))
         else if key = ''start_utc_ns'' then keep (with_i64 ''invalid start_utc_ns'' v (\<lambda>x. p\<lparr>pl_start_utc_ns := x\<rparr>))
         else if key = ''interval_ns'' then keep (with_i64 ''invalid interval_ns'' v (\<lambda>x. p\<lparr>pl_interval_ns := x\<rparr>))
         else if key = ''receive_delay_ns'' then keep (with_i64 ''invalid receive_delay_ns'' v (\<lambda>x. p\<lparr>pl_receive_delay_ns := x\<rparr>))
         else if key = ''hop_spread_ns'' then keep (with_i64 ''invalid hop_spread_ns'' v (\<lambda>x. p\<lparr>pl_hop_spread_ns := x\<rparr>))
         else if key = ''hop_timings'' then keep (Inr (p\<lparr>pl_hop_timings := (v = ''1'')\<rparr>))
         else if key = ''incomparable_second_hop'' then keep (Inr (p\<lparr>pl_incomparable_second_hop := (v = ''1'')\<rparr>))
         else if key = ''source'' then keep (with_id ''source'' v (\<lambda>x. p\<lparr>pl_source := x\<rparr>))
         else if key = ''series'' then keep (with_id ''series'' v (\<lambda>x. p\<lparr>pl_series := x\<rparr>))
         else if key = ''path'' then keep (with_id ''path'' v (\<lambda>x. p\<lparr>pl_path := x\<rparr>))
         else if key = ''generation'' then keep (with_id ''generation'' v (\<lambda>x. p\<lparr>pl_generation := x\<rparr>))
         else if key = ''ordinal'' then keep (with_u64 ''invalid ordinal'' v (\<lambda>x. p\<lparr>pl_ordinal := x\<rparr>))
         else if key = ''observation_clock'' then keep (with_id ''clock'' v (\<lambda>x. p\<lparr>pl_observation_clock := x\<rparr>))
         else if key = ''hop_clock'' then keep (with_id ''clock'' v (\<lambda>x. p\<lparr>pl_hop_clock := x\<rparr>))
         else if key = ''second_hop_clock'' then keep (with_id ''clock'' v (\<lambda>x. p\<lparr>pl_second_hop_clock := x\<rparr>))
         else if key = ''incarnation'' then keep (with_u64 ''invalid incarnation'' v (\<lambda>x. p\<lparr>pl_incarnation := x\<rparr>))
         else if key = ''epoch'' then keep (with_u64 ''invalid epoch'' v (\<lambda>x. p\<lparr>pl_epoch := x\<rparr>))
         else if key = ''sequence_start'' then keep (with_u64 ''invalid sequence_start'' v (\<lambda>x. p\<lparr>pl_sequence_start := x\<rparr>))
         else if key = ''authority''
         then (case parse_source_authority v of None \<Rightarrow> fail Ec_InvalidArgument ''invalid authority''
               | Some x \<Rightarrow> keep (Inr (p\<lparr>pl_authority := x\<rparr>)))
         else if key = ''origin''
         then (case parse_evidence_origin v of None \<Rightarrow> fail Ec_InvalidArgument ''invalid origin''
               | Some x \<Rightarrow> keep (Inr (p\<lparr>pl_origin := x\<rparr>)))
         else if key = ''ingest_path'' then keep (Inr (p\<lparr>pl_ingest_path := v\<rparr>))
         else if key = ''hop_count'' then with_u64 ''invalid hop_count'' v (\<lambda>x. (p, x))
         else if starts_with key ''hop'' then keep (read_hop view p)
         else fail Ec_InvalidArgument ''plan file contains an unknown key'')"

fun read_lines :: "string list \<Rightarrow> scenario_plan \<times> u64 \<Rightarrow> (scenario_plan \<times> u64) result" where
  "read_lines [] acc = Inr acc"
| "read_lines (l # ls) acc =
     (let view = trim l
      in if view = [] \<or> hd view = CHR ''#'' then read_lines ls acc
         else res_bind (read_entry view acc) (read_lines ls))"

definition read_plan_text :: "string \<Rightarrow> scenario_plan result" where
  "read_plan_text s =
     res_bind (read_lines (lines_of s) (default_scenario_plan, 0)) (\<lambda>(p, declared_hops).
       if length (pl_hop_ids p) \<noteq> unat declared_hops
       then fail Ec_Corrupt ''plan file hop count does not match the hop entries''
       else Inr p)"

end
