(* ===== verification/Scenario_Facts.thy ===== *)
theory Scenario_Facts
  imports Scenario Engine_Guarantees
begin

text \<open>
  What the scenario generator and its plan files guarantee: the file of a plan is read back as the
  plan, the batches of a plan are well formed and numbered, and registering or ingesting a plan is a
  run of the engine's own operations.
\<close>

section \<open>Tokens of a line\<close>

definition plain_word :: "string \<Rightarrow> bool" where
  "plain_word w \<longleftrightarrow> w \<noteq> [] \<and> list_all (Not \<circ> is_blank) w"

lemma tokens_Nil [simp]: "tokens [] = []"
  by (simp add: tokens.simps)

lemma tokens_blank: "is_blank c \<Longrightarrow> tokens (c # s) = tokens s"
  by (subst (1 2) tokens.simps) simp

lemma tokens_word:
  assumes "plain_word w" "s = [] \<or> is_blank (hd s)"
  shows "tokens (w @ s) = w # tokens s"
proof -
  have "dropWhile is_blank (w @ s) = w @ s" using assms(1) by (cases w) (auto simp: plain_word_def)
  moreover have "takeWhile (Not \<circ> is_blank) (w @ s) = w" "dropWhile (Not \<circ> is_blank) (w @ s) = s"
    using assms by (cases s; auto simp: plain_word_def list_all_iff takeWhile_append dropWhile_append)+
  ultimately show ?thesis using assms(1) by (subst tokens.simps) (simp add: plain_word_def Let_def)
qed

lemma tokens_trailing: "list_all is_blank t \<Longrightarrow> tokens (s @ t) = tokens s"
proof (induction s rule: tokens.induct)
  case (1 s)
  show ?case
  proof (cases "dropWhile is_blank s = []")
    case True
    then have "list_all is_blank (s @ t)" using "1.prems" by (auto simp: list_all_iff dropWhile_eq_Nil_conv)
    then have "dropWhile is_blank (s @ t) = []" by (simp add: list_all_iff dropWhile_eq_Nil_conv)
    then show ?thesis using True by (subst (1 2) tokens.simps) simp
  next
    case False
    let ?r = "dropWhile is_blank s"
    have "dropWhile is_blank (s @ t) = ?r @ t" using False by (auto simp: dropWhile_append dropWhile_eq_Nil_conv)
    moreover have "takeWhile (Not \<circ> is_blank) (?r @ t) = takeWhile (Not \<circ> is_blank) ?r"
    proof (cases t)
      case (Cons c cs)
      then show ?thesis using "1.prems"
        by (auto simp: takeWhile_append) (metis comp_apply takeWhile_eq_all_conv)
    qed simp
    moreover have "tokens (dropWhile (Not \<circ> is_blank) (?r @ t)) = tokens (dropWhile (Not \<circ> is_blank) ?r)"
    proof (cases "list_all (Not \<circ> is_blank) ?r")
      case True
      then have "dropWhile (Not \<circ> is_blank) (?r @ t) = dropWhile (Not \<circ> is_blank) t" "dropWhile (Not \<circ> is_blank) ?r = []"
        by (auto simp: dropWhile_append list_all_iff)
      moreover have "dropWhile (Not \<circ> is_blank) t = t" using "1.prems" by (cases t) auto
      moreover have "tokens t = []" using "1.prems" by (induction t) (simp_all add: tokens_blank)
      ultimately show ?thesis by (simp only: tokens_Nil)
    next
      case False
      then have "dropWhile (Not \<circ> is_blank) (?r @ t) = dropWhile (Not \<circ> is_blank) ?r @ t"
        by (auto simp: dropWhile_append list_all_iff)
      then show ?thesis using "1.IH" \<open>?r \<noteq> []\<close> "1.prems" by simp
    qed
    ultimately show ?thesis using False by (subst (1 2) tokens.simps) (simp add: Let_def)
  qed
qed

lemma space_blank: "is_space_char c \<Longrightarrow> is_blank c"
  by (auto simp: is_space_char_def is_blank_def)

lemma tokens_trim: "tokens (trim s) = tokens s"
proof -
  have left: "tokens (dropWhile is_space_char s) = tokens s" for s
    by (induction s) (auto simp: tokens_blank space_blank)
  have "tokens (rev (dropWhile is_space_char (rev s))) = tokens s" for s
  proof -
    have "s = rev (dropWhile is_space_char (rev s)) @ rev (takeWhile is_space_char (rev s))"
      by (metis rev_append rev_rev_ident takeWhile_dropWhile_id)
    moreover have "list_all is_blank (rev (takeWhile is_space_char (rev s)))"
      by (auto simp: list_all_iff space_blank dest: set_takeWhileD)
    ultimately show ?thesis by (metis tokens_trailing)
  qed
  then show ?thesis by (simp add: trim_def left)
qed

lemma trim_word: "plain_word w \<Longrightarrow> \<exists>t. trim (w @ s) = hd w # t"
proof -
  assume w: "plain_word w"
  then obtain c cs where cs: "w = c # cs" "\<not> is_space_char c"
    by (cases w) (auto simp: plain_word_def dest: space_blank)
  then have "trim (w @ s) = rev (dropWhile is_space_char (rev (cs @ s) @ [c]))" by (simp add: trim_def)
  also have "\<dots> = c # rev (dropWhile is_space_char (rev (cs @ s)))" using cs(2) by (simp add: dropWhile_append)
  finally show ?thesis using cs(1) by simp
qed

lemma split_line: "sep \<notin> set w \<Longrightarrow> split_text sep (w @ sep # s) = w # split_text sep s"
  by (induction w) auto

lemma lines_of_entries:
  assumes "\<forall>l \<in> set ls. CHR 0x0A \<notin> set l"
  shows "lines_of (concat (map (\<lambda>l. l @ [CHR 0x0A]) ls)) = ls"
proof -
  have "split_text (CHR 0x0A) (concat (map (\<lambda>l. l @ [CHR 0x0A]) ls)) = ls @ [[]]"
    using assms by (induction ls) (simp_all add: split_line)
  then show ?thesis by (simp add: lines_of_def)
qed

section \<open>The generator\<close>

text \<open>Rounding does not pass an integer of at most 53 bits.\<close>

lemma rnd_le_int:
  assumes "y \<le> of_int n" "0 \<le> n" "n \<le> 2 ^ 53"
  shows "rnd y \<le> of_int n"
proof (cases "y \<le> 0")
  case True
  then have "round_half_even (y / 2 powi ulp_exp y) \<le> 0"
    by (intro round_half_even_le_int) (simp add: divide_le_0_iff)
  then have "rnd y \<le> 0" by (auto simp: rnd_def mult_le_0_iff)
  then show ?thesis using assms(2) by (meson of_int_0_le_iff order_trans)
next
  case False
  then have pos: "0 < y" by simp
  show ?thesis
  proof (cases "y = of_int n")
    case True
    then show ?thesis using assms by (simp add: rnd_int)
  next
    case False
    then have "y < of_int n" using assms(1) by simp
    also have "(of_int n :: rat) \<le> 2 powi 53"
    proof -
      have "(of_int n :: rat) \<le> of_int (2 ^ 53)" using assms(3) by (simp only: of_int_le_iff)
      then show ?thesis by (simp add: power_int_def)
    qed
    finally have "ilog2 y < 53" using ilog2_bounds(1) [OF pos] by (metis order_le_less_trans powi2_less_iff)
    then have small: "ulp_exp y \<le> 0" using pos by (simp add: ulp_exp_def)
    define e where "e = nat (- ulp_exp y)"
    define u where "u = (2 :: rat) powi ulp_exp y"
    have "ulp_exp y = - int e" using small by (simp add: e_def)
    then have u: "u = 1 / 2 ^ e" by (simp add: u_def power_int_minus divide_inverse)
    then have whole: "of_int n / u = of_int (n * 2 ^ e)" by simp
    moreover have "y / u \<le> of_int n / u" using assms(1) by (intro divide_right_mono) (simp_all add: u)
    ultimately have "round_half_even (y / u) \<le> n * 2 ^ e" by (intro round_half_even_le_int) simp
    then have "of_int (round_half_even (y / u)) \<le> (of_int (n * 2 ^ e) :: rat)" by (simp only: of_int_le_iff)
    then have "of_int (round_half_even (y / u)) * u \<le> of_int (n * 2 ^ e) * u" by (intro mult_right_mono) (simp_all add: u)
    moreover have "of_int (n * 2 ^ e) * u = of_int n" by (simp add: u)
    moreover have "rnd y = of_int (round_half_even (y / u)) * u" using pos by (simp add: rnd_def u_def)
    ultimately show ?thesis by (simp only:)
  qed
qed

lemma round_half_even_minus: "round_half_even (- y) = - round_half_even y"
proof (cases "y = of_int (floor y)")
  case True
  then show ?thesis using round_half_even_int [of "floor y"] round_half_even_int [of "- floor y"] by simp
next
  case False
  then have "of_int (floor y) < y" "y < of_int (floor y) + 1" by linarith+
  then have "floor (- y) = - floor y - 1" by (simp add: floor_eq_iff)
  then show ?thesis by (auto simp: round_half_even_def Let_def)
qed

lemma rnd_minus: "rnd (- y) = - rnd y"
  by (simp add: rnd_def ulp_exp_def round_half_even_minus)

lemma rnd_ge_int:
  assumes "of_int n \<le> y" "n \<le> 0" "- (2 ^ 53) \<le> n"
  shows "of_int n \<le> rnd y"
  using rnd_le_int [of "- y" "- n"] assms by (simp add: rnd_minus)

text \<open>The unit value is exact: a multiple of \<open>2 ^ (-52)\<close> in \<open>[-1, 1)\<close>.\<close>

lemma next_signed_unit_range: "- 1 \<le> fst (next_signed_unit state) \<and> fst (next_signed_unit state) < 1"
proof -
  obtain n state' where n: "splitmix_next state = (n, state')" by (cases "splitmix_next state")
  define k where "k = unat (drop_bit 11 n)"
  have "k < 2 ^ 53"
    using unat_u64_bound [of n] by (simp add: k_def drop_bit_eq_div unat_div less_mult_imp_div_less)
  then have k: "int k < 2 ^ 53" by (metis of_nat_less_iff of_nat_numeral of_nat_power)
  have exact: "rnd (of_int m / 2 ^ q) = of_int m / 2 ^ q" if "\<bar>m\<bar> \<le> 2 ^ 53" "q \<le> 1074" for m q
    using that unfolding representable_def
    by (intro rnd_exact exI [of _ m] exI [of _ "- int q"] conjI [rotated] representable_def [THEN iffD2])
      (simp_all add: power_int_minus divide_inverse)
  have "of_nat k / 9007199254740992 = (of_int (int k) / 2 ^ 53 :: rat)" by simp
  then have 1: "rnd (of_nat k / 9007199254740992) = of_int (int k) / 2 ^ 53" using exact [of "int k" 53] k by (simp only:)
  have "of_int (int k) / 2 ^ 53 * 2 = (of_int (int k) / 2 ^ 52 :: rat)" by simp
  then have 2: "rnd (of_int (int k) / 2 ^ 53 * 2) = of_int (int k) / 2 ^ 52" using exact [of "int k" 52] k by (simp only:)
  have "of_int (int k) / 2 ^ 52 - 1 = (of_int (int k - 2 ^ 52) / 2 ^ 52 :: rat)" by (simp add: diff_divide_distrib)
  moreover have "rnd (of_int (int k - 2 ^ 52) / 2 ^ 52) = of_int (int k - 2 ^ 52) / 2 ^ 52" using k by (intro exact) simp_all
  ultimately have 3: "rnd (of_int (int k) / 2 ^ 52 - 1) = of_int (int k - 2 ^ 52) / 2 ^ 52" by (simp only:)
  have "fst (next_signed_unit state) = of_int (int k - 2 ^ 52) / 2 ^ 52"
    by (simp only: next_signed_unit_def n prod.case Let_def k_def [symmetric] 1 2 3 fst_conv)
  moreover have "- (2 ^ 52) \<le> int k - 2 ^ 52" "int k - 2 ^ 52 < 2 ^ 52" using k by simp_all
  then have "(of_int (- (2 ^ 52)) :: rat) \<le> of_int (int k - 2 ^ 52)" "of_int (int k - 2 ^ 52) < (of_int (2 ^ 52) :: rat)"
    by (simp_all only: of_int_le_iff of_int_less_iff)
  ultimately show ?thesis by (simp add: field_simps)
qed

lemma random_offset_range:
  assumes "\<bar>n\<bar> \<le> 2 ^ 53"
  shows "\<bar>fst (random_offset n state)\<bar> \<le> \<bar>n\<bar>"
proof -
  obtain x state' where x: "next_signed_unit state = (x, state')" by (cases "next_signed_unit state")
  have "\<bar>x\<bar> \<le> 1" using next_signed_unit_range [of state] x by (simp add: abs_le_iff)
  then have "\<bar>x * of_int n\<bar> \<le> of_int \<bar>n\<bar>" by (simp add: abs_mult mult_left_le_one_le)
  then have lo: "of_int (- \<bar>n\<bar>) \<le> x * of_int n" and hi: "x * of_int n \<le> of_int \<bar>n\<bar>" by (simp_all add: abs_le_iff)
  let ?y = "rnd (x * of_int n)"
  have "?y \<le> of_int \<bar>n\<bar>" using assms by (intro rnd_le_int hi) simp_all
  moreover have "of_int (- \<bar>n\<bar>) \<le> ?y" using assms by (intro rnd_ge_int lo) simp_all
  ultimately have range: "\<bar>toward_zero ?y\<bar> \<le> \<bar>n\<bar>"
    using floor_mono [of ?y "of_int \<bar>n\<bar>", unfolded floor_of_int] floor_mono [of "- ?y" "of_int \<bar>n\<bar>", unfolded floor_of_int] zero_le_floor [of ?y] zero_le_floor [of "- ?y"]
    by (cases "?y < 0") (simp_all add: toward_zero_def del: zero_le_floor)
  then have "i64_ok (toward_zero ?y)" using assms by (auto simp: i64_bounds abs_le_iff)
  then show ?thesis using range x assms by (simp add: random_offset_def rnd_int wrap_i64_id)
qed

section \<open>The batches of a plan\<close>

lemma plan_samples_made:
  assumes "plan_samples p sequence produced n state = (ss, state')" "s \<in> set ss"
  shows "\<exists>k state0. make_sample (fst (plan_sample p sequence k state0)) = Inr s"
  using assms
proof (induction n arbitrary: produced state ss state')
  case (Suc n)
  obtain t state1 where t: "plan_sample p sequence produced state = (t, state1)" by fastforce
  obtain rest state2 where rest: "plan_samples p sequence (Suc produced) n state1 = (rest, state2)" by fastforce
  then have "s \<in> set rest \<or> make_sample t = Inr s" using Suc.prems t by (auto split: sum.splits)
  then show ?case using Suc.IH [OF rest] t by (metis fst_conv)
qed simp

lemma length_plan_samples: "plan_samples p sequence produced n state = (ss, state') \<Longrightarrow> length ss \<le> n"
proof (induction n arbitrary: produced state ss state')
  case (Suc n)
  obtain s state1 where s: "plan_sample p sequence produced state = (s, state1)" by fastforce
  obtain rest state2 where rest: "plan_samples p sequence (Suc produced) n state1 = (rest, state2)" by fastforce
  have "length rest \<le> n" by (rule Suc.IH [OF rest])
  then show ?case using Suc.prems s rest by (auto split: sum.splits)
qed simp

text \<open>What a generated batch is.\<close>

definition plan_batch :: "scenario_plan \<Rightarrow> counter \<Rightarrow> latency_batch \<Rightarrow> bool" where
  "plan_batch p sequence b \<longleftrightarrow>
     batch_made b \<and> lb_header b = plan_header p sequence \<and>
     0 < length (lb_samples b) \<and> length (lb_samples b) \<le> max 1 (unat (pl_batch_size p)) \<and>
     (\<forall>s \<in> set (lb_samples b). \<exists>k state. make_sample (fst (plan_sample p sequence k state)) = Inr s)"

lemma made_plan_batch:
  assumes "plan_samples p sequence produced (batch_count p produced) state = (ss, state')"
    "make_batch \<lparr>lb_id = nil_id, lb_header = plan_header p sequence, lb_samples = ss, lb_content = zero_digest\<rparr> = Inr b"
  shows "plan_batch p sequence b \<and> lb_samples b = ss"
proof -
  have made: "batch_made b" by (rule make_batch_made [OF assms(2)])
  have b: "lb_header b = plan_header p sequence" "lb_samples b = ss"
    using assms(2) by (auto simp: make_batch_def res_bind_eq_Inr Let_def)
  have "length ss \<le> batch_count p produced" by (rule length_plan_samples [OF assms(1)])
  also have "\<dots> \<le> max 1 (unat (pl_batch_size p))" by (auto simp: batch_count_def min_def max_def)
  finally have "length ss \<le> max 1 (unat (pl_batch_size p))" .
  moreover have "ss \<noteq> []" using made b validate_batch_uniform [of b] by (simp add: batch_made_def batch_uniform_def)
  ultimately show ?thesis using made b plan_samples_made [OF assms(1)] by (simp add: plan_batch_def)
qed

text \<open>The batches are numbered without gaps and hold at most the readings that were asked for.\<close>

fun numbered_batches :: "scenario_plan \<Rightarrow> counter \<Rightarrow> latency_batch list \<Rightarrow> bool" where
  "numbered_batches p sequence [] \<longleftrightarrow> True"
| "numbered_batches p sequence (b # bs) \<longleftrightarrow> plan_batch p sequence b \<and> numbered_batches p (next_counter sequence) bs"

lemma plan_batches_numbered:
  "numbered_batches p sequence (plan_batches p produced sequence state) \<and>
   (\<Sum>b\<leftarrow>plan_batches p produced sequence state. length (lb_samples b)) \<le> unat (pl_samples p) - produced"
proof (induction p produced sequence state rule: plan_batches.induct)
  case (1 p produced sequence state)
  show ?case
  proof (cases "produced < unat (pl_samples p)")
    case True
    let ?n = "batch_count p produced"
    obtain ss state1 where ss: "plan_samples p sequence produced ?n state = (ss, state1)" by fastforce
    let ?b = "make_batch \<lparr>lb_id = nil_id, lb_header = plan_header p sequence, lb_samples = ss, lb_content = zero_digest\<rparr>"
    have n: "?n \<le> unat (pl_samples p) - produced" "length ss \<le> ?n"
      using length_plan_samples [OF ss] by (simp_all add: batch_count_def)
    show ?thesis
    proof (cases ?b)
      case (Inl e)
      then show ?thesis using "1.IH"(1) [OF True refl ss [symmetric] Inl] True ss n(1)
        by (subst (1 2) plan_batches.simps) auto
    next
      case (Inr b)
      then show ?thesis
        using "1.IH"(2) [OF True refl ss [symmetric] Inr] True ss n made_plan_batch [OF ss Inr]
        by (subst (1 2) plan_batches.simps) auto
    qed
  next
    case False
    then show ?thesis by (simp add: plan_batches.simps)
  qed
qed

lemma make_batches_numbered:
  "numbered_batches p (pl_sequence_start p) (make_batches p) \<and>
   (\<Sum>b\<leftarrow>make_batches p. length (lb_samples b)) \<le> unat (pl_samples p)"
  using plan_batches_numbered [of p "pl_sequence_start p" 0 "pl_seed p"]
  by (simp add: make_batches_def split: sum.split)

lemma numbered_batchesD:
  assumes "numbered_batches p sequence bs"
  shows "map (bh_sequence \<circ> lb_header) bs = map (\<lambda>i. (next_counter ^^ i) sequence) [0..<length bs]"
    and "b \<in> set bs \<Longrightarrow> \<exists>n. plan_batch p n b"
  using assms
proof (induction bs arbitrary: sequence)
  case (Cons c bs)
  {
    case 1
    then have "map (bh_sequence \<circ> lb_header) bs = map (\<lambda>i. (next_counter ^^ i) (next_counter sequence)) [0..<length bs]"
      using Cons.IH(1) [of "next_counter sequence"] by (simp add: comp_def)
    also have "\<dots> = map (\<lambda>i. (next_counter ^^ Suc i) sequence) [0..<length bs]" by (simp add: funpow_swap1)
    also have "\<dots> = map (\<lambda>i. (next_counter ^^ i) sequence) [1..<Suc (length bs)]"
      by (simp add: map_Suc_upt [symmetric] comp_def del: upt_Suc)
    finally have rest: "map (bh_sequence \<circ> lb_header) bs = map (\<lambda>i. (next_counter ^^ i) sequence) [Suc 0..<Suc (length bs)]"
      by simp
    have "bh_sequence (lb_header c) = sequence" using 1 by (simp add: plan_batch_def plan_header_def)
    then show ?case using rest by (simp add: upt_conv_Cons comp_def del: upt_Suc)
  next
    case 2
    then show ?case using Cons.IH(2) by auto
  }
qed simp_all

text \<open>A reading stays near the base latency.\<close>

lemma plan_sample_latency:
  assumes "\<bar>pl_jitter_ns p\<bar> \<le> 2 ^ 53"
    "i64_ok (pl_base_latency_ns p + \<bar>pl_jitter_ns p\<bar> + \<bar>pl_spike_ns p\<bar>)"
    "i64_ok (pl_base_latency_ns p - \<bar>pl_jitter_ns p\<bar> - \<bar>pl_spike_ns p\<bar>)"
  shows "\<exists>spike \<in> {0, pl_spike_ns p}. (spike = 0 \<or> 0 < pl_spike_every p) \<and>
    \<bar>ls_latency_ns (fst (plan_sample p sequence k state)) - (pl_base_latency_ns p + spike)\<bar> \<le> \<bar>pl_jitter_ns p\<bar>"
proof -
  obtain offset state1 where offset: "random_offset (pl_jitter_ns p) state = (offset, state1)" by fastforce
  have "\<bar>offset\<bar> \<le> \<bar>pl_jitter_ns p\<bar>" using random_offset_range [OF assms(1), of state] offset by simp
  let ?spike = "spike_of p (wrap_i64 (int k))"
  have spike: "?spike \<in> {0, pl_spike_ns p}" "?spike = 0 \<or> 0 < pl_spike_every p" by (simp_all add: spike_of_def)
  then have "\<bar>?spike\<bar> \<le> \<bar>pl_spike_ns p\<bar>" by auto
  then have "i64_ok (pl_base_latency_ns p + offset)" "i64_ok (pl_base_latency_ns p + offset + ?spike)"
    using assms(2,3) \<open>\<bar>offset\<bar> \<le> _\<close> unfolding i64_bounds by (intro conjI; linarith)+
  then have "ls_latency_ns (fst (plan_sample p sequence k state)) = pl_base_latency_ns p + offset + ?spike"
    by (simp add: plan_sample_def Let_def offset wrap_i64_id split: prod.split)
  then show ?thesis using spike \<open>\<bar>offset\<bar> \<le> _\<close> by (intro bexI [of _ ?spike]) simp_all
qed

section \<open>Plan files\<close>

text \<open>A plan that a plan file can hold.\<close>

definition plan_storable :: "scenario_plan \<Rightarrow> bool" where
  "plan_storable p \<longleftrightarrow>
     i64_ok (pl_base_latency_ns p) \<and> i64_ok (pl_jitter_ns p) \<and> i64_ok (pl_spike_every p) \<and> i64_ok (pl_spike_ns p) \<and>
     i64_ok (pl_start_utc_ns p) \<and> i64_ok (pl_interval_ns p) \<and> i64_ok (pl_receive_delay_ns p) \<and>
     i64_ok (pl_hop_spread_ns p) \<and> (pl_ingest_path p = [] \<or> plain_word (pl_ingest_path p)) \<and>
     length (pl_hop_ids p) = length (pl_hop_clocks p) \<and> length (pl_hop_ids p) < 2 ^ 64"

lemma plain_word_literal [simp]:
  "plain_word (c # w) \<longleftrightarrow> \<not> is_blank c \<and> list_all (Not \<circ> is_blank) w" "\<not> plain_word []"
  by (simp_all add: plain_word_def)

lemma digit_not_blank: "is_digit_char c \<Longrightarrow> \<not> is_blank c"
  by (auto simp: is_blank_def is_digit_char_def less_eq_char_def)

lemma plain_nat_text: "plain_word (nat_text n)"
proof -
  have "\<not> is_blank (digit_char d)" if "d < 10" for d using that digit_char_lt10 digit_not_blank by blast
  then show ?thesis using digits_of_lt10 [of _ n] by (simp add: plain_word_def nat_text_def list_all_iff)
qed

lemma plain_numbers: "plain_word (u64_to_string v)" "plain_word (i64_to_string i)"
  using plain_nat_text by (auto simp: u64_to_string_def i64_to_string_def plain_word_def is_blank_def)

lemma plain_id_hex: "plain_word (id_hex x)"
proof -
  have "\<forall>c \<in> set kHexDigits. \<not> is_blank c" by (simp add: kHexDigits_def is_blank_def)
  moreover have "kHexDigits ! unat (b AND 0x0f) \<in> set kHexDigits" for b :: u8
    using nibble_lt16 [of b] by (intro nth_mem) (simp add: kHexDigits_def)
  ultimately have "list_all (Not \<circ> is_blank) (hex_pair b)" for b by (simp add: hex_pair_def)
  then have "list_all (Not \<circ> is_blank) (hex_encode bs)" for bs by (induction bs) (simp_all add: hex_encode_def)
  moreover have "length (id_hex x) = 32" by (simp add: id_hex_def)
  then have "id_hex x \<noteq> []" by auto
  ultimately show ?thesis by (simp add: plain_word_def id_hex_def)
qed

lemma plain_texts: "plain_word (source_authority_text a)" "plain_word (evidence_origin_text e)" "plain_word (flag_text b)"
proof -
  show "plain_word (source_authority_text a)" by (cases a) (simp_all add: is_blank_def)
  show "plain_word (evidence_origin_text e)" by (cases e) (simp_all add: is_blank_def)
  show "plain_word (flag_text b)" by (simp add: flag_text_def is_blank_def)
qed

lemmas plain_values = plain_nat_text plain_numbers plain_id_hex plain_texts

text \<open>The tokens of a line are its key and its value.\<close>

definition line_of :: "string \<times> string \<Rightarrow> string" where
  "line_of entry = fst entry @ '' '' @ snd entry"

lemma tokens_line:
  assumes "plain_word k"
  shows "tokens (line_of (k, v)) = k # tokens v"
proof -
  have "is_blank (CHR '' '')" by (simp add: is_blank_def)
  then show ?thesis using tokens_word [OF assms, of "'' '' @ v"] by (simp add: line_of_def tokens_blank)
qed

lemma tokens_value: "plain_word v \<Longrightarrow> tokens v = [v]"
  using tokens_word [of v "[]"] by simp

lemma read_line:
  assumes "plain_word k" "hd k \<noteq> CHR ''#''"
  shows "read_lines (line_of (k, v) # ls) acc =
    res_bind (read_entry (trim (line_of (k, v))) acc) (read_lines ls)"
proof -
  obtain t where "trim (line_of (k, v)) = hd k # t" using trim_word [OF assms(1)] unfolding line_of_def by fastforce
  then show ?thesis using assms(2) by (simp add: Let_def)
qed

lemma fields_line:
  assumes "plain_word k"
  shows "field (trim (line_of (k, v))) 0 = k" "field (trim (line_of (k, v))) (Suc n) = field v n"
  using tokens_line [OF assms, of v] by (simp_all add: field_def tokens_trim)

lemma field_value: "plain_word v \<Longrightarrow> field v 0 = v" "field [] n = []"
  by (simp_all add: field_def tokens_value)

lemma hop_key: "\<exists>d ds. nat_text i = d # ds \<and> is_digit_char d"
proof -
  obtain d ds where ds: "digits_of i = d # ds" by (cases "digits_of i") auto
  then have "d < 10" using digits_of_lt10 [of d i] by simp
  then show ?thesis by (simp add: nat_text_def ds digit_char_lt10)
qed

lemma field_hop:
  assumes "plain_word c"
  shows "field (id_hex h @ '' '' @ c) 0 = id_hex h" "field (id_hex h @ '' '' @ c) (Suc 0) = c"
  using tokens_line [OF plain_id_hex, of h c] by (simp_all add: line_of_def field_def tokens_value [OF assms])

lemma read_hop_entry:
  "read_entry (trim (line_of (hop_entry i (h, c)))) (p, n) =
   Inr (p\<lparr>pl_hop_ids := pl_hop_ids p @ [h], pl_hop_clocks := pl_hop_clocks p @ [c]\<rparr>, n)"
proof -
  obtain d ds where d: "nat_text i = d # ds" "is_digit_char d" using hop_key by blast
  then have other: "d \<noteq> CHR ''_''" "\<not> is_blank d" by (auto simp: is_digit_char_def less_eq_char_def is_blank_def)
  define clock where "clock = (if id_is_nil c then ''-'' else id_hex c)"
  have "list_all (Not \<circ> is_blank) ds" using plain_nat_text [of i] d by simp
  then have key: "plain_word (''hop'' @ nat_text i)" using d(1) other by (simp add: is_blank_def)
  have clock: "plain_word clock" by (simp add: clock_def plain_id_hex is_blank_def)
  have entry: "hop_entry i (h, c) = (''hop'' @ nat_text i, id_hex h @ '' '' @ clock)" by (simp add: hop_entry_def clock_def)
  have fields: "field (trim (line_of (hop_entry i (h, c)))) 0 = ''hop'' @ nat_text i"
    "field (trim (line_of (hop_entry i (h, c)))) (Suc 0) = id_hex h"
    "field (trim (line_of (hop_entry i (h, c)))) (Suc (Suc 0)) = clock"
    by (simp_all only: entry fields_line [OF key] field_hop [OF clock])
  have "length (id_hex c) = 32" by (simp add: id_hex_def)
  then have "id_hex c \<noteq> ''-''" by auto
  then have "(if clock \<noteq> ''-'' then id_parse ''clock'' clock else Inr nil_id) = Inr c"
    by (cases "id_is_nil c") (simp_all add: clock_def id_is_nil_iff id_parse_hex)
  then have "read_hop (trim (line_of (hop_entry i (h, c)))) p =
      Inr (p\<lparr>pl_hop_ids := pl_hop_ids p @ [h], pl_hop_clocks := pl_hop_clocks p @ [c]\<rparr>)"
    by (simp only: read_hop_def fields numeral_2_eq_2 One_nat_def id_parse_hex res_bind_simps)
  then show ?thesis using other d(1) by (simp add: read_entry_def Let_def fields starts_with_def)
qed

lemma read_hop_lines:
  "read_lines (map (line_of \<circ> case_prod hop_entry) (enumerate i (zip hs cs))) (p, n) =
   Inr (p\<lparr>pl_hop_ids := pl_hop_ids p @ map fst (zip hs cs), pl_hop_clocks := pl_hop_clocks p @ map snd (zip hs cs)\<rparr>, n)"
proof (induction "zip hs cs" arbitrary: i p hs cs)
  case Nil
  then have none: "zip hs cs = []" by simp
  show ?case unfolding none by simp
next
  case (Cons x xs)
  obtain h c where x: "x = (h, c)" by fastforce
  obtain hs' cs' where parts: "hs = h # hs'" "cs = c # cs'" "xs = zip hs' cs'"
    using Cons.hyps(2) x by (cases hs; cases cs) auto
  obtain d ds where d: "nat_text i = d # ds" "is_digit_char d" using hop_key by blast
  then have key: "plain_word (''hop'' @ nat_text i)"
    using plain_nat_text [of i] by (simp add: is_blank_def)
  have "read_lines (line_of (hop_entry i (h, c)) # ls) acc =
      res_bind (read_entry (trim (line_of (hop_entry i (h, c)))) acc) (read_lines ls)" for ls acc
    using read_line [OF key] by (simp add: hop_entry_def)
  then show ?case using Cons.hyps(1) [OF parts(3)] parts by (simp add: read_hop_entry del: read_lines.simps(2))
qed

text \<open>The entries that every plan has.\<close>

lemma field_or_empty: "v = [] \<or> plain_word v \<Longrightarrow> field v 0 = v"
  using field_value by auto

lemma with_texts:
  "with_u64 m (u64_to_string v) f = Inr (f v)" "i64_ok i \<Longrightarrow> with_i64 m (i64_to_string i) g = Inr (g i)"
  "with_id t (id_hex x) h = Inr (h x)"
  by (simp_all add: with_u64_def with_i64_def with_id_def parse_u64_to_string parse_i64_to_string id_parse_hex)

lemma read_u64_entries:
  "read_entry (trim (line_of (''seed'', u64_to_string v))) (p, n) = Inr (p\<lparr>pl_seed := v\<rparr>, n)"
  "read_entry (trim (line_of (''samples'', u64_to_string v))) (p, n) = Inr (p\<lparr>pl_samples := v\<rparr>, n)"
  "read_entry (trim (line_of (''batch_size'', u64_to_string v))) (p, n) = Inr (p\<lparr>pl_batch_size := v\<rparr>, n)"
  "read_entry (trim (line_of (''ordinal'', u64_to_string v))) (p, n) = Inr (p\<lparr>pl_ordinal := v\<rparr>, n)"
  "read_entry (trim (line_of (''incarnation'', u64_to_string v))) (p, n) = Inr (p\<lparr>pl_incarnation := v\<rparr>, n)"
  "read_entry (trim (line_of (''epoch'', u64_to_string v))) (p, n) = Inr (p\<lparr>pl_epoch := v\<rparr>, n)"
  "read_entry (trim (line_of (''sequence_start'', u64_to_string v))) (p, n) = Inr (p\<lparr>pl_sequence_start := v\<rparr>, n)"
  by (simp_all add: read_entry_def Let_def fields_line field_or_empty plain_values with_texts is_blank_def)

lemma read_i64_entries:
  assumes "i64_ok i"
  shows
  "read_entry (trim (line_of (''base_latency_ns'', i64_to_string i))) (p, n) = Inr (p\<lparr>pl_base_latency_ns := i\<rparr>, n)"
  "read_entry (trim (line_of (''jitter_ns'', i64_to_string i))) (p, n) = Inr (p\<lparr>pl_jitter_ns := i\<rparr>, n)"
  "read_entry (trim (line_of (''spike_every'', i64_to_string i))) (p, n) = Inr (p\<lparr>pl_spike_every := i\<rparr>, n)"
  "read_entry (trim (line_of (''spike_ns'', i64_to_string i))) (p, n) = Inr (p\<lparr>pl_spike_ns := i\<rparr>, n)"
  "read_entry (trim (line_of (''start_utc_ns'', i64_to_string i))) (p, n) = Inr (p\<lparr>pl_start_utc_ns := i\<rparr>, n)"
  "read_entry (trim (line_of (''interval_ns'', i64_to_string i))) (p, n) = Inr (p\<lparr>pl_interval_ns := i\<rparr>, n)"
  "read_entry (trim (line_of (''receive_delay_ns'', i64_to_string i))) (p, n) = Inr (p\<lparr>pl_receive_delay_ns := i\<rparr>, n)"
  "read_entry (trim (line_of (''hop_spread_ns'', i64_to_string i))) (p, n) = Inr (p\<lparr>pl_hop_spread_ns := i\<rparr>, n)"
  using assms
  by (simp_all add: read_entry_def Let_def fields_line field_or_empty plain_values with_texts is_blank_def)

lemma read_id_entries:
  "read_entry (trim (line_of (''source'', id_hex x0))) (p, n) = Inr (p\<lparr>pl_source := x0\<rparr>, n)"
  "read_entry (trim (line_of (''series'', id_hex x1))) (p, n) = Inr (p\<lparr>pl_series := x1\<rparr>, n)"
  "read_entry (trim (line_of (''path'', id_hex x2))) (p, n) = Inr (p\<lparr>pl_path := x2\<rparr>, n)"
  "read_entry (trim (line_of (''generation'', id_hex x3))) (p, n) = Inr (p\<lparr>pl_generation := x3\<rparr>, n)"
  "read_entry (trim (line_of (''observation_clock'', id_hex x4))) (p, n) = Inr (p\<lparr>pl_observation_clock := x4\<rparr>, n)"
  "read_entry (trim (line_of (''hop_clock'', id_hex x5))) (p, n) = Inr (p\<lparr>pl_hop_clock := x5\<rparr>, n)"
  "read_entry (trim (line_of (''second_hop_clock'', id_hex x6))) (p, n) = Inr (p\<lparr>pl_second_hop_clock := x6\<rparr>, n)"
  by (simp_all add: read_entry_def Let_def fields_line field_or_empty plain_values with_texts is_blank_def)

lemma read_other_entries:
  "read_entry (trim (line_of (''hop_timings'', flag_text b))) (p, n) = Inr (p\<lparr>pl_hop_timings := b\<rparr>, n)"
  "read_entry (trim (line_of (''incomparable_second_hop'', flag_text b))) (p, n) = Inr (p\<lparr>pl_incomparable_second_hop := b\<rparr>, n)"
  "read_entry (trim (line_of (''authority'', source_authority_text a))) (p, n) = Inr (p\<lparr>pl_authority := a\<rparr>, n)"
  "read_entry (trim (line_of (''origin'', evidence_origin_text e))) (p, n) = Inr (p\<lparr>pl_origin := e\<rparr>, n)"
  "read_entry (trim (line_of (''hop_count'', u64_to_string v))) (p, n) = Inr (p, v)"
  by (simp_all add: read_entry_def Let_def fields_line field_or_empty plain_values with_texts is_blank_def
      source_authority_names.parse_to_text evidence_origin_names.parse_to_text) (simp_all add: flag_text_def)

lemma read_ingest_path:
  "w = [] \<or> plain_word w \<Longrightarrow>
     read_entry (trim (line_of (''ingest_path'', w))) (p, n) = Inr (p\<lparr>pl_ingest_path := w\<rparr>, n)"
  by (simp add: read_entry_def Let_def fields_line field_or_empty is_blank_def)

lemma plan_text_lines:
  assumes "plan_storable p"
  shows "lines_of (write_plan_text p) = map line_of (plan_entries p)"
proof -
  have word: "CHR 0x0A \<notin> set w" if "w = [] \<or> plain_word w" for w
    using that by (auto simp: plain_word_def list_all_iff is_blank_def)
  have hop: "CHR 0x0A \<notin> set (line_of (hop_entry i x))" for i x
    using word [of "nat_text i"] word [of "id_hex (fst x)"] word [of "id_hex (snd x)"]
    by (simp add: hop_entry_def line_of_def plain_values)
  have "\<forall>l \<in> set (map line_of (plan_entries p)). CHR 0x0A \<notin> set l"
    using assms hop
    by (auto simp: plan_entries_def line_of_def word plain_values plan_storable_def)
  moreover have "write_plan_text p = concat (map (\<lambda>l. l @ [CHR 0x0A]) (map line_of (plan_entries p)))"
    by (simp add: write_plan_text_def write_key_def [abs_def] line_of_def [abs_def] comp_def)
  ultimately show ?thesis by (simp only: lines_of_entries)
qed

lemma read_plan_lines:
  assumes "plan_storable p"
  shows "read_lines (map line_of (plan_entries p)) (default_scenario_plan, 0) = Inr (p, word_of_nat (length (pl_hop_ids p)))"
proof -
  have count: "nat_text (length (pl_hop_ids p)) = u64_to_string (word_of_nat (length (pl_hop_ids p)))"
    using assms by (simp add: plan_storable_def u64_to_string_def unsigned_of_nat take_bit_nat_eq_self)
  have same: "length (pl_hop_clocks p) = length (pl_hop_ids p)" using assms by (simp add: plan_storable_def)
  have path: "pl_ingest_path p = [] \<or> plain_word (pl_ingest_path p)" using assms by (simp add: plan_storable_def)
  have hops: "map fst (zip (pl_hop_ids p) (pl_hop_clocks p)) = pl_hop_ids p"
    "map snd (zip (pl_hop_ids p) (pl_hop_clocks p)) = pl_hop_clocks p"
    using assms by (simp_all add: plan_storable_def)
  show ?thesis
    using assms
    by (simp add: plan_entries_def plan_storable_def read_line is_blank_def read_u64_entries read_i64_entries read_id_entries
        read_other_entries read_ingest_path [OF path] count count [folded same] read_hop_lines [unfolded comp_def] hops comp_def
        del: read_lines.simps(2))
      (simp add: default_scenario_plan_def)
qed

lemma plan_text_read: "plan_storable p \<Longrightarrow> read_plan_text (write_plan_text p) = Inr p"
  by (simp add: read_plan_text_def plan_text_lines read_plan_lines) (simp add: plan_storable_def unsigned_of_nat take_bit_nat_eq_self)

section \<open>Runs of the engine\<close>

text \<open>An operation that only takes steps of the engine.\<close>

definition engine_run :: "bool \<Rightarrow> engine_config \<Rightarrow> (observatory \<Rightarrow> 'a \<times> observatory) \<Rightarrow> bool" where
  "engine_run recovering cfg m \<longleftrightarrow> (\<forall>ob. engine_reach recovering cfg ob \<longrightarrow> engine_reach recovering cfg (snd (m ob)))"

lemma engine_run_pure: "engine_run recovering cfg (\<lambda>ob. (f ob, ob))"
  by (simp add: engine_run_def)

lemma engine_run_try:
  assumes "engine_run recovering cfg m" "\<And>x. engine_run recovering cfg (k x)"
  shows "engine_run recovering cfg (engine_try m k)"
  using assms by (fastforce simp: engine_run_def engine_try_def split: prod.splits sum.splits)

lemma engine_run_prod: "(\<And>a b. engine_run recovering cfg (f a b)) \<Longrightarrow> engine_run recovering cfg (case x of (a, b) \<Rightarrow> f a b)"
  by (simp split: prod.split)

lemma engine_run_if: "engine_run recovering cfg f \<Longrightarrow> engine_run recovering cfg g \<Longrightarrow> engine_run recovering cfg (if b then f else g)"
  by simp

lemma engine_run_registering:
  assumes "\<And>ob. engine_step recovering ob (snd (snd (f ob)))"
  shows "engine_run recovering cfg (registering f)"
  using assms by (auto simp: engine_run_def registering_def split: prod.splits intro: reach_step) (metis reach_step snd_conv)

lemma engine_run_steps:
  "engine_run recovering cfg (registering (engine_register_clock_domain d))"
  "engine_run recovering cfg (registering (engine_register_source sd))"
  "engine_run recovering cfg (registering (engine_register_series se))"
  "engine_run recovering cfg (registering (engine_register_path pd))"
  "engine_run recovering cfg (engine_declare_equivalence e)"
  "engine_run recovering cfg (engine_observe_topology path topology now cause)"
  by (auto intro!: engine_run_registering intro: engine_step.intros)
    (auto simp: engine_run_def intro: reach_step engine_step.intros)

lemma register_scenario_run: "engine_run recovering cfg (register_scenario p path_name)"
  unfolding register_scenario_def register_scenario_clocks_def Let_def
  by (intro engine_run_try engine_run_prod engine_run_if engine_run_steps engine_run_pure)

lemma ingest_batches_run: "engine_run recovering cfg (ingest_batches bs ctx)"
proof (induction bs)
  case (Cons b bs)
  then show ?case
    by (auto simp: engine_run_def split: prod.splits sum.splits) (metis reach_step step_ingest snd_conv)+
qed (simp add: engine_run_def)

lemma ingest_plan_run: "engine_run recovering cfg (ingest_plan p ctx)"
  using ingest_batches_run [of recovering cfg "make_batches p" ctx]
  by (simp add: engine_run_def ingest_plan_def Let_def split: sum.split)

text \<open>What succeeding tells.\<close>

lemma engine_try_InrE:
  assumes "engine_try m k ob = (Inr y, ob')"
  obtains x ob1 where "m ob = (Inr x, ob1)" "k x ob1 = (Inr y, ob')"
  using assms by (auto simp: engine_try_def split: prod.splits sum.splits)

lemma retire_fold_paths: "ob_paths (fold (retire_series path g now) ds ob) = ob_paths ob"
  by (induction ds arbitrary: ob) (simp_all add: retire_series_def split: prod.split)

lemma case_prod_runE:
  assumes "(case x of (a, b) \<Rightarrow> f a b) ob = r"
  obtains a b where "f a b ob = r"
  using assms by (cases x) simp

lemma register_scenario_Inr:
  assumes "register_scenario p path_name ob = (Inr q, ob')"
  shows "validate_scenario_plan q = success"
    "\<exists>g. current_generation (pl_path q) (ob_paths ob') = Some g \<and> pg_id g = pl_generation q \<and> pg_ordinal g = pl_ordinal q"
proof -
  from assms [unfolded register_scenario_def Let_def] obtain q4 topology ob4 out ob5 where
    observed: "engine_observe_topology (pl_path q4) topology (pl_start_utc_ns q4) ''scenario_registered'' ob4 = (Inr out, ob5)" and
    final: "(res_bind (validate_scenario_plan (q4\<lparr>pl_generation := pg_id (go_generation out), pl_ordinal := pg_ordinal (go_generation out)\<rparr>))
       (\<lambda>_. Inr (q4\<lparr>pl_generation := pg_id (go_generation out), pl_ordinal := pg_ordinal (go_generation out)\<rparr>)), ob5) = (Inr q, ob')"
    by - ((erule engine_try_InrE case_prod_runE)+, rule that, assumption+)
  then have q: "q = q4\<lparr>pl_generation := pg_id (go_generation out), pl_ordinal := pg_ordinal (go_generation out)\<rparr>"
    and out: "engine_observe_topology (pl_path q4) topology (pl_start_utc_ns q4) ''scenario_registered'' ob4 = (Inr out, ob')"
    "validate_scenario_plan q = success"
    by (auto simp: res_bind_eq_Inr)
  show "validate_scenario_plan q = success" by (rule out(2))
  have "fst (observe_topology (pl_path q4) topology (pl_start_utc_ns q4) ''scenario_registered'' (ob_paths ob4)) = Inr out"
    "ob_paths ob' = snd (observe_topology (pl_path q4) topology (pl_start_utc_ns q4) ''scenario_registered'' (ob_paths ob4))"
    using out(1) by (auto simp: engine_observe_topology_def Let_def retire_fold_paths split: prod.splits sum.splits if_splits)
  then show "\<exists>g. current_generation (pl_path q) (ob_paths ob') = Some g \<and> pg_id g = pl_generation q \<and> pg_ordinal g = pl_ordinal q"
    using observe_current_topology(1) [of "pl_path q4" topology] by (simp add: q)
qed

lemma ingest_batches_all:
  "ingest_batches bs ctx ob = (Inr u, ob') \<Longrightarrow> ob' = fold (\<lambda>b ob. snd (ingest b ctx ob)) bs ob"
  by (induction bs arbitrary: ob) (auto split: prod.splits sum.splits if_splits)

lemma ingest_plan_Inr:
  assumes "ingest_plan p ctx ob = (Inr u, ob')"
  shows "ob' = fold (\<lambda>b ob. snd (ingest b ctx ob)) (make_batches p) ob"
    "(\<Sum>b\<leftarrow>make_batches p. length (lb_samples b)) = unat (pl_samples p)"
  using assms ingest_batches_all by (auto simp: ingest_plan_def Let_def split: sum.splits if_splits)

section \<open>Properties\<close>

text \<open>
  C40: A plan file keeps the workload: whatever plan is written, with hop clocks or without, is read
  back as the same plan, field by field, as long as its ingest path has no white space.
\<close>

lemma plan_file_round_trip:
  assumes "plan_storable p"
  shows "read_plan_text (write_plan_text p) = Inr p"
  by (rule plan_text_read [OF assms])

lemma plan_file_round_trip_witness:
  "read_plan_text (write_plan_text (default_scenario_plan\<lparr>pl_hop_ids := [StrongId 1, StrongId 2], pl_hop_clocks := [StrongId 3, nil_id]\<rparr>))
   = Inr (default_scenario_plan\<lparr>pl_hop_ids := [StrongId 1, StrongId 2], pl_hop_clocks := [StrongId 3, nil_id]\<rparr>)"
  by (rule plan_file_round_trip) (simp add: plan_storable_def default_scenario_plan_def i64_bounds is_blank_def)

text \<open>
  C39: The batches of a plan are what its fields say: numbered from the start sequence without gaps,
  each valid, non-empty and within the batch size, all for the planned source, series, path and
  generation; not more readings than asked for; and every reading is the base latency plus the spike
  or nothing, within the jitter, for jitters that a double holds exactly.
\<close>

lemma generated_batches_bounded:
  assumes "\<bar>pl_jitter_ns p\<bar> \<le> 2 ^ 53"
    "i64_ok (pl_base_latency_ns p + \<bar>pl_jitter_ns p\<bar> + \<bar>pl_spike_ns p\<bar>)"
    "i64_ok (pl_base_latency_ns p - \<bar>pl_jitter_ns p\<bar> - \<bar>pl_spike_ns p\<bar>)"
  shows "map (bh_sequence \<circ> lb_header) (make_batches p)
      = map (\<lambda>i. (next_counter ^^ i) (pl_sequence_start p)) [0..<length (make_batches p)] \<and>
    (\<Sum>b\<leftarrow>make_batches p. length (lb_samples b)) \<le> unat (pl_samples p) \<and>
    (\<forall>b \<in> set (make_batches p). validate_batch b = success \<and> (\<exists>n. lb_header b = plan_header p n) \<and>
       0 < length (lb_samples b) \<and> length (lb_samples b) \<le> max 1 (unat (pl_batch_size p)) \<and>
       (\<forall>s \<in> set (lb_samples b). \<exists>spike \<in> {0, pl_spike_ns p}. (spike = 0 \<or> 0 < pl_spike_every p) \<and>
          \<bar>ls_latency_ns s - (pl_base_latency_ns p + spike)\<bar> \<le> \<bar>pl_jitter_ns p\<bar>))"
proof -
  have numbered: "numbered_batches p (pl_sequence_start p) (make_batches p)" using make_batches_numbered [of p] by blast
  have near: "\<exists>spike \<in> {0, pl_spike_ns p}. (spike = 0 \<or> 0 < pl_spike_every p) \<and>
      \<bar>ls_latency_ns s - (pl_base_latency_ns p + spike)\<bar> \<le> \<bar>pl_jitter_ns p\<bar>"
    if "make_sample (fst (plan_sample p n k state)) = Inr s" for s n k state
  proof -
    have "ls_latency_ns s = ls_latency_ns (fst (plan_sample p n k state))"
      using make_sample_InrD(2) [OF that] by simp
    then show ?thesis using plan_sample_latency [OF assms] by metis
  qed
  have "validate_batch b = success \<and> (\<exists>n. lb_header b = plan_header p n) \<and>
      0 < length (lb_samples b) \<and> length (lb_samples b) \<le> max 1 (unat (pl_batch_size p)) \<and>
      (\<forall>s \<in> set (lb_samples b). \<exists>n k state. make_sample (fst (plan_sample p n k state)) = Inr s)"
    if "b \<in> set (make_batches p)" for b
    using numbered_batchesD(2) [OF numbered that] unfolding plan_batch_def batch_made_def by blast
  then show ?thesis using numbered_batchesD(1) [OF numbered] make_batches_numbered [of p] near by blast
qed

lemma generated_batches_bounded_witness:
  "list_all (\<lambda>b. 0 < length (lb_samples b) \<and> length (lb_samples b) \<le> 16)
     (make_batches (default_scenario_plan\<lparr>pl_source := StrongId 1, pl_series := StrongId 2, pl_path := StrongId 3,
     pl_generation := StrongId 4, pl_observation_clock := StrongId 5, pl_ordinal := 1, pl_hop_ids := [StrongId 6], pl_hop_clocks := [nil_id]\<rparr>))"
proof -
  let ?p = "default_scenario_plan\<lparr>pl_source := StrongId 1, pl_series := StrongId 2, pl_path := StrongId 3,
     pl_generation := StrongId 4, pl_observation_clock := StrongId 5, pl_ordinal := 1, pl_hop_ids := [StrongId 6], pl_hop_clocks := [nil_id]\<rparr>"
  have "\<bar>pl_jitter_ns ?p\<bar> \<le> 2 ^ 53" "i64_ok (pl_base_latency_ns ?p + \<bar>pl_jitter_ns ?p\<bar> + \<bar>pl_spike_ns ?p\<bar>)"
    "i64_ok (pl_base_latency_ns ?p - \<bar>pl_jitter_ns ?p\<bar> - \<bar>pl_spike_ns ?p\<bar>)" "max 1 (unat (pl_batch_size ?p)) = 16"
    by (simp_all add: default_scenario_plan_def i64_bounds)
  then show ?thesis using generated_batches_bounded [of ?p] unfolding list_all_iff by (auto simp del: scenario_plan.update_convs)
qed

text \<open>
  C38: Driving the engine with a plan is using it: registering and ingesting take only the engine's own
  steps, so every promise about reachable states holds afterwards, whether they succeed or not. A
  registration that succeeds hands back a complete plan for the route generation that is current;
  an ingest that succeeds has generated every reading of the plan and ingested exactly its batches, in
  order.
\<close>

lemma scenario_uses_engine:
  assumes "engine_reach recovering cfg ob"
  shows "engine_reach recovering cfg (snd (register_scenario p path_name ob)) \<and>
    engine_reach recovering cfg (snd (ingest_plan p ctx ob)) \<and>
    (case register_scenario p path_name ob of
       (Inl e, _) \<Rightarrow> True
     | (Inr q, ob') \<Rightarrow> validate_scenario_plan q = success \<and>
         (\<exists>g. current_generation (pl_path q) (ob_paths ob') = Some g \<and> pg_id g = pl_generation q \<and> pg_ordinal g = pl_ordinal q)) \<and>
    (case ingest_plan p ctx ob of
       (Inl e, _) \<Rightarrow> True
     | (Inr _, ob') \<Rightarrow> ob' = fold (\<lambda>b ob. snd (ingest b ctx ob)) (make_batches p) ob \<and>
         (\<Sum>b\<leftarrow>make_batches p. length (lb_samples b)) = unat (pl_samples p))"
proof -
  have "engine_reach recovering cfg (snd (register_scenario p path_name ob))" "engine_reach recovering cfg (snd (ingest_plan p ctx ob))"
    using assms register_scenario_run ingest_plan_run unfolding engine_run_def by blast+
  moreover note register_scenario_Inr [of p path_name ob] ingest_plan_Inr [of p ctx ob]
  ultimately show ?thesis by (auto split: prod.split sum.split)
qed

lemma scenario_uses_engine_witness:
  "engine_reach False default_engine_config
     (snd (ingest_plan default_scenario_plan \<lparr>ic_now_utc_ns = 0, ic_historical = False\<rparr> (make_observatory default_engine_config)))"
  using scenario_uses_engine [OF reach_start] by blast

end
