(* ===== verification/Jitterctl.thy ===== *)
theory Jitterctl
  imports Scenario Transport Render Engine_Store
begin

text \<open>
  The command line tool: \<^verbatim>\<open>apps/jitterctl/main.cpp\<close>. A run is a function of the arguments (without the
  program's name), the files and what the network answers; its outcome is the exit code, the text on
  standard output, what is complained of on standard error and the files it leaves. The text of an
  error on standard error is not rendered: a complaint carries the error itself.
\<close>

datatype complaint = Ce_Text string | Ce_Error error

record run_outcome =
  ex_code :: int
  ex_out :: string
  ex_complaint :: "complaint option"
  ex_files :: files

definition complain :: "string \<Rightarrow> complaint \<Rightarrow> int \<Rightarrow> files \<Rightarrow> run_outcome" where
  "complain out c code fs = \<lparr>ex_code = code, ex_out = out, ex_complaint = Some c, ex_files = fs\<rparr>"

definition print_line :: "string \<Rightarrow> files \<Rightarrow> run_outcome" where
  "print_line text fs = \<lparr>ex_code = 0, ex_out = text @ [CHR 0x0A], ex_complaint = None, ex_files = fs\<rparr>"

section \<open>Options\<close>

record options =
  opt_values :: "(string \<times> string) list"
  opt_flags :: "string list"

definition opt_has :: "options \<Rightarrow> string \<Rightarrow> bool" where
  "opt_has opts key \<longleftrightarrow> om_find key (opt_values opts) \<noteq> None"

definition opt_flag :: "options \<Rightarrow> string \<Rightarrow> bool" where
  "opt_flag opts key \<longleftrightarrow> key \<in> set (opt_flags opts)"

definition opt_get :: "options \<Rightarrow> string \<Rightarrow> string \<Rightarrow> string" where
  "opt_get opts key fallback = (case om_find key (opt_values opts) of None \<Rightarrow> fallback | Some v \<Rightarrow> v)"

definition opt_number :: "options \<Rightarrow> string \<Rightarrow> i64 \<Rightarrow> i64" where
  "opt_number opts key fallback =
     (case om_find key (opt_values opts) of
        None \<Rightarrow> fallback
      | Some v \<Rightarrow> (case parse_i64 v of None \<Rightarrow> fallback | Some n \<Rightarrow> n))"

fun parse_tokens :: "string list \<Rightarrow> options \<Rightarrow> options result" where
  "parse_tokens [] opts = Inr opts"
| "parse_tokens (token # rest) opts =
     (if starts_with token ''--''
      then (case rest of
              [] \<Rightarrow> Inr (opts\<lparr>opt_flags := opt_flags opts @ [drop 2 token]\<rparr>)
            | v # rest' \<Rightarrow>
                if \<not> starts_with v ''--''
                then parse_tokens rest' (opts\<lparr>opt_values := om_put (drop 2 token) v (opt_values opts)\<rparr>)
                else parse_tokens rest (opts\<lparr>opt_flags := opt_flags opts @ [drop 2 token]\<rparr>))
      else fail Ec_InvalidArgument ''unexpected positional argument'')"

definition parse_arguments :: "string list \<Rightarrow> (string \<times> options) result" where
  "parse_arguments args =
     (case args of
        [] \<Rightarrow> fail Ec_InvalidArgument ''no command given''
      | command # rest \<Rightarrow> res_bind (parse_tokens rest \<lparr>opt_values = [], opt_flags = []\<rparr>) (\<lambda>opts. Inr (command, opts)))"

definition usage_text :: string where
  "usage_text = concat (map (\<lambda>l. l @ [CHR 0x0A])
     [''jitterctl - Jitter Observatory command line tool'', '''',
      ''usage: jitterctl <command> [options]'', '''', ''commands:'',
      ''  version                                             print version information'',
      ''  metrics                                             list metric definitions'',
      ''  demo      --store F [--samples N] [--seed N]        build a synthetic store and report it'',
      ''            [--spike-every N] [--incomparable]'',
      ''  catalog   --store F                                 print the declared catalog'',
      ''  summarize --store F --series HEX [--now N]          summarize the current window'',
      ''  explain   --store F --series HEX [--now N]          explain the current classification'',
      ''  baseline  --store F --series HEX --name TEXT        capture a named baseline'',
      ''  compare   --store F --series HEX --baseline HEX     compare against a baseline'',
      ''  history   --store F --series HEX --path HEX         route generation segmented history'',
      ''  attribute --store F --series HEX [--metric NAME]    per hop timing attribution'',
      ''  verify    --store F                                 verify store integrity'',
      ''  serve     --store F --port N [--connections N]      accept ingest connections'',
      ''options:'',
      ''  --pretty            indent JSON output'',
      ''  --now N             explicit current instant in UTC nanoseconds'',
      ''  --admit-persisted   admit persisted evidence as current; off by default, so a'',
      ''                      restored store reports its evidence as stale on purpose''])"

section \<open>The engine the tool runs\<close>

definition default_config :: "u64 \<Rightarrow> bool \<Rightarrow> engine_config" where
  "default_config boot_id admit_persisted =
     default_engine_config
       \<lparr>ec_policy := default_instability_policy, ec_boot_id := boot_id, ec_admit_persisted_evidence := admit_persisted,
        ec_metrics := default_metric_set,
        ec_window := default_window_policy\<lparr>wp_kind := Window_Count, wp_count := 256, wp_capacity := 512\<rparr>\<rparr>"

definition inspection_restore :: restore_options where
  "inspection_restore = \<lparr>op_repair_truncated_tail = False, op_admit_persisted_evidence = True\<rparr>"

definition load_store_if_present :: "string \<Rightarrow> files \<Rightarrow> observatory \<Rightarrow> status \<times> observatory" where
  "load_store_if_present path fs ob =
     (if fs path = None then (success, ob)
      else case restore path inspection_restore fs ob of (r, ob1) \<Rightarrow> (res_bind r (\<lambda>_. success), ob1))"

definition request_of ::
  "series_id \<Rightarrow> path_id \<Rightarrow> generation_id \<Rightarrow> counter \<Rightarrow> engine_config \<Rightarrow> i64 \<Rightarrow> bool \<Rightarrow> summary_request" where
  "request_of series path generation ordinal cfg now current =
     \<lparr>rq_series = series, rq_path = path, rq_generation = generation, rq_generation_ordinal = ordinal,
      rq_window = ec_window cfg, rq_policy = ec_policy cfg, rq_metrics = ec_metrics cfg, rq_now_utc_ns = now,
      rq_current_generation = current\<rparr>"

section \<open>The commands\<close>

definition demo_plan :: "options \<Rightarrow> scenario_plan" where
  "demo_plan opts =
     default_scenario_plan
       \<lparr>pl_samples := word_of_int (opt_number opts ''samples'' 512), pl_seed := word_of_int (opt_number opts ''seed'' 12345),
        pl_batch_size := word_of_int (opt_number opts ''batch'' 16), pl_spike_every := opt_number opts ''spike-every'' 0,
        pl_incomparable_second_hop := opt_flag opts ''incomparable'', pl_ingest_path := ''in_process:synthetic''\<rparr>"

definition demo_now :: "scenario_plan \<Rightarrow> i64" where
  "demo_now p =
     wrap_i64 (wrap_i64 (pl_start_utc_ns p + wrap_i64 (wrap_i64 (uint (pl_samples p)) * pl_interval_ns p))
               + pl_receive_delay_ns p)"

definition demo_document :: "string \<Rightarrow> scenario_plan \<Rightarrow> json \<Rightarrow> json" where
  "demo_document store p summary =
     object_of [(''store'', JString store), (''evidence_origin'', JString (evidence_origin_text (pl_origin p))),
       (''series'', JString (id_hex (pl_series p))), (''path'', JString (id_hex (pl_path p))),
       (''generation'', JString (id_hex (pl_generation p))), (''samples'', make_u64 (pl_samples p)), (''summary'', summary)]"

definition command_demo :: "(f64_bits \<Rightarrow> string) \<Rightarrow> options \<Rightarrow> files \<Rightarrow> observatory \<Rightarrow> run_outcome" where
  "command_demo shortest opts fs ob =
     (let store = opt_get opts ''store'' []
      in if store = [] then complain [] (Ce_Text ''demo requires --store'') 1 fs
         else case register_scenario (demo_plan opts) ''synthetic/forward'' ob of
                (Inl e, ob1) \<Rightarrow> complain [] (Ce_Error e) 1 fs
              | (Inr p, ob1) \<Rightarrow>
                  let ctx = \<lparr>ic_now_utc_ns = demo_now p, ic_historical = False\<rparr>
                  in (case ingest_plan p ctx ob1 of
                        (Inl e, ob2) \<Rightarrow> complain [] (Ce_Error e) 1 fs
                      | (Inr _, ob2) \<Rightarrow>
                          (case summary_document shortest
                                  (request_of (pl_series p) (pl_path p) (pl_generation p) (pl_ordinal p) (ob_config ob2) (demo_now p) True)
                                  ctx ob2 of
                             (Inl e, ob3) \<Rightarrow> complain [] (Ce_Error e) 1 fs
                           | (Inr summary, ob3) \<Rightarrow>
                               (case save store True ctx ob3 fs of
                                  (Inl e, ob4, fs1) \<Rightarrow> complain [] (Ce_Error e) 1 fs1
                                | (Inr _, ob4, fs1) \<Rightarrow> print_line (dump_pretty (demo_document store p summary)) fs1))))"

definition verification_document :: "string \<Rightarrow> loaded_store \<Rightarrow> json" where
  "verification_document store l =
     make_document ''store_verification''
       (object_of [(''store'', JString store), (''clean'', JBoolean (rv_clean (ld_recovery l))),
          (''records'', make_u64 (word_of_nat (rv_records_recovered (ld_recovery l)))),
          (''detail'', JString (describe_recovery (ld_recovery l))),
          (''format_version'', make_u64 (ucast (sh_format_version (ld_header l)))),
          (''store_epoch'', make_u64 (sh_store_epoch (ld_header l))), (''boot_id'', make_u64 (sh_boot_id (ld_header l)))])"

definition command_verify :: "string \<Rightarrow> files \<Rightarrow> run_outcome" where
  "command_verify store fs =
     (case load_store fs store of
        Inl e \<Rightarrow> complain [] (Ce_Error e) 1 fs
      | Inr l \<Rightarrow> (print_line (dump_pretty (verification_document store l)) fs)
                   \<lparr>ex_code := (if rv_clean (ld_recovery l) then 0 else 3)\<rparr>)"

text \<open>What the network answers: listening on a port, the port bound, and each call that accepts.\<close>

record network =
  nw_listen :: "u16 \<Rightarrow> status"
  nw_port :: "u16 \<Rightarrow> u16"
  nw_accept :: "nat \<Rightarrow> socket result"

definition session_document :: "ingest_server_stats \<Rightarrow> json" where
  "session_document s =
     make_document ''ingest_session''
       (object_of [(''connections_accepted'', make_u64 (is_connections_accepted s)),
          (''connections_completed'', make_u64 (is_connections_completed s)),
          (''hellos_accepted'', make_u64 (is_hellos_accepted s)), (''hellos_rejected'', make_u64 (is_hellos_rejected s)),
          (''batches_accepted'', make_u64 (is_batches_accepted s)), (''batches_rejected'', make_u64 (is_batches_rejected s)),
          (''samples_accepted'', make_u64 (is_samples_accepted s)), (''samples_rejected'', make_u64 (is_samples_rejected s)),
          (''frames_rejected'', make_u64 (is_frames_rejected s)), (''bytes_received'', make_u64 (is_bytes_received s)),
          (''last_error'', JString (is_last_error s))])"

definition command_serve :: "network \<Rightarrow> options \<Rightarrow> string \<Rightarrow> ingest_context \<Rightarrow> files \<Rightarrow> observatory \<Rightarrow> run_outcome" where
  "command_serve net opts store ctx fs ob =
     (let config = default_ingest_server_config\<lparr>sc_port := word_of_int (opt_number opts ''port'' 0)\<rparr>
      in case server_start True (nw_listen net (sc_port config)) (make_ingest_server ob config (\<lambda>_. ctx)) of
           (Inl e, sv) \<Rightarrow> complain [] (Ce_Error e) 1 fs
         | (Inr _, sv) \<Rightarrow>
             let listening = ''listening on '' @ sc_bind_address config @ '':'' @ nat_text (unat (nw_port net (sc_port config))) @ [CHR 0x0A];
                 connections = word_of_int (opt_number opts ''connections'' 1) :: u64
             in (case serve (map (nw_accept net) [0..<unat connections]) sv of
                   (Inl e, sv1) \<Rightarrow> complain listening (Ce_Error e) 1 fs
                 | (Inr _, sv1) \<Rightarrow>
                     (case save store True ctx (sv_observatory sv1) fs of
                        (Inl e, ob1, fs1) \<Rightarrow> complain listening (Ce_Error e) 1 fs1
                      | (Inr _, ob1, fs1) \<Rightarrow>
                          (print_line (dump_pretty (session_document (sv_stats sv1))) fs1)
                            \<lparr>ex_out := listening @ dump_pretty (session_document (sv_stats sv1)) @ [CHR 0x0A]\<rparr>)))"

text \<open>A result that is printed, or complained of with code 5.\<close>

definition answer :: "string result \<Rightarrow> files \<Rightarrow> run_outcome" where
  "answer r fs = (case r of Inl e \<Rightarrow> complain [] (Ce_Error e) 5 fs | Inr text \<Rightarrow> print_line text fs)"

definition command_baseline ::
  "(f64_bits \<Rightarrow> string) \<Rightarrow> options \<Rightarrow> string \<Rightarrow> summary_request \<Rightarrow> ingest_context \<Rightarrow> files \<Rightarrow> observatory \<Rightarrow> run_outcome" where
  "command_baseline shortest opts store q ctx fs ob =
     (case capture_baseline (opt_get opts ''name'' ''baseline'') q ctx ''captured by jitterctl'' ob of
        (Inl e, ob1) \<Rightarrow> complain [] (Ce_Error e) 5 fs
      | (Inr b, ob1) \<Rightarrow>
          (case save store True ctx ob1 fs of
             (Inl e, ob2, fs1) \<Rightarrow> complain [] (Ce_Error e) 1 fs1
           | (Inr _, ob2, fs1) \<Rightarrow>
               print_line (document_text (opt_flag opts ''pretty'') (make_document ''baseline'' (render_baseline shortest b))) fs1))"

definition command_compare ::
  "(f64_bits \<Rightarrow> string) \<Rightarrow> options \<Rightarrow> summary_request \<Rightarrow> ingest_context \<Rightarrow> files \<Rightarrow> observatory \<Rightarrow> run_outcome" where
  "command_compare shortest opts q ctx fs ob =
     (case id_parse ''baseline'' (opt_get opts ''baseline'' []) of
        Inl e \<Rightarrow> complain [] (Ce_Error e) 2 fs
      | Inr i \<Rightarrow> answer (fst (export_comparison shortest q i ctx (opt_flag opts ''pretty'') ob)) fs)"

definition command_attribute ::
  "(f64_bits \<Rightarrow> string) \<Rightarrow> options \<Rightarrow> series_id \<Rightarrow> ingest_context \<Rightarrow> files \<Rightarrow> observatory \<Rightarrow> run_outcome" where
  "command_attribute shortest opts series ctx fs ob =
     (let metric_name = opt_get opts ''metric'' ''jitter.absolute_delta.mean''
      in case find_metric_by_name metric_name of
           None \<Rightarrow> complain [] (Ce_Text (''unknown metric name: '' @ metric_name)) 2 fs
         | Some d \<Rightarrow> answer (export_attribution shortest series (md_key d) 4 ctx (opt_flag opts ''pretty'') ob) fs)"

text \<open>The commands about one series, after its path and current generation are found.\<close>

definition command_series ::
  "(f64_bits \<Rightarrow> string) \<Rightarrow> string \<Rightarrow> options \<Rightarrow> string \<Rightarrow> engine_config \<Rightarrow> ingest_context \<Rightarrow> files \<Rightarrow> observatory \<Rightarrow> run_outcome" where
  "command_series shortest command opts store cfg ctx fs ob =
     (if opt_get opts ''series'' [] = [] then complain [] (Ce_Text (command @ '' requires --series'')) 1 fs
      else case id_parse ''series'' (opt_get opts ''series'' []) of
        Inl e \<Rightarrow> complain [] (Ce_Error e) 1 fs
      | Inr series \<Rightarrow>
          (case find_series series (ob_series ob) of
             None \<Rightarrow> complain [] (Ce_Text ''unknown series identity'') 4 fs
           | Some d \<Rightarrow>
               (case current_generation (se_path d) (ob_paths ob) of
                  None \<Rightarrow> complain [] (Ce_Text ''series path has no generation'') 4 fs
                | Some g \<Rightarrow>
                    let q = request_of series (se_path d) (pg_id g) (pg_ordinal g) cfg (ic_now_utc_ns ctx) (pg_is_open g);
                        pretty = opt_flag opts ''pretty''
                    in if command = ''summarize'' then answer (fst (export_summary shortest q ctx pretty ob)) fs
                       else if command = ''explain''
                       then answer (res_bind (fst (engine_explain shortest q ctx ob)) (\<lambda>x.
                              Inr (document_text pretty (make_document ''explanation'' (render_explanation x))))) fs
                       else if command = ''baseline'' then command_baseline shortest opts store q ctx fs ob
                       else if command = ''compare'' then command_compare shortest opts q ctx fs ob
                       else if command = ''history''
                       then answer (export_history shortest
                              \<lparr>hq_series = series, hq_path = se_path d, hq_max_rows = 1000, hq_include_conflicts = True\<rparr> pretty ob) fs
                       else if command = ''attribute'' then command_attribute shortest opts series ctx fs ob
                       else complain usage_text (Ce_Text (''unknown command: '' @ command)) 2 fs)))"

text \<open>The instant of the run: given, or just after the newest evidence held.\<close>

definition run_context :: "options \<Rightarrow> observatory \<Rightarrow> ingest_context" where
  "run_context opts ob =
     \<lparr>ic_now_utc_ns =
        (if opt_has opts ''now'' then opt_number opts ''now'' 0
         else case newest_received_utc_ns ob of None \<Rightarrow> 0 | Some newest \<Rightarrow> wrap_i64 (newest + 1)),
      ic_historical = False\<rparr>"

text \<open>The commands that need an engine.\<close>

definition with_engine ::
  "(f64_bits \<Rightarrow> string) \<Rightarrow> network \<Rightarrow> string \<Rightarrow> options \<Rightarrow> string \<Rightarrow> files \<Rightarrow> run_outcome" where
  "with_engine shortest net command opts store fs =
     (let cfg = default_config (word_of_int (opt_number opts ''boot'' 1)) (opt_flag opts ''admit-persisted'')
      in case initialize (make_observatory cfg) of
           (Inl e, ob) \<Rightarrow> complain [] (Ce_Error e) 1 fs
         | (Inr _, ob) \<Rightarrow>
             if command = ''demo'' then command_demo shortest opts fs ob
             else if command = ''verify'' then command_verify store fs
             else case load_store_if_present store fs ob of
                    (Inl e, ob1) \<Rightarrow> complain [] (Ce_Error e) 1 fs
                  | (Inr _, ob1) \<Rightarrow>
                      let ctx = run_context opts ob1
                      in if command = ''catalog'' then print_line (export_catalog (opt_flag opts ''pretty'') ob1) fs
                         else if command = ''serve'' then command_serve net opts store ctx fs ob1
                         else command_series shortest command opts store cfg ctx fs ob1)"

definition metrics_document :: json where
  "metrics_document = make_document ''metric_catalog'' (array_of (map render_metric_definition sorted_definitions))"

definition jitterctl :: "(f64_bits \<Rightarrow> string) \<Rightarrow> network \<Rightarrow> string list \<Rightarrow> files \<Rightarrow> run_outcome" where
  "jitterctl shortest net args fs =
     (case parse_arguments args of
        Inl e \<Rightarrow> complain usage_text (Ce_Text (err_message e)) 2 fs
      | Inr (command, opts) \<Rightarrow>
          if command = ''help'' \<or> command = ''--help''
          then \<lparr>ex_code = 0, ex_out = usage_text, ex_complaint = None, ex_files = fs\<rparr>
          else if command = ''version'' then print_line (dump_pretty (make_document ''version'' render_version)) fs
          else if command = ''metrics'' then print_line (document_text (opt_flag opts ''pretty'') metrics_document) fs
          else let store = opt_get opts ''store'' []
               in if command \<noteq> ''demo'' \<and> store = [] then complain [] (Ce_Text (command @ '' requires --store'')) 1 fs
                  else with_engine shortest net command opts store fs)"

end
