(* ===== verification/Jitterctl_Facts.thy ===== *)
theory Jitterctl_Facts
  imports Jitterctl Engine_Guarantees
begin

text \<open>
  What a run of the command line tool does: which files it may change, what its exit code means, that
  what it writes verifies, and that a summary of persisted evidence asserts nothing unless asked to.
\<close>

section \<open>Files that are written\<close>

lemma append_record_frame:
  "append_record t payload w fs = (st, w', fs') \<Longrightarrow> wr_path w' = wr_path w \<and> (p \<noteq> wr_path w \<longrightarrow> fs' p = fs p)"
  by (auto simp: append_record_def file_append_def split: if_splits sum.splits)

lemma append_all_frame:
  "append_all rs w fs = (st, w', fs') \<Longrightarrow> wr_path w' = wr_path w \<and> (p \<noteq> wr_path w \<longrightarrow> fs' p = fs p)"
proof (induction rs arbitrary: w fs)
  case (Cons r rs)
  obtain t payload where r: "r = (t, payload)" by fastforce
  obtain st1 w1 fs1 where step: "append_record t payload w fs = (st1, w1, fs1)" by (cases "append_record t payload w fs") auto
  from append_record_frame [OF this, of p] Cons.IH [of w1 fs1] Cons.prems r step show ?case by (auto split: sum.splits)
qed simp

lemma write_store_frame: "p \<noteq> path \<Longrightarrow> snd (write_store path h replace rs fs) p = fs p"
proof -
  assume p: "p \<noteq> path"
  obtain r fs1 where c: "create_store path h replace fs = (r, fs1)" by fastforce
  show ?thesis
  proof (cases r)
    case (Inl e)
    then show ?thesis using c p by (auto simp: write_store_def create_store_def split: if_splits)
  next
    case (Inr w)
    then have w: "wr_path w = path" "fs1 p = fs p" using c p by (auto simp: create_store_def split: if_splits)
    obtain st w2 fs2 where a: "append_all rs w fs1 = (st, w2, fs2)" by (cases "append_all rs w fs1") auto
    then have "wr_path w2 = path" "fs2 p = fs p" using append_all_frame [OF a, of p] w p by auto
    moreover from this have "snd (snd (append_trailer w2 fs2)) p = fs2 p"
      using p by (auto simp: append_trailer_def file_append_def Let_def split: sum.splits)
    ultimately show ?thesis using Inr c a by (auto simp: write_store_def split: prod.splits sum.splits)
  qed
qed

lemma save_frame: "p \<noteq> path \<Longrightarrow> snd (snd (save path replace ctx ob fs)) p = fs p"
  using write_store_frame [of p path] by (auto simp: save_def split: prod.splits sum.splits) (metis snd_conv)+

text \<open>A written payload is part of the file.\<close>

definition file_length :: "files \<Rightarrow> string \<Rightarrow> nat" where
  "file_length fs path = (case fs path of None \<Rightarrow> 0 | Some bs \<Rightarrow> length bs)"

lemma length_file_append: "file_length (file_append path bs fs) path = file_length fs path + length bs"
  by (simp add: file_length_def file_append_def split: option.split)

lemma append_record_length:
  assumes "append_record t payload w fs = (success, w', fs')"
  shows "file_length fs (wr_path w) + length payload \<le> file_length fs' (wr_path w)"
proof -
  have "fs' = file_append (wr_path w) (record_body (wr_chain w) t payload) fs"
    using assms by (auto simp: append_record_def split: if_splits sum.splits)
  moreover have "length payload \<le> length (record_body (wr_chain w) t payload)"
    by (simp add: record_body_def record_checked_def Let_def)
  ultimately show ?thesis by (simp add: length_file_append)
qed

lemma append_all_length:
  "append_all rs w fs = (success, w', fs') \<Longrightarrow>
     file_length fs (wr_path w) \<le> file_length fs' (wr_path w) \<and>
     (\<forall>r \<in> set rs. length (snd r) \<le> file_length fs' (wr_path w))"
proof (induction rs arbitrary: w fs)
  case (Cons r rs)
  obtain t payload where r: "r = (t, payload)" by fastforce
  obtain st1 w1 fs1 where step: "append_record t payload w fs = (st1, w1, fs1)" by (cases "append_record t payload w fs") auto
  then have rest: "st1 = success" "append_all rs w1 fs1 = (success, w', fs')"
    using Cons.prems r by (auto split: sum.splits)
  have "wr_path w1 = wr_path w" using append_record_frame [OF step] by blast
  then show ?case
    using Cons.IH [OF rest(2)] append_record_length [of t payload w fs w1 fs1] step rest(1) r by auto
qed simp

lemma written_payloads_ok:
  assumes "write_store path h replace rs fs = (success, fs')" "file_length fs' path < 2 ^ 64"
  shows "payloads_ok rs"
proof -
  obtain w fs1 w2 fs2 w3 where steps: "create_store path h replace fs = (Inr w, fs1)"
    "append_all rs w fs1 = (success, w2, fs2)" "append_trailer w2 fs2 = (success, w3, fs')"
    using assms(1) by (auto simp: write_store_def split: prod.splits sum.splits)
  have path: "wr_path w = path" "wr_path w2 = path"
    using steps(1) append_all_frame [OF steps(2)] by (auto simp: create_store_def split: if_splits)
  have "file_length fs2 path \<le> file_length fs' path"
    using steps(3) path(2) by (auto simp: append_trailer_def Let_def length_file_append split: sum.splits if_splits)
  then show ?thesis using append_all_length [OF steps(2)] path assms(2) by (fastforce simp: payloads_ok_def list_all_iff)
qed

lemma saved_file_loads:
  assumes "save path replace ctx ob fs = (success, ob', fs')" "i64_ok (ic_now_utc_ns ctx)" "file_length fs' path < 2 ^ 64"
  shows "\<exists>l. load_store fs' path = Inr l \<and> rv_clean (ld_recovery l)"
proof -
  let ?h = "save_header path (ic_now_utc_ns ctx) (ob_config ob)"
  have w: "write_store path ?h replace (save_records ob) fs = (success, fs')"
    using assms(1) by (auto simp: save_def split: if_splits prod.splits sum.splits)
  have "i64_ok (sh_created_at_utc_ns ?h)" using assms(2) by (simp add: save_header_def)
  note image = write_store_image [OF w this written_payloads_ok [OF w assms(3)]]
  from image_loads [OF image(2-4), of "[]"] show ?thesis by (auto simp: load_store_def image(1))
qed

section \<open>Outcomes\<close>

lemma outcome_simps [simp]:
  "ex_files (complain out c code fs) = fs" "ex_code (complain out c code fs) = code"
  "ex_complaint (complain out c code fs) = Some c" "ex_out (complain out c code fs) = out"
  "ex_files (print_line text fs) = fs" "ex_code (print_line text fs) = 0" "ex_complaint (print_line text fs) = None"
  by (simp_all add: complain_def print_line_def)

lemma answer_simps [simp]:
  "ex_files (answer r fs) = fs" "ex_code (answer r fs) = (if is_ok r then 0 else 5)"
  "ex_complaint (answer r fs) = None \<longleftrightarrow> is_ok r"
  by (simp_all add: answer_def split: sum.split)

text \<open>What every outcome of a command says with its exit code.\<close>

definition exit_ok :: "run_outcome \<Rightarrow> bool" where
  "exit_ok r \<longleftrightarrow> ex_code r \<in> {0, 1, 2, 3, 4, 5} \<and> (ex_complaint r = None \<longleftrightarrow> ex_code r \<in> {0, 3})"

lemma exit_ok_simps [simp]:
  "code \<in> {1, 2, 4, 5} \<Longrightarrow> exit_ok (complain out c code fs)" "exit_ok (print_line text fs)" "exit_ok (answer r fs)"
  by (auto simp: exit_ok_def)

section \<open>The commands\<close>

text \<open>Only the named store changes, and only for the commands that write it.\<close>

lemma command_files:
  "p \<noteq> opt_get opts ''store'' [] \<Longrightarrow> ex_files (command_demo shortest opts fs ob) p = fs p"
  "p \<noteq> store \<Longrightarrow> ex_files (command_serve net opts store ctx fs ob) p = fs p"
  "p \<noteq> store \<Longrightarrow> ex_files (command_baseline shortest opts store q ctx fs ob) p = fs p"
  "ex_files (command_verify store fs) = fs"
  "ex_files (command_compare shortest opts q ctx fs ob) = fs"
  "ex_files (command_attribute shortest opts series ctx fs ob) = fs"
proof -
  have saved: "p \<noteq> path \<Longrightarrow> save path t c ob1 fs = (r, ob2, fs1) \<Longrightarrow> fs1 p = fs p" for path t c ob1 r ob2 fs1
    using save_frame [of p path t c ob1 fs] by simp
  show "p \<noteq> opt_get opts ''store'' [] \<Longrightarrow> ex_files (command_demo shortest opts fs ob) p = fs p"
    by (auto simp: command_demo_def Let_def dest: saved split: prod.splits sum.splits)
  show "p \<noteq> store \<Longrightarrow> ex_files (command_serve net opts store ctx fs ob) p = fs p"
    by (auto simp: command_serve_def Let_def dest: saved split: prod.splits sum.splits)
  show "p \<noteq> store \<Longrightarrow> ex_files (command_baseline shortest opts store q ctx fs ob) p = fs p"
    by (auto simp: command_baseline_def dest: saved split: prod.splits sum.splits)
  show "ex_files (command_verify store fs) = fs" by (auto simp: command_verify_def split: sum.splits)
  show "ex_files (command_compare shortest opts q ctx fs ob) = fs" by (auto simp: command_compare_def split: sum.splits)
  show "ex_files (command_attribute shortest opts series ctx fs ob) = fs"
    by (auto simp: command_attribute_def Let_def split: option.splits)
qed

text \<open>The commands of a run, one case each: what a property of outcomes has to hold of.\<close>

lemma outcome_splits:
  "(c \<Longrightarrow> P a) \<Longrightarrow> (\<not> c \<Longrightarrow> P b) \<Longrightarrow> P (if c then a else b)"
  "(\<And>e. P (f e)) \<Longrightarrow> (\<And>y. P (g y)) \<Longrightarrow> P (case_sum f g x)"
  "P a \<Longrightarrow> (\<And>y. P (h y)) \<Longrightarrow> P (case_option a h m)"
  "(\<And>y z. P (k y z)) \<Longrightarrow> P (case_prod k w)"
  by (simp_all split: sum.split option.split prod.split)

lemma command_series_cases:
  assumes complaint: "\<And>out c code. code \<in> {1, 2, 4} \<Longrightarrow> P (complain out c code fs)"
    and answer: "\<And>r. command \<noteq> ''baseline'' \<Longrightarrow> P (answer r fs)"
    and baseline: "\<And>q. command = ''baseline'' \<Longrightarrow> P (command_baseline shortest opts store q ctx fs ob)"
    and compare: "\<And>q. command \<noteq> ''baseline'' \<Longrightarrow> P (command_compare shortest opts q ctx fs ob)"
    and attribute: "\<And>series. command \<noteq> ''baseline'' \<Longrightarrow> P (command_attribute shortest opts series ctx fs ob)"
  shows "P (command_series shortest command opts store cfg ctx fs ob)"
proof -
  note splits = outcome_splits [where P = P]
  have complaints: "P (complain out c 1 fs)" "P (complain out c 2 fs)" "P (complain out c 4 fs)" for out c
    by (rule complaint, simp)+
  show ?thesis
    unfolding command_series_def Let_def
    by (intro splits complaints; (rule baseline, assumption | (rule answer compare attribute, simp)))
qed

lemma with_engine_cases:
  assumes complaint: "\<And>c. P (complain [] c 1 fs)"
    and demo: "\<And>ob. command = ''demo'' \<Longrightarrow> P (command_demo shortest opts fs ob)"
    and verify: "command = ''verify'' \<Longrightarrow> P (command_verify store fs)"
    and catalog: "\<And>t. command = ''catalog'' \<Longrightarrow> P (print_line t fs)"
    and serve: "\<And>ob. command = ''serve'' \<Longrightarrow> P (command_serve net opts store (run_context opts ob) fs ob)"
    and series: "\<And>ob. command \<notin> {''demo'', ''verify'', ''catalog'', ''serve''} \<Longrightarrow>
       P (command_series shortest command opts store
            (default_config (word_of_int (opt_number opts ''boot'' 1)) (opt_flag opts ''admit-persisted'')) (run_context opts ob) fs ob)"
  shows "P (with_engine shortest net command opts store fs)"
  unfolding with_engine_def Let_def
  by (intro outcome_splits [where P = P] complaint; (rule demo verify catalog serve, assumption | (rule series, simp)))

lemma command_series_files:
  "p \<noteq> store \<or> command \<noteq> ''baseline'' \<Longrightarrow> ex_files (command_series shortest command opts store cfg ctx fs ob) p = fs p"
  by (rule command_series_cases) (auto simp: command_files)

lemma with_engine_files:
  assumes "store = opt_get opts ''store'' []" "p \<noteq> store \<or> command \<notin> {''demo'', ''serve'', ''baseline''}"
  shows "ex_files (with_engine shortest net command opts store fs) p = fs p"
  by (rule with_engine_cases; use assms in \<open>auto simp: command_files command_series_files\<close>)

text \<open>Exit codes.\<close>

lemma command_exits:
  "exit_ok (command_demo shortest opts fs ob)" "exit_ok (command_serve net opts store ctx fs ob)"
  "exit_ok (command_baseline shortest opts store q ctx fs ob)" "exit_ok (command_verify store fs)"
  "exit_ok (command_compare shortest opts q ctx fs ob)" "exit_ok (command_attribute shortest opts series ctx fs ob)"
proof -
  have changed: "exit_ok (print_line l f\<lparr>ex_out := out\<rparr>)" "exit_ok (print_line l f\<lparr>ex_code := 3\<rparr>)"
      "print_line l f\<lparr>ex_code := 0\<rparr> = print_line l f" for l f out
    by (simp_all add: exit_ok_def print_line_def)
  show "exit_ok (command_demo shortest opts fs ob)" by (auto simp: command_demo_def Let_def split: prod.splits sum.splits)
  show "exit_ok (command_serve net opts store ctx fs ob)"
    by (auto simp: command_serve_def Let_def changed split: prod.splits sum.splits)
  show "exit_ok (command_baseline shortest opts store q ctx fs ob)"
    by (auto simp: command_baseline_def split: prod.splits sum.splits)
  show "exit_ok (command_verify store fs)" by (auto simp: command_verify_def changed split: sum.splits)
  show "exit_ok (command_compare shortest opts q ctx fs ob)" by (auto simp: command_compare_def split: sum.splits)
  show "exit_ok (command_attribute shortest opts series ctx fs ob)"
    by (auto simp: command_attribute_def Let_def split: option.splits)
qed

lemma command_series_exit: "exit_ok (command_series shortest command opts store cfg ctx fs ob)"
  by (rule command_series_cases) (auto simp: command_exits)

lemma with_engine_exit: "exit_ok (with_engine shortest net command opts store fs)"
  by (rule with_engine_cases) (auto simp: command_exits command_series_exit)

text \<open>Code 3 is the answer of one command about one kind of store.\<close>

lemma exit_code_3:
  "ex_code (command_demo shortest opts fs ob) \<noteq> 3" "ex_code (command_serve net opts store ctx fs ob) \<noteq> 3"
  "ex_code (command_series shortest command opts store cfg ctx fs ob) \<noteq> 3"
  "ex_code (command_verify store fs) = 3 \<longleftrightarrow> (\<exists>l. load_store fs store = Inr l \<and> \<not> rv_clean (ld_recovery l))"
proof -
  have changed: "ex_code (print_line l f\<lparr>ex_out := out\<rparr>) = 0" for l f out by (simp add: print_line_def)
  show "ex_code (command_demo shortest opts fs ob) \<noteq> 3"
    unfolding command_demo_def Let_def by (intro outcome_splits [where P = "\<lambda>r. ex_code r \<noteq> 3"]) simp_all
  show "ex_code (command_serve net opts store ctx fs ob) \<noteq> 3"
    unfolding command_serve_def Let_def by (intro outcome_splits [where P = "\<lambda>r. ex_code r \<noteq> 3"]) (simp_all add: changed)
  have "ex_code (command_baseline shortest opts store q ctx fs ob) \<noteq> 3"
       "ex_code (command_compare shortest opts q ctx fs ob) \<noteq> 3"
       "ex_code (command_attribute shortest opts series ctx fs ob) \<noteq> 3" for q series
    unfolding command_baseline_def command_compare_def command_attribute_def Let_def
    by (intro outcome_splits [where P = "\<lambda>r. ex_code r \<noteq> 3"]; simp)+
  then show "ex_code (command_series shortest command opts store cfg ctx fs ob) \<noteq> 3"
    by (intro command_series_cases [where P = "\<lambda>r. ex_code r \<noteq> 3"]) auto
  show "ex_code (command_verify store fs) = 3 \<longleftrightarrow> (\<exists>l. load_store fs store = Inr l \<and> \<not> rv_clean (ld_recovery l))"
    by (auto simp: command_verify_def split: sum.splits)
qed

section \<open>What a command that writes leaves behind\<close>

definition verifies :: "string \<Rightarrow> run_outcome \<Rightarrow> bool" where
  "verifies store r \<longleftrightarrow>
     (case ex_complaint r of
        Some c \<Rightarrow> True
      | None \<Rightarrow> file_length (ex_files r) store \<ge> 2 ^ 64
                \<or> ex_code (command_verify store (ex_files r)) = 0 \<and> ex_complaint (command_verify store (ex_files r)) = None)"

lemma verifies_complain [simp]: "verifies store (complain out c code fs)"
  by (simp add: verifies_def)

lemma verifies_saved:
  assumes "save store replace ctx ob fs = (Inr u, ob', fs')" "i64_ok (ic_now_utc_ns ctx)"
    "ex_complaint r = None" "ex_files r = fs'"
  shows "verifies store r"
proof (cases "file_length fs' store < 2 ^ 64")
  case True
  have "save store replace ctx ob fs = (success, ob', fs')" using assms(1) by simp
  from saved_file_loads [OF this assms(2) True] show ?thesis
    by (auto simp: verifies_def assms(3,4) command_verify_def)
qed (simp add: verifies_def assms(3,4))

lemma parse_i64_ok: "parse_i64 v = Some n \<Longrightarrow> i64_ok n"
  by (auto simp: parse_i64_def split: if_splits option.splits list.splits)

lemma opt_number_ok: "i64_ok fallback \<Longrightarrow> i64_ok (opt_number opts key fallback)"
  by (auto simp: opt_number_def parse_i64_ok split: option.split)

lemma run_context_ok: "i64_ok (ic_now_utc_ns (run_context opts ob))"
proof -
  have "i64_ok 0" by (simp add: i64_bounds)
  then show ?thesis by (auto simp: run_context_def wrap_i64_ok opt_number_ok split: option.split)
qed

lemma commands_verify:
  "verifies (opt_get opts ''store'' []) (command_demo shortest opts fs ob)"
  "i64_ok (ic_now_utc_ns ctx) \<Longrightarrow> verifies store (command_serve net opts store ctx fs ob)"
  "i64_ok (ic_now_utc_ns ctx) \<Longrightarrow> verifies store (command_baseline shortest opts store q ctx fs ob)"
proof -
  have demo: "i64_ok (demo_now p)" for p by (simp add: demo_now_def wrap_i64_ok)
  show "verifies (opt_get opts ''store'' []) (command_demo shortest opts fs ob)"
    by (auto simp: command_demo_def Let_def demo intro: verifies_saved split: prod.split sum.split)
  show "verifies store (command_serve net opts store ctx fs ob)" if "i64_ok (ic_now_utc_ns ctx)"
    using that by (auto simp: command_serve_def Let_def print_line_def intro: verifies_saved split: prod.split sum.split)
  show "verifies store (command_baseline shortest opts store q ctx fs ob)" if "i64_ok (ic_now_utc_ns ctx)"
    using that by (auto simp: command_baseline_def intro: verifies_saved split: prod.split sum.split)
qed

lemma with_engine_verifies:
  assumes "store = opt_get opts ''store'' []" "command \<in> {''demo'', ''serve'', ''baseline''}"
  shows "verifies store (with_engine shortest net command opts store fs)"
proof -
  have series: "verifies store (command_series shortest ''baseline'' opts store cfg (run_context opts ob) fs ob)" for cfg ob
    by (intro command_series_cases [where P = "verifies store"]) (simp_all add: commands_verify run_context_ok)
  show ?thesis
  proof (rule with_engine_cases [where P = "verifies store"])
    show "verifies store (command_demo shortest opts fs ob)" for ob
      unfolding assms(1) by (rule commands_verify)
    show "verifies store (command_serve net opts store (run_context opts ob) fs ob)" for ob
      by (rule commands_verify, rule run_context_ok)
  qed (use assms(2) in \<open>simp_all add: series\<close>)
qed

section \<open>Evidence that was persisted\<close>

definition only_restored :: "observatory \<Rightarrow> bool" where
  "only_restored ob \<longleftrightarrow>
     (\<forall>k w s. om_find k (ob_windows ob) = Some w \<longrightarrow> s \<in> set (sw_samples w) \<longrightarrow> ls_id s \<in> ob_restored ob)"

lemma load_store_if_present_restored:
  assumes "ob_windows ob = []" "\<not> ec_admit_persisted_evidence (ob_config ob)"
  shows "only_restored (snd (load_store_if_present path fs ob))"
    and "ob_config (snd (load_store_if_present path fs ob)) = ob_config ob"
proof -
  have "withholds inspection_restore (ob_config ob)" using assms(2) by (simp add: withholds_def)
  from restore_marked [OF this, of path fs] have "only_restored (snd (restore path inspection_restore fs ob))"
    unfolding only_restored_def marked_def assms(1) by simp
  moreover have "only_restored ob" by (simp add: only_restored_def assms(1))
  moreover have "snd (load_store_if_present path fs ob) \<in> {ob, snd (restore path inspection_restore fs ob)}"
    by (simp add: load_store_if_present_def split: prod.split)
  ultimately show "only_restored (snd (load_store_if_present path fs ob))"
    and "ob_config (snd (load_store_if_present path fs ob)) = ob_config ob"
    using restore_config [of path inspection_restore fs ob] by auto
qed

lemma summary_of_restored:
  assumes "only_restored ob" "\<not> ec_admit_persisted_evidence (ob_config ob)"
    "fst (engine_summarize q ctx track ob) = Inr out"
  shows "es_fresh (sy_evidence (so_summary out)) = 0"
    "\<not> makes_positive_assertion (cf_level (sy_classification (so_summary out)))"
proof -
  obtain w where w: "find_window (rq_series q) (rq_generation q) ob = Inr w"
    and y: "summarize (summary_input_for q w (ic_now_utc_ns ctx) ob) = Inr (so_summary out)"
    using assms(3) by (auto simp: engine_summarize_def Let_def split: if_splits sum.splits prod.splits)
  have "om_find (rq_series q, rq_generation q) (ob_windows ob) = Some w"
    using w by (auto simp: find_window_def split: option.splits)
  then have "ls_id s \<in> ob_restored ob" if "s \<in> set (sel_samples (window_select w))" for s
    using assms(1) that window_select_subset [of w] unfolding only_restored_def by blast
  then have stale: "sa_state a = Ev_Stale" if "a \<in> set (si_assessments (summary_input_for q w (ic_now_utc_ns ctx) ob))" for a
    using that assms(2) by (auto simp: summary_input_for_def Let_def assess_marked)
  then have fresh: "state_count Ev_Fresh (si_assessments (summary_input_for q w (ic_now_utc_ns ctx) ob)) = 0"
    by (auto simp: state_count_def filter_empty_conv)
  then show "es_fresh (sy_evidence (so_summary out)) = 0"
    unfolding summarize_InrD(2) [OF y] summary_body_evidence by (simp add: account_selection_fresh)
  show "\<not> makes_positive_assertion (cf_level (sy_classification (so_summary out)))"
    using summary_positive(1) [OF y] fresh by auto
qed

section \<open>The engine of every run validates or none does\<close>

definition tool_config_valid :: bool where
  "tool_config_valid \<longleftrightarrow> validate_engine_config (default_config 0 False) = success"

lemma tool_config_same: "validate_engine_config (default_config b a) = validate_engine_config (default_config 0 False)"
  by (simp add: default_config_def validate_engine_config_def)

lemma local_domain_registers: "fst (register_domain local_clock_descriptor (clock_model_init c)) = success"
  by (simp add: register_domain_def clock_model_init_def local_clock_descriptor_def Let_def validate_clock_domain_def
      make_clock_domain_id_def clock_domain_fields_def kMaxClockNameBytes_def kMaxEpochNoteBytes_def kMaxClockDomains_def)

lemma tool_engine_fields:
  "ob_config (make_observatory (default_config b a)) = default_config b a"
  "ob_clocks (make_observatory (default_config b a)) = clock_model_init (ec_comparability (default_config b a))"
  "ob_windows (make_observatory (default_config b a)) = []"
  "ec_admit_persisted_evidence (default_config b a) = a"
  by (simp_all add: make_observatory_def default_config_def default_metric_set_def)

lemma tool_engine_initializes:
  "is_ok (fst (initialize (make_observatory (default_config b a)))) \<longleftrightarrow> tool_config_valid"
proof -
  obtain d m where "register_domain local_clock_descriptor (clock_model_init (ec_comparability (default_config b a))) = (success, d, m)"
    using local_domain_registers [of "ec_comparability (default_config b a)"] by (metis prod.collapse)
  then show ?thesis
    by (auto simp: initialize_def tool_engine_fields tool_config_same [of b a] tool_config_valid_def split: sum.split)
qed

lemma initialize_frame:
  "ob_config (snd (initialize ob)) = ob_config ob" "ob_windows (snd (initialize ob)) = ob_windows ob"
  by (auto simp: initialize_def split: sum.split prod.split)

lemma tool_engine_started:
  assumes "initialize (make_observatory (default_config b a)) = (r, ob)"
  shows "is_ok r \<longleftrightarrow> tool_config_valid" "ob_windows ob = []" "ob_config ob = default_config b a"
  using tool_engine_initializes [of b a] initialize_frame [of "make_observatory (default_config b a)"] assms
  by (simp_all add: tool_engine_fields)

text \<open>The values of options never look like options.\<close>

definition values_plain :: "options \<Rightarrow> bool" where
  "values_plain opts \<longleftrightarrow> (\<forall>k v. om_find k (opt_values opts) = Some v \<longrightarrow> \<not> starts_with v ''--'')"

lemma values_plain_step:
  "values_plain (opts\<lparr>opt_flags := fl\<rparr>) = values_plain opts"
  "\<not> starts_with v ''--'' \<Longrightarrow> values_plain opts \<Longrightarrow> values_plain (opts\<lparr>opt_values := om_put k v (opt_values opts)\<rparr>)"
  by (simp_all add: values_plain_def)

lemma parse_tokens_values: "parse_tokens ts opts = Inr opts' \<Longrightarrow> values_plain opts \<Longrightarrow> values_plain opts'"
proof (induction ts opts rule: parse_tokens.induct)
  case (2 token rest opts)
  show ?case
  proof (cases rest)
    case Nil
    with 2 show ?thesis by (simp add: values_plain_step split: if_splits) (metis values_plain_step(1))
  next
    case (Cons v rest')
    with 2 show ?thesis by (simp add: values_plain_step split: if_splits)
  qed
qed simp

lemma stored_value: "parse_arguments args = Inr (command, opts) \<Longrightarrow> \<not> starts_with (opt_get opts key []) ''--''"
proof -
  assume "parse_arguments args = Inr (command, opts)"
  then obtain rest where "parse_tokens rest \<lparr>opt_values = [], opt_flags = []\<rparr> = Inr opts"
    by (auto simp: parse_arguments_def res_bind_def split: list.splits sum.splits)
  from parse_tokens_values [OF this] show ?thesis
    by (simp add: values_plain_def opt_get_def starts_with_def split: option.split)
qed

lemma verify_arguments:
  "\<not> starts_with store ''--'' \<Longrightarrow>
     parse_arguments [''verify'', ''--store'', store] = Inr (''verify'', \<lparr>opt_values = [(''store'', store)], opt_flags = []\<rparr>)"
  by (simp add: parse_arguments_def starts_with_def)

lemma jitterctl_engine:
  assumes "parse_arguments args = Inr (command, opts)" "command \<notin> {''help'', ''--help'', ''version'', ''metrics''}"
  shows "jitterctl shortest net args fs =
     (if command \<noteq> ''demo'' \<and> opt_get opts ''store'' [] = []
      then complain [] (Ce_Text (command @ '' requires --store'')) 1 fs
      else with_engine shortest net command opts (opt_get opts ''store'' []) fs)"
  using assms by (simp add: jitterctl_def Let_def)

lemma with_engine_verify:
  "tool_config_valid \<Longrightarrow> with_engine shortest net ''verify'' opts store fs = command_verify store fs"
  "ex_code (with_engine shortest net ''verify'' opts store fs) = 3 \<longleftrightarrow>
     tool_config_valid \<and> ex_code (command_verify store fs) = 3"
proof -
  let ?cfg = "default_config (word_of_int (opt_number opts ''boot'' 1)) (opt_flag opts ''admit-persisted'')"
  obtain r ob where init: "initialize (make_observatory ?cfg) = (r, ob)" by fastforce
  note valid = tool_engine_started(1) [OF init]
  have run: "with_engine shortest net ''verify'' opts store fs =
      (case r of Inl e \<Rightarrow> complain [] (Ce_Error e) 1 fs | Inr _ \<Rightarrow> command_verify store fs)"
    by (simp add: with_engine_def Let_def init split: sum.split)
  show "tool_config_valid \<Longrightarrow> with_engine shortest net ''verify'' opts store fs = command_verify store fs"
    using run valid by (simp add: is_ok_def split: sum.splits)
  show "ex_code (with_engine shortest net ''verify'' opts store fs) = 3 \<longleftrightarrow>
      tool_config_valid \<and> ex_code (command_verify store fs) = 3"
    using run valid by (simp add: is_ok_def split: sum.splits)
qed

lemma with_engine_valid:
  "ex_complaint (with_engine shortest net command opts store fs) = None \<Longrightarrow> tool_config_valid"
  using tool_engine_started(1) by (fastforce simp: with_engine_def Let_def is_ok_def split: prod.splits sum.splits)

lemma with_engine_code_3:
  "ex_code (with_engine shortest net command opts store fs) = 3 \<Longrightarrow> command = ''verify''"
proof -
  have "ex_code (with_engine shortest net command opts store fs) \<noteq> 3" if "command \<noteq> ''verify''"
    using that by (intro with_engine_cases [where P = "\<lambda>r. ex_code r \<noteq> 3"]) (simp_all add: exit_code_3)
  then show "ex_code (with_engine shortest net command opts store fs) = 3 \<Longrightarrow> command = ''verify''" by blast
qed

lemma jitterctl_exit_ok: "exit_ok (jitterctl shortest net args fs)"
proof -
  have "exit_ok \<lparr>ex_code = 0, ex_out = usage_text, ex_complaint = None, ex_files = fs\<rparr>" by (simp add: exit_ok_def)
  then show ?thesis
    unfolding jitterctl_def Let_def by (intro outcome_splits [where P = exit_ok]) (simp_all add: with_engine_exit)
qed

lemma summarize_run:
  assumes "initialize (make_observatory cfg) = (Inr u, ob)" "load_store_if_present store fs ob = (Inr v, ob1)"
    "cfg = default_config (word_of_int (opt_number opts ''boot'' 1)) (opt_flag opts ''admit-persisted'')"
  shows "with_engine shortest net ''summarize'' opts store fs =
    command_series shortest ''summarize'' opts store cfg (run_context opts ob1) fs ob1"
  using assms(1,2) by (simp add: with_engine_def Let_def assms(3))

lemma series_summarized:
  assumes "only_restored ob" "\<not> ec_admit_persisted_evidence (ob_config ob)"
  shows "(\<exists>out c code. command_series shortest ''summarize'' opts store cfg ctx fs ob = complain out c code fs) \<or>
     (\<exists>y. command_series shortest ''summarize'' opts store cfg ctx fs ob =
            print_line (document_text (opt_flag opts ''pretty'') (make_document ''series_summary'' (render_summary shortest y))) fs \<and>
          es_fresh (sy_evidence y) = 0 \<and> \<not> makes_positive_assertion (cf_level (sy_classification y)))"
    (is "?P (command_series shortest ''summarize'' opts store cfg ctx fs ob)")
proof -
  have refused: "?P (complain out c code fs)" for out c code by blast
  have answered: "?P (answer (fst (export_summary shortest q ctx (opt_flag opts ''pretty'') ob)) fs)" for q
  proof (cases "fst (engine_summarize q ctx False ob)")
    case (Inl e)
    then have "answer (fst (export_summary shortest q ctx (opt_flag opts ''pretty'') ob)) fs = complain [] (Ce_Error e) 5 fs"
      by (simp add: answer_def export_summary_def summary_document_def case_prod_unfold)
    then show ?thesis using refused by simp
  next
    case (Inr out)
    note summary_of_restored [OF assms this]
    then show ?thesis using Inr by (auto simp: answer_def export_summary_def summary_document_def split: prod.split)
  qed
  show ?thesis
    unfolding command_series_def Let_def
    by (intro outcome_splits [where P = ?P] refused) (simp_all add: answered)
qed

section \<open>Properties\<close>

text \<open>
  A run of the tool changes no file but the store it was given, and that one only for the commands
  that write it: demo, serve and baseline. Verifying, listing, summarizing, explaining, comparing,
  the history and the attribution leave every file as it was, whatever the arguments, the store and the
  network.
\<close>

lemma tool_writes_only_the_store:
  assumes "parse_arguments args = Inr (command, opts)"
    and "path \<noteq> opt_get opts ''store'' [] \<or> command \<notin> {''demo'', ''serve'', ''baseline''}"
  shows "ex_files (jitterctl shortest net args fs) path = fs path"
proof (cases "command \<in> {''help'', ''--help'', ''version'', ''metrics''}")
  case True
  then show ?thesis using assms(1) by (auto simp: jitterctl_def)
next
  case False
  from jitterctl_engine [OF assms(1) this] with_engine_files [OF refl assms(2)] show ?thesis by simp
qed

definition silent_network :: network where
  "silent_network = \<lparr>nw_listen = (\<lambda>_. success), nw_port = (\<lambda>p. p), nw_accept = (\<lambda>_. fail Ec_IoFailure ''no peer'')\<rparr>"


text \<open>
  C21: What the tool writes, the tool verifies: after a run of demo, serve or baseline that does not
  complain, verifying the named store with a run of its own answers 0 and complains of nothing,
  whatever the store held before, unless the store has reached 2 to the power 64 bytes.
\<close>

lemma tool_output_verifies:
  assumes "parse_arguments args = Inr (command, opts)" "command \<in> {''demo'', ''serve'', ''baseline''}"
  shows "let r = jitterctl shortest net args fs; store = opt_get opts ''store'' []
     in case ex_complaint r of
          Some c \<Rightarrow> ex_code r \<noteq> 0
        | None \<Rightarrow> 2 ^ 64 \<le> file_length (ex_files r) store \<or>
            ex_code (jitterctl shortest net' [''verify'', ''--store'', store] (ex_files r)) = 0 \<and>
            ex_complaint (jitterctl shortest net' [''verify'', ''--store'', store] (ex_files r)) = None"
proof -
  let ?store = "opt_get opts ''store'' []"
  let ?r = "jitterctl shortest net args fs"
  have code: "ex_complaint ?r = Some c \<Longrightarrow> ex_code ?r \<noteq> 0" for c
    using jitterctl_exit_ok [of shortest net args fs] by (auto simp: exit_ok_def)
  have quiet: "2 ^ 64 \<le> file_length (ex_files ?r) ?store \<or>
      ex_code (jitterctl shortest net' [''verify'', ''--store'', ?store] (ex_files ?r)) = 0 \<and>
      ex_complaint (jitterctl shortest net' [''verify'', ''--store'', ?store] (ex_files ?r)) = None"
    if none: "ex_complaint ?r = None"
  proof -
    have outside: "command \<notin> {''help'', ''--help'', ''version'', ''metrics''}" using assms(2) by auto
    have empty: "command_demo shortest opts f ob = complain [] (Ce_Text ''demo requires --store'') 1 f" if "?store = []" for f ob
      using that by (simp add: command_demo_def)
    have named: "?store \<noteq> []" and run: "?r = with_engine shortest net command opts ?store fs"
      using none jitterctl_engine [OF assms(1) outside, of shortest net fs] empty
      by (auto simp: with_engine_def Let_def split: if_splits prod.splits sum.splits)
    have "tool_config_valid" using none run with_engine_valid by simp
    moreover have "verifies ?store ?r" unfolding run by (rule with_engine_verifies [OF refl assms(2)])
    moreover have "jitterctl shortest net' [''verify'', ''--store'', ?store] f =
        with_engine shortest net' ''verify'' \<lparr>opt_values = [(''store'', ?store)], opt_flags = []\<rparr> ?store f" for f
      using jitterctl_engine [OF verify_arguments [OF stored_value [OF assms(1), of "''store''"]], of shortest net' f] named
      by (simp add: opt_get_def)
    ultimately show ?thesis using none by (simp add: verifies_def with_engine_verify(1))
  qed
  show ?thesis unfolding Let_def using code quiet by (simp split: option.split)
qed

lemma tool_output_verifies_witness:
  "let r = jitterctl (\<lambda>_. []) silent_network [''demo'', ''--store'', ''s''] (\<lambda>_. None)
   in case ex_complaint r of
        Some c \<Rightarrow> ex_code r \<noteq> 0
      | None \<Rightarrow> 2 ^ 64 \<le> file_length (ex_files r) ''s'' \<or>
          ex_code (jitterctl (\<lambda>_. []) silent_network [''verify'', ''--store'', ''s''] (ex_files r)) = 0 \<and>
          ex_complaint (jitterctl (\<lambda>_. []) silent_network [''verify'', ''--store'', ''s''] (ex_files r)) = None"
  using tool_output_verifies [of "[''demo'', ''--store'', ''s'']" "''demo''"
      "\<lparr>opt_values = [(''store'', ''s'')], opt_flags = []\<rparr>" "\<lambda>_. []" silent_network "\<lambda>_. None" silent_network]
  by (simp add: parse_arguments_def starts_with_def opt_get_def Let_def)

text \<open>
  C20: A summary that the tool prints asserts nothing from persisted evidence unless it is told to admit
  it: without the flag, a run of summarize either complains and leaves every file alone, or prints the
  document of a summary that counts no observation as fresh and makes no positive assertion, however
  recent the evidence in the store is and whatever instant is given as the current one.
\<close>

lemma tool_asserts_nothing_persisted:
  assumes "parse_arguments args = Inr (''summarize'', opts)" "\<not> opt_flag opts ''admit-persisted''"
  shows "(\<exists>out c code. jitterctl shortest net args fs = complain out c code fs) \<or>
     (\<exists>y. jitterctl shortest net args fs =
            print_line (document_text (opt_flag opts ''pretty'') (make_document ''series_summary'' (render_summary shortest y))) fs \<and>
          es_fresh (sy_evidence y) = 0 \<and> \<not> makes_positive_assertion (cf_level (sy_classification y)))"
proof -
  let ?store = "opt_get opts ''store'' []"
  let ?cfg = "default_config (word_of_int (opt_number opts ''boot'' 1)) (opt_flag opts ''admit-persisted'')"
  obtain r ob where init: "initialize (make_observatory ?cfg) = (r, ob)" by fastforce
  obtain l ob1 where load: "load_store_if_present ?store fs ob = (l, ob1)" by fastforce
  note started = tool_engine_started [OF init]
  have admit: "\<not> ec_admit_persisted_evidence (ob_config ob)" using started(3) assms(2) by (simp add: tool_engine_fields)
  from load_store_if_present_restored [OF started(2) this, of ?store fs] load
  have restored: "only_restored ob1" "\<not> ec_admit_persisted_evidence (ob_config ob1)" using admit by simp_all
  have run: "jitterctl shortest net args fs = (if ?store = [] then complain [] (Ce_Text (''summarize'' @ '' requires --store'')) 1 fs
      else with_engine shortest net ''summarize'' opts ?store fs)"
    using jitterctl_engine [OF assms(1), of shortest net fs] by simp
  show ?thesis
  proof (cases "?store = [] \<or> \<not> is_ok r \<or> \<not> is_ok l")
    case True
    then show ?thesis
      unfolding run using init load by (auto simp: with_engine_def Let_def is_ok_def split: sum.splits)
  next
    case False
    then obtain u v where "r = Inr u" "l = Inr v" by (auto simp: is_ok_def split: sum.splits)
    with summarize_run [OF _ _ refl, of opts u ob ?store fs v ob1 shortest net] init load
    have "with_engine shortest net ''summarize'' opts ?store fs =
        command_series shortest ''summarize'' opts ?store ?cfg (run_context opts ob1) fs ob1" by simp
    with False series_summarized [OF restored, of shortest opts ?store ?cfg "run_context opts ob1" fs]
    show ?thesis unfolding run by simp
  qed
qed

lemma tool_asserts_nothing_persisted_witness:
  "(\<exists>out c code. jitterctl (\<lambda>_. []) silent_network [''summarize'', ''--store'', ''s'', ''--series'', ''x''] (\<lambda>_. None)
        = complain out c code (\<lambda>_. None)) \<or>
   (\<exists>y. jitterctl (\<lambda>_. []) silent_network [''summarize'', ''--store'', ''s'', ''--series'', ''x''] (\<lambda>_. None)
        = print_line (document_text False (make_document ''series_summary'' (render_summary (\<lambda>_. []) y))) (\<lambda>_. None) \<and>
        es_fresh (sy_evidence y) = 0 \<and> \<not> makes_positive_assertion (cf_level (sy_classification y)))"
  using tool_asserts_nothing_persisted [of "[''summarize'', ''--store'', ''s'', ''--series'', ''x'']"
      "\<lparr>opt_values = [(''series'', ''x''), (''store'', ''s'')], opt_flags = []\<rparr>" "\<lambda>_. []" silent_network "\<lambda>_. None"]
  by (simp add: parse_arguments_def starts_with_def opt_flag_def)

end
