(* ===== verification/Ingest_Probe.thy ===== *)
theory Ingest_Probe
  imports Jitterctl
begin

text \<open>
  The ingest probe: \<^verbatim>\<open>apps/jitter-ingest-probe/main.cpp\<close>. It reads a plan file, generates its batches
  and sends them over a connection of its own; what the connection answers is an argument, as for the
  command line tool. The arguments are those after the program's name.
\<close>

definition probe_usage :: string where
  "probe_usage = concat (map (\<lambda>l. l @ [CHR 0x0A])
     [''jitter-ingest-probe - send a deterministic plan over the ingest protocol'', [],
      ''usage: jitter-ingest-probe --plan FILE --host H --port P'', [],
      ''exit codes: 0 all batches acknowledged, 2 handshake rejected,'',
      ''            3 a batch was not accepted, 4 transport failure, 5 bad arguments''])"

text \<open>The argument after the first one equal to the key.\<close>

fun probe_option :: "string list \<Rightarrow> string \<Rightarrow> string \<Rightarrow> string" where
  "probe_option (a # b # rest) key fallback = (if a = key then b else probe_option (b # rest) key fallback)"
| "probe_option _ key fallback = fallback"

definition read_plan_file :: "string \<Rightarrow> files \<Rightarrow> scenario_plan result" where
  "read_plan_file path fs =
     (case fs path of
        None \<Rightarrow> fail Ec_IoFailure ''plan file could not be opened''
      | Some bs \<Rightarrow> read_plan_text (map char_of_byte bs))"

definition probe_hello :: "scenario_plan \<Rightarrow> hello_message" where
  "probe_hello p =
     \<lparr>hm_protocol_version = kWireProtocolVersion, hm_source = pl_source p, hm_origin = pl_origin p,
      hm_authority = pl_authority p, hm_agent = kProductSlug @ ''/'' @ kVersionString, hm_protocol_revision = 1\<rparr>"

record probe_tally =
  pt_acknowledged :: u64
  pt_accepted_samples :: u64
  pt_rejected_samples :: u64
  pt_first_rejection :: string

definition count_ack :: "batch_ack_message \<Rightarrow> probe_tally \<Rightarrow> probe_tally" where
  "count_ack a t =
     (if \<not> bk_accepted a
      then t\<lparr>pt_first_rejection :=
               (if pt_first_rejection t = [] then bk_verdict a @ '':'' @ bk_reason a else pt_first_rejection t),
             pt_rejected_samples := pt_rejected_samples t + bk_rejected_samples a\<rparr>
      else t\<lparr>pt_acknowledged := pt_acknowledged t + 1,
             pt_accepted_samples := pt_accepted_samples t + bk_accepted_samples a\<rparr>)"

text \<open>The batches are sent in order; the first that gets no acknowledgement ends the run.\<close>

fun probe_batches :: "latency_batch list \<Rightarrow> probe_tally \<Rightarrow> ingest_client \<Rightarrow> probe_tally result \<times> ingest_client" where
  "probe_batches [] t cl = (Inr t, cl)"
| "probe_batches (b # bs) t cl =
     (case send_batch b cl of
        (Inl e, cl1) \<Rightarrow> (Inl e, cl1)
      | (Inr a, cl1) \<Rightarrow> probe_batches bs (count_ack a t) cl1)"

definition probe_report :: "string \<Rightarrow> string \<Rightarrow> u64 \<Rightarrow> nat \<Rightarrow> probe_tally \<Rightarrow> ingest_client \<Rightarrow> json" where
  "probe_report plan host port sent t cl =
     make_document ''ingest_probe_report''
       (object_of [(''plan'', JString plan), (''host'', JString host), (''port'', make_u64 port),
          (''batches_sent'', make_u64 (word_of_nat sent)), (''batches_acknowledged'', make_u64 (pt_acknowledged t)),
          (''samples_accepted'', make_u64 (pt_accepted_samples t)), (''samples_rejected'', make_u64 (pt_rejected_samples t)),
          (''first_rejection'', JString (pt_first_rejection t)), (''bytes_sent'', make_u64 (fs_bytes_sent (cl_stream cl))),
          (''bytes_received'', make_u64 (fs_bytes_received (cl_stream cl)))])"

text \<open>What the probe does with a connection, or with the refusal of one.\<close>

definition probe_session ::
  "string \<Rightarrow> string \<Rightarrow> u64 \<Rightarrow> scenario_plan \<Rightarrow> socket result \<Rightarrow> files \<Rightarrow> run_outcome" where
  "probe_session plan_path host port p peer fs =
     (let batches = make_batches p
      in case client_connect peer (probe_hello p) of
           Inl e \<Rightarrow> complain [] (Ce_Error e) 4 fs
         | Inr cl \<Rightarrow>
             (case handshake cl of
                (Inl e, cl1) \<Rightarrow> complain [] (Ce_Error e) 4 fs
              | (Inr ack, cl1) \<Rightarrow>
                  if \<not> hk_accepted ack then complain [] (Ce_Text (''handshake rejected: '' @ hk_reason ack)) 2 fs
                  else (case probe_batches batches
                               \<lparr>pt_acknowledged = 0, pt_accepted_samples = 0, pt_rejected_samples = 0, pt_first_rejection = []\<rparr> cl1 of
                          (Inl e, cl2) \<Rightarrow> complain [] (Ce_Error e) 4 fs
                        | (Inr t, cl2) \<Rightarrow>
                            (case send_bye (word_of_nat (length batches)) (pt_acknowledged t) cl2 of
                               (_, cl3) \<Rightarrow>
                                 (print_line (dump_pretty (probe_report plan_path host port (length batches) t cl3)) fs)
                                   \<lparr>ex_code := (if pt_acknowledged t \<noteq> word_of_nat (length batches) then 3 else 0)\<rparr>))))"

definition ingest_probe :: "(string \<Rightarrow> u16 \<Rightarrow> socket result) \<Rightarrow> string list \<Rightarrow> files \<Rightarrow> run_outcome" where
  "ingest_probe connect args fs =
     (if list_ex (\<lambda>a. a = ''--help'' \<or> a = ''-h'') args
      then \<lparr>ex_code = 0, ex_out = probe_usage, ex_complaint = None, ex_files = fs\<rparr>
      else let plan_path = probe_option args ''--plan'' [];
               host = probe_option args ''--host'' ''127.0.0.1'';
               port_text = probe_option args ''--port'' []
           in if plan_path = [] \<or> port_text = []
              then complain probe_usage (Ce_Text ''--plan and --port are required'') 5 fs
              else case parse_u64 port_text of
                     None \<Rightarrow> complain [] (Ce_Text ''port is not a valid TCP port'') 5 fs
                   | Some port \<Rightarrow>
                       if port = 0 \<or> port > 65535 then complain [] (Ce_Text ''port is not a valid TCP port'') 5 fs
                       else case read_plan_file plan_path fs of
                              Inl e \<Rightarrow> complain [] (Ce_Error e) 5 fs
                            | Inr plan \<Rightarrow>
                                probe_session plan_path host port
                                  (plan\<lparr>pl_ingest_path := ''tcp:'' @ host @ '':'' @ port_text\<rparr>) (connect host (ucast port)) fs)"

end
