(* ===== verification/Ingest_Probe_Facts.thy ===== *)
theory Ingest_Probe_Facts
  imports Ingest_Probe Jitterctl_Facts Transport_Facts Scenario_Facts
begin

text \<open>
  What the exit codes of the ingest probe promise: a run that ends with 0 has had every batch of its plan
  acknowledged as accepted, in order and over one connection.
\<close>

text \<open>The batches that were acknowledged as accepted, counted in the order of the answers.\<close>

lemma probe_batches_sent:
  "probe_batches bs t cl = (Inr t', cl') \<Longrightarrow>
     \<exists>acks. send_batches bs cl = (map Inr acks, cl') \<and> length acks = length bs \<and> t' = fold count_ack acks t"
proof (induction bs arbitrary: t cl)
  case Nil
  then show ?case by simp
next
  case (Cons b bs)
  then obtain a cl1 where step: "send_batch b cl = (Inr a, cl1)" "probe_batches bs (count_ack a t) cl1 = (Inr t', cl')"
    by (auto split: prod.splits sum.splits)
  from Cons.IH [OF this(2)] obtain acks
    where "send_batches bs cl1 = (map Inr acks, cl')" "length acks = length bs" "t' = fold count_ack acks (count_ack a t)"
    by blast
  then show ?case using step(1) by (intro exI [of _ "a # acks"]) simp
qed

lemma fold_count_ack: "pt_acknowledged (fold count_ack acks t) = pt_acknowledged t + word_of_nat (length (filter bk_accepted acks))"
  by (induction acks arbitrary: t) (simp_all add: count_ack_def)

lemma all_acknowledged:
  assumes "length acks = n" "n < 2 ^ 64"
  shows "(word_of_nat (length (filter bk_accepted acks)) :: u64) = word_of_nat n \<longleftrightarrow> list_all bk_accepted acks"
proof -
  have le: "length (filter bk_accepted acks) \<le> n" using assms(1) length_filter_le by metis
  then have "(word_of_nat (length (filter bk_accepted acks)) :: u64) = word_of_nat n \<longleftrightarrow> length (filter bk_accepted acks) = n"
  proof -
    have "m < 2 ^ 64 \<Longrightarrow> unat (word_of_nat m :: u64) = m" for m by (simp add: unsigned_of_nat take_bit_nat_eq_self)
    then show ?thesis using le assms(2) by (metis le_less_trans)
  qed
  also have "\<dots> \<longleftrightarrow> list_all bk_accepted acks"
    unfolding assms(1) [symmetric] list_all_iff by (metis filter_id_conv length_filter_less nat_less_le)
  finally show ?thesis .
qed

lemma make_batches_length: "length (make_batches p) < 2 ^ 64"
proof -
  have "length bs \<le> (\<Sum>b\<leftarrow>bs. length (lb_samples b))" if "numbered_batches p q bs" for q bs
    using that
  proof (induction bs arbitrary: q)
    case (Cons b bs)
    from Cons.prems have "0 < length (lb_samples b)" by (simp add: plan_batch_def)
    moreover have "length bs \<le> (\<Sum>b\<leftarrow>bs. length (lb_samples b))" using Cons.IH [of "next_counter q"] Cons.prems by simp
    ultimately have "Suc (length bs) \<le> length (lb_samples b) + (\<Sum>b\<leftarrow>bs. length (lb_samples b))" by linarith
    then show ?case by simp
  qed simp
  from this [of "pl_sequence_start p" "make_batches p"] make_batches_numbered [of p]
  have "length (make_batches p) \<le> unat (pl_samples p)" by simp
  also have "\<dots> < 2 ^ 64" using unat_u64_bound [of "pl_samples p"] by simp
  finally show ?thesis .
qed

text \<open>Every batch of a plan is acknowledged as accepted over a connection.\<close>

definition plan_delivered :: "scenario_plan \<Rightarrow> socket result \<Rightarrow> bool" where
  "plan_delivered p peer \<longleftrightarrow>
     (\<exists>cl ack cl1 acks cl2. client_connect peer (probe_hello p) = Inr cl \<and> handshake cl = (Inr ack, cl1) \<and> hk_accepted ack \<and>
        send_batches (make_batches p) cl1 = (map Inr acks, cl2) \<and> length acks = length (make_batches p) \<and>
        list_all bk_accepted acks)"

lemma send_batches_probe:
  "send_batches bs cl = (map Inr acks, cl') \<Longrightarrow> length acks = length bs \<Longrightarrow>
     probe_batches bs t cl = (Inr (fold count_ack acks t), cl')"
proof (induction bs arbitrary: t cl acks)
  case (Cons b bs)
  then show ?case by (cases acks) (auto split: prod.splits)
qed simp

lemma probe_session_code:
  "ex_code (probe_session plan host port p peer fs) = 0 \<longleftrightarrow> plan_delivered p peer"
  "ex_code (probe_session plan host port p peer fs) \<in> {0, 2, 3, 4}"
  "ex_complaint (probe_session plan host port p peer fs) = None \<longleftrightarrow> ex_code (probe_session plan host port p peer fs) \<in> {0, 3}"
  "ex_files (probe_session plan host port p peer fs) = fs"
proof -
  let ?t0 = "\<lparr>pt_acknowledged = 0, pt_accepted_samples = 0, pt_rejected_samples = 0, pt_first_rejection = []\<rparr>"
  show "ex_files (probe_session plan host port p peer fs) = fs"
    and "ex_code (probe_session plan host port p peer fs) \<in> {0, 2, 3, 4}"
    and "ex_complaint (probe_session plan host port p peer fs) = None \<longleftrightarrow> ex_code (probe_session plan host port p peer fs) \<in> {0, 3}"
    by (auto simp: probe_session_def Let_def print_line_def split: sum.split prod.split)
  show "ex_code (probe_session plan host port p peer fs) = 0 \<longleftrightarrow> plan_delivered p peer"
  proof
    assume "ex_code (probe_session plan host port p peer fs) = 0"
    then obtain cl ack cl1 t cl2 where run: "client_connect peer (probe_hello p) = Inr cl" "handshake cl = (Inr ack, cl1)" "hk_accepted ack"
      "probe_batches (make_batches p) ?t0 cl1 = (Inr t, cl2)" "pt_acknowledged t = word_of_nat (length (make_batches p))"
      by (auto simp: probe_session_def Let_def split: sum.splits prod.splits if_splits)
    from probe_batches_sent [OF this(4)] obtain acks where acks:
      "send_batches (make_batches p) cl1 = (map Inr acks, cl2)" "length acks = length (make_batches p)" "t = fold count_ack acks ?t0"
      by blast
    then have "list_all bk_accepted acks"
      using run(5) all_acknowledged [OF acks(2) make_batches_length] by (simp add: fold_count_ack)
    then show "plan_delivered p peer" unfolding plan_delivered_def using run(1-3) acks(1,2) by blast
  next
    assume "plan_delivered p peer"
    then obtain cl ack cl1 acks cl2 where run: "client_connect peer (probe_hello p) = Inr cl" "handshake cl = (Inr ack, cl1)"
      "hk_accepted ack" "send_batches (make_batches p) cl1 = (map Inr acks, cl2)" "length acks = length (make_batches p)"
      "list_all bk_accepted acks" unfolding plan_delivered_def by blast
    then show "ex_code (probe_session plan host port p peer fs) = 0"
      using send_batches_probe [OF run(4,5), of ?t0] all_acknowledged [OF run(5) make_batches_length]
      by (simp add: probe_session_def Let_def fold_count_ack split: prod.split)
  qed
qed

text \<open>A run that is asked for something: its plan, host and port.\<close>

lemma ingest_probe_files: "ex_files (ingest_probe connect args fs) = fs"
  by (auto simp: ingest_probe_def Let_def probe_session_code split: option.split sum.split)

section \<open>Properties\<close>

lemma ingest_probe_run:
  assumes "\<not> list_ex (\<lambda>a. a = ''--help'' \<or> a = ''-h'') args"
  shows "ex_code (ingest_probe connect args fs) = 0 \<longleftrightarrow>
     (\<exists>port plan. probe_option args ''--plan'' [] \<noteq> [] \<and> probe_option args ''--port'' [] \<noteq> [] \<and>
        parse_u64 (probe_option args ''--port'' []) = Some port \<and> port \<noteq> 0 \<and> port \<le> 65535 \<and>
        read_plan_file (probe_option args ''--plan'' []) fs = Inr plan \<and>
        plan_delivered
          (plan\<lparr>pl_ingest_path := ''tcp:'' @ probe_option args ''--host'' ''127.0.0.1'' @ '':'' @ probe_option args ''--port'' []\<rparr>)
          (connect (probe_option args ''--host'' ''127.0.0.1'') (ucast port)))"
  using assms
  by (cases "parse_u64 (probe_option args ''--port'' [])"; cases "read_plan_file (probe_option args ''--plan'' []) fs")
     (auto simp: ingest_probe_def Let_def probe_session_code not_less)

text \<open>
  C22: The probe's exit code 0 is a receipt. Unless help is asked for, a run ends with 0 exactly when a
  plan and a valid port were given, the plan was read, a connection was made, the server accepted the
  handshake and then every batch of the plan, in order and over that one connection, was answered with
  an acknowledgement that accepts it. A run changes no file.
\<close>

lemma probe_exit_is_a_receipt:
  assumes "\<not> list_ex (\<lambda>a. a = ''--help'' \<or> a = ''-h'') args"
  shows "(ex_code (ingest_probe connect args fs) = 0 \<longleftrightarrow>
     (\<exists>port plan p cl ack cl1 acks cl2.
        probe_option args ''--plan'' [] \<noteq> [] \<and> parse_u64 (probe_option args ''--port'' []) = Some port \<and> port \<noteq> 0 \<and> port \<le> 65535 \<and>
        read_plan_file (probe_option args ''--plan'' []) fs = Inr plan \<and>
        p = plan\<lparr>pl_ingest_path := ''tcp:'' @ probe_option args ''--host'' ''127.0.0.1'' @ '':'' @ probe_option args ''--port'' []\<rparr> \<and>
        client_connect (connect (probe_option args ''--host'' ''127.0.0.1'') (ucast port)) (probe_hello p) = Inr cl \<and>
        handshake cl = (Inr ack, cl1) \<and> hk_accepted ack \<and>
        send_batches (make_batches p) cl1 = (map Inr acks, cl2) \<and> length acks = length (make_batches p) \<and>
        list_all bk_accepted acks)) \<and>
     ex_files (ingest_probe connect args fs) = fs"
proof -
  have "parse_u64 t = Some port \<Longrightarrow> t \<noteq> []" for t port by (auto simp: parse_u64_def parse_digits_def)
  then show ?thesis
    unfolding ingest_probe_run [OF assms] ingest_probe_files plan_delivered_def by blast
qed

text \<open>The empty plan file, and a server that has already answered.\<close>

definition answered_socket :: socket where
  "answered_socket = \<lparr>sk_recv = [Some (encode_frame Wm_HelloAck (enc_hello_ack (hello_ack demo_hello)))], sk_send = [], sk_delivered = []\<rparr>"

lemma empty_plan_delivered:
  "plan_delivered (default_scenario_plan\<lparr>pl_ingest_path := path\<rparr>) (Inr answered_socket)"
proof -
  let ?p = "default_scenario_plan\<lparr>pl_ingest_path := path\<rparr>"
  let ?a = "hello_ack demo_hello"
  obtain cl where cl: "client_connect (Inr answered_socket) (probe_hello ?p) = Inr cl" by (simp add: client_connect_def)
  have size: "length (enc_hello_ack ?a) = 33"
    by (simp add: enc_hello_ack_def demo_hello_def hello_ack_def kWireProtocolVersion_def Let_def)
  then have fits: "frame_fits (enc_hello_ack ?a)" by (simp add: frame_fits_def kWireHeaderBytes_def kMaxWireFrameBytes_def)
  have "encode_frame Wm_HelloAck (enc_hello_ack ?a) \<noteq> []"
    using length_encode_frame [of Wm_HelloAck "enc_hello_ack ?a"] size by auto
  then have ready: "client_ready cl (encode_frame Wm_HelloAck (enc_hello_ack ?a) @ []) []"
    using cl by (auto simp: client_connect_def answered_socket_def client_ready_def make_frame_stream_def stream_ok_def clean_def
        pending_def available_def script_data_def)
  have a: "str_ok (hk_reason ?a)" "hk_accepted ?a" by (simp_all add: hello_ack_def demo_hello_def kWireProtocolVersion_def str_ok_def)
  obtain cl1 where "handshake cl = (Inr ?a, cl1)" by (rule handshake_ready [OF ready a(1) fits])
  moreover have "make_batches ?p = []"
    by (simp add: make_batches_def validate_scenario_plan_def default_scenario_plan_def)
  ultimately show ?thesis unfolding plan_delivered_def using cl a(2) by (intro exI [of _ cl] exI [of _ ?a] exI [of _ cl1]) auto
qed

lemma empty_plan_read: "read_plan_file path (\<lambda>_. Some []) = Inr default_scenario_plan"
  by (simp add: read_plan_file_def read_plan_text_def lines_of_def default_scenario_plan_def)

lemma probe_exit_is_a_receipt_witness:
  "ex_code (ingest_probe (\<lambda>_ _. Inr answered_socket) [''--plan'', ''p'', ''--port'', ''9''] (\<lambda>_. Some [])) = 0 \<and>
   ex_files (ingest_probe (\<lambda>_ _. fail Ec_IoFailure ''refused'') [''--plan'', ''p'', ''--port'', ''9''] (\<lambda>_. Some [])) = (\<lambda>_. Some [])"
proof -
  have args: "probe_option [''--plan'', ''p'', ''--port'', ''9''] ''--plan'' [] = ''p''"
    "probe_option [''--plan'', ''p'', ''--port'', ''9''] ''--port'' [] = ''9''" by simp_all
  have port: "parse_u64 ''9'' = Some 9" by (simp add: parse_u64_def parse_digits_def is_digit_char_def digit_value_def)
  have no_help: "\<not> list_ex (\<lambda>a. a = ''--help'' \<or> a = ''-h'') [''--plan'', ''p'', ''--port'', ''9'']" by simp
  obtain cl ack cl1 acks cl2 where
    "client_connect (Inr answered_socket) (probe_hello (default_scenario_plan\<lparr>pl_ingest_path := ''tcp:127.0.0.1:9''\<rparr>)) = Inr cl"
    "handshake cl = (Inr ack, cl1)" "hk_accepted ack"
    "send_batches (make_batches (default_scenario_plan\<lparr>pl_ingest_path := ''tcp:127.0.0.1:9''\<rparr>)) cl1 = (map Inr acks, cl2)"
    "length acks = length (make_batches (default_scenario_plan\<lparr>pl_ingest_path := ''tcp:127.0.0.1:9''\<rparr>))" "list_all bk_accepted acks"
    using empty_plan_delivered [of "''tcp:127.0.0.1:9''"] unfolding plan_delivered_def by blast
  then have "ex_code (ingest_probe (\<lambda>_ _. Inr answered_socket) [''--plan'', ''p'', ''--port'', ''9''] (\<lambda>_. Some [])) = 0"
    using probe_exit_is_a_receipt [OF no_help, of "\<lambda>_ _. Inr answered_socket" "\<lambda>_. Some []"]
    unfolding args port empty_plan_read by auto
  with probe_exit_is_a_receipt [OF no_help, of "\<lambda>_ _. fail Ec_IoFailure ''refused''" "\<lambda>_. Some []"] show ?thesis by simp
qed

end
