(* ===== verification/Spec2Isabelle.thy ===== *)
theory Spec2Isabelle
  imports Attribution Engine_Guarantees Runtime_Engine Transport_Facts Report_Facts Render_Facts Scenario_Facts
    Jitterctl_Facts Ingest_Probe_Facts
begin

text \<open>
  Jitter Observatory: a verification development of the measurement runtime.

  \<^bold>\<open>The program.\<close> Sources publish batches of latency samples for a series on a network path. The
  engine (\<^verbatim>\<open>src/engine.cpp\<close>) checks a batch, fences replays with one monotonic guard per source,
  stores the samples in a bounded window per series and route generation, and on request selects
  from a window, assesses how fresh each sample is, computes jitter metrics over the fresh ones,
  classifies the result against a policy and follows instability episodes. It captures baselines and
  compares with them, attributes a metric to the hops of a path, and saves its state to, or restores
  it from, an append-only store whose records are chained by digests. A route change opens a new
  generation; history is segmented there and nothing is compared across it.

  \<^bold>\<open>Theories and code.\<close> One theory per part, in the order of the calls; a theory's header names its
  files under \<^verbatim>\<open>src/\<close> and definitions keep the names of the functions they translate.

  \<^item> Prelude, Checked, Bytes, Hash, Ident: reason codes and the value-or-error type, fixed-width
    integers, sorted maps, checked arithmetic, byte codecs, SHA-256 and CRC-32C, text, identities.
  \<^item> Provenance, Clock, Source, Path: origins and authorities, clock domains and when two may be
    compared, source and series registries with the replay guard, paths and route generations.
  \<^item> Sample, Window, Evidence: samples and batches with their validation, bounded windows and what
    they select, freshness, evidence accounting and conflicts.
  \<^item> F64, Metrics, Metric_Facts: binary64 as a bit pattern and as a rounded rational, the metric
    table and estimators, and what the metrics guarantee.
  \<^item> Classification, Episode, Summary, Baseline, Attribution: levels and drivers, the episode log,
    the summary of a window, baselines and comparisons, attribution to hops.
  \<^item> Codec, Record_Codec, Wire: the encoding of every stored record and wire message, the frame.
  \<^item> Persistence, Store_Image: the store's loader, writer and reopening; the bytes a sequence of
    records becomes, whole or cut off, and that the writer writes them.
  \<^item> Engine, Engine_Store: the observatory and its operations, saving and restoring.
  \<^item> Engine_Facts, Engine_Guarantees: the invariant of the engine over every operation and every
    reachable state, and the promises to its callers.
  \<^item> Lock_Audit, Runtime, Runtime_Facts, Runtime_Progress, Runtime_Engine: the lock auditor, and the
    worker runtime as a transition system, its invariant, its termination, and its jobs over the
    engine.
  \<^item> Transport, Transport_Facts: framed streams over a socket, the ingest server and its client; what
    a connection does, whatever the peer does and however bytes arrive.
  \<^item> Json, Report, Report_Facts, Render, Render_Facts: canonical documents and their text, histories
    and explanations with what they show, the rendering of every record and the engine's exports,
    and what an exported text determines.
  \<^item> Scenario, Scenario_Facts: the synthetic workloads, their registration and ingest, and plan files;
    what the generated batches are, and that plan files keep a plan.
  \<^item> Jitterctl, Jitterctl_Facts, Ingest_Probe, Ingest_Probe_Facts: the two programs of \<^verbatim>\<open>apps/\<close>. A run is
    a function of the arguments, the files and what the network answers; what a run may write, what
    its exit code means, that what it writes verifies, and what it says of persisted evidence.

  \<^bold>\<open>State and operations.\<close> A class is a record, a method takes the record and returns its result
  with the record it leaves behind, also on an error. \<^verbatim>\<open>Result\<close> and \<^verbatim>\<open>Status\<close> are sums whose left side
  is the error with its code and literal message; the free-text context of an error (identities,
  sizes) is left out. Unsigned integers are words of their width and wrap; signed ones are integers
  with the range \<open>i64_ok\<close> and every overflow the code checks, or does not, written out. \<^verbatim>\<open>std::map\<close>
  is a sorted association list, a loop a recursion with a proved measure, a file its bytes. A thread of
  the runtime is its place in the code, and one step is one critical section.

  \<^bold>\<open>Interfaces.\<close> \<open>std_map\<close> (Prelude) is what the catalogs, windows and logs need of a map; \<open>codec\<close>
  (Bytes) is the law between a writer and its reader, interpreted for every field, record and
  message; \<open>u8_enum\<close> and \<open>text_enum\<close> (Provenance) are the byte code and the text of an enumeration;
  \<open>registry\<close> (Provenance) is the protocol of the clock, source and series registries;
  \<open>shared_state\<close> (Runtime_Progress) is what the workers need of the state their jobs call;
  \<open>renderer\<close> (Render_Facts) is a rendering from which the value can be read back. Each is
  interpreted on the model's own definitions where these are introduced.

  \<^bold>\<open>What is shown.\<close>
  \<^item> Engine: the invariant holds in every reachable state; an ingest changes nothing unless it
    stores, and then exactly one window and at most one guard; a position is accepted once; a closed
    generation takes no batch; a route change ends exactly the episodes it outdates; restored
    evidence is marked, and current only when the configuration admits it; a measurement does not
    depend on the order of arrival; what was saved loads.
  \<^item> Store and codecs: a written store loads to the records written; a store cut off anywhere loads to
    a prefix of them; reopening continues it byte for byte; records, samples and frames survive
    their encoding, and damage to a frame is detected.
  \<^item> Evidence to level: freshness, comparability of clocks, evidence accounting, and the exact
    condition for a summary or a classification to assert anything; only fresh readings count.
  \<^item> Metrics: they are always produced on validated readings, ignore a common offset, and the maximum
    is exact; three published formulas are not what is computed.
  \<^item> Histories: path generations are ordered and segmented, windows uniform, episodes follow the
    asserted level, close after consecutive calm windows and never change afterwards.
  \<^item> Concurrency: the queue is bounded, accepted work is accounted for, no wakeup is lost and every
    run of the workers ends with all work done; interleaved jobs leave the engine in a state that a
    sequence of single calls reaches; no thread holds two locks, and the auditor is exact.
  \<^item> Transport: a connection depends on the frames sent and not on how their bytes are cut; a session
    ingests its batches in order and the client gets each outcome; any peer can at most ingest
    batches within its budget, and none before an accepted hello.
  \<^item> Reports: a history is segmented by generation, bounded, and says exactly when rows are missing;
    the engine's histories show finished episodes only; an explanation restates its summary, line
    for line; an exported catalog determines what is registered; both export forms agree.
  \<^item> Scenarios: generated batches are numbered, valid and near the base latency; driving the engine with
    a plan takes only the engine's own steps; a plan file is read back as its plan.
  \<^item> Programs: a run of the command line tool writes at most the store it was given, a store it wrote
    passes its verification, only a damaged store gives code 3, and without the flag a summary of
    persisted evidence asserts nothing; the probe's code 0 means that every batch was accepted.
  \<^item> Foundations: streaming SHA-256 is SHA-256 of the whole, incremental CRC-32C is the CRC of the
    whole, identities are functions of canonical encodings, parsers invert printers.

  \<^bold>\<open>Bounds and fuel.\<close> No definition has fuel; the limits are those of \<^verbatim>\<open>limits.hpp\<close>. Loops that are
  not structural (eviction, the store scan, padding, decimal printing) have a measure. That the workers
  come to rest is shown with a multiset order over the jobs' call trees and the places of the threads.

  \<^bold>\<open>Assumptions.\<close> What the operating system answers to \<^verbatim>\<open>recv\<close> and \<^verbatim>\<open>send\<close> is an arbitrary script
  and the caller's context source a function of the call's number; the programs get their connections
  from a network that is an argument. File operations succeed once a file is open; \<^verbatim>\<open>std::sort\<close> orders by its key, which
  decides the order wherever keys differ; the engine's lock makes operations run one at a
  time (all but \<^verbatim>\<open>initialize\<close>, which does not take it and precedes the workers). The shortest text of
  a finite double (\<^verbatim>\<open>std::to_chars\<close>) is the argument \<open>shortest\<close>; where it matters it is number characters
  only and different for different doubles (\<open>shortest_ok\<close>), as the standard's round trip requires.
  Nothing is assumed of the hash functions: no statement relies on digests being different.

  \<^bold>\<open>Not modelled.\<close> Opening, binding and closing sockets and files; the examples and benchmarks, which
  have no behaviour of their own; the rendering of an error as text on standard error; memory orderings below the level of critical
  sections, and two overlapping shutdowns, which the language leaves undefined; \<^verbatim>\<open>parse_double\<close>, which
  is the C library's.
\<close>

end
